(* ===== verification/Snap_Prelude.thy ===== *)
theory Snap_Prelude
  imports Main "HOL-Library.Word" "HOL-Library.List_Lexorder" "HOL-Library.Char_ord"
begin

text \<open>
  What the components share.  The results of fallible code (\<open>bindE\<close>), the character
  classes and number printers of the C++ code, the string operations of \<open>QString\<close> that
  several components use, sorted association lists as the model of \<open>std::map\<close> and
  \<open>QMap\<close>, and three interfaces as locales: ordered maps, codecs (an encoder with its
  decoder) and machines with an invariant.
\<close>

named_theorems result_simps \<open>rules that open a fallible computation\<close>
named_theorems omap_simps \<open>lookup after update of the ordered maps\<close>

section \<open>Fallible computations\<close>

text \<open>
  An exception is a value of the left summand.  The daemons of the repository do not catch
  inside their loop: an exception that leaves a handler ends the process, so the left summand
  carries no state.
\<close>

datatype snap_error =
    Invalid_Message string
  | Logic_Error string
  | Invalid_Parameter string

type_synonym 'a result = "snap_error + 'a"

fun bindE :: "'e + 'a \<Rightarrow> ('a \<Rightarrow> 'e + 'b) \<Rightarrow> 'e + 'b" where
  "bindE (Inl e) f = Inl e"
| "bindE (Inr x) f = f x"

lemma bindE_eq_Inr [result_simps]:
  "bindE r f = Inr y \<longleftrightarrow> (\<exists>x. r = Inr x \<and> f x = Inr y)"
  by (cases r) auto

lemma bindE_eq_Inl [result_simps]:
  "bindE r f = Inl e \<longleftrightarrow> r = Inl e \<or> (\<exists>x. r = Inr x \<and> f x = Inl e)"
  by (cases r) auto

lemma bindE_cong [fundef_cong]:
  "r = r' \<Longrightarrow> (\<And>x. r' = Inr x \<Longrightarrow> f x = g x) \<Longrightarrow> bindE r f = bindE r' g"
  by (cases r') auto

lemma bindE_assoc: "bindE (bindE r f) g = bindE r (\<lambda>x. bindE (f x) g)"
  by (cases r) auto

definition requireE :: "bool \<Rightarrow> snap_error \<Rightarrow> unit result" where
  "requireE b e = (if b then Inr () else Inl e)"

lemma requireE_Inr [result_simps]: "requireE b e = Inr u \<longleftrightarrow> b"
  by (simp add: requireE_def)

section \<open>Characters\<close>

definition is_digit :: "char \<Rightarrow> bool" where
  "is_digit c \<longleftrightarrow> CHR ''0'' \<le> c \<and> c \<le> CHR ''9''"

definition is_lower :: "char \<Rightarrow> bool" where
  "is_lower c \<longleftrightarrow> CHR ''a'' \<le> c \<and> c \<le> CHR ''z''"

definition is_upper :: "char \<Rightarrow> bool" where
  "is_upper c \<longleftrightarrow> CHR ''A'' \<le> c \<and> c \<le> CHR ''Z''"

text \<open>The white space of \<open>isspace()\<close> and \<open>QChar::isSpace()\<close> among the ASCII characters.\<close>

definition is_space :: "char \<Rightarrow> bool" where
  "is_space c \<longleftrightarrow> c = CHR '' '' \<or> (CHR 0x09 \<le> c \<and> c \<le> CHR 0x0D)"

lemmas char_class_defs = is_digit_def is_lower_def is_upper_def is_space_def

lemma char_le_of_char: "c \<le> d \<longleftrightarrow> (of_char c :: nat) \<le> of_char d"
  by (simp add: less_eq_char_def)

lemma of_char_less_256 [simp]: "(of_char c :: nat) < 256"
proof -
  have "(of_char (c :: char) :: nat) = of_char c mod 256" by simp
  then show ?thesis by (metis mod_less_divisor zero_less_numeral)
qed

lemma is_digit_of_char: "is_digit c \<longleftrightarrow> 48 \<le> (of_char c :: nat) \<and> (of_char c :: nat) \<le> 57"
  by (simp add: is_digit_def char_le_of_char)

section \<open>Decimal and hexadecimal numbers\<close>

definition digit_char :: "nat \<Rightarrow> char" where
  "digit_char d = char_of (48 + d)"

definition digit_value :: "char \<Rightarrow> nat" where
  "digit_value c = of_char c - 48"

lemma digit_value_char [simp]: "d < 10 \<Longrightarrow> digit_value (digit_char d) = d"
  by (simp add: digit_value_def digit_char_def)

lemma is_digit_digit_char [simp]: "d < 10 \<Longrightarrow> is_digit (digit_char d)"
  by (simp add: is_digit_of_char digit_char_def)

lemma digit_char_value [simp]: "is_digit c \<Longrightarrow> digit_char (digit_value c) = c"
  by (simp add: digit_char_def digit_value_def is_digit_of_char)

lemma digit_value_less [simp]: "is_digit c \<Longrightarrow> digit_value c < 10"
  by (auto simp: digit_value_def is_digit_of_char)

text \<open>Decimal printing, as \<open>QString::arg()\<close> of an integer does it.\<close>

fun show_nat :: "nat \<Rightarrow> string" where
  "show_nat n = (if n < 10 then [digit_char n] else show_nat (n div 10) @ [digit_char (n mod 10)])"

declare show_nat.simps [simp del]

definition show_int :: "int \<Rightarrow> string" where
  "show_int i = (if i < 0 then CHR ''-'' # show_nat (nat (- i)) else show_nat (nat i))"

text \<open>The value a loop \<open>value = value * 10 + c - '0'\<close> computes.\<close>

definition dec_value :: "string \<Rightarrow> nat" where
  "dec_value s = foldl (\<lambda>v c. v * 10 + digit_value c) 0 s"

lemma dec_value_Nil [simp]: "dec_value [] = 0"
  by (simp add: dec_value_def)

lemma dec_value_snoc [simp]: "dec_value (s @ [c]) = dec_value s * 10 + digit_value c"
  by (simp add: dec_value_def)

lemma show_nat_not_Nil [simp]: "show_nat n \<noteq> []"
  by (subst show_nat.simps) simp

lemma show_nat_digits: "\<forall>c \<in> set (show_nat n). is_digit c"
proof (induction n rule: show_nat.induct)
  case (1 n)
  then show ?case by (subst show_nat.simps) (auto split: if_splits)
qed

lemma dec_value_show_nat [simp]: "dec_value (show_nat n) = n"
proof (induction n rule: show_nat.induct)
  case (1 n)
  show ?case
  proof (cases "n < 10")
    case True
    then show ?thesis by (simp add: show_nat.simps [of n] dec_value_def)
  next
    case False
    with 1 have "dec_value (show_nat (n div 10)) = n div 10" by simp
    with False show ?thesis by (simp add: show_nat.simps [of n])
  qed
qed

lemma show_nat_inject [simp]: "show_nat m = show_nat n \<longleftrightarrow> m = n"
  by (metis dec_value_show_nat)

lemma show_nat_no_char [simp]: "\<not> is_digit c \<Longrightarrow> c \<notin> set (show_nat n)"
  using show_nat_digits by blast

lemma show_nat_no_minus [simp]: "show_nat n \<noteq> CHR ''-'' # s"
proof
  assume "show_nat n = CHR ''-'' # s"
  then have "CHR ''-'' \<in> set (show_nat n)" by simp
  then show False by (simp add: is_digit_def)
qed

lemma show_int_inject [simp]: "show_int i = show_int j \<longleftrightarrow> i = j"
  by (auto simp: show_int_def) (metis show_nat_no_minus)+

section \<open>String operations\<close>

text \<open>
  \<open>QString::split(c)\<close> keeps the empty parts; \<open>QString::SkipEmptyParts\<close> drops them.
\<close>

fun split_on :: "char \<Rightarrow> string \<Rightarrow> string list" where
  "split_on c [] = [[]]"
| "split_on c (x # xs) =
     (if x = c then [] # split_on c xs
      else (case split_on c xs of [] \<Rightarrow> [[x]] | p # ps \<Rightarrow> (x # p) # ps))"

definition split_skip :: "char \<Rightarrow> string \<Rightarrow> string list" where
  "split_skip c s = filter (\<lambda>p. p \<noteq> []) (split_on c s)"

definition trimmed :: "string \<Rightarrow> string" where
  "trimmed s = rev (dropWhile is_space (rev (dropWhile is_space s)))"

text \<open>\<open>QString::simplified()\<close>: trimmed, inner runs of white space become one space.\<close>

lemma length_dropWhile_Suc [termination_simp]: "length (dropWhile P s) < Suc (length s)"
  by (simp add: less_Suc_eq_le length_dropWhile_le)

fun squeeze :: "string \<Rightarrow> string" where
  "squeeze [] = []"
| "squeeze (c # s) =
     (if is_space c then CHR '' '' # squeeze (dropWhile is_space s) else c # squeeze s)"

definition simplified :: "string \<Rightarrow> string" where
  "simplified s = squeeze (trimmed s)"

text \<open>\<open>indexOf(c)\<close>, with the length of the string for "not found" as the callers map it.\<close>

definition index_of :: "char \<Rightarrow> string \<Rightarrow> nat" where
  "index_of c s = length (takeWhile (\<lambda>x. x \<noteq> c) s)"

definition starts_with :: "string \<Rightarrow> string \<Rightarrow> bool" where
  "starts_with p s \<longleftrightarrow> take (length p) s = p"

definition ends_with :: "string \<Rightarrow> string \<Rightarrow> bool" where
  "ends_with p s \<longleftrightarrow> length p \<le> length s \<and> drop (length s - length p) s = p"

lemma split_on_not_Nil [simp]: "split_on c s \<noteq> []"
  by (induction s) (auto split: list.splits)

lemma split_on_no_sep [simp]: "c \<notin> set s \<Longrightarrow> split_on c s = [s]"
  by (induction s) auto

lemma split_on_append:
  "c \<notin> set a \<Longrightarrow> split_on c (a @ c # b) = a # split_on c b"
  by (induction a) auto

lemma split_on_snoc: "split_on c (s @ [x]) =
  (if x = c then split_on c s @ [[]] else butlast (split_on c s) @ [last (split_on c s) @ [x]])"
proof (induction s)
  case Nil
  then show ?case by simp
next
  case (Cons y s)
  obtain p ps where ps: "split_on c s = p # ps" by (cases "split_on c s") simp_all
  with Cons show ?case by (auto split: if_splits)
qed

lemma starts_with_append [simp]: "starts_with p (p @ s)"
  by (simp add: starts_with_def)

lemma ends_with_append [simp]: "ends_with p (s @ p)"
  by (simp add: ends_with_def)

lemma dropWhile_space_id [simp]: "(\<forall>c \<in> set s. \<not> is_space c) \<Longrightarrow> dropWhile is_space s = s"
  by (cases s) auto

lemma trimmed_no_space [simp]: "(\<forall>c \<in> set s. \<not> is_space c) \<Longrightarrow> trimmed s = s"
  by (simp add: trimmed_def)

lemma squeeze_no_space: "(\<forall>c \<in> set s. \<not> is_space c) \<Longrightarrow> squeeze s = s"
  by (induction s rule: squeeze.induct) auto

lemma simplified_no_space [simp]: "(\<forall>c \<in> set s. \<not> is_space c) \<Longrightarrow> simplified s = s"
  by (simp add: simplified_def squeeze_no_space)

text \<open>Texts that \<open>simplified()\<close> leaves alone: single spaces, none at the ends.\<close>

fun neat :: "string \<Rightarrow> bool" where
  "neat [] = True"
| "neat (c # s) \<longleftrightarrow> (is_space c \<longrightarrow> c = CHR '' '' \<and> (s \<noteq> [] \<longrightarrow> \<not> is_space (hd s))) \<and> neat s"

lemma neat_squeeze: "neat s \<Longrightarrow> squeeze s = s"
proof (induction s rule: squeeze.induct)
  case (2 c s)
  then show ?case by (cases s) auto
qed simp

lemma neat_append: "neat (a @ b) \<longleftrightarrow> neat a \<and> neat b \<and> (a \<noteq> [] \<and> b \<noteq> [] \<and> is_space (last a) \<longrightarrow> \<not> is_space (hd b))"
  by (induction a) (auto simp: hd_append)

lemma neat_no_space: "\<forall>c \<in> set s. \<not> is_space c \<Longrightarrow> neat s"
  by (induction s) auto

lemma takeWhile_not_in: "c \<notin> set s \<Longrightarrow> takeWhile (\<lambda>x. x \<noteq> c) s = s"
  by (induction s) auto

lemma takeWhile_stop: "c \<notin> set a \<Longrightarrow> takeWhile (\<lambda>x. x \<noteq> c) (a @ c # b) = a"
  by (induction a) auto

lemma dropWhile_stop: "c \<notin> set a \<Longrightarrow> dropWhile (\<lambda>x. x \<noteq> c) (a @ c # b) = c # b"
  by (induction a) auto

lemma dropWhile_none: "c \<notin> set a \<Longrightarrow> dropWhile (\<lambda>x. x \<noteq> c) a = []"
  by (induction a) auto

lemma dropWhile_hd: "s = [] \<or> \<not> P (hd s) \<Longrightarrow> dropWhile P s = s"
  by (cases s) auto

lemma trimmed_ends: "s = [] \<or> \<not> is_space (hd s) \<and> \<not> is_space (last s) \<Longrightarrow> trimmed s = s"
  by (auto simp: trimmed_def dropWhile_hd hd_rev)

lemma trimmed_blank: "trimmed (CHR '' '' # s) = trimmed s"
  by (simp add: trimmed_def is_space_def)

lemma simplified_neat: "neat s \<Longrightarrow> s = [] \<or> \<not> is_space (hd s) \<and> \<not> is_space (last s) \<Longrightarrow> simplified s = s"
  by (simp add: simplified_def trimmed_ends neat_squeeze)

section \<open>Ordered maps\<close>

text \<open>
  \<open>std::map\<close> and \<open>QMap\<close> iterate in the order of their keys.  They are association
  lists sorted by key, each key at most once.
\<close>

type_synonym ('k, 'v) omap = "('k \<times> 'v) list"

fun omap_put :: "'k::linorder \<Rightarrow> 'v \<Rightarrow> ('k, 'v) omap \<Rightarrow> ('k, 'v) omap" where
  "omap_put k v [] = [(k, v)]"
| "omap_put k v ((k', v') # m) =
     (if k < k' then (k, v) # (k', v') # m
      else if k = k' then (k, v) # m
      else (k', v') # omap_put k v m)"

abbreviation omap_get :: "('k, 'v) omap \<Rightarrow> 'k \<Rightarrow> 'v option" where
  "omap_get \<equiv> map_of"

definition omap_erase :: "'k \<Rightarrow> ('k, 'v) omap \<Rightarrow> ('k, 'v) omap" where
  "omap_erase k m = filter (\<lambda>p. fst p \<noteq> k) m"

definition omap_ok :: "('k::linorder, 'v) omap \<Rightarrow> bool" where
  "omap_ok m \<longleftrightarrow> sorted_wrt (<) (map fst m)"

lemma omap_ok_Nil [simp]: "omap_ok []"
  by (simp add: omap_ok_def)

lemma omap_ok_Cons: "omap_ok ((k, v) # m) \<longleftrightarrow> (\<forall>k' \<in> fst ` set m. k < k') \<and> omap_ok m"
  by (auto simp: omap_ok_def)

lemma omap_get_put [omap_simps]: "omap_get (omap_put k v m) = (omap_get m)(k \<mapsto> v)"
  by (induction k v m rule: omap_put.induct) (auto simp: fun_eq_iff)

lemma omap_get_erase [omap_simps]: "omap_get (omap_erase k m) = (omap_get m)(k := None)"
  by (induction m) (auto simp: omap_erase_def fun_eq_iff)

lemma omap_put_keys [simp]: "fst ` set (omap_put k v m) = insert k (fst ` set m)"
  by (induction k v m rule: omap_put.induct) auto

lemma omap_ok_put [simp]: "omap_ok m \<Longrightarrow> omap_ok (omap_put k v m)"
  by (induction k v m rule: omap_put.induct) (auto simp: omap_ok_Cons)

lemma sorted_wrt_map_filter: "sorted_wrt R (map f xs) \<Longrightarrow> sorted_wrt R (map f (filter P xs))"
  by (induction xs) auto

lemma omap_ok_filter [simp]: "omap_ok m \<Longrightarrow> omap_ok (filter P m)"
  by (simp add: omap_ok_def sorted_wrt_map_filter)

lemma omap_ok_erase [simp]: "omap_ok m \<Longrightarrow> omap_ok (omap_erase k m)"
  by (simp add: omap_erase_def)

lemma omap_ok_distinct: "omap_ok m \<Longrightarrow> distinct (map fst m)"
  unfolding omap_ok_def by (simp only: strict_sorted_iff)

lemma omap_put_not_Nil [simp]: "omap_put k v m \<noteq> []"
  by (induction k v m rule: omap_put.induct) auto

lemma omap_put_last: "\<forall>k' \<in> fst ` set m. k' < k \<Longrightarrow> omap_put k v m = m @ [(k, v)]"
  by (induction k v m rule: omap_put.induct) auto

lemma omap_put_set: "set (omap_put k v m) \<subseteq> insert (k, v) (set m)"
  by (induction k v m rule: omap_put.induct) auto

lemma omap_erase_set: "set (omap_erase k m) \<subseteq> set m"
  by (auto simp: omap_erase_def)

section \<open>Interfaces\<close>

text \<open>
  What a client of an ordered map relies on: lookup after an update or an erasure, and the
  representation invariant, which gives the client sorted, unique keys.
\<close>

locale ordered_map =
  fixes put :: "'k \<Rightarrow> 'v \<Rightarrow> 'm \<Rightarrow> 'm"
    and get :: "'m \<Rightarrow> 'k \<Rightarrow> 'v option"
    and erase :: "'k \<Rightarrow> 'm \<Rightarrow> 'm"
    and ok :: "'m \<Rightarrow> bool"
    and mt :: 'm
  assumes get_mt: "get mt k = None"
    and get_put: "get (put k v m) = (get m)(k \<mapsto> v)"
    and get_erase: "get (erase k m) = (get m)(k := None)"
    and ok_mt: "ok mt"
    and ok_put: "ok m \<Longrightarrow> ok (put k v m)"
    and ok_erase: "ok m \<Longrightarrow> ok (erase k m)"
begin

lemma get_put_same: "get (put k v m) k = Some v"
  by (simp add: get_put)

lemma get_put_other: "k' \<noteq> k \<Longrightarrow> get (put k v m) k' = get m k'"
  by (simp add: get_put)

lemma get_fold_put:
  "get (fold (\<lambda>(k, v). put k v) ps m) k = (case map_of (rev ps) k of None \<Rightarrow> get m k | Some v \<Rightarrow> Some v)"
proof (induction ps arbitrary: m)
  case Nil
  then show ?case by simp
next
  case (Cons p ps)
  then show ?case by (cases p) (auto simp: get_put split: option.splits)
qed

lemma ok_fold_put: "ok m \<Longrightarrow> ok (fold (\<lambda>(k, v). put k v) ps m)"
  by (induction ps arbitrary: m) (auto simp: ok_put)

end

interpretation omap: ordered_map omap_put omap_get omap_erase omap_ok "[]"
  by unfold_locales (auto simp: omap_simps)

text \<open>
  A codec: an encoder whose output the decoder reads back.  Two valid values with the same
  encoding are then the same value.
\<close>

locale codec =
  fixes enc :: "'a \<Rightarrow> 'b"
    and dec :: "'b \<Rightarrow> 'c"
    and ret :: "'a \<Rightarrow> 'c"
    and valid :: "'a \<Rightarrow> bool"
  assumes dec_enc: "valid x \<Longrightarrow> dec (enc x) = ret x"
    and ret_inject: "ret x = ret y \<Longrightarrow> x = y"
begin

lemma enc_inject: "valid x \<Longrightarrow> valid y \<Longrightarrow> enc x = enc y \<longleftrightarrow> x = y"
  using dec_enc ret_inject by metis

lemma inj_on_enc: "inj_on enc {x. valid x}"
  by (rule inj_onI) (simp add: enc_inject)

end

text \<open>
  A machine that handles one input after the other and may end with an exception; \<open>runE\<close>
  is its run over a list of inputs.
\<close>

fun runE :: "('s \<Rightarrow> 'i \<Rightarrow> 's result) \<Rightarrow> 's \<Rightarrow> 'i list \<Rightarrow> 's result" where
  "runE step s [] = Inr s"
| "runE step s (i # is) = bindE (step s i) (\<lambda>t. runE step t is)"

locale inv_machine =
  fixes step :: "'s \<Rightarrow> 'i \<Rightarrow> 's result"
    and inv :: "'s \<Rightarrow> bool"
  assumes step_inv: "inv s \<Longrightarrow> step s i = Inr t \<Longrightarrow> inv t"
begin

lemma run_inv: "inv s \<Longrightarrow> runE step s is = Inr t \<Longrightarrow> inv t"
proof (induction "is" arbitrary: s)
  case Nil
  then show ?case by simp
next
  case (Cons i "is")
  then show ?case by (auto simp: result_simps dest: step_inv)
qed

end

text \<open>A machine whose steps also move forward in a preorder of its states.\<close>

locale mono_machine = inv_machine +
  fixes le :: "'s \<Rightarrow> 's \<Rightarrow> bool"
  assumes le_refl: "le s s"
    and le_trans: "le s t \<Longrightarrow> le t u \<Longrightarrow> le s u"
    and step_le: "inv s \<Longrightarrow> step s i = Inr t \<Longrightarrow> le s t"
begin

lemma run_le: "inv s \<Longrightarrow> runE step s is = Inr t \<Longrightarrow> le s t"
proof (induction "is" arbitrary: s)
  case Nil
  then show ?case by (simp add: le_refl)
next
  case (Cons i "is")
  then obtain u where u: "step s i = Inr u" "runE step u is = Inr t"
    by (auto simp: result_simps)
  with Cons have "le s u" "le u t" by (auto intro: step_le step_inv)
  then show ?case by (rule le_trans)
qed

end

end
