(* ===== verification/String_Utils.thy ===== *)
theory String_Utils
  imports Snap_Prelude
begin

text \<open>
  The string templates of \<open>libsnapwebsites\<close>: \<open>string_replace_many()\<close>
  (\<open>string_replace.h\<close>), \<open>join_strings()\<close> (\<open>join_strings.h\<close>),
  \<open>tokenize_string()\<close> (\<open>tokenize_string.h\<close>), \<open>bin_to_hex()\<close> and
  \<open>hex_to_bin()\<close> (\<open>hexadecimal_string.h\<close>).
\<close>

section \<open>Replacing needles\<close>

text \<open>
  The loop walks the input; at each position the first needle that matches is replaced and
  skipped.  An empty needle matches without advancing, so that the C++ loop never ends: this is
  the result \<open>None\<close>.
\<close>

function string_replace_many :: "string \<Rightarrow> (string \<times> string) list \<Rightarrow> string option" where
  "string_replace_many [] search = Some []"
| "string_replace_many (c # s) search =
     (case find (\<lambda>nr. starts_with (fst nr) (c # s)) search of
        None \<Rightarrow> map_option (\<lambda>r. c # r) (string_replace_many s search)
      | Some nr \<Rightarrow>
          if fst nr = [] then None
          else map_option (\<lambda>r. snd nr @ r)
                 (string_replace_many (drop (length (fst nr)) (c # s)) search))"
  by pat_completeness auto
termination
  by (relation "measure (\<lambda>(s, _). length s)") auto

lemma string_replace_many_terminates:
  "\<forall>nr \<in> set search. fst nr \<noteq> [] \<Longrightarrow> \<exists>r. string_replace_many s search = Some r"
proof (induction s search rule: string_replace_many.induct)
  case (1 search)
  then show ?case by simp
next
  case (2 c s search)
  show ?case
  proof (cases "find (\<lambda>nr. starts_with (fst nr) (c # s)) search")
    case None
    with 2 show ?thesis by auto
  next
    case (Some nr)
    then have "nr \<in> set search" by (auto simp: find_Some_iff)
    with Some 2 show ?thesis by auto
  qed
qed

lemma string_replace_many_empty_needle:
  "find (\<lambda>nr. starts_with (fst nr) (c # s)) search = Some ([], r) \<Longrightarrow>
   string_replace_many (c # s) search = None"
  by simp

text \<open>Needles of one character give a character-wise translation.\<close>

lemma string_replace_many_single:
  assumes "\<forall>nr \<in> set search. length (fst nr) = 1"
  shows "string_replace_many s search =
    Some (concat (map (\<lambda>c. case find (\<lambda>nr. fst nr = [c]) search of None \<Rightarrow> [c] | Some nr \<Rightarrow> snd nr) s))"
proof (induction s)
  case Nil
  then show ?case by simp
next
  case (Cons c s)
  have eq: "find (\<lambda>nr. starts_with (fst nr) (c # s)) search = find (\<lambda>nr. fst nr = [c]) search"
  proof (rule find_cong [OF refl])
    fix nr
    assume "nr \<in> set search"
    with assms obtain d where "fst nr = [d]"
      by (auto simp: length_Suc_conv)
    then show "starts_with (fst nr) (c # s) = (fst nr = [c])"
      by (auto simp: starts_with_def)
  qed
  show ?case
  proof (cases "find (\<lambda>nr. fst nr = [c]) search")
    case None
    with Cons eq show ?thesis by simp
  next
    case (Some nr)
    then have "fst nr = [c]" by (auto simp: find_Some_iff)
    with Some Cons eq show ?thesis by simp
  qed
qed

section \<open>Joining and tokenizing\<close>

fun join_strings :: "string list \<Rightarrow> string \<Rightarrow> string" where
  "join_strings [] sep = []"
| "join_strings (t # ts) sep = t @ concat (map (\<lambda>s. sep @ s) ts)"

text \<open>
  \<open>tokenize_string()\<close>: cut at every delimiter, trim the characters of \<open>trim_string\<close>
  at both ends of a token, keep empty tokens unless \<open>trim_empty\<close>.
\<close>

definition trim_token :: "string \<Rightarrow> string \<Rightarrow> string" where
  "trim_token trim_string t =
     rev (dropWhile (\<lambda>c. c \<in> set trim_string) (rev (dropWhile (\<lambda>c. c \<in> set trim_string) t)))"

function tokenize_from :: "string \<Rightarrow> string \<Rightarrow> bool \<Rightarrow> string \<Rightarrow> string list \<Rightarrow> string list" where
  "tokenize_from str delimiters trim_empty trim_string tokens =
     (let token = takeWhile (\<lambda>c. c \<notin> set delimiters) str;
          rest = dropWhile (\<lambda>c. c \<notin> set delimiters) str;
          t = trim_token trim_string token;
          tokens' = (if t \<noteq> [] \<or> \<not> trim_empty then tokens @ [t] else tokens)
      in if rest = [] then tokens'
         else tokenize_from (tl rest) delimiters trim_empty trim_string tokens')"
  by pat_completeness auto
termination
proof (relation "measure (\<lambda>(s, _). length s)", goal_cases)
  case 1
  then show ?case by simp
next
  case (2 str delimiters trim_empty trim_string tokens token rest t tokens')
  then have "length (tl rest) < length rest" by (cases rest) auto
  also have "\<dots> \<le> length str" using 2 by (simp add: length_dropWhile_le)
  finally show ?case by simp
qed

declare tokenize_from.simps [simp del]

definition tokenize_string :: "string list \<Rightarrow> string \<Rightarrow> string \<Rightarrow> bool \<Rightarrow> string \<Rightarrow> string list" where
  "tokenize_string tokens str delimiters trim_empty trim_string =
     tokenize_from str delimiters trim_empty trim_string tokens"

lemma trim_token_none [simp]: "trim_token [] t = t"
  by (simp add: trim_token_def)

lemma tokenize_from_delim:
  assumes "set t \<inter> set delims = {}" and "d \<in> set delims"
  shows "tokenize_from (t @ d # rest) delims False [] toks = tokenize_from rest delims False [] (toks @ [t])"
proof -
  have "\<forall>c \<in> set t. c \<notin> set delims" using assms(1) by blast
  with assms(2) show ?thesis
    by (subst tokenize_from.simps) (simp add: Let_def takeWhile_tail dropWhile_append)
qed

lemma tokenize_from_last:
  assumes "set t \<inter> set delims = {}"
  shows "tokenize_from t delims False [] toks = toks @ [t]"
proof -
  have "takeWhile (\<lambda>c. c \<notin> set delims) t = t" "dropWhile (\<lambda>c. c \<notin> set delims) t = []"
    using assms by (auto simp: takeWhile_eq_all_conv dropWhile_eq_Nil_conv)
  then show ?thesis by (subst tokenize_from.simps) simp
qed

lemma tokenize_join:
  "ts \<noteq> [] \<Longrightarrow> \<forall>t \<in> set ts. d \<notin> set t \<Longrightarrow>
   tokenize_from (join_strings ts [d]) [d] False [] toks = toks @ ts"
proof (induction ts arbitrary: toks rule: list_nonempty_induct)
  case (single t)
  then show ?case by (simp add: tokenize_from_last)
next
  case (cons t ts)
  then obtain u us where ts: "ts = u # us" by (cases ts) auto
  have "join_strings (t # ts) [d] = t @ d # join_strings ts [d]"
    by (simp add: ts)
  with cons show ?case by (simp add: tokenize_from_delim)
qed

text \<open>
  Tokenizing the strings joined with a separator gives the strings back, for any non-empty list
  of strings that do not contain the separator.
\<close>

theorem tokenize_join_roundtrip:
  assumes "ts \<noteq> []" and "\<forall>t \<in> set ts. d \<notin> set t"
  shows "tokenize_string [] (join_strings ts [d]) [d] False [] = ts"
  using tokenize_join [OF assms] by (simp add: tokenize_string_def)

theorem tokenize_join_roundtrip_witness:
  "tokenize_string [] (join_strings [''ab'', [], ''c''] '','') '','' False [] = [''ab'', [], ''c'']"
  by (rule tokenize_join_roundtrip) simp_all

section \<open>Hexadecimal strings\<close>

definition to_hex :: "nat \<Rightarrow> char" where
  "to_hex d = (if d < 10 then char_of (d + 48) else char_of (d + (97 - 10)))"

definition bin_to_hex :: "string \<Rightarrow> string" where
  "bin_to_hex binary =
     concat (map (\<lambda>c. [to_hex (of_char c div 16 mod 16), to_hex (of_char c mod 16)]) binary)"

definition hex_digit_value :: "char \<Rightarrow> nat option" where
  "hex_digit_value c =
     (if CHR ''0'' \<le> c \<and> c \<le> CHR ''9'' then Some (of_char c - 48)
      else if CHR ''a'' \<le> c \<and> c \<le> CHR ''f'' then Some (of_char c - 97 + 10)
      else if CHR ''A'' \<le> c \<and> c \<le> CHR ''F'' then Some (of_char c - 65 + 10)
      else None)"

text \<open>
  The loop reads the C string, so a NUL in place of a first digit ends it.
\<close>

fun hex_pairs :: "string \<Rightarrow> string result" where
  "hex_pairs [] = Inr []"
| "hex_pairs [a] = Inl (Invalid_Parameter ''odd'')"
| "hex_pairs (a # b # s) =
     (if a = CHR 0x00 then Inr []
      else case hex_digit_value a of
        None \<Rightarrow> Inl (Invalid_Parameter ''the hex parameter must only contain valid hexadecimal digits'')
      | Some h \<Rightarrow> (case hex_digit_value b of
          None \<Rightarrow> Inl (Invalid_Parameter ''the hex parameter must only contain valid hexadecimal digits'')
        | Some l \<Rightarrow> bindE (hex_pairs s) (\<lambda>r. Inr (char_of (h * 16 + l) # r))))"

definition hex_to_bin :: "string \<Rightarrow> string result" where
  "hex_to_bin hex =
     (if odd (length hex) then Inl (Invalid_Parameter ''the hex parameter must have an even size'')
      else hex_pairs hex)"

lemma to_hex_value [simp]: "d < 16 \<Longrightarrow> hex_digit_value (to_hex d) = Some d"
  by (auto simp: to_hex_def hex_digit_value_def char_le_of_char)

lemma to_hex_not_NUL [simp]: "d < 16 \<Longrightarrow> to_hex d \<noteq> CHR 0x00"
proof
  assume d: "d < 16" and "to_hex d = CHR 0x00"
  then have "hex_digit_value (CHR 0x00) = Some d" using to_hex_value [OF d] by simp
  then show False by (simp add: hex_digit_value_def)
qed

lemma nibbles: "(n::nat) < 256 \<Longrightarrow> (n div 16 mod 16) * 16 + n mod 16 = n"
  by simp

lemma length_bin_to_hex [simp]: "length (bin_to_hex b) = 2 * length b"
  by (induction b) (auto simp: bin_to_hex_def)

lemma hex_pairs_bin_to_hex: "hex_pairs (bin_to_hex b) = Inr b"
proof (induction b)
  case Nil
  then show ?case by (simp add: bin_to_hex_def)
next
  case (Cons c b)
  have "(of_char c div 16 mod 16) * 16 + of_char c mod 16 = (of_char c :: nat)"
    by (rule nibbles) simp
  with Cons show ?case by (simp add: bin_to_hex_def)
qed

text \<open>
  \<open>hex_to_bin()\<close> is the inverse of \<open>bin_to_hex()\<close> on every binary string, NUL bytes
  included, and the hexadecimal string is exactly twice as long.
\<close>

theorem hex_roundtrip:
  "hex_to_bin (bin_to_hex b) = Inr b \<and> length (bin_to_hex b) = 2 * length b"
  by (simp add: hex_to_bin_def hex_pairs_bin_to_hex)

interpretation hex_codec: codec bin_to_hex hex_to_bin Inr "\<lambda>_. True"
  by unfold_locales (auto simp: hex_to_bin_def hex_pairs_bin_to_hex)

end
