(* ===== verification/Communicator_Message.thy ===== *)
theory Communicator_Message
  imports String_Utils
begin

text \<open>
  \<open>snap_communicator_message\<close> of \<open>snap_communicator.cpp\<close>: the message record with its
  setters, the text form \<open>to_message()\<close> and the parser \<open>from_message()\<close>.  The
  characters of a string stand for the UTF-8 bytes of the \<open>QString\<close>; every character the
  grammar looks at is ASCII.  The theorems: what the setters accept, that the cached text is
  always the text of the current fields, that \<open>from_message()\<close> reads back what
  \<open>to_message()\<close> wrote, and the one shape of value for which it does not.
\<close>

section \<open>Names\<close>

definition name_char :: "bool \<Rightarrow> char \<Rightarrow> bool" where
  "name_char can_be_lowercase c \<longleftrightarrow>
     (is_lower c \<and> can_be_lowercase) \<or> is_upper c \<or> is_digit c \<or> c = CHR ''_''"

text \<open>
  \<open>name[0]\<close> of an empty name is the terminating NUL, which is no digit.
\<close>

definition verify_name :: "string \<Rightarrow> bool \<Rightarrow> bool \<Rightarrow> unit result" where
  "verify_name name can_be_empty can_be_lowercase =
     (if \<not> can_be_empty \<and> name = [] then Inl (Invalid_Message ''a message name cannot be empty'')
      else if \<not> list_all (name_char can_be_lowercase) name
        then Inl (Invalid_Message ''a message name must be composed of ASCII characters'')
      else if name \<noteq> [] \<and> is_digit (hd name)
        then Inl (Invalid_Message ''parameter name cannot start with a digit'')
      else Inr ())"

section \<open>The message object\<close>

record message =
  f_sent_from_server :: string
  f_sent_from_service :: string
  f_server :: string
  f_service :: string
  f_command :: string
  f_parameters :: "(string, string) omap"
  f_cached_message :: string

definition empty_message :: message where
  "empty_message = \<lparr>f_sent_from_server = [], f_sent_from_service = [], f_server = [], f_service = [],
     f_command = [], f_parameters = [], f_cached_message = []\<rparr>"

definition set_sent_from_server :: "string \<Rightarrow> message \<Rightarrow> message result" where
  "set_sent_from_server n m =
     (if f_sent_from_server m \<noteq> n
      then bindE (verify_name n True True) (\<lambda>_.
             Inr (m\<lparr>f_sent_from_server := n, f_cached_message := []\<rparr>))
      else Inr m)"

definition set_sent_from_service :: "string \<Rightarrow> message \<Rightarrow> message result" where
  "set_sent_from_service n m =
     (if f_sent_from_service m \<noteq> n
      then bindE (verify_name n True True) (\<lambda>_.
             Inr (m\<lparr>f_sent_from_service := n, f_cached_message := []\<rparr>))
      else Inr m)"

definition set_server :: "string \<Rightarrow> message \<Rightarrow> message result" where
  "set_server n m =
     (if f_server m \<noteq> n
      then bindE (if n \<noteq> ''.'' \<and> n \<noteq> ''*'' then verify_name n True True else Inr ()) (\<lambda>_.
             Inr (m\<lparr>f_server := n, f_cached_message := []\<rparr>))
      else Inr m)"

definition set_service :: "string \<Rightarrow> message \<Rightarrow> message result" where
  "set_service n m =
     (if f_service m \<noteq> n
      then bindE (if n \<noteq> ''*'' \<and> n \<noteq> ''?'' \<and> n \<noteq> ''.'' then verify_name n True True else Inr ()) (\<lambda>_.
             Inr (m\<lparr>f_service := n, f_cached_message := []\<rparr>))
      else Inr m)"

definition reply_to :: "message \<Rightarrow> message \<Rightarrow> message result" where
  "reply_to msg m =
     bindE (set_server (f_sent_from_server msg) m) (\<lambda>m'. set_service (f_sent_from_service msg) m')"

definition set_command :: "string \<Rightarrow> message \<Rightarrow> message result" where
  "set_command c m =
     bindE (verify_name c False False) (\<lambda>_.
       if f_command m \<noteq> c then Inr (m\<lparr>f_command := c, f_cached_message := []\<rparr>) else Inr m)"

definition add_parameter :: "string \<Rightarrow> string \<Rightarrow> message \<Rightarrow> message result" where
  "add_parameter name v m =
     bindE (verify_name name False True) (\<lambda>_.
       Inr (m\<lparr>f_parameters := omap_put name v (f_parameters m), f_cached_message := []\<rparr>))"

text \<open>The four integer overloads print the value in decimal.\<close>

definition add_int_parameter :: "string \<Rightarrow> int \<Rightarrow> message \<Rightarrow> message result" where
  "add_int_parameter name i m =
     bindE (verify_name name False True) (\<lambda>_.
       Inr (m\<lparr>f_parameters := omap_put name (show_int i) (f_parameters m), f_cached_message := []\<rparr>))"

definition has_parameter :: "string \<Rightarrow> message \<Rightarrow> bool result" where
  "has_parameter name m =
     bindE (verify_name name False True) (\<lambda>_. Inr (omap_get (f_parameters m) name \<noteq> None))"

definition get_parameter :: "string \<Rightarrow> message \<Rightarrow> string result" where
  "get_parameter name m =
     bindE (verify_name name False True) (\<lambda>_.
       case omap_get (f_parameters m) name of
         Some v \<Rightarrow> Inr v
       | None \<Rightarrow> Inl (Invalid_Message ''get_parameter(): parameter not defined''))"

text \<open>
  \<open>QString::toLongLong()\<close> belongs to Qt; it is the argument \<open>to_ll\<close>, \<open>None\<close> when
  the conversion reports an error.
\<close>

definition get_integer_parameter :: "(string \<Rightarrow> int option) \<Rightarrow> string \<Rightarrow> message \<Rightarrow> int result" where
  "get_integer_parameter to_ll name m =
     bindE (verify_name name False True) (\<lambda>_.
       case omap_get (f_parameters m) name of
         Some v \<Rightarrow> (case to_ll v of
             Some r \<Rightarrow> Inr r
           | None \<Rightarrow> Inl (Invalid_Message ''get_integer_parameter(): message expected integer could not be converted''))
       | None \<Rightarrow> Inl (Invalid_Message ''get_integer_parameter(): parameter not defined''))"

lemmas setter_defs = set_sent_from_server_def set_sent_from_service_def set_server_def
  set_service_def set_command_def add_parameter_def add_int_parameter_def

section \<open>The text form\<close>

abbreviation backslash :: char where "backslash \<equiv> CHR 0x5C"
abbreviation dquote :: char where "dquote \<equiv> CHR 0x22"
abbreviation newline :: char where "newline \<equiv> CHR 0x0A"
abbreviation creturn :: char where "creturn \<equiv> CHR 0x0D"

definition escape_needles :: "(string \<times> string) list" where
  "escape_needles =
     [([backslash], [backslash, backslash]),
      ([newline], [backslash, CHR ''n'']),
      ([creturn], [backslash, CHR ''r''])]"

definition unescape_needles :: "(string \<times> string) list" where
  "unescape_needles =
     [([backslash, backslash], [backslash]),
      ([backslash, CHR ''n''], [newline]),
      ([backslash, CHR ''r''], [creturn])]"

text \<open>No needle is empty, so the replacement always returns (\<open>safe_value_defined\<close> below).\<close>

definition safe_value :: "string \<Rightarrow> string" where
  "safe_value v = (case string_replace_many v escape_needles of Some r \<Rightarrow> r | None \<Rightarrow> [])"

definition unsafe_value :: "string \<Rightarrow> string" where
  "unsafe_value v = (case string_replace_many v unescape_needles of Some r \<Rightarrow> r | None \<Rightarrow> [])"

definition quote_quotes :: "string \<Rightarrow> string" where
  "quote_quotes v = concat (map (\<lambda>c. if c = dquote then [backslash, dquote] else [c]) v)"

definition needs_quotes :: "string \<Rightarrow> bool" where
  "needs_quotes param \<longleftrightarrow> CHR '';'' \<in> set param \<or> (param \<noteq> [] \<and> hd param = dquote)"

definition value_text :: "string \<Rightarrow> string" where
  "value_text v =
     (let param = safe_value v in
      if needs_quotes param then dquote # quote_quotes param @ [dquote] else param)"

fun parameters_text :: "bool \<Rightarrow> (string \<times> string) list \<Rightarrow> string" where
  "parameters_text first [] = []"
| "parameters_text first ((k, v) # ps) =
     (if first then '' '' else '';'') @ k @ ''='' @ value_text v @ parameters_text False ps"

definition message_text :: "message \<Rightarrow> string" where
  "message_text m =
     (if f_sent_from_server m \<noteq> [] \<or> f_sent_from_service m \<noteq> []
      then ''<'' @ f_sent_from_server m @ '':'' @ f_sent_from_service m @ '' '' else [])
   @ (if f_service m \<noteq> []
      then (if f_server m \<noteq> [] then f_server m @ '':'' else []) @ f_service m @ ''/'' else [])
   @ f_command m
   @ parameters_text True (f_parameters m)"

text \<open>\<open>to_message()\<close> returns the text and leaves it in the cache.\<close>

definition to_message :: "message \<Rightarrow> (string \<times> message) result" where
  "to_message m =
     (if f_cached_message m = [] then
        (if f_command m = []
         then Inl (Invalid_Message ''to_message(): cannot build a valid message without at least a command'')
         else Inr (message_text m, m\<lparr>f_cached_message := message_text m\<rparr>))
      else Inr (f_cached_message m, m))"

section \<open>The parser\<close>

text \<open>
  \<open>from_message()\<close> walks a pointer over the text; each function below is one of its loops
  and returns what the loop accumulated with the rest of the text, \<open>None\<close> for the early
  \<open>return false\<close>.
\<close>

definition parse_sent_from :: "string \<Rightarrow> (string \<times> string \<times> string) option" where
  "parse_sent_from m =
     (if m \<noteq> [] \<and> hd m = CHR ''<'' then
        let srv = takeWhile (\<lambda>c. c \<noteq> CHR '':'') (tl m);
            r1 = dropWhile (\<lambda>c. c \<noteq> CHR '':'') (tl m)
        in if CHR '' '' \<in> set srv then None
           else if r1 = [] then None
           else let svc = takeWhile (\<lambda>c. c \<noteq> CHR '' '') (tl r1);
                    r2 = dropWhile (\<lambda>c. c \<noteq> CHR '' '') (tl r1)
                in if r2 = [] then None else Some (srv, svc, tl r2)
      else Some ([], [], m))"

fun parse_destination ::
  "bool \<Rightarrow> bool \<Rightarrow> string \<Rightarrow> string \<Rightarrow> string \<Rightarrow> string \<Rightarrow> (string \<times> string \<times> string \<times> string) option" where
  "parse_destination has_server has_service server service command [] =
     Some (server, service, command, [])"
| "parse_destination has_server has_service server service command (c # m) =
     (if c = CHR '' '' then Some (server, service, command, c # m)
      else if c = CHR '':'' then
        (if has_server \<or> has_service \<or> command = [] then None
         else parse_destination True has_service command service [] m)
      else if c = CHR ''/'' then
        (if has_service \<or> command = [] then None
         else parse_destination has_server True server command [] m)
      else parse_destination has_server has_service server service (command @ [c]) m)"

fun scan_quoted :: "string \<Rightarrow> (string \<times> string) option" where
  "scan_quoted [] = None"
| "scan_quoted (c # m) =
     (if c = dquote then Some ([], m)
      else if c = backslash \<and> m \<noteq> [] \<and> hd m = dquote
        then map_option (\<lambda>(v, r). (dquote # v, r)) (scan_quoted (tl m))
      else map_option (\<lambda>(v, r). (c # v, r)) (scan_quoted m))"

definition scan_value :: "string \<Rightarrow> (string \<times> string) option" where
  "scan_value m =
     (if m \<noteq> [] \<and> hd m = dquote then scan_quoted (tl m)
      else Some (takeWhile (\<lambda>c. c \<noteq> CHR '';'') m, dropWhile (\<lambda>c. c \<noteq> CHR '';'') m))"

lemma scan_quoted_length: "scan_quoted m = Some (v, r) \<Longrightarrow> length r < length m"
proof (induction m arbitrary: v r rule: scan_quoted.induct)
  case 1
  then show ?case by simp
next
  case (2 c m)
  consider "c = dquote" | "c = backslash" "m \<noteq> []" "hd m = dquote" | "c \<noteq> dquote" "\<not> (c = backslash \<and> m \<noteq> [] \<and> hd m = dquote)"
    by auto
  then show ?case
  proof cases
    case 1
    with 2 show ?thesis by simp
  next
    case esc: 2
    then obtain v' where "scan_quoted (tl m) = Some (v', r)" using "2.prems" by auto
    with "2.IH"(1) esc have "length r < length (tl m)" by simp
    then show ?thesis by simp
  next
    case 3
    then obtain v' where "scan_quoted m = Some (v', r)" using "2.prems" by (auto split: if_splits)
    with "2.IH"(2) 3 have "length r < length m" by simp
    then show ?thesis by simp
  qed
qed

lemma scan_value_length: "scan_value m = Some (v, r) \<Longrightarrow> length r \<le> length m"
proof (cases "m \<noteq> [] \<and> hd m = dquote")
  case True
  moreover assume "scan_value m = Some (v, r)"
  ultimately have "scan_quoted (tl m) = Some (v, r)" by (simp add: scan_value_def)
  then have "length r < length (tl m)" by (rule scan_quoted_length)
  then show ?thesis by simp
next
  case False
  moreover assume "scan_value m = Some (v, r)"
  ultimately show ?thesis by (auto simp: scan_value_def length_dropWhile_le)
qed

function parse_parameters :: "string \<Rightarrow> (string, string) omap \<Rightarrow> (string, string) omap option" where
  "parse_parameters m parameters =
     (if m = [] then Some parameters
      else
        let param_name = takeWhile (\<lambda>c. c \<noteq> CHR ''='') m;
            r = dropWhile (\<lambda>c. c \<noteq> CHR ''='') m
        in if param_name = [] then None
           else if verify_name param_name False True \<noteq> Inr () then None
           else if r = [] then None
           else case scan_value (tl r) of
              None \<Rightarrow> None
            | Some (v, r') \<Rightarrow>
                if r' \<noteq> [] \<and> hd r' \<noteq> CHR '';'' then None
                else parse_parameters (tl r') (omap_put param_name (unsafe_value v) parameters))"
  by pat_completeness auto
termination
proof (relation "measure (\<lambda>(m, _). length m)", goal_cases)
  case 1
  then show ?case by simp
next
  case (2 m parameters param_name r vr v r')
  from 2 have "scan_value (tl r) = Some (v, r')" by simp
  then have "length r' \<le> length (tl r)" by (rule scan_value_length)
  moreover have "length (tl r) < length r" using 2 by (cases r) auto
  moreover have "length r \<le> length m" using 2 by (simp add: length_dropWhile_le)
  ultimately show ?case by simp
qed

declare parse_parameters.simps [simp del]

definition parse_message :: "string \<Rightarrow> message option" where
  "parse_message text =
     (case parse_sent_from text of None \<Rightarrow> None
      | Some (sent_from_server, sent_from_service, m) \<Rightarrow>
        (case parse_destination False False [] [] [] m of None \<Rightarrow> None
         | Some (server, service, command, m') \<Rightarrow>
             if command = [] then None
             else case (if m' \<noteq> [] then parse_parameters (tl m') [] else Some []) of None \<Rightarrow> None
               | Some parameters \<Rightarrow>
                   Some \<lparr>f_sent_from_server = sent_from_server, f_sent_from_service = sent_from_service,
                         f_server = server, f_service = service, f_command = command,
                         f_parameters = parameters, f_cached_message = []\<rparr>))"

text \<open>
  The pointer stops at the first NUL.  On an error the function returns false and no field is
  modified.
\<close>

definition from_message :: "string \<Rightarrow> message \<Rightarrow> bool \<times> message" where
  "from_message text self =
     (case parse_message (takeWhile (\<lambda>c. c \<noteq> CHR 0x00) text) of
        None \<Rightarrow> (False, self)
      | Some m \<Rightarrow> (True, m))"

section \<open>Escaping and quoting\<close>

definition esc_char :: "char \<Rightarrow> string" where
  "esc_char c =
     (if c = backslash then [backslash, backslash]
      else if c = newline then [backslash, CHR ''n'']
      else if c = creturn then [backslash, CHR ''r''] else [c])"

lemma safe_value_eq: "safe_value v = concat (map esc_char v)"
proof -
  have "string_replace_many v escape_needles =
    Some (concat (map (\<lambda>c. case find (\<lambda>nr. fst nr = [c]) escape_needles of None \<Rightarrow> [c] | Some nr \<Rightarrow> snd nr) v))"
    by (rule string_replace_many_single) (simp add: escape_needles_def)
  moreover have "(\<lambda>c. case find (\<lambda>nr. fst nr = [c]) escape_needles of None \<Rightarrow> [c] | Some nr \<Rightarrow> snd nr) = esc_char"
    by (auto simp: escape_needles_def esc_char_def fun_eq_iff)
  ultimately show ?thesis by (simp add: safe_value_def)
qed

lemma safe_value_Nil [simp]: "safe_value [] = []"
  by (simp add: safe_value_eq)

lemma safe_value_Cons [simp]: "safe_value (c # v) = esc_char c @ safe_value v"
  by (simp add: safe_value_eq)

lemma unescape_esc: "string_replace_many (safe_value v) unescape_needles = Some v"
proof (induction v)
  case Nil
  then show ?case by simp
next
  case (Cons c v)
  then show ?case
    by (cases "c = backslash"; cases "c = newline"; cases "c = creturn")
       (simp_all add: esc_char_def unescape_needles_def starts_with_def)
qed

lemma unsafe_safe [simp]: "unsafe_value (safe_value v) = v"
  by (simp add: unsafe_value_def unescape_esc)

lemma safe_value_defined: "string_replace_many v escape_needles \<noteq> None \<and> string_replace_many v unescape_needles \<noteq> None"
  using string_replace_many_terminates [of escape_needles v] string_replace_many_terminates [of unescape_needles v]
  by (auto simp: escape_needles_def unescape_needles_def)

lemma semicolon_safe_value [simp]: "CHR '';'' \<in> set (safe_value v) \<longleftrightarrow> CHR '';'' \<in> set v"
  by (induction v) (auto simp: esc_char_def)

lemma NUL_safe_value [simp]: "CHR 0x00 \<in> set (safe_value v) \<longleftrightarrow> CHR 0x00 \<in> set v"
  by (induction v) (auto simp: esc_char_def)

lemma safe_value_eq_Nil [simp]: "safe_value v = [] \<longleftrightarrow> v = []"
  by (cases v) (auto simp: esc_char_def)

lemma hd_safe_value: "v \<noteq> [] \<Longrightarrow> hd (safe_value v) = dquote \<longleftrightarrow> hd v = dquote"
  by (cases v) (auto simp: esc_char_def)

lemma needs_quotes_safe [simp]: "needs_quotes (safe_value v) \<longleftrightarrow> needs_quotes v"
  by (auto simp: needs_quotes_def hd_safe_value)

lemma last_safe_value: "v \<noteq> [] \<Longrightarrow> last (safe_value v) = backslash \<longleftrightarrow> last v = backslash"
proof (induction v rule: rev_induct)
  case Nil
  then show ?case by simp
next
  case (snoc c v)
  have "safe_value (v @ [c]) = safe_value v @ esc_char c" by (simp add: safe_value_eq)
  then show ?case by (auto simp: esc_char_def)
qed

lemma quote_quotes_Cons [simp]:
  "quote_quotes (c # v) = (if c = dquote then [backslash, dquote] else [c]) @ quote_quotes v"
  by (simp add: quote_quotes_def)

lemma quote_quotes_Nil [simp]: "quote_quotes [] = []"
  by (simp add: quote_quotes_def)

lemma NUL_quote_quotes [simp]: "CHR 0x00 \<in> set (quote_quotes v) \<longleftrightarrow> CHR 0x00 \<in> set v"
  by (induction v) auto

lemma hd_quote_quotes: "p \<noteq> [] \<Longrightarrow> hd (quote_quotes p @ r) \<noteq> dquote"
  by (cases p) auto

lemma scan_quoted_quotes:
  "p = [] \<or> last p \<noteq> backslash \<Longrightarrow> scan_quoted (quote_quotes p @ dquote # r) = Some (p, r)"
proof (induction p)
  case Nil
  then show ?case by simp
next
  case (Cons c p)
  show ?case
  proof (cases "p = []")
    case True
    with Cons.prems show ?thesis by auto
  next
    case False
    then have "scan_quoted (quote_quotes p @ dquote # r) = Some (p, r)"
      using Cons by auto
    with False show ?thesis by (simp add: hd_quote_quotes)
  qed
qed

lemma scan_quoted_lost:
  "p \<noteq> [] \<Longrightarrow> last p = backslash \<Longrightarrow> scan_quoted (quote_quotes p @ [dquote]) = None"
proof (induction p)
  case Nil
  then show ?case by simp
next
  case (Cons c p)
  show ?case
  proof (cases "p = []")
    case True
    with Cons.prems show ?thesis by simp
  next
    case False
    with Cons have "scan_quoted (quote_quotes p @ [dquote]) = None" by auto
    with False show ?thesis by (simp add: hd_quote_quotes)
  qed
qed

text \<open>
  The values \<open>from_message()\<close> can read back: no NUL, and not both in need of quotes and
  ending with a backslash.
\<close>

definition value_ok :: "string \<Rightarrow> bool" where
  "value_ok v \<longleftrightarrow> CHR 0x00 \<notin> set v \<and> \<not> (needs_quotes v \<and> last v = backslash)"

lemma scan_value_text:
  assumes "value_ok v" and "r = [] \<or> hd r = CHR '';''"
  shows "scan_value (value_text v @ r) = Some (safe_value v, r)"
proof (cases "needs_quotes v")
  case True
  then have "v \<noteq> []" by (auto simp: needs_quotes_def)
  with True assms(1) have "last (safe_value v) \<noteq> backslash"
    by (simp add: value_ok_def last_safe_value)
  with True show ?thesis
    by (simp add: scan_value_def value_text_def scan_quoted_quotes)
next
  case False
  then have sv: "\<forall>c \<in> set (safe_value v). c \<noteq> CHR '';''"
    using semicolon_safe_value [of v] by (auto simp: needs_quotes_def)
  have nq: "\<not> (safe_value v @ r \<noteq> [] \<and> hd (safe_value v @ r) = dquote)"
    using False assms(2) by (cases "v = []") (auto simp: needs_quotes_def hd_safe_value hd_append)
  have "takeWhile (\<lambda>c. c \<noteq> CHR '';'') (safe_value v @ r) = safe_value v"
    "dropWhile (\<lambda>c. c \<noteq> CHR '';'') (safe_value v @ r) = r"
    using sv assms(2) by (cases r; simp add: takeWhile_append2 dropWhile_append2)+
  with False nq show ?thesis by (auto simp: scan_value_def value_text_def)
qed

section \<open>Names and parameters on the wire\<close>

lemma verify_name_Inr [result_simps]:
  "verify_name n e l = Inr u \<longleftrightarrow>
     (e \<or> n \<noteq> []) \<and> list_all (name_char l) n \<and> (n = [] \<or> \<not> is_digit (hd n))"
  by (auto simp: verify_name_def)

lemma name_char_special [simp]:
  "\<not> name_char l (CHR '' '')" "\<not> name_char l (CHR '':'')" "\<not> name_char l (CHR ''/'')"
  "\<not> name_char l (CHR ''<'')" "\<not> name_char l (CHR ''='')" "\<not> name_char l (CHR '';'')"
  "\<not> name_char l (CHR 0x00)"
  by (simp_all add: name_char_def char_class_defs)

lemma name_char_not_in:
  "list_all (name_char l) n \<Longrightarrow> \<not> name_char l c \<Longrightarrow> c \<notin> set n"
  by (auto simp: list_all_iff)

definition valid_name :: "string \<Rightarrow> bool" where
  "valid_name n \<longleftrightarrow> verify_name n True True = Inr ()"

definition valid_parameters :: "(string, string) omap \<Rightarrow> bool" where
  "valid_parameters ps \<longleftrightarrow>
     omap_ok ps \<and> list_all (\<lambda>(k, v). verify_name k False True = Inr () \<and> value_ok v) ps"

lemma omap_put_snoc:
  "\<forall>k' \<in> fst ` set m. k' < k \<Longrightarrow> omap_put k v m = m @ [(k, v)]"
  by (induction k v m rule: omap_put.induct) auto

lemma omap_ok_append_hd:
  "omap_ok (acc @ (k, v) # ps) \<Longrightarrow> \<forall>k' \<in> fst ` set acc. k' < k"
  by (auto simp: omap_ok_def sorted_wrt_append)

lemma parse_parameters_Nil [simp]: "parse_parameters [] ps = Some ps"
  by (simp add: parse_parameters.simps)

lemma parse_one_parameter:
  assumes "verify_name k False True = Inr ()" and "value_ok v" and "r = [] \<or> hd r = CHR '';''"
  shows "parse_parameters (k @ CHR ''='' # value_text v @ r) acc =
         parse_parameters (tl r) (omap_put k v acc)"
proof -
  have k: "k \<noteq> []" "CHR ''='' \<notin> set k"
    using assms(1) by (auto simp: result_simps dest: name_char_not_in [OF _ name_char_special(5)])
  then have tw: "takeWhile (\<lambda>c. c \<noteq> CHR ''='') (k @ CHR ''='' # value_text v @ r) = k"
    "dropWhile (\<lambda>c. c \<noteq> CHR ''='') (k @ CHR ''='' # value_text v @ r) = CHR ''='' # value_text v @ r"
    by (auto simp: takeWhile_append2 dropWhile_append2 in_set_conv_nth takeWhile_tail dropWhile_append)
  have "scan_value (value_text v @ r) = Some (safe_value v, r)"
    using assms(2,3) by (rule scan_value_text)
  with tw k assms show ?thesis
    by (subst parse_parameters.simps) (auto simp: Let_def)
qed

lemma parse_parameters_text:
  assumes "valid_parameters (acc @ ps)"
  shows "ps \<noteq> [] \<Longrightarrow> parse_parameters (tl (parameters_text b ps)) acc = Some (acc @ ps)"
  using assms
proof (induction ps arbitrary: acc b)
  case Nil
  then show ?case by simp
next
  case (Cons p ps)
  obtain k v where p: "p = (k, v)" by (cases p)
  have kv: "verify_name k False True = Inr ()" "value_ok v"
    using Cons.prems p by (auto simp: valid_parameters_def)
  have put: "omap_put k v acc = acc @ [(k, v)]"
    using Cons.prems p by (intro omap_put_snoc) (auto simp: valid_parameters_def dest: omap_ok_append_hd)
  have sep: "parameters_text False ps = [] \<or> hd (parameters_text False ps) = CHR '';''"
    by (cases ps) auto
  have "parse_parameters (tl (parameters_text b (p # ps))) acc =
        parse_parameters (tl (parameters_text False ps)) (acc @ [(k, v)])"
    using parse_one_parameter [OF kv sep, of acc] put p by simp
  also have "\<dots> = Some (acc @ p # ps)"
  proof (cases "ps = []")
    case True
    with p show ?thesis by simp
  next
    case False
    with Cons.IH [of "acc @ [(k, v)]" False] Cons.prems p show ?thesis by simp
  qed
  finally show ?case .
qed

lemma NUL_value_text: "value_ok v \<Longrightarrow> CHR 0x00 \<notin> set (value_text v)"
  by (auto simp: value_text_def value_ok_def Let_def)

lemma NUL_parameters_text: "valid_parameters ps \<Longrightarrow> CHR 0x00 \<notin> set (parameters_text b ps)"
proof (induction ps arbitrary: b)
  case Nil
  then show ?case by simp
next
  case (Cons p ps)
  obtain k v where p: "p = (k, v)" by (cases p)
  have "valid_parameters ps" using Cons.prems p by (simp add: valid_parameters_def omap_ok_Cons)
  moreover have "CHR 0x00 \<notin> set k" "value_ok v"
    using Cons.prems p by (auto simp: valid_parameters_def result_simps dest: name_char_not_in [OF _ name_char_special(7)])
  ultimately show ?case using Cons.IH p NUL_value_text by simp
qed

section \<open>The destination\<close>

definition plain :: "string \<Rightarrow> bool" where
  "plain n \<longleftrightarrow> CHR '' '' \<notin> set n \<and> CHR '':'' \<notin> set n \<and> CHR ''/'' \<notin> set n \<and> CHR ''<'' \<notin> set n \<and> CHR 0x00 \<notin> set n"

lemma plain_verified: "verify_name n e l = Inr () \<Longrightarrow> plain n"
  by (auto simp: result_simps plain_def dest: name_char_not_in [OF _ name_char_special(1)]
      name_char_not_in [OF _ name_char_special(2)] name_char_not_in [OF _ name_char_special(3)]
      name_char_not_in [OF _ name_char_special(4)] name_char_not_in [OF _ name_char_special(7)])

lemma plain_specials [simp]: "plain ''*''" "plain ''?''" "plain ''.''" "plain []"
  by (simp_all add: plain_def)

lemma parse_destination_plain:
  "plain n \<Longrightarrow> parse_destination hs hv srv svc cmd (n @ m) = parse_destination hs hv srv svc (cmd @ n) m"
  by (induction n arbitrary: cmd) (auto simp: plain_def)

definition server_ok :: "string \<Rightarrow> bool" where
  "server_ok n \<longleftrightarrow> valid_name n \<or> n \<in> {''.'', ''*''}"

definition service_ok :: "string \<Rightarrow> bool" where
  "service_ok n \<longleftrightarrow> valid_name n \<or> n \<in> {''*'', ''?'', ''.''}"

definition wf_names :: "message \<Rightarrow> bool" where
  "wf_names m \<longleftrightarrow>
     valid_name (f_sent_from_server m) \<and> valid_name (f_sent_from_service m)
   \<and> server_ok (f_server m) \<and> service_ok (f_service m)
   \<and> (f_service m = [] \<longrightarrow> f_server m = [])
   \<and> verify_name (f_command m) False False = Inr ()"

definition wf_message :: "message \<Rightarrow> bool" where
  "wf_message m \<longleftrightarrow> wf_names m \<and> valid_parameters (f_parameters m)"

lemma wf_names_plain:
  assumes "wf_names m"
  shows "plain (f_sent_from_server m)" "plain (f_sent_from_service m)" "plain (f_server m)"
    "plain (f_service m)" "plain (f_command m)" "f_command m \<noteq> []"
  using assms by (auto simp: wf_names_def server_ok_def service_ok_def valid_name_def dest: plain_verified)
    (auto simp: result_simps)

definition sender_text :: "message \<Rightarrow> string" where
  "sender_text m =
     (if f_sent_from_server m \<noteq> [] \<or> f_sent_from_service m \<noteq> []
      then ''<'' @ f_sent_from_server m @ '':'' @ f_sent_from_service m @ '' '' else [])"

definition destination_text :: "message \<Rightarrow> string" where
  "destination_text m =
     (if f_service m \<noteq> []
      then (if f_server m \<noteq> [] then f_server m @ '':'' else []) @ f_service m @ ''/'' else [])
   @ f_command m"

lemma message_text_parts:
  "message_text m = sender_text m @ destination_text m @ parameters_text True (f_parameters m)"
  by (simp add: message_text_def sender_text_def destination_text_def)

lemma parameters_text_start:
  "parameters_text True ps = [] \<or> hd (parameters_text True ps) = CHR '' ''"
  by (cases ps) auto

lemma parse_destination_stop:
  "r = [] \<or> hd r = CHR '' '' \<Longrightarrow> parse_destination hs hv srv svc cmd r = Some (srv, svc, cmd, r)"
  by (cases r) auto

lemma parse_destination_text:
  assumes "wf_names m" and "r = [] \<or> hd r = CHR '' ''"
  shows "parse_destination False False [] [] [] (destination_text m @ r) =
    Some (f_server m, f_service m, f_command m, r)"
proof -
  note pl = wf_names_plain [OF assms(1)]
  have "f_service m = [] \<Longrightarrow> f_server m = []" using assms(1) by (simp add: wf_names_def)
  with pl assms(2) show ?thesis
    by (auto simp: destination_text_def parse_destination_plain parse_destination_stop)
qed

lemma parse_sent_from_text:
  assumes "wf_names m"
  shows "parse_sent_from (sender_text m @ destination_text m @ r) =
    Some (f_sent_from_server m, f_sent_from_service m, destination_text m @ r)"
proof (cases "f_sent_from_server m \<noteq> [] \<or> f_sent_from_service m \<noteq> []")
  case True
  note pl = wf_names_plain [OF assms]
  let ?r = "f_sent_from_service m @ CHR '' '' # destination_text m @ r"
  have mtext: "sender_text m @ destination_text m @ r = CHR ''<'' # f_sent_from_server m @ CHR '':'' # ?r"
    using True by (simp add: sender_text_def)
  have "takeWhile (\<lambda>c. c \<noteq> CHR '':'') (f_sent_from_server m @ CHR '':'' # ?r) = f_sent_from_server m"
    "dropWhile (\<lambda>c. c \<noteq> CHR '':'') (f_sent_from_server m @ CHR '':'' # ?r) = CHR '':'' # ?r"
    using pl(1) by (auto simp: plain_def takeWhile_tail dropWhile_append takeWhile_append)
  moreover have "takeWhile (\<lambda>c. c \<noteq> CHR '' '') ?r = f_sent_from_service m"
    "dropWhile (\<lambda>c. c \<noteq> CHR '' '') ?r = CHR '' '' # destination_text m @ r"
    using pl(2) by (auto simp: plain_def takeWhile_tail dropWhile_append takeWhile_append)
  ultimately show ?thesis
    using mtext pl(1) by (simp add: parse_sent_from_def Let_def plain_def)
next
  case False
  note pl = wf_names_plain [OF assms]
  have "hd n \<noteq> CHR ''<''" if "plain n" "n \<noteq> []" for n
    using that by (cases n) (auto simp: plain_def)
  with pl have "hd (destination_text m @ r) \<noteq> CHR ''<''"
    by (auto simp: destination_text_def hd_append)
  with False show ?thesis by (simp add: parse_sent_from_def sender_text_def)
qed

lemma parse_parameters_value_None:
  assumes "verify_name k False True = Inr ()" and "scan_value t = None"
  shows "parse_parameters (k @ CHR ''='' # t) acc = None"
proof -
  have "CHR ''='' \<notin> set k"
    using assms(1) by (auto simp: result_simps dest: name_char_not_in [OF _ name_char_special(5)])
  then have "dropWhile (\<lambda>c. c \<noteq> CHR ''='') (k @ CHR ''='' # t) = CHR ''='' # t"
    by (auto simp: dropWhile_append)
  with assms(2) show ?thesis by (subst parse_parameters.simps) (simp add: Let_def)
qed

text \<open>What the parser makes of the text before the parameters is independent of them.\<close>

lemma parse_message_parts:
  assumes "wf_names m" and "r = [] \<or> hd r = CHR '' ''"
  shows "parse_message (sender_text m @ destination_text m @ r) =
    map_option (\<lambda>ps. m\<lparr>f_parameters := ps, f_cached_message := []\<rparr>)
      (if r \<noteq> [] then parse_parameters (tl r) [] else Some [])"
  using parse_sent_from_text [OF assms(1)] parse_destination_text [OF assms] wf_names_plain(6) [OF assms(1)]
  by (auto simp: parse_message_def split: option.splits)

lemma parse_message_text:
  assumes "wf_message m"
  shows "parse_message (message_text m) = Some (m\<lparr>f_cached_message := []\<rparr>)"
proof -
  have "(if parameters_text True (f_parameters m) \<noteq> []
         then parse_parameters (tl (parameters_text True (f_parameters m))) [] else Some []) = Some (f_parameters m)"
    using assms parse_parameters_text [of "[]" "f_parameters m" True]
    by (cases "f_parameters m") (auto simp: wf_message_def)
  then show ?thesis
    using parse_message_parts [OF _ parameters_text_start, of m "f_parameters m"] assms
    by (simp add: wf_message_def message_text_parts)
qed

lemma NUL_names_text: "wf_names m \<Longrightarrow> CHR 0x00 \<notin> set (sender_text m @ destination_text m)"
  using wf_names_plain [of m] by (auto simp: sender_text_def destination_text_def plain_def)

lemma NUL_message_text: "wf_message m \<Longrightarrow> CHR 0x00 \<notin> set (message_text m)"
  using NUL_names_text [of m] NUL_parameters_text [of "f_parameters m" True]
  by (simp add: wf_message_def message_text_parts)

lemma from_message_text:
  "wf_message m \<Longrightarrow> from_message (message_text m) self = (True, m\<lparr>f_cached_message := []\<rparr>)"
  by (simp add: from_message_def takeWhile_not_in NUL_message_text parse_message_text)

section \<open>Properties of messages\<close>

text \<open>C15.
  Whatever \<open>to_message()\<close> writes for a well-formed message with an empty cache,
  \<open>from_message()\<close> accepts, and it restores the sender, the destination, the command and
  every parameter with its value, newlines, quotes, semicolons and backslashes included.
\<close>

theorem message_roundtrip:
  assumes "wf_message m" and "f_cached_message m = []"
  shows "\<exists>text m'. to_message m = Inr (text, m') \<and> from_message text self = (True, m)"
proof -
  have "f_command m \<noteq> []" using assms(1) by (simp add: wf_message_def wf_names_plain)
  with assms(2) have "to_message m = Inr (message_text m, m\<lparr>f_cached_message := message_text m\<rparr>)"
    by (simp add: to_message_def)
  moreover have "m\<lparr>f_cached_message := []\<rparr> = m" using assms(2) by simp
  ultimately show ?thesis using from_message_text [OF assms(1)] by simp
qed

interpretation message_codec: codec message_text
  "\<lambda>t. from_message t empty_message" "\<lambda>m. (True, m)" "\<lambda>m. wf_message m \<and> f_cached_message m = []"
  by unfold_locales (simp_all add: from_message_text)

definition sample_message :: message where
  "sample_message = \<lparr>f_sent_from_server = ''halk'', f_sent_from_service = ''snapserver'', f_server = [],
     f_service = ''*'', f_command = ''LOCK'',
     f_parameters = [(''list'', ''a;b''), (''name'', [CHR ''x'', newline, backslash, dquote])],
     f_cached_message = []\<rparr>"

theorem message_roundtrip_witness:
  "wf_message sample_message \<and> f_cached_message sample_message = []
   \<and> (\<exists>text m'. to_message sample_message = Inr (text, m') \<and> from_message text empty_message = (True, sample_message))"
proof -
  have wf: "wf_message sample_message"
    by (simp add: wf_message_def wf_names_def sample_message_def server_ok_def service_ok_def valid_name_def verify_name_def name_char_def
        char_class_defs valid_parameters_def omap_ok_def value_ok_def needs_quotes_def)
  have c: "f_cached_message sample_message = []" by (simp add: sample_message_def)
  from message_roundtrip [OF wf c] wf c show ?thesis by blast
qed

text \<open>
  The one value the format loses.  A value that needs quotes (it contains a semicolon or starts
  with a quote) and ends with a backslash is written so that its last backslash escapes the
  closing quote: as the last parameter of a message it makes \<open>from_message()\<close> refuse the
  whole message.
\<close>

theorem quoted_backslash_lost:
  assumes "wf_names m" and "verify_name k False True = Inr ()"
    and "CHR 0x00 \<notin> set v" and "needs_quotes v" and "last v = backslash"
  shows "from_message (message_text (m\<lparr>f_parameters := [(k, v)]\<rparr>)) self = (False, self)"
proof -
  let ?m = "m\<lparr>f_parameters := [(k, v)]\<rparr>" and ?r = "CHR '' '' # k @ CHR ''='' # value_text v"
  have v: "v \<noteq> []" using assms(4) by (auto simp: needs_quotes_def)
  have mt: "message_text ?m = sender_text m @ destination_text m @ ?r"
    by (simp add: message_text_parts sender_text_def destination_text_def)
  have "scan_value (value_text v) = None"
    using assms(4,5) v by (simp add: scan_value_def value_text_def scan_quoted_lost last_safe_value)
  then have "parse_parameters (k @ CHR ''='' # value_text v) [] = None"
    by (rule parse_parameters_value_None [OF assms(2)])
  then have "parse_message (message_text ?m) = None"
    using parse_message_parts [OF assms(1), of ?r] mt by simp
  moreover have "CHR 0x00 \<notin> set (message_text ?m)"
    using NUL_names_text [OF assms(1)] plain_verified [OF assms(2)] assms(3) mt
    by (auto simp: plain_def value_text_def Let_def)
  ultimately show ?thesis by (simp add: from_message_def takeWhile_not_in)
qed

theorem quoted_backslash_lost_witness:
  "from_message (message_text (sample_message\<lparr>f_parameters := [(''list'', [CHR '';'', backslash])]\<rparr>)) empty_message
   = (False, empty_message)"
proof (rule quoted_backslash_lost)
  show "wf_names sample_message"
    by (simp add: wf_names_def sample_message_def server_ok_def service_ok_def valid_name_def verify_name_def name_char_def char_class_defs)
qed (simp_all add: verify_name_def name_char_def char_class_defs needs_quotes_def)

section \<open>Sequences of calls\<close>

datatype message_op =
    Set_sent_from_server string | Set_sent_from_service string | Set_server string
  | Set_service string | Reply_to message | Set_command string
  | Add_parameter string string | Add_int_parameter string int | To_message

fun message_call :: "message \<Rightarrow> message_op \<Rightarrow> message result" where
  "message_call m (Set_sent_from_server n) = set_sent_from_server n m"
| "message_call m (Set_sent_from_service n) = set_sent_from_service n m"
| "message_call m (Set_server n) = set_server n m"
| "message_call m (Set_service n) = set_service n m"
| "message_call m (Reply_to msg) = reply_to msg m"
| "message_call m (Set_command c) = set_command c m"
| "message_call m (Add_parameter k v) = add_parameter k v m"
| "message_call m (Add_int_parameter k i) = add_int_parameter k i m"
| "message_call m To_message = bindE (to_message m) (\<lambda>(t, m'). Inr m')"

text \<open>
  What every sequence of calls keeps: the names are valid ones, the parameters are sorted under
  valid names, and a text in the cache is the text of the present fields.
\<close>

definition message_inv :: "message \<Rightarrow> bool" where
  "message_inv m \<longleftrightarrow>
     valid_name (f_sent_from_server m) \<and> valid_name (f_sent_from_service m)
   \<and> server_ok (f_server m) \<and> service_ok (f_service m)
   \<and> (f_command m = [] \<or> verify_name (f_command m) False False = Inr ())
   \<and> omap_ok (f_parameters m) \<and> list_all (\<lambda>(k, v). verify_name k False True = Inr ()) (f_parameters m)
   \<and> (f_cached_message m = [] \<or> f_cached_message m = message_text m \<and> f_command m \<noteq> [])"

lemma list_all_omap_put:
  "list_all P m \<Longrightarrow> P (k, v) \<Longrightarrow> list_all P (omap_put k v m)"
  using omap_put_set [of k v m] by (auto simp: list_all_iff)

lemma message_inv_empty: "message_inv empty_message"
  by (simp add: message_inv_def empty_message_def server_ok_def service_ok_def valid_name_def verify_name_def)

text \<open>What a call that returns did to the message.\<close>

lemma set_server_Inr:
  "set_server n m = Inr m' \<Longrightarrow> m' = m \<or> server_ok n \<and> m' = m\<lparr>f_server := n, f_cached_message := []\<rparr>"
  by (auto simp: set_server_def server_ok_def valid_name_def bindE_eq_Inr split: if_splits)

lemma set_service_Inr:
  "set_service n m = Inr m' \<Longrightarrow> m' = m \<or> service_ok n \<and> m' = m\<lparr>f_service := n, f_cached_message := []\<rparr>"
  by (auto simp: set_service_def service_ok_def valid_name_def bindE_eq_Inr split: if_splits)

lemma set_command_Inr:
  "set_command n m = Inr m' \<Longrightarrow>
   m' = m \<or> verify_name n False False = Inr () \<and> m' = m\<lparr>f_command := n, f_cached_message := []\<rparr>"
  by (auto simp: set_command_def bindE_eq_Inr split: if_splits)

lemma set_sent_from_server_Inr:
  "set_sent_from_server n m = Inr m' \<Longrightarrow>
   m' = m \<or> valid_name n \<and> m' = m\<lparr>f_sent_from_server := n, f_cached_message := []\<rparr>"
  by (auto simp: set_sent_from_server_def valid_name_def bindE_eq_Inr split: if_splits)

lemma set_sent_from_service_Inr:
  "set_sent_from_service n m = Inr m' \<Longrightarrow>
   m' = m \<or> valid_name n \<and> m' = m\<lparr>f_sent_from_service := n, f_cached_message := []\<rparr>"
  by (auto simp: set_sent_from_service_def valid_name_def bindE_eq_Inr split: if_splits)

lemma add_parameter_Inr:
  "add_parameter k v m = Inr m' \<Longrightarrow>
   verify_name k False True = Inr () \<and> m' = m\<lparr>f_parameters := omap_put k v (f_parameters m), f_cached_message := []\<rparr>"
  by (auto simp: add_parameter_def bindE_eq_Inr)

lemma add_int_parameter_eq: "add_int_parameter k i m = add_parameter k (show_int i) m"
  by (simp add: add_int_parameter_def add_parameter_def)

lemma to_message_Inr:
  "to_message m = Inr (t, m') \<Longrightarrow>
   m' = m \<and> t = f_cached_message m \<or> f_command m \<noteq> [] \<and> t = message_text m \<and> m' = m\<lparr>f_cached_message := message_text m\<rparr>"
  by (auto simp: to_message_def split: if_splits)

lemma message_text_cache [simp]: "message_text (m\<lparr>f_cached_message := t\<rparr>) = message_text m"
  by (simp add: message_text_def)

lemma message_inv_server: "message_inv m \<Longrightarrow> set_server n m = Inr m' \<Longrightarrow> message_inv m'"
  by (drule set_server_Inr) (auto simp: message_inv_def)

lemma message_inv_service: "message_inv m \<Longrightarrow> set_service n m = Inr m' \<Longrightarrow> message_inv m'"
  by (drule set_service_Inr) (auto simp: message_inv_def)

lemma message_inv_parameter: "message_inv m \<Longrightarrow> add_parameter k v m = Inr m' \<Longrightarrow> message_inv m'"
  by (drule add_parameter_Inr) (auto simp: message_inv_def list_all_omap_put)

lemma message_inv_call:
  assumes "message_inv m" and "message_call m c = Inr m'"
  shows "message_inv m'"
proof (cases c)
  case (Set_sent_from_server n)
  with assms show ?thesis by (auto simp: message_inv_def dest!: set_sent_from_server_Inr)
next
  case (Set_sent_from_service n)
  with assms show ?thesis by (auto simp: message_inv_def dest!: set_sent_from_service_Inr)
next
  case (Reply_to msg)
  with assms show ?thesis
    by (auto simp: reply_to_def bindE_eq_Inr dest: message_inv_server message_inv_service)
next
  case (Set_command n)
  with assms show ?thesis by (auto simp: message_inv_def dest!: set_command_Inr)
next
  case To_message
  with assms show ?thesis by (auto simp: message_inv_def bindE_eq_Inr dest!: to_message_Inr)
qed (use assms in \<open>auto simp: add_int_parameter_eq dest: message_inv_server message_inv_service message_inv_parameter\<close>)

interpretation msg: inv_machine message_call message_inv
  by unfold_locales (rule message_inv_call)

text \<open>
  The cache is never stale: after any sequence of calls on a new message, \<open>to_message()\<close>
  either raises because no command is set or returns the text of the present fields.
\<close>

theorem to_message_current:
  assumes "runE message_call empty_message cs = Inr m"
  shows "if f_command m = [] then \<exists>e. to_message m = Inl e
         else \<exists>m'. to_message m = Inr (message_text m, m')"
proof -
  have "message_inv m" by (rule msg.run_inv [OF message_inv_empty assms])
  then show ?thesis by (auto simp: message_inv_def to_message_def)
qed

theorem to_message_current_witness:
  "\<exists>m. runE message_call empty_message [Set_command ''STOP'', To_message, Set_service ''snaplock''] = Inr m
     \<and> (\<exists>m'. to_message m = Inr (message_text m, m'))"
proof -
  have r: "runE message_call empty_message [Set_command ''STOP'', To_message, Set_service ''snaplock''] =
     Inr (empty_message\<lparr>f_command := ''STOP'', f_service := ''snaplock''\<rparr>)"
    by (simp add: set_command_def set_service_def to_message_def empty_message_def verify_name_def
        name_char_def char_class_defs)
  from to_message_current [OF r] r show ?thesis by auto
qed

end
