(* ===== verification/Snaplock_Ticket.thy ===== *)
theory Snaplock_Ticket
  imports Communicator_Message
begin

text \<open>
  \<open>snaplock_ticket.cpp\<close>: one attempt to lock one object, moved forward by the messages of
  the bakery algorithm.  A ticket is a record; each member function is a function of the ticket
  that returns the new ticket and the messages it hands to the messenger.  What the C++ object
  reads through its \<open>f_snaplock\<close> pointer (the quorum, the name of the server) and from
  \<open>time()\<close> are arguments.  The theorems: the order of the ticket keys, the life cycle of a
  ticket, and which messages it can send and how often.
\<close>

section \<open>The ticket\<close>

type_synonym ticket_id_t = "32 word"
type_synonym ptr = nat
type_synonym key_map_t = "(string, ptr) omap"

text \<open>
  \<open>f_still_entering\<close> is a copy of a map of shared pointers: it holds addresses of tickets.
\<close>

record snaplock_ticket =
  f_object_name :: string
  f_obtention_timeout :: int
  f_lock_duration :: int
  f_server_name :: string
  f_service_name :: string
  f_entering_key :: string
  f_entered_count :: nat
  f_get_max_ticket :: bool
  f_max_ticket_count :: nat
  f_our_ticket :: ticket_id_t
  f_added_ticket :: bool
  f_ticket_key :: string
  f_ticket_added_count :: nat
  f_added_ticket_quorum :: bool
  f_still_entering :: key_map_t
  f_ticket_ready :: bool
  f_locked :: bool
  f_lock_timeout :: int
  f_lock_failed :: bool

definition new_ticket :: "string \<Rightarrow> string \<Rightarrow> int \<Rightarrow> int \<Rightarrow> string \<Rightarrow> string \<Rightarrow> snaplock_ticket" where
  "new_ticket object_name entering_key obtention_timeout lock_duration server_name service_name =
     \<lparr>f_object_name = object_name, f_obtention_timeout = obtention_timeout,
      f_lock_duration = lock_duration, f_server_name = server_name, f_service_name = service_name,
      f_entering_key = entering_key, f_entered_count = 0, f_get_max_ticket = False,
      f_max_ticket_count = 0, f_our_ticket = 0, f_added_ticket = False, f_ticket_key = [],
      f_ticket_added_count = 0, f_added_ticket_quorum = False, f_still_entering = [],
      f_ticket_ready = False, f_locked = False, f_lock_timeout = 0, f_lock_failed = False\<rparr>"

text \<open>A message built by a sequence of setter calls.\<close>

definition build :: "(message \<Rightarrow> message result) list \<Rightarrow> message result" where
  "build cs = foldl bindE (Inr empty_message) cs"

definition send :: "(message \<Rightarrow> message result) list \<Rightarrow> 'a \<Rightarrow> ('a \<times> message list) result" where
  "send cs t = bindE (build cs) (\<lambda>m. Inr (t, [m]))"

type_synonym 'a sending = "('a \<times> message list) result"

section \<open>Ticket keys\<close>

text \<open>
  \<open>QString::arg(n, 8, 16, '0')\<close>: the hexadecimal digits of the number, filled on the left
  with zeroes up to eight characters.
\<close>

fun show_hex :: "nat \<Rightarrow> string" where
  "show_hex n = (if n < 16 then [to_hex n] else show_hex (n div 16) @ [to_hex (n mod 16)])"

declare show_hex.simps [simp del]

definition pad8 :: "string \<Rightarrow> string" where
  "pad8 s = replicate (8 - length s) (CHR ''0'') @ s"

definition ticket_key :: "ticket_id_t \<Rightarrow> string \<Rightarrow> string" where
  "ticket_key ticket entering_key = pad8 (show_hex (unat ticket)) @ ''/'' @ entering_key"

section \<open>Member functions\<close>

definition ticket_entering :: "snaplock_ticket \<Rightarrow> snaplock_ticket sending" where
  "ticket_entering t = send
     [set_command ''LOCKENTERING'',
      set_service ''*'',
      add_parameter ''object_name'' (f_object_name t),
      add_parameter ''key'' (f_entering_key t),
      add_int_parameter ''timeout'' (f_obtention_timeout t),
      add_int_parameter ''duration'' (f_lock_duration t),
      add_parameter ''source'' (f_server_name t @ ''/'' @ f_service_name t)] t"

definition ticket_entered :: "nat \<Rightarrow> snaplock_ticket \<Rightarrow> snaplock_ticket sending" where
  "ticket_entered quorum t =
     (if \<not> f_get_max_ticket t then
        let t1 = t\<lparr>f_entered_count := f_entered_count t + 1\<rparr> in
        if f_entered_count t1 \<ge> quorum then
          send [set_command ''GETMAXTICKET'',
                set_service ''*'',
                add_parameter ''object_name'' (f_object_name t),
                add_parameter ''key'' (f_entering_key t)]
            (t1\<lparr>f_get_max_ticket := True\<rparr>)
        else Inr (t1, [])
      else Inr (t, []))"

definition ticket_add_ticket :: "snaplock_ticket \<Rightarrow> snaplock_ticket sending" where
  "ticket_add_ticket t =
     (if f_added_ticket t
      then Inl (Logic_Error ''snaplock_ticket::add_ticket() called more than once.'')
      else
        let t1 = t\<lparr>f_added_ticket := True, f_ticket_key := ticket_key (f_our_ticket t) (f_entering_key t)\<rparr> in
        send [set_command ''ADDTICKET'',
              set_service ''*'',
              add_parameter ''object_name'' (f_object_name t1),
              add_parameter ''key'' (f_ticket_key t1),
              add_int_parameter ''timeout'' (f_obtention_timeout t1)] t1)"

text \<open>
  \<open>new_max_ticket\<close> is an \<open>int64_t\<close>: the comparison widens the 32-bit ticket, the
  assignment truncates the parameter, the increment wraps.
\<close>

definition ticket_max_ticket :: "nat \<Rightarrow> int \<Rightarrow> snaplock_ticket \<Rightarrow> snaplock_ticket sending" where
  "ticket_max_ticket quorum new_max_ticket t =
     (if \<not> f_added_ticket t then
        let t1 = (if new_max_ticket > uint (f_our_ticket t)
                  then t\<lparr>f_our_ticket := word_of_int new_max_ticket\<rparr> else t);
            t2 = t1\<lparr>f_max_ticket_count := f_max_ticket_count t1 + 1\<rparr> in
        if f_max_ticket_count t2 \<ge> quorum
        then ticket_add_ticket (t2\<lparr>f_our_ticket := f_our_ticket t2 + 1\<rparr>)
        else Inr (t2, [])
      else Inr (t, []))"

definition ticket_exiting :: "snaplock_ticket \<Rightarrow> snaplock_ticket sending" where
  "ticket_exiting t = send
     [set_command ''LOCKEXITING'',
      set_service ''*'',
      add_parameter ''object_name'' (f_object_name t),
      add_parameter ''key'' (f_entering_key t)] t"

definition ticket_ticket_added :: "nat \<Rightarrow> key_map_t \<Rightarrow> snaplock_ticket \<Rightarrow> snaplock_ticket sending" where
  "ticket_ticket_added quorum still_entering t =
     (if \<not> f_added_ticket_quorum t then
        let t1 = t\<lparr>f_ticket_added_count := f_ticket_added_count t + 1\<rparr> in
        if f_ticket_added_count t1 \<ge> quorum then
          bindE (ticket_exiting (t1\<lparr>f_added_ticket_quorum := True\<rparr>)) (\<lambda>(t2, ms).
            Inr (t2\<lparr>f_still_entering := still_entering\<rparr>, ms))
        else Inr (t1, [])
      else Inr (t, []))"

text \<open>\<open>timed p\<close> says whether the ticket at address \<open>p\<close> timed out.\<close>

definition ticket_remove_entering :: "(ptr \<Rightarrow> bool) \<Rightarrow> string \<Rightarrow> snaplock_ticket \<Rightarrow> snaplock_ticket" where
  "ticket_remove_entering timed key t =
     (if f_added_ticket_quorum t \<and> \<not> f_ticket_ready t then
        (case omap_get (f_still_entering t) key of
           None \<Rightarrow> t
         | Some _ \<Rightarrow>
             let rest = filter (\<lambda>(k, p). \<not> timed p) (omap_erase key (f_still_entering t)) in
             if rest = [] then t\<lparr>f_still_entering := rest, f_ticket_ready := True\<rparr>
             else t\<lparr>f_still_entering := rest\<rparr>)
      else t)"

definition ticket_activate_lock :: "int \<Rightarrow> string \<Rightarrow> nat \<Rightarrow> snaplock_ticket \<Rightarrow> snaplock_ticket sending" where
  "ticket_activate_lock now server quorum t =
     (if f_ticket_ready t \<and> \<not> f_locked t \<and> \<not> f_lock_failed t
       \<and> f_service_name t \<noteq> [] \<and> f_server_name t = server then
        let t1 = t\<lparr>f_locked := True, f_lock_timeout := f_lock_duration t + now\<rparr> in
        send [set_command ''LOCKED'',
              set_server (f_server_name t1),
              set_service (f_service_name t1),
              add_parameter ''object_name'' (f_object_name t1),
              add_int_parameter ''timeout_date'' (f_lock_timeout t1),
              add_int_parameter ''quorum'' (int quorum)] t1
      else Inr (t, []))"

definition ticket_drop_ticket :: "string \<Rightarrow> snaplock_ticket \<Rightarrow> snaplock_ticket sending" where
  "ticket_drop_ticket server t =
     bindE (build [set_command ''DROPTICKET'',
                   set_service ''*'',
                   add_parameter ''object_name'' (f_object_name t),
                   add_parameter ''key'' (if f_ticket_key t = [] then f_entering_key t else f_ticket_key t)]) (\<lambda>m1.
     if f_service_name t \<noteq> [] \<and> f_server_name t = server then
       bindE (build [set_command ''UNLOCKED'',
                     set_server (f_server_name t),
                     set_service (f_service_name t),
                     add_parameter ''object_name'' (f_object_name t)]) (\<lambda>m2.
       Inr (t, [m1, m2]))
     else Inr (t, [m1]))"

definition ticket_timed_out :: "int \<Rightarrow> snaplock_ticket \<Rightarrow> bool" where
  "ticket_timed_out now t \<longleftrightarrow> (if f_locked t then f_lock_timeout t else f_obtention_timeout t) < now"

definition ticket_lock_failed :: "string \<Rightarrow> snaplock_ticket \<Rightarrow> snaplock_ticket sending" where
  "ticket_lock_failed server t =
     (if \<not> f_lock_failed t \<and> f_service_name t \<noteq> [] \<and> f_server_name t = server then
        let t1 = t\<lparr>f_lock_failed := True\<rparr> in
        if f_locked t1 then
          send [set_command ''UNLOCKED'',
                set_server (f_server_name t1),
                set_service (f_service_name t1),
                add_parameter ''object_name'' (f_object_name t1),
                add_parameter ''error'' ''timedout''] t1
        else
          send [set_command ''LOCKFAILED'',
                set_server (f_server_name t1),
                set_service (f_service_name t1),
                add_parameter ''object_name'' (f_object_name t1),
                add_parameter ''error'' ''failed''] t1
      else Inr (t, []))"

lemmas ticket_op_defs = ticket_entering_def ticket_entered_def ticket_add_ticket_def
  ticket_max_ticket_def ticket_exiting_def ticket_ticket_added_def ticket_remove_entering_def
  ticket_activate_lock_def ticket_drop_ticket_def ticket_lock_failed_def

section \<open>The order of the keys\<close>

text \<open>The digits of a number at a fixed width, least significant last.\<close>

fun hex_digits :: "nat \<Rightarrow> nat \<Rightarrow> string" where
  "hex_digits 0 n = []"
| "hex_digits (Suc w) n = hex_digits w (n div 16) @ [to_hex (n mod 16)]"

lemma length_hex_digits [simp]: "length (hex_digits w n) = w"
  by (induction w arbitrary: n) auto

lemma to_hex_less: "a < b \<Longrightarrow> b < 16 \<Longrightarrow> to_hex a < to_hex b"
  by (auto simp: to_hex_def less_char_def)

lemma to_hex_0: "to_hex 0 = CHR ''0''"
  by code_simp

lemma hex_digits_0: "hex_digits w 0 = replicate w (CHR ''0'')"
  by (induction w) (auto simp: to_hex_0 replicate_append_same)

lemma length_show_hex: "n < 16 ^ Suc w \<Longrightarrow> length (show_hex n) \<le> Suc w"
proof (induction w arbitrary: n)
  case 0
  then show ?case by (simp add: show_hex.simps)
next
  case (Suc w)
  show ?case
  proof (cases "n < 16")
    case True
    then show ?thesis by (simp add: show_hex.simps)
  next
    case False
    have "n div 16 < 16 ^ Suc w" using Suc.prems by (simp add: less_mult_imp_div_less mult.commute)
    then have "length (show_hex (n div 16)) \<le> Suc w" by (rule Suc.IH)
    with False show ?thesis by (simp add: show_hex.simps [of n])
  qed
qed

lemma hex_digits_show_hex:
  "n < 16 ^ Suc w \<Longrightarrow> replicate (Suc w - length (show_hex n)) (CHR ''0'') @ show_hex n = hex_digits (Suc w) n"
proof (induction w arbitrary: n)
  case 0
  then show ?case by (simp add: show_hex.simps)
next
  case (Suc w)
  show ?case
  proof (cases "n < 16")
    case True
    then have "show_hex n = [to_hex n]" by (simp add: show_hex.simps [of n])
    moreover have "hex_digits (Suc (Suc w)) n = hex_digits (Suc w) 0 @ [to_hex n]"
      unfolding hex_digits.simps(2) [of "Suc w" n] using True by simp
    ultimately show ?thesis by (simp del: hex_digits.simps(2) add: hex_digits_0)
  next
    case False
    have n: "n div 16 < 16 ^ Suc w" using Suc.prems by (simp add: less_mult_imp_div_less mult.commute)
    have "Suc (Suc w) - length (show_hex n) = Suc w - length (show_hex (n div 16))"
      using False by (simp add: show_hex.simps [of n])
    with False Suc.IH [OF n] show ?thesis by (simp add: show_hex.simps [of n])
  qed
qed

lemma pad8_hex_digits: "pad8 (show_hex (unat (w :: ticket_id_t))) = hex_digits 8 (unat w)"
proof -
  have "unat w < 16 ^ Suc 7" using unsigned_less [of w] by simp
  moreover have "Suc 7 = 8" by simp
  ultimately show ?thesis using hex_digits_show_hex [of "unat w" 7] by (simp only: pad8_def)
qed

lemma append_less_prefix:
  "(a :: 'a::linorder list) < b \<Longrightarrow> length a = length b \<Longrightarrow> a @ x < b @ y"
proof (induction a arbitrary: b)
  case Nil
  then show ?case by simp
next
  case (Cons c a)
  then show ?case by (cases b) auto
qed

lemma append_less_same: "(a @ x < a @ (y :: 'a::linorder list)) \<longleftrightarrow> x < y"
  by (induction a) auto

lemma hex_digits_less: "n < m \<Longrightarrow> m < 16 ^ w \<Longrightarrow> hex_digits w n < hex_digits w m"
proof (induction w arbitrary: n m)
  case 0
  then show ?case by simp
next
  case (Suc w)
  have m: "m div 16 < 16 ^ w" using Suc.prems by (simp add: less_mult_imp_div_less mult.commute)
  show ?case
  proof (cases "n div 16 < m div 16")
    case True
    then have "hex_digits w (n div 16) < hex_digits w (m div 16)" using m by (rule Suc.IH)
    then show ?thesis by (simp add: append_less_prefix)
  next
    case False
    have le: "n div 16 \<le> m div 16" using Suc.prems(1) by (simp add: div_le_mono)
    with False have eq: "n div 16 = m div 16" by simp
    have "n mod 16 < m mod 16"
    proof -
      have "n = n div 16 * 16 + n mod 16" "m = m div 16 * 16 + m mod 16" by simp_all
      with eq Suc.prems(1) show ?thesis by linarith
    qed
    then have "to_hex (n mod 16) < to_hex (m mod 16)" by (intro to_hex_less) simp_all
    with eq show ?thesis by (simp add: append_less_same)
  qed
qed

lemma ticket_key_less_number: "a < b \<Longrightarrow> ticket_key a k < ticket_key b l"
proof -
  assume "a < b"
  then have "hex_digits 8 (unat a) < hex_digits 8 (unat b)"
    using unsigned_less [of b] by (intro hex_digits_less) (simp_all add: word_less_nat_alt)
  then show ?thesis by (simp add: ticket_key_def pad8_hex_digits append_less_prefix)
qed

lemma ticket_key_same: "ticket_key a k < ticket_key a l \<longleftrightarrow> k < l"
  by (simp add: ticket_key_def append_less_same)

lemma ticket_key_inject: "ticket_key a k = ticket_key b l \<longleftrightarrow> a = b \<and> k = l"
proof
  assume eq: "ticket_key a k = ticket_key b l"
  then have "a = b" by (metis less_irrefl linorder_neqE ticket_key_less_number)
  with eq show "a = b \<and> k = l" by (simp add: ticket_key_def)
qed simp

text \<open>
  The string order of the ticket keys, by which \<open>std::map\<close> keeps the tickets, is the order
  of the bakery algorithm: the smaller ticket number first (as a number, for all 32-bit values),
  and between equal numbers the smaller entering key (server name, then process).
\<close>

theorem ticket_key_order:
  "ticket_key a k < ticket_key b l \<longleftrightarrow> a < b \<or> a = b \<and> k < l"
proof (cases a b rule: linorder_cases)
  case less
  then show ?thesis by (simp add: ticket_key_less_number)
next
  case equal
  then show ?thesis by (simp add: ticket_key_same)
next
  case greater
  then have "ticket_key b l < ticket_key a k" by (rule ticket_key_less_number)
  then have "\<not> ticket_key a k < ticket_key b l" by simp
  with greater show ?thesis by auto
qed

lemma ticket_key_not_Nil [simp]: "ticket_key a k \<noteq> []"
  by (simp add: ticket_key_def)

section \<open>What a ticket sends\<close>

text \<open>The command of a message and its \<open>error\<close> parameter.\<close>

definition tag :: "message \<Rightarrow> string \<times> string option" where
  "tag m = (f_command m, omap_get (f_parameters m) ''error'')"

definition retags :: "(message \<Rightarrow> message result) \<Rightarrow> (string \<times> string option \<Rightarrow> string \<times> string option) \<Rightarrow> bool" where
  "retags c g \<longleftrightarrow> (\<forall>m m'. c m = Inr m' \<longrightarrow> tag m' = g (tag m))"

lemma retags_set_command: "retags (set_command c) (\<lambda>(x, e). (c, e))"
  by (auto simp: retags_def tag_def set_command_def result_simps split: if_splits)

lemma retags_set_server: "retags (set_server n) id"
  by (auto simp: retags_def tag_def set_server_def result_simps split: if_splits)

lemma retags_set_service: "retags (set_service n) id"
  by (auto simp: retags_def tag_def set_service_def result_simps split: if_splits)

lemma retags_add_parameter: "k \<noteq> ''error'' \<Longrightarrow> retags (add_parameter k v) id"
  by (auto simp: retags_def tag_def add_parameter_def result_simps omap_simps)

lemma retags_add_error: "retags (add_parameter ''error'' v) (\<lambda>(x, e). (x, Some v))"
  by (auto simp: retags_def tag_def add_parameter_def result_simps omap_simps)

lemma retags_add_int_parameter: "k \<noteq> ''error'' \<Longrightarrow> retags (add_int_parameter k v) id"
  using retags_add_parameter [of k "show_int v"] by (simp add: retags_def add_int_parameter_eq)

lemmas retags_intros = retags_set_command retags_set_server retags_set_service
  retags_add_parameter retags_add_error retags_add_int_parameter

lemma foldl_bindE_Inl [simp]: "foldl bindE (Inl e) cs = Inl e"
  by (induction cs) auto

lemma foldl_tag:
  "foldl bindE (Inr m0) cs = Inr m \<Longrightarrow> list_all2 retags cs gs \<Longrightarrow> tag m = fold (\<lambda>g x. g x) gs (tag m0)"
proof (induction cs arbitrary: m0 gs)
  case Nil
  then show ?case by simp
next
  case (Cons c cs)
  then obtain g gs' where gs: "gs = g # gs'" "retags c g" "list_all2 retags cs gs'"
    by (auto simp: list_all2_Cons1)
  show ?case
  proof (cases "c m0")
    case (Inl e)
    with Cons.prems show ?thesis by simp
  next
    case (Inr m1)
    with Cons.prems(1) have "foldl bindE (Inr m1) cs = Inr m" by simp
    then have "tag m = fold (\<lambda>g x. g x) gs' (tag m1)" using gs(3) by (rule Cons.IH)
    moreover have "tag m1 = g (tag m0)" using gs(2) Inr by (simp add: retags_def)
    ultimately show ?thesis by (simp add: gs(1))
  qed
qed

lemma build_tag:
  "build cs = Inr m \<Longrightarrow> list_all2 retags cs gs \<Longrightarrow> tag m = fold (\<lambda>g x. g x) gs ([], None)"
  unfolding build_def by (drule foldl_tag) (simp_all add: tag_def empty_message_def)

lemma send_Inr: "send cs t = Inr (t', out) \<longleftrightarrow> t' = t \<and> (\<exists>m. build cs = Inr m \<and> out = [m])"
  by (auto simp: send_def result_simps)

definition sends :: "(string \<times> string option) list \<Rightarrow> (message \<Rightarrow> message result) list \<Rightarrow> bool" where
  "sends tags cs \<longleftrightarrow> (\<forall>m. build cs = Inr m \<longrightarrow> map tag [m] = tags)"

lemma send_sends: "send cs t = Inr (t', out) \<Longrightarrow> sends tags cs \<Longrightarrow> t' = t \<and> map tag out = tags"
  by (auto simp: send_Inr sends_def)

lemma sends_build:
  "list_all2 retags cs gs \<Longrightarrow> tags = [fold (\<lambda>g x. g x) gs ([], None)] \<Longrightarrow> sends tags cs"
  using build_tag by (auto simp: sends_def)

lemma sends_simple:
  "list_all2 retags cs (replicate (length cs) id) \<Longrightarrow> sends [(c, None)] (set_command c # cs)"
proof (rule sends_build)
  assume "list_all2 retags cs (replicate (length cs) id)"
  then show "list_all2 retags (set_command c # cs) ((\<lambda>(x, e). (c, e)) # replicate (length cs) id)"
    by (simp add: retags_set_command)
  have "fold (\<lambda>g x. g x) (replicate n id) y = y" for n and y :: "'a"
    by (induction n) auto
  then show "[(c, None)] = [fold (\<lambda>g x. g x) ((\<lambda>(x, e). (c, e)) # replicate (length cs) id) ([], None)]"
    by simp
qed

lemma sends_error:
  "list_all2 retags cs (replicate (length cs) id) \<Longrightarrow>
   sends [(c, Some v)] (set_command c # cs @ [add_parameter ''error'' v])"
proof (rule sends_build)
  assume "list_all2 retags cs (replicate (length cs) id)"
  then show "list_all2 retags (set_command c # cs @ [add_parameter ''error'' v])
     ((\<lambda>(x, e). (c, e)) # replicate (length cs) id @ [\<lambda>(x, e). (x, Some v)])"
    by (simp add: retags_set_command retags_add_error list_all2_appendI)
  have "fold (\<lambda>g x. g x) (replicate n id) y = y" for n and y :: "'a"
    by (induction n) auto
  then show "[(c, Some v)] = [fold (\<lambda>g x. g x)
     ((\<lambda>(x, e). (c, e)) # replicate (length cs) id @ [\<lambda>(x, e). (x, Some v)]) ([], None)]"
    by simp
qed

text \<open>The seven shapes of message of this file, by their tags.\<close>

lemma send_broadcast2:
  "send [set_command c, set_service d, add_parameter ''object_name'' a, add_parameter ''key'' b] t = Inr (t', out)
   \<Longrightarrow> t' = t \<and> map tag out = [(c, None)]"
  by (erule send_sends, rule sends_simple) (simp add: retags_intros)

lemma send_broadcast3:
  "send [set_command c, set_service d, add_parameter ''object_name'' a, add_parameter ''key'' b,
     add_int_parameter ''timeout'' i] t = Inr (t', out)
   \<Longrightarrow> t' = t \<and> map tag out = [(c, None)]"
  by (erule send_sends, rule sends_simple) (simp add: retags_intros)

lemma send_entering:
  "send [set_command c, set_service d, add_parameter ''object_name'' a, add_parameter ''key'' b,
     add_int_parameter ''timeout'' i, add_int_parameter ''duration'' j, add_parameter ''source'' e] t = Inr (t', out)
   \<Longrightarrow> t' = t \<and> map tag out = [(c, None)]"
  by (erule send_sends, rule sends_simple) (simp add: retags_intros)

lemma send_locked:
  "send [set_command c, set_server w, set_service d, add_parameter ''object_name'' a,
     add_int_parameter ''timeout_date'' i, add_int_parameter ''quorum'' j] t = Inr (t', out)
   \<Longrightarrow> t' = t \<and> map tag out = [(c, None)]"
  by (erule send_sends, rule sends_simple) (simp add: retags_intros)

lemma send_failed:
  "send [set_command c, set_server w, set_service d, add_parameter ''object_name'' a,
     add_parameter ''error'' e] t = Inr (t', out)
   \<Longrightarrow> t' = t \<and> map tag out = [(c, Some e)]"
  by (erule send_sends, use sends_error [of "[set_server w, set_service d, add_parameter ''object_name'' a]"] in
    \<open>simp add: retags_intros\<close>)

lemma build_drop:
  "build [set_command c, set_service d, add_parameter ''object_name'' a, add_parameter ''key'' b] = Inr m
   \<Longrightarrow> tag m = (c, None)"
  using send_broadcast2 [of c d a b "()"] by (simp add: send_def)

lemma build_unlocked:
  "build [set_command c, set_server w, set_service d, add_parameter ''object_name'' a] = Inr m
   \<Longrightarrow> tag m = (c, None)"
  using sends_simple [of "[set_server w, set_service d, add_parameter ''object_name'' a]" c]
  by (simp add: sends_def retags_intros)

lemmas send_dests = send_broadcast2 send_broadcast3 send_entering send_locked send_failed
  build_drop build_unlocked

section \<open>The life of a ticket\<close>

text \<open>
  The calls the daemon makes on a ticket.  \<open>exiting()\<close> is only called by
  \<open>ticket_added()\<close> and \<open>add_ticket()\<close> only by \<open>max_ticket()\<close>.
\<close>

datatype ticket_event =
    Entering
  | Entered nat
  | Max_Ticket nat int
  | Ticket_Added nat key_map_t
  | Remove_Entering "ptr \<Rightarrow> bool" string
  | Activate_Lock int string nat
  | Drop_Ticket string
  | Lock_Failed string

fun ticket_call :: "snaplock_ticket \<Rightarrow> ticket_event \<Rightarrow> snaplock_ticket sending" where
  "ticket_call t Entering = ticket_entering t"
| "ticket_call t (Entered q) = ticket_entered q t"
| "ticket_call t (Max_Ticket q n) = ticket_max_ticket q n t"
| "ticket_call t (Ticket_Added q still) = ticket_ticket_added q still t"
| "ticket_call t (Remove_Entering timed key) = Inr (ticket_remove_entering timed key t, [])"
| "ticket_call t (Activate_Lock now srv q) = ticket_activate_lock now srv q t"
| "ticket_call t (Drop_Ticket srv) = ticket_drop_ticket srv t"
| "ticket_call t (Lock_Failed srv) = ticket_lock_failed srv t"

definition ticket_step :: "snaplock_ticket \<times> message list \<Rightarrow> ticket_event \<Rightarrow> (snaplock_ticket \<times> message list) result" where
  "ticket_step = (\<lambda>(t, ms) ev. bindE (ticket_call t ev) (\<lambda>(t', out). Inr (t', ms @ out)))"

definition sent_count :: "string \<Rightarrow> message list \<Rightarrow> nat" where
  "sent_count c ms = length (filter (\<lambda>m. f_command m = c) ms)"

definition is_failure :: "message \<Rightarrow> bool" where
  "is_failure m \<longleftrightarrow> omap_get (f_parameters m) ''error'' \<noteq> None"

definition failure_count :: "message list \<Rightarrow> nat" where
  "failure_count ms = length (filter is_failure ms)"

text \<open>The stages of the ticket are entered in order.\<close>

definition stages_ok :: "snaplock_ticket \<Rightarrow> bool" where
  "stages_ok t \<longleftrightarrow>
     (if f_added_ticket t then f_ticket_key t = ticket_key (f_our_ticket t) (f_entering_key t)
      else f_ticket_key t = [])
   \<and> (f_ticket_ready t \<longrightarrow> f_added_ticket_quorum t \<and> f_still_entering t = [])
   \<and> (f_locked t \<longrightarrow> f_ticket_ready t)
   \<and> (\<not> f_locked t \<longrightarrow> f_lock_timeout t = 0)"

definition sent_ok :: "snaplock_ticket \<times> message list \<Rightarrow> bool" where
  "sent_ok = (\<lambda>(t, ms).
     sent_count ''GETMAXTICKET'' ms = of_bool (f_get_max_ticket t)
   \<and> sent_count ''ADDTICKET'' ms = of_bool (f_added_ticket t)
   \<and> sent_count ''LOCKEXITING'' ms = of_bool (f_added_ticket_quorum t)
   \<and> sent_count ''LOCKED'' ms = of_bool (f_locked t)
   \<and> failure_count ms = of_bool (f_lock_failed t)
   \<and> sent_count ''LOCKFAILED'' ms \<le> failure_count ms
   \<and> sent_count ''LOCKED'' ms + sent_count ''LOCKFAILED'' ms \<le> 1)"

lemma sent_count_append [simp]: "sent_count c (ms @ out) = sent_count c ms + sent_count c out"
  by (simp add: sent_count_def)

lemma failure_count_append [simp]: "failure_count (ms @ out) = failure_count ms + failure_count out"
  by (simp add: failure_count_def)

definition tag_count :: "string \<Rightarrow> (string \<times> string option) list \<Rightarrow> nat" where
  "tag_count c ts = sum_list (map (\<lambda>t. of_bool (fst t = c)) ts)"

definition tag_failures :: "(string \<times> string option) list \<Rightarrow> nat" where
  "tag_failures ts = sum_list (map (\<lambda>t. of_bool (snd t \<noteq> None)) ts)"

lemma sent_count_tags: "map tag out = ts \<Longrightarrow> sent_count c out = tag_count c ts"
  by (induction out arbitrary: ts) (auto simp: sent_count_def tag_count_def tag_def)

lemma failure_count_tags: "map tag out = ts \<Longrightarrow> failure_count out = tag_failures ts"
  by (induction out arbitrary: ts) (auto simp: failure_count_def is_failure_def tag_failures_def tag_def)

lemma stages_ok_new: "stages_ok (new_ticket ob k to du se sv)"
  by (simp add: stages_ok_def new_ticket_def)

lemma sent_ok_new: "sent_ok (new_ticket ob k to du se sv, [])"
  by (simp add: sent_ok_def new_ticket_def sent_count_def failure_count_def)

text \<open>
  How one call changes the flags of the ticket, and the tags of what it sends.
\<close>

definition rose :: "bool \<Rightarrow> bool \<Rightarrow> string \<times> string option \<Rightarrow> (string \<times> string option) list" where
  "rose b b' g = (if \<not> b \<and> b' then [g] else [])"

lemma call_entering:
  "ticket_call t Entering = Inr (t', out) \<Longrightarrow> t' = t \<and> map tag out = [(''LOCKENTERING'', None)]"
  by (auto simp: ticket_entering_def dest: send_dests)

lemma call_entered:
  "ticket_call t (Entered q) = Inr (t', out) \<Longrightarrow>
     t' = t\<lparr>f_entered_count := f_entered_count t', f_get_max_ticket := f_get_max_ticket t'\<rparr>
   \<and> (f_get_max_ticket t \<longrightarrow> t' = t)
   \<and> map tag out = rose (f_get_max_ticket t) (f_get_max_ticket t') (''GETMAXTICKET'', None)"
  by (auto simp: ticket_entered_def Let_def rose_def dest!: send_dests split: if_splits)

lemma call_max_ticket:
  "ticket_call t (Max_Ticket q n) = Inr (t', out) \<Longrightarrow>
     t' = t\<lparr>f_our_ticket := f_our_ticket t', f_max_ticket_count := f_max_ticket_count t',
           f_added_ticket := f_added_ticket t', f_ticket_key := f_ticket_key t'\<rparr>
   \<and> (f_added_ticket t \<longrightarrow> t' = t)
   \<and> (\<not> f_added_ticket t' \<longrightarrow> f_ticket_key t' = f_ticket_key t)
   \<and> (\<not> f_added_ticket t \<and> f_added_ticket t' \<longrightarrow> f_ticket_key t' = ticket_key (f_our_ticket t') (f_entering_key t))
   \<and> map tag out = rose (f_added_ticket t) (f_added_ticket t') (''ADDTICKET'', None)"
  by (auto simp: ticket_max_ticket_def ticket_add_ticket_def Let_def rose_def dest!: send_dests split: if_splits)

lemma call_ticket_added:
  "ticket_call t (Ticket_Added q still) = Inr (t', out) \<Longrightarrow>
     t' = t\<lparr>f_ticket_added_count := f_ticket_added_count t', f_added_ticket_quorum := f_added_ticket_quorum t',
           f_still_entering := f_still_entering t'\<rparr>
   \<and> (f_added_ticket_quorum t \<longrightarrow> t' = t)
   \<and> map tag out = rose (f_added_ticket_quorum t) (f_added_ticket_quorum t') (''LOCKEXITING'', None)"
  by (auto simp: ticket_ticket_added_def ticket_exiting_def Let_def rose_def result_simps dest!: send_dests split: if_splits)

lemma call_remove_entering:
  "ticket_call t (Remove_Entering timed key) = Inr (t', out) \<Longrightarrow>
     t' = t\<lparr>f_still_entering := f_still_entering t', f_ticket_ready := f_ticket_ready t'\<rparr>
   \<and> (f_ticket_ready t \<longrightarrow> t' = t)
   \<and> (\<not> f_ticket_ready t \<and> f_ticket_ready t' \<longrightarrow> f_added_ticket_quorum t \<and> f_still_entering t' = [])
   \<and> out = []"
  by (auto simp: ticket_remove_entering_def Let_def split: if_splits option.splits)

lemma call_activate_lock:
  "ticket_call t (Activate_Lock now srv q) = Inr (t', out) \<Longrightarrow>
     t' = t\<lparr>f_locked := f_locked t', f_lock_timeout := f_lock_timeout t'\<rparr>
   \<and> (f_locked t \<longrightarrow> t' = t) \<and> (\<not> f_locked t' \<longrightarrow> t' = t)
   \<and> (\<not> f_locked t \<and> f_locked t' \<longrightarrow> f_ticket_ready t \<and> \<not> f_lock_failed t)
   \<and> map tag out = rose (f_locked t) (f_locked t') (''LOCKED'', None)"
  by (auto simp: ticket_activate_lock_def Let_def rose_def dest!: send_dests split: if_splits)

lemma call_drop_ticket:
  "ticket_call t (Drop_Ticket srv) = Inr (t', out) \<Longrightarrow>
     t' = t \<and> map tag out \<in> {[(''DROPTICKET'', None)], [(''DROPTICKET'', None), (''UNLOCKED'', None)]}"
  by (auto simp: ticket_drop_ticket_def result_simps dest!: send_dests split: if_splits)

lemma call_lock_failed:
  "ticket_call t (Lock_Failed srv) = Inr (t', out) \<Longrightarrow>
     t' = t\<lparr>f_lock_failed := f_lock_failed t'\<rparr> \<and> (f_lock_failed t \<longrightarrow> t' = t)
   \<and> map tag out = rose (f_lock_failed t) (f_lock_failed t')
       (if f_locked t then (''UNLOCKED'', Some ''timedout'') else (''LOCKFAILED'', Some ''failed''))"
  by (auto simp: ticket_lock_failed_def Let_def rose_def dest!: send_dests split: if_splits)

text \<open>
  The order in which a ticket moves: its identity does not change, its flags only rise, its
  number and key are fixed once added, its lock date once locked, and what was sent stays sent.
\<close>

definition ticket_le :: "snaplock_ticket \<Rightarrow> snaplock_ticket \<Rightarrow> bool" where
  "ticket_le t t' \<longleftrightarrow>
     f_object_name t' = f_object_name t \<and> f_entering_key t' = f_entering_key t
   \<and> f_obtention_timeout t' = f_obtention_timeout t \<and> f_lock_duration t' = f_lock_duration t
   \<and> f_server_name t' = f_server_name t \<and> f_service_name t' = f_service_name t
   \<and> (f_get_max_ticket t \<longrightarrow> f_get_max_ticket t')
   \<and> (f_added_ticket t \<longrightarrow> f_added_ticket t' \<and> f_our_ticket t' = f_our_ticket t \<and> f_ticket_key t' = f_ticket_key t)
   \<and> (f_added_ticket_quorum t \<longrightarrow> f_added_ticket_quorum t')
   \<and> (f_ticket_ready t \<longrightarrow> f_ticket_ready t')
   \<and> (f_locked t \<longrightarrow> f_locked t' \<and> f_lock_timeout t' = f_lock_timeout t)
   \<and> (f_lock_failed t \<longrightarrow> f_lock_failed t')"

lemma ticket_le_refl: "ticket_le t t"
  by (simp add: ticket_le_def)

lemma ticket_le_trans: "ticket_le t u \<Longrightarrow> ticket_le u v \<Longrightarrow> ticket_le t v"
  by (simp add: ticket_le_def)

lemma ticket_le_update:
  "ticket_le t (t\<lparr>f_entered_count := a, f_get_max_ticket := b\<rparr>) \<longleftrightarrow> (f_get_max_ticket t \<longrightarrow> b)"
  "ticket_le t (t\<lparr>f_ticket_added_count := a, f_added_ticket_quorum := b, f_still_entering := c\<rparr>) \<longleftrightarrow> (f_added_ticket_quorum t \<longrightarrow> b)"
  "ticket_le t (t\<lparr>f_still_entering := c, f_ticket_ready := b\<rparr>) \<longleftrightarrow> (f_ticket_ready t \<longrightarrow> b)"
  "ticket_le t (t\<lparr>f_locked := b, f_lock_timeout := i\<rparr>) \<longleftrightarrow> (f_locked t \<longrightarrow> b \<and> i = f_lock_timeout t)"
  "ticket_le t (t\<lparr>f_lock_failed := b\<rparr>) \<longleftrightarrow> (f_lock_failed t \<longrightarrow> b)"
  by (auto simp: ticket_le_def)

lemma ticket_call_le: "ticket_call t ev = Inr (t', out) \<Longrightarrow> ticket_le t t'"
proof (cases ev)
  case (Entered q)
  assume "ticket_call t ev = Inr (t', out)"
  with Entered show ?thesis using call_entered [of t q t' out] ticket_le_update(1)
    by (metis ticket_le_refl)
next
  case (Max_Ticket q n)
  assume "ticket_call t ev = Inr (t', out)"
  with Max_Ticket have c: "f_added_ticket t \<longrightarrow> t' = t"
    "t' = t\<lparr>f_our_ticket := f_our_ticket t', f_max_ticket_count := f_max_ticket_count t',
           f_added_ticket := f_added_ticket t', f_ticket_key := f_ticket_key t'\<rparr>"
    using call_max_ticket [of t q n t' out] by blast+
  show ?thesis
  proof (cases "f_added_ticket t")
    case True
    with c(1) show ?thesis by (simp add: ticket_le_refl)
  next
    case False
    then show ?thesis by (subst c(2)) (simp add: ticket_le_def)
  qed
next
  case (Ticket_Added q still)
  assume "ticket_call t ev = Inr (t', out)"
  with Ticket_Added show ?thesis using call_ticket_added [of t q still t' out] ticket_le_update(2)
    by (metis ticket_le_refl)
next
  case (Remove_Entering timed key)
  assume "ticket_call t ev = Inr (t', out)"
  with Remove_Entering show ?thesis using call_remove_entering [of t timed key t' out] ticket_le_update(3)
    by (metis ticket_le_refl)
next
  case (Activate_Lock now srv q)
  assume "ticket_call t ev = Inr (t', out)"
  with Activate_Lock show ?thesis using call_activate_lock [of t now srv q t' out] ticket_le_update(4)
    by (metis ticket_le_refl)
next
  case (Lock_Failed srv)
  assume "ticket_call t ev = Inr (t', out)"
  with Lock_Failed show ?thesis using call_lock_failed [of t srv t' out] ticket_le_update(5)
    by (metis ticket_le_refl)
qed (auto dest: call_entering call_drop_ticket simp: ticket_le_refl simp del: ticket_call.simps)

text \<open>The invariant of the life of a ticket, step by step.\<close>

definition ticket_inv :: "snaplock_ticket \<times> message list \<Rightarrow> bool" where
  "ticket_inv s \<longleftrightarrow> stages_ok (fst s) \<and> sent_ok s"

lemmas ticket_inv_defs = ticket_inv_def stages_ok_def sent_ok_def tag_count_def tag_failures_def rose_def

lemma ticket_inv_append:
  assumes "map tag out = ts"
  shows "ticket_inv (t, ms @ out) \<longleftrightarrow> stages_ok t
   \<and> sent_count ''GETMAXTICKET'' ms + tag_count ''GETMAXTICKET'' ts = of_bool (f_get_max_ticket t)
   \<and> sent_count ''ADDTICKET'' ms + tag_count ''ADDTICKET'' ts = of_bool (f_added_ticket t)
   \<and> sent_count ''LOCKEXITING'' ms + tag_count ''LOCKEXITING'' ts = of_bool (f_added_ticket_quorum t)
   \<and> sent_count ''LOCKED'' ms + tag_count ''LOCKED'' ts = of_bool (f_locked t)
   \<and> failure_count ms + tag_failures ts = of_bool (f_lock_failed t)
   \<and> sent_count ''LOCKFAILED'' ms + tag_count ''LOCKFAILED'' ts \<le> failure_count ms + tag_failures ts
   \<and> sent_count ''LOCKED'' ms + tag_count ''LOCKED'' ts
       + (sent_count ''LOCKFAILED'' ms + tag_count ''LOCKFAILED'' ts) \<le> 1"
  by (simp only: ticket_inv_def sent_ok_def fst_conv prod.case sent_count_append failure_count_append
    sent_count_tags [OF assms] failure_count_tags [OF assms])

lemma ticket_inv_same: "ticket_inv (t, ms) \<Longrightarrow> map tag out = [] \<Longrightarrow> ticket_inv (t, ms @ out)"
  by simp

lemma inv_entering:
  assumes "ticket_inv (t, ms)" "ticket_call t Entering = Inr (t', out)"
  shows "ticket_inv (t', ms @ out)"
proof -
  have t: "t' = t" and tags: "map tag out = [(''LOCKENTERING'', None)]"
    using call_entering [OF assms(2)] by auto
  show ?thesis unfolding ticket_inv_append [OF tags] using assms(1) t by (simp add: ticket_inv_defs)
qed

lemma inv_entered:
  assumes "ticket_inv (t, ms)" "ticket_call t (Entered q) = Inr (t', out)"
  shows "ticket_inv (t', ms @ out)"
proof -
  obtain a b where t: "t' = t\<lparr>f_entered_count := a, f_get_max_ticket := b\<rparr>" "f_get_max_ticket t \<longrightarrow> b"
    and tags: "map tag out = rose (f_get_max_ticket t) b (''GETMAXTICKET'', None)"
    using call_entered [OF assms(2)] by metis
  show ?thesis unfolding ticket_inv_append [OF tags] using assms(1) t
    by (cases "f_get_max_ticket t"; cases b) (simp_all add: ticket_inv_defs)
qed

lemma inv_max_ticket:
  assumes "ticket_inv (t, ms)" "ticket_call t (Max_Ticket q n) = Inr (t', out)"
  shows "ticket_inv (t', ms @ out)"
proof (cases "f_added_ticket t")
  case True
  with call_max_ticket [OF assms(2)] have "t' = t" "map tag out = []" by (auto simp: rose_def)
  with assms(1) show ?thesis by (simp add: ticket_inv_same)
next
  case False
  then obtain a b c k where t: "t' = t\<lparr>f_our_ticket := a, f_max_ticket_count := b, f_added_ticket := c, f_ticket_key := k\<rparr>"
      "k = (if c then ticket_key a (f_entering_key t) else f_ticket_key t)"
    and tags: "map tag out = rose False c (''ADDTICKET'', None)"
    using call_max_ticket [OF assms(2)] by metis
  show ?thesis unfolding ticket_inv_append [OF tags] using assms(1) t False
    by (cases c) (simp_all add: ticket_inv_defs)
qed

lemma inv_ticket_added:
  assumes "ticket_inv (t, ms)" "ticket_call t (Ticket_Added q still) = Inr (t', out)"
  shows "ticket_inv (t', ms @ out)"
proof (cases "f_added_ticket_quorum t")
  case True
  with call_ticket_added [OF assms(2)] have "t' = t" "map tag out = []" by (auto simp: rose_def)
  with assms(1) show ?thesis by (simp add: ticket_inv_same)
next
  case False
  then obtain a b c where t: "t' = t\<lparr>f_ticket_added_count := a, f_added_ticket_quorum := b, f_still_entering := c\<rparr>"
    and tags: "map tag out = rose False b (''LOCKEXITING'', None)"
    using call_ticket_added [OF assms(2)] by metis
  show ?thesis unfolding ticket_inv_append [OF tags] using assms(1) t False
    by (cases b; cases "f_locked t") (simp_all add: ticket_inv_defs)
qed

lemma inv_remove_entering:
  assumes "ticket_inv (t, ms)" "ticket_call t (Remove_Entering timed key) = Inr (t', out)"
  shows "ticket_inv (t', ms @ out)"
proof (cases "f_ticket_ready t")
  case True
  with call_remove_entering [OF assms(2)] have "t' = t" "out = []" by auto
  with assms(1) show ?thesis by simp
next
  case False
  then obtain c b where t: "t' = t\<lparr>f_still_entering := c, f_ticket_ready := b\<rparr>"
    "b \<longrightarrow> f_added_ticket_quorum t \<and> c = []" "out = []"
    using call_remove_entering [OF assms(2)] by metis
  with assms(1) False show ?thesis by (cases b) (simp_all add: ticket_inv_defs)
qed

lemma inv_activate_lock:
  assumes "ticket_inv (t, ms)" "ticket_call t (Activate_Lock now srv q) = Inr (t', out)"
  shows "ticket_inv (t', ms @ out)"
proof (cases "\<not> f_locked t \<and> f_locked t'")
  case True
  then obtain i where t: "t' = t\<lparr>f_locked := True, f_lock_timeout := i\<rparr>" "f_ticket_ready t" "\<not> f_lock_failed t"
    and tags: "map tag out = [(''LOCKED'', None)]"
    using call_activate_lock [OF assms(2)] by (simp add: rose_def) metis
  show ?thesis unfolding ticket_inv_append [OF tags] using assms(1) t True
    by (simp add: ticket_inv_defs)
next
  case False
  with call_activate_lock [OF assms(2)] have "t' = t" "map tag out = []" by (auto simp: rose_def)
  with assms(1) show ?thesis by (simp add: ticket_inv_same)
qed

lemma inv_drop_ticket:
  assumes "ticket_inv (t, ms)" "ticket_call t (Drop_Ticket srv) = Inr (t', out)"
  shows "ticket_inv (t', ms @ out)"
proof -
  note call = call_drop_ticket [OF assms(2)]
  have "tag_failures (map tag out) = 0" "tag_count ''GETMAXTICKET'' (map tag out) = 0"
    "tag_count ''ADDTICKET'' (map tag out) = 0" "tag_count ''LOCKEXITING'' (map tag out) = 0"
    "tag_count ''LOCKED'' (map tag out) = 0" "tag_count ''LOCKFAILED'' (map tag out) = 0"
    using call [THEN conjunct2]
    by (elim insertE emptyE; simp only: tag_count_def tag_failures_def; simp)+
  then show ?thesis unfolding ticket_inv_append [OF refl] using assms(1) call [THEN conjunct1]
    by (simp add: ticket_inv_def sent_ok_def)
qed

lemma inv_lock_failed:
  assumes "ticket_inv (t, ms)" "ticket_call t (Lock_Failed srv) = Inr (t', out)"
  shows "ticket_inv (t', ms @ out)"
proof -
  obtain b where t: "t' = t\<lparr>f_lock_failed := b\<rparr>" "f_lock_failed t \<longrightarrow> b"
    and tags: "map tag out = rose (f_lock_failed t) b
       (if f_locked t then (''UNLOCKED'', Some ''timedout'') else (''LOCKFAILED'', Some ''failed''))"
    using call_lock_failed [OF assms(2)] by metis
  show ?thesis unfolding ticket_inv_append [OF tags] using assms(1) t
    by (cases "f_lock_failed t"; cases b; cases "f_locked t") (simp_all add: ticket_inv_defs)
qed

lemma ticket_call_inv:
  "ticket_inv (t, ms) \<Longrightarrow> ticket_call t ev = Inr (t', out) \<Longrightarrow> ticket_inv (t', ms @ out)"
  by (cases ev) (blast intro: inv_entering inv_entered inv_max_ticket inv_ticket_added
    inv_remove_entering inv_activate_lock inv_drop_ticket inv_lock_failed)+

interpretation ticket: mono_machine ticket_step ticket_inv "\<lambda>s s'. ticket_le (fst s) (fst s')"
  by unfold_locales
    (auto simp: ticket_step_def result_simps ticket_le_refl intro: ticket_call_inv ticket_le_trans ticket_call_le)

text \<open>The stages alone are kept by every call, whatever was sent before.\<close>

definition tagged_message :: "string \<times> string option \<Rightarrow> message" where
  "tagged_message g = empty_message\<lparr>f_command := fst g,
     f_parameters := (case snd g of None \<Rightarrow> [] | Some e \<Rightarrow> [(''error'', e)])\<rparr>"

lemma tag_tagged_message [simp]: "tag (tagged_message g) = g"
  by (cases g) (auto simp: tag_def tagged_message_def empty_message_def split: option.splits)

lemma ticket_inv_exists: "stages_ok t \<Longrightarrow> \<exists>ms. ticket_inv (t, ms)"
proof -
  assume t: "stages_ok t"
  let ?ts = "rose False (f_get_max_ticket t) (''GETMAXTICKET'', None) @ rose False (f_added_ticket t) (''ADDTICKET'', None)
    @ rose False (f_added_ticket_quorum t) (''LOCKEXITING'', None) @ rose False (f_locked t) (''LOCKED'', None)
    @ rose False (f_lock_failed t) (''UNLOCKED'', Some [])"
  have tags: "map tag (map tagged_message ?ts) = ?ts" by (simp add: comp_def)
  have "ticket_inv (t, [] @ map tagged_message ?ts)"
    unfolding ticket_inv_append [OF tags] using t
    by (simp add: sent_count_def failure_count_def tag_count_def tag_failures_def rose_def)
  then show ?thesis by blast
qed

lemma stages_ok_call: "stages_ok t \<Longrightarrow> ticket_call t ev = Inr (t', out) \<Longrightarrow> stages_ok t'"
  using ticket_inv_exists [of t] ticket_call_inv [of t _ ev t' out] by (auto simp: ticket_inv_def)

lemma ticket_inv_new: "ticket_inv (new_ticket ob k to du se sv, [])"
  by (simp add: ticket_inv_def stages_ok_new sent_ok_new)


definition sample_ticket :: snaplock_ticket where
  "sample_ticket = new_ticket ''page'' ''a/71'' 100 10 ''a'' ''snapwatch''"

definition sample_events :: "ticket_event list" where
  "sample_events =
     [Entering, Entered 1, Max_Ticket 1 4, Ticket_Added 1 [(''a/71'', 0)],
      Remove_Entering (\<lambda>p. False) ''a/71'', Activate_Lock 50 ''a'' 1]"

lemma sample_run:
  "case runE ticket_step (sample_ticket, []) sample_events of
     Inr (t, ms) \<Rightarrow> sent_count ''LOCKED'' ms = 1 \<and> f_ticket_key t = ''00000005/a/71'' \<and> f_lock_timeout t = 60
   | Inl _ \<Rightarrow> False"
  by code_simp


text \<open>
  A ticket only moves forward: from any state a ticket can reach, further calls never change its
  object, keys or client, never clear a flag, and leave the ticket number and ticket key alone
  once \<open>ADDTICKET\<close> was sent and the lock date alone once \<open>LOCKED\<close> was sent.
\<close>

theorem ticket_moves_forward:
  assumes "runE ticket_step (new_ticket ob k to du se sv, []) evs = Inr s"
    and "runE ticket_step s evs' = Inr s'"
  shows "ticket_le (fst s) (fst s')"
  using ticket.run_inv [OF ticket_inv_new assms(1)] assms(2) by (rule ticket.run_le)

theorem ticket_moves_forward_witness:
  "\<exists>s s'. runE ticket_step (sample_ticket, []) sample_events = Inr s
     \<and> runE ticket_step s [Lock_Failed ''a''] = Inr s' \<and> ticket_le (fst s) (fst s') \<and> f_locked (fst s')"
proof -
  have "case runE ticket_step (sample_ticket, []) sample_events of
      Inr s \<Rightarrow> (case runE ticket_step s [Lock_Failed ''a''] of Inr s' \<Rightarrow> f_locked (fst s') | Inl _ \<Rightarrow> False)
    | Inl _ \<Rightarrow> False"
    by code_simp
  then obtain s s' where run: "runE ticket_step (sample_ticket, []) sample_events = Inr s"
    "runE ticket_step s [Lock_Failed ''a''] = Inr s'" "f_locked (fst s')"
    by (auto split: sum.splits simp del: runE.simps)
  moreover have "ticket_le (fst s) (fst s')"
    using run(1) [unfolded sample_ticket_def] run(2) by (rule ticket_moves_forward)
  ultimately show ?thesis by blast
qed

section \<open>The ticket number\<close>

text \<open>Before the quorum the number is the largest answer so far.\<close>

lemma max_ticket_below:
  assumes "\<not> f_added_ticket t" "f_max_ticket_count t + 1 < q" "0 \<le> n" "n < 2 ^ 32"
  shows "ticket_max_ticket q n t = Inr (t\<lparr>f_our_ticket := word_of_int (max (uint (f_our_ticket t)) n),
     f_max_ticket_count := f_max_ticket_count t + 1\<rparr>, [])"
  using assms by (auto simp: ticket_max_ticket_def Let_def max_def)

lemma max_ticket_last:
  assumes "ticket_max_ticket q n t = Inr (t', out)" "\<not> f_added_ticket t" "f_max_ticket_count t + 1 \<ge> q"
  shows "f_added_ticket t' \<and> f_our_ticket t' = word_of_int (max (uint (f_our_ticket t)) n) + 1
    \<and> f_ticket_key t' = ticket_key (f_our_ticket t') (f_entering_key t)"
  using assms by (auto simp: ticket_max_ticket_def ticket_add_ticket_def Let_def max_def send_Inr split: if_splits)

lemma max_ticket_run:
  "runE ticket_step (t, ms) (map (Max_Ticket q) ns) = Inr (t', ms') \<Longrightarrow> \<not> f_added_ticket t \<Longrightarrow>
   f_max_ticket_count t + length ns = q \<Longrightarrow> ns \<noteq> [] \<Longrightarrow> list_all (\<lambda>n. 0 \<le> n \<and> n < 2 ^ 32 - 1) ns \<Longrightarrow>
   uint (f_our_ticket t) < 2 ^ 32 - 1 \<Longrightarrow>
   f_added_ticket t' \<and> uint (f_our_ticket t') = Max (insert (uint (f_our_ticket t)) (set ns)) + 1
   \<and> f_ticket_key t' = ticket_key (f_our_ticket t') (f_entering_key t)"
proof (induction ns arbitrary: t ms)
  case Nil
  then show ?case by simp
next
  case (Cons n ns)
  obtain t1 out where t1: "ticket_max_ticket q n t = Inr (t1, out)"
    and run: "runE ticket_step (t1, ms @ out) (map (Max_Ticket q) ns) = Inr (t', ms')"
    using Cons.prems(1) by (auto simp: ticket_step_def result_simps)
  let ?m = "max (uint (f_our_ticket t)) n"
  have m: "0 \<le> ?m" "?m < 2 ^ 32 - 1" using Cons.prems(5,6) by auto
  then have w: "uint (word_of_int ?m :: ticket_id_t) = ?m" by (simp add: uint_word_of_int)
  show ?case
  proof (cases "ns = []")
    case True
    have "uint (word_of_int ?m + 1 :: ticket_id_t) = ?m + 1"
      using m by (simp add: uint_plus_if' w)
    with True run max_ticket_last [OF t1 Cons.prems(2)] Cons.prems(3) show ?thesis by auto
  next
    case False
    then have "f_max_ticket_count t + 1 < q" using Cons.prems(3) by (cases ns) auto
    with Cons.prems(2,5) t1 have e: "t1 = t\<lparr>f_our_ticket := word_of_int ?m, f_max_ticket_count := f_max_ticket_count t + 1\<rparr>"
      by (simp add: max_ticket_below)
    have "f_added_ticket t' \<and> uint (f_our_ticket t') = Max (insert (uint (f_our_ticket t1)) (set ns)) + 1
      \<and> f_ticket_key t' = ticket_key (f_our_ticket t') (f_entering_key t1)"
      using Cons.prems False m by (intro Cons.IH [OF run]) (simp_all add: e w)
    moreover have "Max (insert ?m (set ns)) = Max (insert (uint (f_our_ticket t)) (set (n # ns)))"
      using False by (simp add: max.assoc)
    ultimately show ?thesis by (simp add: e w)
  qed
qed

text \<open>C32.
  When the answers of a quorum of computers are in, the ticket takes a number one larger than
  every answer, without wrapping as long as no answer is the largest 32-bit number, and it uses
  that number in its key.
\<close>

theorem ticket_number_after_quorum:
  assumes "runE ticket_step (new_ticket ob k to du se sv, []) (map (Max_Ticket (length ns)) ns) = Inr (t, ms)"
    and "ns \<noteq> []" and "list_all (\<lambda>n. 0 \<le> n \<and> n < 2 ^ 32 - 1) ns"
  shows "uint (f_our_ticket t) = Max (set ns) + 1 \<and> f_ticket_key t = ticket_key (f_our_ticket t) k"
proof -
  have "Max (insert 0 (set ns)) = Max (set ns)"
    using assms(2,3) by (cases ns) (auto simp: max_def list_all_iff Max_ge_iff)
  with max_ticket_run [OF assms(1)] assms(2,3) show ?thesis by (simp add: new_ticket_def)
qed

theorem ticket_number_after_quorum_witness:
  "\<exists>t ms. runE ticket_step (sample_ticket, []) (map (Max_Ticket 3) [4, 9, 0]) = Inr (t, ms) \<and> uint (f_our_ticket t) = 10"
proof -
  have "\<not> isl (runE ticket_step (sample_ticket, []) (map (Max_Ticket 3) [4, 9, 0]))" by code_simp
  then obtain t ms where t: "runE ticket_step (sample_ticket, []) (map (Max_Ticket 3) [4, 9, 0]) = Inr (t, ms)"
    by (cases "runE ticket_step (sample_ticket, []) (map (Max_Ticket 3) [4, 9, 0])") auto
  with ticket_number_after_quorum [of "''page''" "''a/71''" 100 10 "''a''" "''snapwatch''" "[4, 9, 0]" t ms]
  show ?thesis by (simp add: sample_ticket_def numeral_3_eq_3 del: runE.simps)
qed

end
