(* ===== verification/Snaplock.thy ===== *)
theory Snaplock
  imports Snaplock_Ticket
begin

text \<open>
  \<open>snaplock.cpp\<close>: the daemon that keeps the tickets of every object, one handler per
  message of the bakery algorithm.  The two maps \<open>f_entering_tickets\<close> and
  \<open>f_tickets\<close> hold shared pointers, and a ticket is reached through both of them at the
  same time: the tickets live in a heap, the maps hold addresses.  Freeing a ticket has no effect
  one can see, so the heap only grows.  Messages handed to \<open>f_messenger\<close> are appended to
  \<open>f_sent\<close>.  One handler reads one value of the clock (\<open>time()\<close> counts seconds).
\<close>

section \<open>State\<close>

text \<open>
  What the handlers read from outside: the clock, whether the messenger is connected, Qt's
  \<open>toLongLong()\<close> and the two date formats of \<open>LISTTICKETS\<close>.
\<close>

record snaplock_env =
  env_now :: int
  env_connected :: bool
  env_to_ll :: "string \<Rightarrow> int option"
  env_date_short :: "int \<Rightarrow> string"
  env_date_time :: "int \<Rightarrow> string"

datatype messenger = Messenger_Up | Messenger_Done | Messenger_Removed

type_synonym object_map_t = "(string, key_map_t) omap"

record snaplock =
  sl_server_name :: string
  sl_service_name :: string
  f_computers :: "(string, bool) omap"
  f_entering_tickets :: object_map_t
  f_tickets :: object_map_t
  heap :: "snaplock_ticket list"
  f_messenger :: messenger
  f_interrupt :: bool
  f_sent :: "message list"
  opt_list :: bool
  f_stdout :: "string list"

definition init_snaplock :: "string \<Rightarrow> bool \<Rightarrow> snaplock" where
  "init_snaplock server_name tool =
     \<lparr>sl_server_name = server_name,
      sl_service_name = (if tool then ''snaplocktool'' else ''snaplock''),
      f_computers = [], f_entering_tickets = [], f_tickets = [], heap = [],
      f_messenger = Messenger_Up, f_interrupt = True, f_sent = [],
      opt_list = tool, f_stdout = []\<rparr>"

definition DEFAULT_TIMEOUT :: int where "DEFAULT_TIMEOUT = 5"
definition SNAP_LOCK_MINIMUM_TIMEOUT :: int where "SNAP_LOCK_MINIMUM_TIMEOUT = 3"

text \<open>The conversion of an \<open>int64_t\<close> to \<open>int32_t\<close> or \<open>pid_t\<close>.\<close>

definition to_int32 :: "int \<Rightarrow> int" where
  "to_int32 i = sint (word_of_int i :: 32 word)"

section \<open>Maps of maps\<close>

text \<open>\<open>m[object][key] = p\<close>, the two nested \<open>find()\<close>, and the erasure that also drops an empty inner map.\<close>

definition obj_keys :: "string \<Rightarrow> object_map_t \<Rightarrow> key_map_t" where
  "obj_keys ob m = (case omap_get m ob of None \<Rightarrow> [] | Some km \<Rightarrow> km)"

definition obj_put :: "string \<Rightarrow> string \<Rightarrow> ptr \<Rightarrow> object_map_t \<Rightarrow> object_map_t" where
  "obj_put ob key p m = omap_put ob (omap_put key p (obj_keys ob m)) m"

definition obj_find :: "string \<Rightarrow> string \<Rightarrow> object_map_t \<Rightarrow> ptr option" where
  "obj_find ob key m = (case omap_get m ob of None \<Rightarrow> None | Some km \<Rightarrow> omap_get km key)"

definition obj_set :: "string \<Rightarrow> key_map_t \<Rightarrow> object_map_t \<Rightarrow> object_map_t" where
  "obj_set ob km m = (if km = [] then omap_erase ob m else omap_put ob km m)"

definition obj_erase :: "string \<Rightarrow> string \<Rightarrow> object_map_t \<Rightarrow> object_map_t" where
  "obj_erase ob key m =
     (case omap_get m ob of None \<Rightarrow> m | Some km \<Rightarrow> obj_set ob (omap_erase key km) m)"

section \<open>Messages and tickets\<close>

definition quorum :: "snaplock \<Rightarrow> nat" where
  "quorum s = length (f_computers s) div 2 + 1"

definition get_computer_count :: "snaplock \<Rightarrow> nat" where
  "get_computer_count s = length (f_computers s)"

definition send_message :: "(message \<Rightarrow> message result) list \<Rightarrow> snaplock \<Rightarrow> snaplock result" where
  "send_message cs s = bindE (build cs) (\<lambda>m. Inr (s\<lparr>f_sent := f_sent s @ [m]\<rparr>))"

text \<open>A member function called through a shared pointer.\<close>

definition on_ticket :: "ptr \<Rightarrow> (snaplock_ticket \<Rightarrow> snaplock_ticket sending) \<Rightarrow> snaplock \<Rightarrow> snaplock result" where
  "on_ticket p f s = bindE (f (heap s ! p)) (\<lambda>(t, out).
     Inr (s\<lparr>heap := (heap s)[p := t], f_sent := f_sent s @ out\<rparr>))"

definition make_shared :: "snaplock_ticket \<Rightarrow> snaplock \<Rightarrow> ptr \<times> snaplock" where
  "make_shared t s = (length (heap s), s\<lparr>heap := heap s @ [t]\<rparr>)"

definition timed :: "snaplock_env \<Rightarrow> snaplock \<Rightarrow> ptr \<Rightarrow> bool" where
  "timed env s p = ticket_timed_out (env_now env) (heap s ! p)"

definition send_lockready :: "snaplock \<Rightarrow> snaplock result" where
  "send_lockready s = send_message
     [set_command ''LOCKREADY'', set_service ''*'', add_parameter ''server_name'' (sl_server_name s)] s"

definition stop :: "snaplock_env \<Rightarrow> bool \<Rightarrow> snaplock \<Rightarrow> snaplock result" where
  "stop env quitting s =
     bindE (if f_messenger s \<noteq> Messenger_Removed then
              (if quitting \<or> \<not> env_connected env then Inr (s\<lparr>f_messenger := Messenger_Removed\<rparr>)
               else send_message [set_command ''UNREGISTER'', add_parameter ''service'' (sl_service_name s)]
                      (s\<lparr>f_messenger := Messenger_Done\<rparr>))
            else Inr s)
       (\<lambda>s1. Inr (s1\<lparr>f_interrupt := False\<rparr>))"

section \<open>Parameters of a message\<close>

datatype wanted = W_object_name | W_client_pid | W_timeout | W_key | W_source

record lock_parameters =
  p_object_name :: string
  p_client_pid :: int
  p_timeout :: int
  p_key :: string
  p_source :: string

definition get_string :: "string \<Rightarrow> string \<Rightarrow> message \<Rightarrow> string result" where
  "get_string name err m = bindE (get_parameter name m) (\<lambda>v.
     if v = [] then Inl (Invalid_Message err) else Inr v)"

definition get_parameters :: "snaplock_env \<Rightarrow> wanted list \<Rightarrow> message \<Rightarrow> lock_parameters result" where
  "get_parameters env ws m =
     bindE (if W_object_name \<in> set ws
            then get_string ''object_name'' ''snaplock::get_parameters(): Invalid object name. We cannot lock the empty string.'' m
            else Inr []) (\<lambda>object_name.
     bindE (if W_client_pid \<in> set ws
            then bindE (get_integer_parameter (env_to_ll env) ''pid'' m) (\<lambda>pid.
                   if to_int32 pid < 1
                   then Inl (Invalid_Message ''snaplock::get_parameters(): Invalid pid specified for a lock.'')
                   else Inr (to_int32 pid))
            else Inr 0) (\<lambda>client_pid.
     bindE (if W_timeout \<in> set ws
            then bindE (has_parameter ''timeout'' m) (\<lambda>has.
                   if has then get_integer_parameter (env_to_ll env) ''timeout'' m
                   else Inr (env_now env + DEFAULT_TIMEOUT))
            else Inr 0) (\<lambda>timeout.
     bindE (if W_key \<in> set ws
            then get_string ''key'' ''snaplock::get_parameters(): A key cannot be an empty string.'' m
            else Inr []) (\<lambda>key.
     bindE (if W_source \<in> set ws
            then get_string ''source'' ''snaplock::get_parameters(): A source cannot be an empty string.'' m
            else Inr []) (\<lambda>source.
     Inr \<lparr>p_object_name = object_name, p_client_pid = client_pid, p_timeout = timeout,
          p_key = key, p_source = source\<rparr>)))))"

section \<open>Activation and cleanup\<close>

fun activate_loop :: "snaplock_env \<Rightarrow> key_map_t \<Rightarrow> snaplock \<Rightarrow> (key_map_t \<times> snaplock) result" where
  "activate_loop env [] s = Inr ([], s)"
| "activate_loop env ((k, p) # km) s =
     (if \<not> timed env s p then
        bindE (on_ticket p (ticket_activate_lock (env_now env) (sl_server_name s) (quorum s)) s) (\<lambda>s1.
          Inr ((k, p) # km, s1))
      else
        bindE (on_ticket p (ticket_lock_failed (sl_server_name s)) s) (\<lambda>s1. activate_loop env km s1))"

definition activate_first_lock :: "snaplock_env \<Rightarrow> string \<Rightarrow> snaplock \<Rightarrow> snaplock result" where
  "activate_first_lock env ob s =
     (case omap_get (f_tickets s) ob of
        None \<Rightarrow> Inr s
      | Some km \<Rightarrow> bindE (activate_loop env km s) (\<lambda>(km', s1).
          Inr (s1\<lparr>f_tickets := obj_set ob km' (f_tickets s1)\<rparr>)))"

fun cleanup_keys :: "snaplock_env \<Rightarrow> key_map_t \<Rightarrow> snaplock \<Rightarrow> (key_map_t \<times> bool \<times> snaplock) result" where
  "cleanup_keys env [] s = Inr ([], False, s)"
| "cleanup_keys env ((k, p) # km) s =
     (if timed env s p then
        bindE (on_ticket p (ticket_lock_failed (sl_server_name s)) s) (\<lambda>s1.
        bindE (cleanup_keys env km s1) (\<lambda>(km', _, s2). Inr (km', True, s2)))
      else
        bindE (cleanup_keys env km s) (\<lambda>(km', try_activate, s2). Inr ((k, p) # km', try_activate, s2)))"

definition cleanup_object :: "snaplock_env \<Rightarrow> string \<Rightarrow> snaplock \<Rightarrow> snaplock result" where
  "cleanup_object env ob s =
     bindE (cleanup_keys env (obj_keys ob (f_tickets s)) s) (\<lambda>(km', try_activate, s1).
       let s2 = s1\<lparr>f_tickets := obj_set ob km' (f_tickets s1)\<rparr> in
       if km' \<noteq> [] \<and> try_activate then activate_first_lock env ob s2 else Inr s2)"

fun cleanup_tickets :: "snaplock_env \<Rightarrow> string list \<Rightarrow> snaplock \<Rightarrow> snaplock result" where
  "cleanup_tickets env [] s = Inr s"
| "cleanup_tickets env (ob # obs) s = bindE (cleanup_object env ob s) (\<lambda>s1. cleanup_tickets env obs s1)"

definition cleanup_entering :: "snaplock_env \<Rightarrow> snaplock \<Rightarrow> snaplock" where
  "cleanup_entering env s =
     s\<lparr>f_entering_tickets := filter (\<lambda>(ob, km). km \<noteq> [])
         (map (\<lambda>(ob, km). (ob, filter (\<lambda>(k, p). \<not> timed env s p) km)) (f_entering_tickets s))\<rparr>"

definition cleanup :: "snaplock_env \<Rightarrow> snaplock \<Rightarrow> snaplock result" where
  "cleanup env s =
     bindE (cleanup_tickets env (map fst (f_tickets s)) s) (\<lambda>s1. Inr (cleanup_entering env s1))"

section \<open>Handlers\<close>

text \<open>
  \<open>QString("%1/%2").arg(a).arg(b)\<close>.  The two strings are put in as they are: an argument
  that itself holds a place marker (a percent sign followed by a digit) is not considered.
\<close>

definition make_key :: "string \<Rightarrow> string \<Rightarrow> string" where
  "make_key a b = a @ ''/'' @ b"

definition lock :: "snaplock_env \<Rightarrow> message \<Rightarrow> snaplock \<Rightarrow> snaplock result" where
  "lock env m s =
     bindE (get_parameters env [W_object_name, W_client_pid, W_timeout] m) (\<lambda>ps.
     if p_timeout ps \<le> env_now env then Inr s
     else bindE (get_integer_parameter (env_to_ll env) ''duration'' m) (\<lambda>duration.
       if to_int32 duration < SNAP_LOCK_MINIMUM_TIMEOUT
       then Inl (Invalid_Message ''snaplock::lock(): Invalid duration, the minimum accepted is 3.'')
       else
         let entering_key = make_key (sl_server_name s) (show_int (p_client_pid ps));
             (p, s1) = make_shared (new_ticket (p_object_name ps) entering_key (p_timeout ps)
                         (to_int32 duration) (f_sent_from_server m) (f_sent_from_service m)) s;
             s2 = s1\<lparr>f_entering_tickets := obj_put (p_object_name ps) entering_key p (f_entering_tickets s1)\<rparr>
         in on_ticket p ticket_entering s2))"

definition unlock :: "snaplock_env \<Rightarrow> message \<Rightarrow> snaplock \<Rightarrow> snaplock result" where
  "unlock env m s =
     bindE (get_parameters env [W_object_name, W_client_pid] m) (\<lambda>ps.
       let entering_key = make_key (sl_server_name s) (show_int (p_client_pid ps)) in
       case find (\<lambda>(k, p). f_entering_key (heap s ! p) = entering_key)
              (obj_keys (p_object_name ps) (f_tickets s)) of
         None \<Rightarrow> Inr s
       | Some (k, p) \<Rightarrow> on_ticket p (ticket_drop_ticket (sl_server_name s)) s)"

definition lockentering_allocate :: "snaplock_env \<Rightarrow> message \<Rightarrow> lock_parameters \<Rightarrow> snaplock \<Rightarrow> snaplock result" where
  "lockentering_allocate env m ps s =
     bindE (get_integer_parameter (env_to_ll env) ''duration'' m) (\<lambda>duration.
       if to_int32 duration < SNAP_LOCK_MINIMUM_TIMEOUT
       then Inl (Invalid_Message ''snaplock::lockentering(): Invalid duration, the minimum accepted is 3.'')
       else case split_on (CHR ''/'') (p_source ps) of
         [server_name, service_name] \<Rightarrow>
           let (p, s1) = make_shared (new_ticket (p_object_name ps) (p_key ps) (p_timeout ps)
                           (to_int32 duration) server_name service_name) s
           in Inr (s1\<lparr>f_entering_tickets := obj_put (p_object_name ps) (p_key ps) p (f_entering_tickets s1)\<rparr>)
       | _ \<Rightarrow> Inl (Invalid_Message ''snaplock::lockentering(): Invalid number of parameters in source.''))"

definition lockentering :: "snaplock_env \<Rightarrow> message \<Rightarrow> snaplock \<Rightarrow> snaplock result" where
  "lockentering env m s =
     bindE (get_parameters env [W_object_name, W_timeout, W_key, W_source] m) (\<lambda>ps.
     bindE (if p_timeout ps > env_now env then
              bindE (if obj_find (p_object_name ps) (p_key ps) (f_entering_tickets s) = None
                     then lockentering_allocate env m ps s else Inr s) (\<lambda>s1.
              send_message [set_command ''LOCKENTERED'', reply_to m,
                            add_parameter ''object_name'' (p_object_name ps),
                            add_parameter ''key'' (p_key ps)] s1)
            else Inr s) (\<lambda>s2.
     cleanup env s2))"

definition lockentered :: "snaplock_env \<Rightarrow> message \<Rightarrow> snaplock \<Rightarrow> snaplock result" where
  "lockentered env m s =
     bindE (get_parameters env [W_object_name, W_key] m) (\<lambda>ps.
       case obj_find (p_object_name ps) (p_key ps) (f_entering_tickets s) of
         None \<Rightarrow> Inr s
       | Some p \<Rightarrow> on_ticket p (ticket_entered (quorum s)) s)"

definition remove_entering_all :: "snaplock_env \<Rightarrow> string \<Rightarrow> key_map_t \<Rightarrow> snaplock \<Rightarrow> snaplock" where
  "remove_entering_all env key km s =
     foldl (\<lambda>s (k, p). s\<lparr>heap := (heap s)[p := ticket_remove_entering (timed env s) key (heap s ! p)]\<rparr>) s km"

definition lockexiting :: "snaplock_env \<Rightarrow> message \<Rightarrow> snaplock \<Rightarrow> snaplock result" where
  "lockexiting env m s =
     bindE (get_parameters env [W_object_name, W_key] m) (\<lambda>ps.
       let ob = p_object_name ps; key = p_key ps in
       case omap_get (f_entering_tickets s) ob of
         None \<Rightarrow> Inr s
       | Some km \<Rightarrow>
           bindE (case omap_get km key of
                    None \<Rightarrow> Inr s
                  | Some _ \<Rightarrow>
                      let s1 = s\<lparr>f_entering_tickets := omap_put ob (omap_erase key km) (f_entering_tickets s)\<rparr>;
                          ts = obj_keys ob (f_tickets s1);
                          s2 = remove_entering_all env key ts s1
                      in if ts \<noteq> [] then activate_first_lock env ob s2 else Inr s2) (\<lambda>s3.
           Inr (s3\<lparr>f_entering_tickets :=
                  obj_set ob (obj_keys ob (f_entering_tickets s3)) (f_entering_tickets s3)\<rparr>)))"

definition lockready :: "message \<Rightarrow> snaplock \<Rightarrow> snaplock result" where
  "lockready m s =
     bindE (get_string ''server_name'' ''snaplock::lockready(): Invalid server name (empty).'' m) (\<lambda>server_name.
       if omap_get (f_computers s) server_name = None then
         let s1 = s\<lparr>f_computers := omap_put server_name True (f_computers s)\<rparr> in
         if server_name \<noteq> sl_server_name s then send_lockready s1 else Inr s1
       else Inr s)"

definition interpret_status :: "message \<Rightarrow> snaplock \<Rightarrow> snaplock result" where
  "interpret_status m s =
     bindE (get_parameter ''service'' m) (\<lambda>service.
       if service = ''remote connection'' \<or> service = ''remote communicator connection''
       then send_lockready s else Inr s)"

definition lockgone :: "message \<Rightarrow> snaplock \<Rightarrow> snaplock result" where
  "lockgone m s =
     bindE (get_parameter ''server_name'' m) (\<lambda>server_name.
       if server_name = sl_server_name s then Inr s
       else Inr (s\<lparr>f_computers := omap_erase server_name (f_computers s)\<rparr>))"

definition drop_ticket :: "snaplock_env \<Rightarrow> message \<Rightarrow> snaplock \<Rightarrow> snaplock result" where
  "drop_ticket env m s =
     bindE (get_parameters env [W_object_name, W_key] m) (\<lambda>ps.
       let ob = p_object_name ps; key = p_key ps in
       bindE (case split_on (CHR ''/'') key of
                [_, server, pid] \<Rightarrow>
                  bindE (case omap_get (f_tickets s) ob of
                           None \<Rightarrow> Inr s
                         | Some _ \<Rightarrow> activate_first_lock env ob (s\<lparr>f_tickets := obj_erase ob key (f_tickets s)\<rparr>))
                    (\<lambda>s1. Inr (make_key server pid, s1))
              | _ \<Rightarrow> Inr (key, s)) (\<lambda>(entering_key, s1).
       Inr (s1\<lparr>f_entering_tickets := obj_erase ob entering_key (f_entering_tickets s1)\<rparr>)))"

definition last_ticket :: "string \<Rightarrow> snaplock \<Rightarrow> ticket_id_t" where
  "last_ticket ob s =
     foldl (\<lambda>last (k, p). if f_our_ticket (heap s ! p) > last then f_our_ticket (heap s ! p) else last) 0
       (obj_keys ob (f_tickets s))"

definition get_max_ticket :: "snaplock_env \<Rightarrow> message \<Rightarrow> snaplock \<Rightarrow> snaplock result" where
  "get_max_ticket env m s =
     bindE (get_parameters env [W_object_name, W_key] m) (\<lambda>ps.
     bindE (cleanup env s) (\<lambda>s1.
     send_message [set_command ''MAXTICKET'', reply_to m,
                   add_parameter ''object_name'' (p_object_name ps),
                   add_parameter ''key'' (p_key ps),
                   add_int_parameter ''ticket_id'' (uint (last_ticket (p_object_name ps) s1))] s1))"

definition max_ticket :: "snaplock_env \<Rightarrow> message \<Rightarrow> snaplock \<Rightarrow> snaplock result" where
  "max_ticket env m s =
     bindE (get_parameters env [W_object_name, W_key] m) (\<lambda>ps.
       case obj_find (p_object_name ps) (p_key ps) (f_entering_tickets s) of
         None \<Rightarrow> Inr s
       | Some p \<Rightarrow> bindE (get_integer_parameter (env_to_ll env) ''ticket_id'' m) (\<lambda>n.
           on_ticket p (ticket_max_ticket (quorum s) n) s))"

text \<open>The release build: the check under \<open>_DEBUG\<close> that the ticket is new is not compiled.\<close>

definition add_ticket :: "snaplock_env \<Rightarrow> message \<Rightarrow> snaplock \<Rightarrow> snaplock result" where
  "add_ticket env m s =
     bindE (get_parameters env [W_object_name, W_timeout, W_key] m) (\<lambda>ps.
       let ob = p_object_name ps; key = p_key ps in
       case split_on (CHR ''/'') key of
         _ # server # pid # _ \<Rightarrow>
           (case omap_get (f_entering_tickets s) ob of
              None \<Rightarrow> Inl (Logic_Error ''entering ticket for object_name not found in add_ticket()'')
            | Some km \<Rightarrow>
                (case omap_get km (make_key server pid) of
                   None \<Rightarrow> Inl (Logic_Error ''entering ticket for object_name.key not found in add_ticket()'')
                 | Some p \<Rightarrow>
                     send_message [set_command ''TICKETADDED'', reply_to m,
                                   add_parameter ''object_name'' ob,
                                   add_parameter ''key'' key]
                       (s\<lparr>f_tickets := obj_put ob key p (f_tickets s)\<rparr>)))
       | _ \<Rightarrow> Inl (Logic_Error ''snaplock::add_ticket() called with an invalid ticket key (not enough segments).''))"

definition ticket_added :: "snaplock_env \<Rightarrow> message \<Rightarrow> snaplock \<Rightarrow> snaplock result" where
  "ticket_added env m s =
     bindE (get_parameters env [W_object_name, W_key] m) (\<lambda>ps.
       case obj_find (p_object_name ps) (p_key ps) (f_tickets s) of
         None \<Rightarrow> Inr s
       | Some p \<Rightarrow>
           (case omap_get (f_entering_tickets s) (p_object_name ps) of
              None \<Rightarrow> Inr s
            | Some still_entering \<Rightarrow> on_ticket p (ticket_ticket_added (quorum s) still_entering) s))"

section \<open>Dispatch\<close>

definition ticket_line :: "snaplock_env \<Rightarrow> snaplock_ticket \<Rightarrow> string" where
  "ticket_line env t =
     ''ticket id: '' @ show_nat (unat (f_our_ticket t))
     @ ''  object name: '' @ [dquote] @ f_object_name t @ [dquote]
     @ ''  key: '' @ f_entering_key t @ ''  ''
     @ (if f_lock_timeout t = 0
        then ''obtention '' @ env_date_short env (f_obtention_timeout t * 1000000) @ '' ''
               @ env_date_time env (f_obtention_timeout t * 1000000)
        else ''timeout '' @ env_date_short env (f_lock_timeout t * 1000000) @ '' ''
               @ env_date_time env (f_lock_timeout t * 1000000))
     @ [newline]"

definition list_tickets :: "snaplock_env \<Rightarrow> message \<Rightarrow> snaplock \<Rightarrow> snaplock result" where
  "list_tickets env m s = send_message
     [set_command ''TICKETLIST'', reply_to m,
      add_parameter ''list'' (concat (map (\<lambda>(ob, km). concat (map (\<lambda>(k, p). ticket_line env (heap s ! p)) km))
        (f_tickets s)))] s"

definition send_unknown :: "string \<Rightarrow> snaplock \<Rightarrow> snaplock result" where
  "send_unknown command s = send_message [set_command ''UNKNOWN'', add_parameter ''command'' command] s"

definition help_list :: string where
  "help_list = ''ADDTICKET,DISCONNECTED,DROPTICKET,GETMAXTICKET,HANGUP,HELP,LISTTICKETS,LOCK,LOCKENTERED,LOCKENTERING,LOCKEXITING,LOCKREADY,LOG,MAXTICKET,QUITTING,READY,STATUS,STOP,TICKETADDED,UNKNOWN,UNLOCK''"

definition process_message :: "snaplock_env \<Rightarrow> message \<Rightarrow> snaplock \<Rightarrow> snaplock result" where
  "process_message env m s =
     (let command = f_command m in
      if command = ''ADDTICKET'' then add_ticket env m s
      else if command = ''DISCONNECTED'' then lockgone m s
      else if command = ''DROPTICKET'' then drop_ticket env m s
      else if command = ''GETMAXTICKET'' then get_max_ticket env m s
      else if command = ''HANGUP'' then lockgone m s
      else if command = ''HELP'' then
        bindE (send_message [set_command ''COMMANDS'', add_parameter ''list'' help_list] s) send_lockready
      else if command = ''LOCK'' then lock env m s
      else if command = ''LOCKENTERED'' then lockentered env m s
      else if command = ''LOCKENTERING'' then lockentering env m s
      else if command = ''LOCKEXITING'' then lockexiting env m s
      else if command = ''LOCKREADY'' then lockready m s
      else if command = ''LOG'' then Inr s
      else if command = ''LISTTICKETS'' then list_tickets env m s
      else if command = ''MAXTICKET'' then max_ticket env m s
      else if command = ''QUITTING'' then stop env True s
      else if command = ''READY'' then Inr s
      else if command = ''STATUS'' then interpret_status m s
      else if command = ''STOP'' then stop env False s
      else if command = ''TICKETADDED'' then ticket_added env m s
      else if command = ''UNLOCK'' then unlock env m s
      else if command = ''UNKNOWN'' then bindE (get_parameter ''command'' m) (\<lambda>_. Inr s)
      else send_unknown command s)"

definition ticket_list :: "message \<Rightarrow> snaplock \<Rightarrow> snaplock result" where
  "ticket_list m s =
     bindE (get_parameter ''list'' m) (\<lambda>ls.
       Inr (s\<lparr>f_stdout := f_stdout s @ [if ls = [] then ''...no locks found...'' else ls]\<rparr>))"

definition tool_message :: "snaplock_env \<Rightarrow> message \<Rightarrow> snaplock \<Rightarrow> snaplock result" where
  "tool_message env m s =
     (let command = f_command m in
      if command = ''HELP'' then
        send_message [set_command ''COMMANDS'',
                      add_parameter ''list'' ''HELP,QUITTING,READY,STOP,TICKETLIST,UNKNOWN''] s
      else if command = ''QUITTING'' then stop env True s
      else if command = ''READY'' then
        (if opt_list s then
           send_message [set_command ''LISTTICKETS'', set_service ''snaplock'', set_server (sl_server_name s),
                         add_parameter ''cache'' ''no'', add_parameter ''transmission_report'' ''failure''] s
         else Inr s)
      else if command = ''STOP'' then stop env False s
      else if command = ''TICKETLIST'' then bindE (ticket_list m s) (stop env False)
      else if command = ''TRANSMISSIONREPORT'' then
        bindE (get_parameter ''status'' m) (\<lambda>status. if status = ''failed'' then stop env False s else Inr s)
      else if command = ''UNKNOWN'' then bindE (get_parameter ''command'' m) (\<lambda>_. Inr s)
      else send_unknown command s)"

text \<open>\<open>process_connected()\<close> of the messenger and of the tool; \<open>VERSION\<close> is 1.\<close>

definition process_connected :: "snaplock \<Rightarrow> snaplock result" where
  "process_connected s = send_message
     [set_command ''REGISTER'', add_parameter ''service'' (sl_service_name s), add_int_parameter ''version'' 1] s"

section \<open>The invariant of the daemon\<close>

text \<open>
  Both maps of maps are sorted, have no empty inner map, and every address in them satisfies
  \<open>P object key address\<close>.
\<close>

definition key_map_wf :: "(string \<Rightarrow> ptr \<Rightarrow> bool) \<Rightarrow> key_map_t \<Rightarrow> bool" where
  "key_map_wf P km \<longleftrightarrow> omap_ok km \<and> (\<forall>k p. (k, p) \<in> set km \<longrightarrow> P k p)"

definition object_map_wf :: "(string \<Rightarrow> string \<Rightarrow> ptr \<Rightarrow> bool) \<Rightarrow> object_map_t \<Rightarrow> bool" where
  "object_map_wf P m \<longleftrightarrow> omap_ok m \<and> (\<forall>ob km. (ob, km) \<in> set m \<longrightarrow> km \<noteq> [] \<and> key_map_wf (P ob) km)"

lemma obj_keys_set [simp]: "obj_keys ob (obj_set ob km m) = km"
  by (simp add: obj_keys_def obj_set_def omap_simps)

lemma obj_keys_omap_put: "obj_keys ob (omap_put ob km m) = km"
  by (simp add: obj_keys_def omap_simps)

lemma obj_keys_set_other [simp]: "ob' \<noteq> ob \<Longrightarrow> obj_keys ob' (obj_set ob km m) = obj_keys ob' m"
  by (simp add: obj_keys_def obj_set_def omap_simps)

lemma omap_put_put: "omap_put k v (omap_put k v m) = omap_put k v m"
  by (induction k v m rule: omap_put.induct) auto

lemma obj_set_set: "obj_set ob km (obj_set ob km m) = obj_set ob km m"
  by (simp add: obj_set_def omap_put_put omap_erase_def)

lemma key_map_wf_Nil [simp]: "key_map_wf P []"
  by (simp add: key_map_wf_def)

lemma key_map_wf_put: "key_map_wf P km \<Longrightarrow> P k p \<Longrightarrow> key_map_wf P (omap_put k p km)"
  using omap_put_set [of k p km] by (auto simp: key_map_wf_def)

lemma key_map_wf_filter: "key_map_wf P km \<Longrightarrow> key_map_wf P (filter Q km)"
  by (auto simp: key_map_wf_def)

lemma key_map_wf_erase: "key_map_wf P km \<Longrightarrow> key_map_wf P (omap_erase k km)"
  by (simp add: omap_erase_def key_map_wf_filter)

lemma key_map_wf_Cons: "key_map_wf P ((k, p) # km) \<Longrightarrow> P k p \<and> key_map_wf P km"
  by (auto simp: key_map_wf_def omap_ok_Cons)

lemma key_map_wf_mono: "key_map_wf P km \<Longrightarrow> (\<And>k p. P k p \<Longrightarrow> Q k p) \<Longrightarrow> key_map_wf Q km"
  by (auto simp: key_map_wf_def)

lemma object_map_wf_mono:
  "object_map_wf P m \<Longrightarrow> (\<And>ob k p. P ob k p \<Longrightarrow> Q ob k p) \<Longrightarrow> object_map_wf Q m"
  by (simp add: object_map_wf_def key_map_wf_def)

lemma object_map_wf_get: "object_map_wf P m \<Longrightarrow> omap_get m ob = Some km \<Longrightarrow> km \<noteq> [] \<and> key_map_wf (P ob) km"
  by (auto simp: object_map_wf_def dest: map_of_SomeD)

lemma object_map_wf_keys: "object_map_wf P m \<Longrightarrow> key_map_wf (P ob) (obj_keys ob m)"
  by (auto simp: obj_keys_def dest: object_map_wf_get split: option.splits)

lemma object_map_wf_find: "object_map_wf P m \<Longrightarrow> obj_find ob k m = Some p \<Longrightarrow> P ob k p"
  by (auto simp: obj_find_def split: option.splits) (metis key_map_wf_def map_of_SomeD object_map_wf_get)

lemma object_map_wf_omap_put:
  "object_map_wf P m \<Longrightarrow> km \<noteq> [] \<Longrightarrow> key_map_wf (P ob) km \<Longrightarrow> object_map_wf P (omap_put ob km m)"
  using omap_put_set [of ob km m] by (auto simp: object_map_wf_def)

lemma object_map_wf_erase: "object_map_wf P m \<Longrightarrow> object_map_wf P (omap_erase ob m)"
  using omap_erase_set [of ob m] by (auto simp: object_map_wf_def)

lemma object_map_wf_set: "object_map_wf P m \<Longrightarrow> key_map_wf (P ob) km \<Longrightarrow> object_map_wf P (obj_set ob km m)"
  by (simp add: obj_set_def object_map_wf_erase object_map_wf_omap_put)

lemma object_map_wf_put: "object_map_wf P m \<Longrightarrow> P ob k p \<Longrightarrow> object_map_wf P (obj_put ob k p m)"
  by (simp add: obj_put_def object_map_wf_omap_put key_map_wf_put object_map_wf_keys)

lemma object_map_wf_obj_erase: "object_map_wf P m \<Longrightarrow> object_map_wf P (obj_erase ob k m)"
  by (auto simp: obj_erase_def split: option.splits
      dest: object_map_wf_get intro!: object_map_wf_set key_map_wf_erase)

text \<open>Addresses are valid, and a ticket is filed under its own object and, while entering, its own key.\<close>

definition ticket_at :: "snaplock_ticket list \<Rightarrow> string \<Rightarrow> string \<Rightarrow> ptr \<Rightarrow> bool" where
  "ticket_at h ob k p \<longleftrightarrow> p < length h \<and> f_object_name (h ! p) = ob"

definition entering_at :: "snaplock_ticket list \<Rightarrow> string \<Rightarrow> string \<Rightarrow> ptr \<Rightarrow> bool" where
  "entering_at h ob k p \<longleftrightarrow> ticket_at h ob k p \<and> f_entering_key (h ! p) = k"

definition ticket_wf :: "nat \<Rightarrow> snaplock_ticket \<Rightarrow> bool" where
  "ticket_wf n t \<longleftrightarrow> stages_ok t \<and> f_lock_duration t \<ge> SNAP_LOCK_MINIMUM_TIMEOUT
     \<and> (\<forall>k p. (k, p) \<in> set (f_still_entering t) \<longrightarrow> p < n)"

definition heap_wf :: "snaplock_ticket list \<Rightarrow> bool" where
  "heap_wf h \<longleftrightarrow> (\<forall>t \<in> set h. ticket_wf (length h) t)"

definition snaplock_wf :: "snaplock \<Rightarrow> bool" where
  "snaplock_wf s \<longleftrightarrow> omap_ok (f_computers s) \<and> heap_wf (heap s)
     \<and> object_map_wf (ticket_at (heap s)) (f_tickets s)
     \<and> object_map_wf (entering_at (heap s)) (f_entering_tickets s)"

definition heap_le :: "snaplock_ticket list \<Rightarrow> snaplock_ticket list \<Rightarrow> bool" where
  "heap_le h h' \<longleftrightarrow> length h \<le> length h' \<and> (\<forall>p < length h. ticket_le (h ! p) (h' ! p))"

lemma heap_le_refl [simp]: "heap_le h h"
  by (simp add: heap_le_def ticket_le_refl)

lemma heap_le_trans: "heap_le h h' \<Longrightarrow> heap_le h' h'' \<Longrightarrow> heap_le h h''"
  by (auto simp: heap_le_def intro: ticket_le_trans)

lemma ticket_at_mono: "heap_le h h' \<Longrightarrow> ticket_at h ob k p \<Longrightarrow> ticket_at h' ob k p"
  by (auto simp: heap_le_def ticket_at_def ticket_le_def)

lemma entering_at_mono: "heap_le h h' \<Longrightarrow> entering_at h ob k p \<Longrightarrow> entering_at h' ob k p"
  by (auto simp: heap_le_def ticket_at_def entering_at_def ticket_le_def)

lemma snaplock_wf_heap:
  "snaplock_wf s \<Longrightarrow> heap_wf h \<Longrightarrow> heap_le (heap s) h \<Longrightarrow> snaplock_wf (s\<lparr>heap := h\<rparr>)"
  by (auto simp: snaplock_wf_def intro: object_map_wf_mono ticket_at_mono entering_at_mono)

lemma snaplock_wf_sent [simp]: "snaplock_wf (s\<lparr>f_sent := ms\<rparr>) \<longleftrightarrow> snaplock_wf s"
  by (simp add: snaplock_wf_def)

lemma ticket_wf_mono: "ticket_wf n t \<Longrightarrow> n \<le> m \<Longrightarrow> ticket_wf m t"
  unfolding ticket_wf_def by (meson order_less_le_trans)

text \<open>
  A call on a ticket keeps the invariant and touches the heap and the sent messages only.
\<close>

definition calls :: "snaplock \<Rightarrow> snaplock \<Rightarrow> bool" where
  "calls s s' \<longleftrightarrow> f_tickets s' = f_tickets s \<and> f_entering_tickets s' = f_entering_tickets s
     \<and> f_computers s' = f_computers s \<and> sl_server_name s' = sl_server_name s
     \<and> length (heap s') = length (heap s) \<and> heap_le (heap s) (heap s')
     \<and> (heap_wf (heap s) \<longrightarrow> heap_wf (heap s'))"

fun event_ok :: "nat \<Rightarrow> ticket_event \<Rightarrow> bool" where
  "event_ok n (Ticket_Added q still) \<longleftrightarrow> (\<forall>k p. (k, p) \<in> set still \<longrightarrow> p < n)"
| "event_ok n ev \<longleftrightarrow> True"

lemma still_entering_call:
  "ticket_call t ev = Inr (t', out) \<Longrightarrow> event_ok n ev \<Longrightarrow> \<forall>k p. (k, p) \<in> set (f_still_entering t) \<longrightarrow> p < n
   \<Longrightarrow> \<forall>k p. (k, p) \<in> set (f_still_entering t') \<longrightarrow> p < n"
  by (cases ev)
    (auto simp: ticket_op_defs Let_def result_simps send_Inr omap_erase_def split: if_splits option.splits)

lemma ticket_wf_call: "ticket_wf n t \<Longrightarrow> ticket_call t ev = Inr (t', out) \<Longrightarrow> event_ok n ev \<Longrightarrow> ticket_wf n t'"
  using stages_ok_call [of t ev t' out] ticket_call_le [of t ev t' out] still_entering_call [of t ev t' out n]
  by (simp add: ticket_wf_def ticket_le_def)

lemma calls_refl [simp]: "calls s s"
  by (simp add: calls_def)

lemma calls_trans: "calls s s' \<Longrightarrow> calls s' s'' \<Longrightarrow> calls s s''"
  unfolding calls_def by (auto intro: heap_le_trans)

lemma heap_update_le: "p < length h \<Longrightarrow> ticket_le (h ! p) t \<Longrightarrow> heap_le h (h[p := t])"
  by (auto simp: heap_le_def nth_list_update ticket_le_refl)

lemma heap_update_wf: "heap_wf h \<Longrightarrow> ticket_wf (length h) t \<Longrightarrow> heap_wf (h[p := t])"
  using set_update_subset_insert [of h p t] by (auto simp: heap_wf_def)

lemma calls_on_ticket:
  assumes "on_ticket p (\<lambda>t. ticket_call t ev) s = Inr s'" "p < length (heap s)" "event_ok (length (heap s)) ev"
  shows "calls s s'"
proof -
  obtain t out where t: "ticket_call (heap s ! p) ev = Inr (t, out)"
    and s': "s' = s\<lparr>heap := (heap s)[p := t], f_sent := f_sent s @ out\<rparr>"
    using assms(1) by (auto simp: on_ticket_def result_simps)
  have "heap_wf ((heap s)[p := t])" if "heap_wf (heap s)"
  proof (rule heap_update_wf [OF that])
    have "ticket_wf (length (heap s)) (heap s ! p)" using that assms(2) by (simp add: heap_wf_def)
    then show "ticket_wf (length (heap s)) t" using t assms(3) by (rule ticket_wf_call)
  qed
  moreover have "heap_le (heap s) ((heap s)[p := t])"
    using assms(2) ticket_call_le [OF t] by (rule heap_update_le)
  ultimately show ?thesis unfolding calls_def s' by simp
qed

lemma calls_wf: "calls s s' \<Longrightarrow> snaplock_wf s \<Longrightarrow> snaplock_wf s'"
  unfolding calls_def snaplock_wf_def
  by (auto intro: object_map_wf_mono ticket_at_mono entering_at_mono)

lemma calls_fields:
  "calls s s' \<Longrightarrow> f_tickets s' = f_tickets s \<and> f_entering_tickets s' = f_entering_tickets s
    \<and> f_computers s' = f_computers s \<and> sl_server_name s' = sl_server_name s \<and> length (heap s') = length (heap s)"
  by (auto simp: calls_def)

text \<open>The member functions as events.\<close>

lemmas calls_simps = calls_on_ticket [where ev = Entering, simplified]
  calls_on_ticket [where ev = "Entered q" for q, simplified]
  calls_on_ticket [where ev = "Max_Ticket q n" for q n, simplified]
  calls_on_ticket [where ev = "Ticket_Added q still" for q still, simplified]
  calls_on_ticket [where ev = "Activate_Lock now srv q" for now srv q, simplified]
  calls_on_ticket [where ev = "Drop_Ticket srv" for srv, simplified]
  calls_on_ticket [where ev = "Lock_Failed srv" for srv, simplified]

text \<open>One step of the invariant per operation of the daemon.\<close>

lemma key_map_wf_suffix: "key_map_wf P km \<Longrightarrow> key_map_wf P (drop n km)"
  by (auto simp: key_map_wf_def omap_ok_def drop_map [symmetric] sorted_wrt_drop dest: in_set_dropD)

lemma wf_pointers: "snaplock_wf s \<Longrightarrow> omap_get (f_tickets s) ob = Some km \<Longrightarrow> \<forall>k p. (k, p) \<in> set km \<longrightarrow> p < length (heap s)"
  by (auto simp: snaplock_wf_def key_map_wf_def ticket_at_def dest!: object_map_wf_get)

lemma wf_set_tickets:
  "snaplock_wf s \<Longrightarrow> key_map_wf (ticket_at (heap s) ob) km \<Longrightarrow> snaplock_wf (s\<lparr>f_tickets := obj_set ob km (f_tickets s)\<rparr>)"
  by (simp add: snaplock_wf_def object_map_wf_set)

text \<open>\<open>lock_failed()\<close> changes one flag, which does not enter into what timed out or is locked.\<close>

definition only_failed :: "snaplock \<Rightarrow> snaplock \<Rightarrow> bool" where
  "only_failed s s' \<longleftrightarrow> (\<forall>q. \<exists>b. heap s' ! q = (heap s ! q)\<lparr>f_lock_failed := b\<rparr>)"

lemma only_failed_refl: "only_failed s s"
  unfolding only_failed_def by (metis snaplock_ticket.surjective snaplock_ticket.update_convs(19))

lemma only_failed_trans:
  assumes "only_failed s s'" "only_failed s' s''"
  shows "only_failed s s''"
proof -
  have "\<exists>b. heap s'' ! q = (heap s ! q)\<lparr>f_lock_failed := b\<rparr>" for q
  proof -
    obtain b c where "heap s' ! q = (heap s ! q)\<lparr>f_lock_failed := b\<rparr>"
      "heap s'' ! q = (heap s' ! q)\<lparr>f_lock_failed := c\<rparr>"
      using assms unfolding only_failed_def by metis
    then have "heap s'' ! q = (heap s ! q)\<lparr>f_lock_failed := c\<rparr>" by simp
    then show ?thesis by blast
  qed
  then show ?thesis by (simp add: only_failed_def)
qed

lemma only_failed_timed: "only_failed s s' \<Longrightarrow> timed env s' p = timed env s p"
proof -
  assume "only_failed s s'"
  then obtain b where "heap s' ! p = (heap s ! p)\<lparr>f_lock_failed := b\<rparr>" by (auto simp: only_failed_def)
  then show ?thesis by (simp add: timed_def ticket_timed_out_def)
qed

lemma only_failed_locked: "only_failed s s' \<Longrightarrow> f_locked (heap s' ! p) = f_locked (heap s ! p)"
proof -
  assume "only_failed s s'"
  then obtain b where "heap s' ! p = (heap s ! p)\<lparr>f_lock_failed := b\<rparr>" by (auto simp: only_failed_def)
  then show ?thesis by simp
qed

lemma lock_failed_only_failed:
  assumes "on_ticket p (ticket_lock_failed srv) s = Inr s'"
  shows "only_failed s s'"
proof -
  obtain t out where t: "ticket_call (heap s ! p) (Lock_Failed srv) = Inr (t, out)"
    and h: "heap s' = (heap s)[p := t]"
    using assms by (auto simp: on_ticket_def result_simps)
  have "t = (heap s ! p)\<lparr>f_lock_failed := f_lock_failed t\<rparr>" using call_lock_failed [OF t] by blast
  then have "\<exists>b. heap s' ! q = (heap s ! q)\<lparr>f_lock_failed := b\<rparr>" for q
    using only_failed_refl [of s] unfolding h only_failed_def
    by (cases "q = p \<and> p < length (heap s)") (auto simp: nth_list_update list_update_beyond)
  then show ?thesis by (simp add: only_failed_def)
qed

lemma cleanup_keys_spec:
  "cleanup_keys env km s = Inr (km', b, s') \<Longrightarrow> \<forall>k p. (k, p) \<in> set km \<longrightarrow> p < length (heap s) \<Longrightarrow>
   calls s s' \<and> only_failed s s' \<and> km' = filter (\<lambda>(k, p). \<not> timed env s p) km"
proof (induction km arbitrary: s km' b)
  case Nil
  then show ?case by (simp add: only_failed_refl)
next
  case (Cons kp km)
  obtain k p where kp: "kp = (k, p)" by force
  with Cons.prems(2) have p: "p < length (heap s)" by auto
  show ?case
  proof (cases "timed env s p")
    case True
    then obtain s1 b1 where s1: "on_ticket p (ticket_lock_failed (sl_server_name s)) s = Inr s1"
      "cleanup_keys env km s1 = Inr (km', b1, s')"
      using Cons.prems(1) by (auto simp: kp result_simps)
    have c: "calls s s1" using s1(1) p by (rule calls_simps)
    have o: "only_failed s s1" using s1(1) by (rule lock_failed_only_failed)
    have "\<forall>k p. (k, p) \<in> set km \<longrightarrow> p < length (heap s1)"
      using Cons.prems(2) calls_fields [OF c] by auto
    with Cons.IH [OF s1(2)] have "calls s1 s'" "only_failed s1 s'" "km' = filter (\<lambda>(k, p). \<not> timed env s1 p) km"
      by blast+
    with True c o show ?thesis by (auto simp: kp only_failed_timed intro: calls_trans only_failed_trans)
  next
    case False
    then obtain km1 b1 where "cleanup_keys env km s = Inr (km1, b1, s')" "km' = (k, p) # km1"
      using Cons.prems(1) by (auto simp: kp result_simps)
    with Cons.IH [of s km1 b1] Cons.prems(2) False show ?thesis by (auto simp: kp)
  qed
qed

definition same_timed :: "snaplock_env \<Rightarrow> snaplock \<Rightarrow> snaplock \<Rightarrow> bool" where
  "same_timed env s s' \<longleftrightarrow> (\<forall>p < length (heap s). timed env s' p = timed env s p)"

text \<open>Which tickets became locked on the way from one state to the next.\<close>

definition newly_locked :: "snaplock \<Rightarrow> snaplock \<Rightarrow> ptr \<Rightarrow> bool" where
  "newly_locked s s' q \<longleftrightarrow> q < length (heap s) \<and> f_locked (heap s' ! q) \<and> \<not> f_locked (heap s ! q)"

lemma activate_ticket:
  assumes "on_ticket p (ticket_activate_lock (env_now env) srv q) s = Inr s'" "p < length (heap s)"
    "heap_wf (heap s)" "\<not> timed env s p"
  shows "calls s s' \<and> same_timed env s s' \<and> (\<forall>r. newly_locked s s' r \<longrightarrow> r = p \<and> f_ticket_ready (heap s ! p))"
proof -
  obtain t out where t: "ticket_call (heap s ! p) (Activate_Lock (env_now env) srv q) = Inr (t, out)"
    and h: "heap s' = (heap s)[p := t]"
    using assms(1) by (auto simp: on_ticket_def result_simps)
  have d: "f_lock_duration (heap s ! p) \<ge> SNAP_LOCK_MINIMUM_TIMEOUT"
    using assms(2,3) by (simp add: heap_wf_def ticket_wf_def)
  have "\<not> ticket_timed_out (env_now env) t" "f_locked t \<and> \<not> f_locked (heap s ! p) \<longrightarrow> f_ticket_ready (heap s ! p)"
    using t assms(4) d
    by (auto simp: ticket_activate_lock_def Let_def send_Inr timed_def ticket_timed_out_def
        SNAP_LOCK_MINIMUM_TIMEOUT_def split: if_splits)
  then have "same_timed env s s'" "\<forall>r. newly_locked s s' r \<longrightarrow> r = p \<and> f_ticket_ready (heap s ! p)"
    using assms(2,4) by (auto simp: same_timed_def newly_locked_def timed_def h nth_list_update)
  moreover have "calls s s'" using assms(1,2) by (rule calls_simps)
  ultimately show ?thesis by blast
qed

lemma activate_loop_spec:
  "activate_loop env km s = Inr (km', s') \<Longrightarrow> \<forall>k p. (k, p) \<in> set km \<longrightarrow> p < length (heap s) \<Longrightarrow> heap_wf (heap s) \<Longrightarrow>
   calls s s' \<and> same_timed env s s' \<and> km' = dropWhile (\<lambda>(k, p). timed env s p) km
   \<and> (\<forall>q. newly_locked s s' q \<longrightarrow> km' \<noteq> [] \<and> q = snd (hd km') \<and> f_ticket_ready (heap s' ! q))"
proof (induction km arbitrary: s)
  case Nil
  then show ?case by (auto simp: same_timed_def newly_locked_def)
next
  case (Cons kp km)
  obtain k p where kp: "kp = (k, p)" by force
  with Cons.prems(2) have p: "p < length (heap s)" by auto
  show ?case
  proof (cases "timed env s p")
    case False
    then obtain s1 where s1: "on_ticket p (ticket_activate_lock (env_now env) (sl_server_name s) (quorum s)) s = Inr s1"
      "s' = s1" "km' = (k, p) # km"
      using Cons.prems(1) by (auto simp: kp result_simps)
    from activate_ticket [OF s1(1) p Cons.prems(3) False] s1(2,3) False p show ?thesis
      by (auto simp: kp calls_def heap_le_def ticket_le_def)
  next
    case True
    then obtain s1 where s1: "on_ticket p (ticket_lock_failed (sl_server_name s)) s = Inr s1"
      "activate_loop env km s1 = Inr (km', s')"
      using Cons.prems(1) by (auto simp: kp result_simps)
    have c: "calls s s1" using s1(1) p by (rule calls_simps)
    have o: "only_failed s s1" using s1(1) by (rule lock_failed_only_failed)
    have "\<forall>k p. (k, p) \<in> set km \<longrightarrow> p < length (heap s1)" "heap_wf (heap s1)"
      using Cons.prems(2,3) c by (auto simp: calls_def)
    from Cons.IH [OF s1(2) this] True c o show ?thesis
      by (auto simp: kp same_timed_def newly_locked_def only_failed_timed only_failed_locked calls_fields
          intro: calls_trans)
  qed
qed

text \<open>A state reached by activation and cleanup of some objects.\<close>

definition advances :: "snaplock_env \<Rightarrow> snaplock \<Rightarrow> snaplock \<Rightarrow> bool" where
  "advances env s s' \<longleftrightarrow> snaplock_wf s' \<and> length (heap s') = length (heap s) \<and> heap_le (heap s) (heap s')
     \<and> same_timed env s s' \<and> f_entering_tickets s' = f_entering_tickets s \<and> f_computers s' = f_computers s
     \<and> sl_server_name s' = sl_server_name s"

lemma advances_trans: "advances env s s' \<Longrightarrow> advances env s' s'' \<Longrightarrow> advances env s s''"
  by (auto simp: advances_def same_timed_def intro: heap_le_trans)

lemma calls_advances:
  "calls s s' \<Longrightarrow> same_timed env s s' \<Longrightarrow> snaplock_wf s \<Longrightarrow> key_map_wf (ticket_at (heap s) ob) km \<Longrightarrow>
   advances env s (s'\<lparr>f_tickets := obj_set ob km (f_tickets s')\<rparr>)"
proof -
  assume c: "calls s s'" "same_timed env s s'" "snaplock_wf s" "key_map_wf (ticket_at (heap s) ob) km"
  have "key_map_wf (ticket_at (heap s') ob) km"
    using c(4) ticket_at_mono c(1) by (auto simp: calls_def intro: key_map_wf_mono)
  then have "snaplock_wf (s'\<lparr>f_tickets := obj_set ob km (f_tickets s')\<rparr>)"
    using calls_wf [OF c(1,3)] by (intro wf_set_tickets)
  then show ?thesis using c(1,2) by (simp add: advances_def calls_def same_timed_def timed_def)
qed

lemma key_map_wf_dropWhile: "key_map_wf P km \<Longrightarrow> key_map_wf P (dropWhile Q km)"
  using key_map_wf_suffix [of P km] by (simp add: dropWhile_eq_drop)

lemma activate_first_lock_spec:
  assumes "activate_first_lock env ob s = Inr s'" "snaplock_wf s"
  defines "km' \<equiv> dropWhile (\<lambda>(k, p). timed env s p) (obj_keys ob (f_tickets s))"
  shows "advances env s s' \<and> f_tickets s' = obj_set ob km' (f_tickets s)
    \<and> (\<forall>q. newly_locked s s' q \<longrightarrow> km' \<noteq> [] \<and> q = snd (hd km') \<and> f_ticket_ready (heap s' ! q))"
proof (cases "omap_get (f_tickets s) ob")
  case None
  have "omap_erase ob (f_tickets s) = f_tickets s"
    using None by (auto simp: omap_erase_def map_of_eq_None_iff filter_id_conv)
  with None assms(1,2) show ?thesis
    by (auto simp: activate_first_lock_def km'_def obj_keys_def obj_set_def advances_def same_timed_def newly_locked_def)
next
  case (Some km)
  then obtain km1 s1 where s1: "activate_loop env km s = Inr (km1, s1)"
    and s': "s' = s1\<lparr>f_tickets := obj_set ob km1 (f_tickets s1)\<rparr>"
    using assms(1) by (auto simp: activate_first_lock_def result_simps)
  have h: "heap_wf (heap s)" using assms(2) by (simp add: snaplock_wf_def)
  have k: "dropWhile (\<lambda>(k, p). timed env s p) km = km'"
    using Some by (simp add: km'_def obj_keys_def)
  note spec = activate_loop_spec [OF s1 wf_pointers [OF assms(2) Some] h, unfolded k]
  have km1: "km1 = km'" using spec by (elim conjE)
  have c: "calls s s1" "same_timed env s s1"
    "\<forall>q. newly_locked s s1 q \<longrightarrow> km' \<noteq> [] \<and> q = snd (hd km') \<and> f_ticket_ready (heap s1 ! q)"
    using spec unfolding km1 by simp_all
  have "key_map_wf (ticket_at (heap s) ob) km'"
    using assms(2) unfolding km'_def by (intro key_map_wf_dropWhile object_map_wf_keys) (simp add: snaplock_wf_def)
  with c assms(2) have "advances env s s'" unfolding s' km1 by (intro calls_advances)
  with c show ?thesis by (simp add: s' km1 newly_locked_def calls_fields)
qed

lemma only_failed_same_timed: "only_failed s s' \<Longrightarrow> same_timed env s s'"
  by (simp add: same_timed_def only_failed_timed)

lemma cleanup_object_spec:
  assumes "cleanup_object env ob s = Inr s'" "snaplock_wf s"
  defines "km' \<equiv> filter (\<lambda>(k, p). \<not> timed env s p) (obj_keys ob (f_tickets s))"
  shows "advances env s s' \<and> f_tickets s' = obj_set ob km' (f_tickets s)
    \<and> (\<forall>q. newly_locked s s' q \<longrightarrow> km' \<noteq> [] \<and> q = snd (hd km') \<and> f_ticket_ready (heap s' ! q))"
proof -
  obtain km1 b s1 where s1: "cleanup_keys env (obj_keys ob (f_tickets s)) s = Inr (km1, b, s1)"
    using assms(1) by (auto simp: cleanup_object_def result_simps)
  have wfk: "key_map_wf (ticket_at (heap s) ob) (obj_keys ob (f_tickets s))"
    using assms(2) by (intro object_map_wf_keys) (simp add: snaplock_wf_def)
  then have "\<forall>k p. (k, p) \<in> set (obj_keys ob (f_tickets s)) \<longrightarrow> p < length (heap s)"
    by (auto simp: key_map_wf_def ticket_at_def)
  from cleanup_keys_spec [OF s1 this] have c: "calls s s1" "only_failed s s1" "km1 = km'"
    by (simp_all add: km'_def)
  define s2 where "s2 = s1\<lparr>f_tickets := obj_set ob km' (f_tickets s1)\<rparr>"
  have a: "advances env s s2"
    using c(1) only_failed_same_timed [OF c(2)] assms(2) wfk unfolding s2_def km'_def
    by (intro calls_advances key_map_wf_filter)
  have locked: "f_locked (heap s2 ! q) = f_locked (heap s ! q)" for q
    using only_failed_locked [OF c(2)] by (simp add: s2_def)
  have t2: "f_tickets s2 = obj_set ob km' (f_tickets s)" using c(1) by (simp add: s2_def calls_fields)
  show ?thesis
  proof (cases "km' \<noteq> [] \<and> b")
    case False
    with assms(1) s1 c(3) have "s' = s2" by (auto simp: cleanup_object_def s2_def)
    with a t2 locked show ?thesis by (simp add: newly_locked_def)
  next
    case True
    with assms(1) s1 c(3) have act: "activate_first_lock env ob s2 = Inr s'" by (simp add: cleanup_object_def s2_def)
    have wf2: "snaplock_wf s2" using a by (simp add: advances_def)
    have "\<not> timed env s2 p" if "(k, p) \<in> set km'" for k p
      using that wfk only_failed_timed [OF c(2)]
      by (auto simp: km'_def s2_def timed_def)
    then have d: "dropWhile (\<lambda>(k, p). timed env s2 p) km' = km'"
      using True by (cases km') auto
    from activate_first_lock_spec [OF act wf2] have "advances env s2 s'"
      "f_tickets s' = obj_set ob km' (f_tickets s2)"
      "\<forall>q. newly_locked s2 s' q \<longrightarrow> km' \<noteq> [] \<and> q = snd (hd km') \<and> f_ticket_ready (heap s' ! q)"
      by (simp_all add: t2 obj_keys_set d)
    moreover have "length (heap s2) = length (heap s)" using a by (simp add: advances_def)
    ultimately show ?thesis using advances_trans [OF a] by (simp add: t2 obj_set_set newly_locked_def locked)
  qed
qed

definition heads_locked :: "string set \<Rightarrow> snaplock \<Rightarrow> snaplock \<Rightarrow> bool" where
  "heads_locked obs s s' \<longleftrightarrow> (\<forall>q. newly_locked s s' q \<longrightarrow>
     (\<exists>ob \<in> obs. obj_keys ob (f_tickets s') \<noteq> [] \<and> q = snd (hd (obj_keys ob (f_tickets s'))) \<and> f_ticket_ready (heap s' ! q)))"

lemma wf_key_pointer: "snaplock_wf s \<Longrightarrow> (k, p) \<in> set (obj_keys ob (f_tickets s)) \<Longrightarrow> p < length (heap s)"
  using object_map_wf_keys [of "ticket_at (heap s)" "f_tickets s" ob]
  by (auto simp: snaplock_wf_def key_map_wf_def ticket_at_def)

lemma wf_entering_pointer: "snaplock_wf s \<Longrightarrow> (k, p) \<in> set (obj_keys ob (f_entering_tickets s)) \<Longrightarrow> p < length (heap s)"
  using object_map_wf_keys [of "entering_at (heap s)" "f_entering_tickets s" ob]
  by (auto simp: snaplock_wf_def key_map_wf_def entering_at_def ticket_at_def)

lemma advances_filter:
  "advances env s s' \<Longrightarrow> snaplock_wf s \<Longrightarrow>
   filter (\<lambda>(k, p). \<not> timed env s' p) (obj_keys ob (f_tickets s)) = filter (\<lambda>(k, p). \<not> timed env s p) (obj_keys ob (f_tickets s))"
  by (rule filter_cong [OF refl]) (auto simp: advances_def same_timed_def dest: wf_key_pointer)

lemma advances_filter_entering:
  "advances env s s' \<Longrightarrow> snaplock_wf s \<Longrightarrow>
   filter (\<lambda>(k, p). \<not> timed env s' p) (obj_keys ob (f_entering_tickets s)) = filter (\<lambda>(k, p). \<not> timed env s p) (obj_keys ob (f_entering_tickets s))"
  by (rule filter_cong [OF refl]) (auto simp: advances_def same_timed_def dest: wf_entering_pointer)

lemma cleanup_tickets_spec:
  "cleanup_tickets env obs s = Inr s' \<Longrightarrow> snaplock_wf s \<Longrightarrow> distinct obs \<Longrightarrow>
   advances env s s'
   \<and> (\<forall>ob. obj_keys ob (f_tickets s') = (if ob \<in> set obs
        then filter (\<lambda>(k, p). \<not> timed env s p) (obj_keys ob (f_tickets s)) else obj_keys ob (f_tickets s)))
   \<and> heads_locked (set obs) s s'"
proof (induction obs arbitrary: s)
  case Nil
  then show ?case by (auto simp: advances_def same_timed_def newly_locked_def heads_locked_def)
next
  case (Cons ob obs)
  then obtain s1 where s1: "cleanup_object env ob s = Inr s1" "cleanup_tickets env obs s1 = Inr s'"
    by (auto simp: result_simps)
  note sp1 = cleanup_object_spec [OF s1(1) Cons.prems(2)]
  then have a1: "advances env s s1" and wf1: "snaplock_wf s1" by (simp_all add: advances_def)
  have "distinct obs" "ob \<notin> set obs" using Cons.prems(3) by simp_all
  note sp2 = Cons.IH [OF s1(2) wf1 this(1)]
  then have a2: "advances env s1 s'" by simp
  have keys1: "obj_keys ob (f_tickets s1) = filter (\<lambda>(k, p). \<not> timed env s p) (obj_keys ob (f_tickets s))"
    "\<And>ob'. ob' \<noteq> ob \<Longrightarrow> obj_keys ob' (f_tickets s1) = obj_keys ob' (f_tickets s)"
    using sp1 by simp_all
  note tm = advances_filter [OF a1 Cons.prems(2)]
  have keys: "\<forall>ob'. obj_keys ob' (f_tickets s') = (if ob' \<in> set (ob # obs)
      then filter (\<lambda>(k, p). \<not> timed env s p) (obj_keys ob' (f_tickets s)) else obj_keys ob' (f_tickets s))"
    using sp2 keys1 tm \<open>ob \<notin> set obs\<close> by simp metis
  have "heads_locked (set (ob # obs)) s s'" unfolding heads_locked_def
  proof (intro allI impI)
    fix q assume q: "newly_locked s s' q"
    show "\<exists>ob'\<in>set (ob # obs). obj_keys ob' (f_tickets s') \<noteq> [] \<and> q = snd (hd (obj_keys ob' (f_tickets s'))) \<and> f_ticket_ready (heap s' ! q)"
    proof (cases "newly_locked s s1 q")
      case True
      with sp1 keys1(1) have "obj_keys ob (f_tickets s1) \<noteq> []" "q = snd (hd (obj_keys ob (f_tickets s1)))" "f_ticket_ready (heap s1 ! q)"
        by metis+
      moreover have "obj_keys ob (f_tickets s') = obj_keys ob (f_tickets s1)" using sp2 \<open>ob \<notin> set obs\<close> by simp
      moreover have "f_ticket_ready (heap s1 ! q) \<longrightarrow> f_ticket_ready (heap s' ! q)"
        using True a1 a2 by (simp add: advances_def heap_le_def ticket_le_def newly_locked_def)
      ultimately show ?thesis by auto
    next
      case False
      with q a1 have "newly_locked s1 s' q" by (auto simp: newly_locked_def advances_def)
      with sp2 show ?thesis unfolding heads_locked_def by (meson list.set_intros(2))
    qed
  qed
  with advances_trans [OF a1 a2] keys show ?case by blast
qed

lemma omap_ok_map_filter:
  "omap_ok m \<Longrightarrow> omap_ok (filter P (map (\<lambda>(k, v). (k, f k v)) m))"
  by (rule omap_ok_filter) (auto simp: omap_ok_def comp_def case_prod_unfold)

lemma map_of_map_filter:
  "omap_get (filter (\<lambda>(ob, km). km \<noteq> []) (map (\<lambda>(ob, km). (ob, f km)) m)) ob =
     (case omap_get m ob of None \<Rightarrow> None | Some km \<Rightarrow> if f km = [] then None else Some (f km))"
  if "omap_ok m" for m :: object_map_t
  using that
proof (induction m)
  case Nil
  then show ?case by simp
next
  case (Cons x m)
  obtain o' km where x: "x = (o', km)" by force
  with Cons.prems have "omap_get m o' = None" "omap_ok m"
    by (auto simp: omap_ok_Cons map_of_eq_None_iff)
  with Cons.IH x show ?case by (auto split: option.splits)
qed

lemma obj_keys_cleanup_entering:
  "snaplock_wf s \<Longrightarrow> obj_keys ob (f_entering_tickets (cleanup_entering env s))
     = filter (\<lambda>(k, p). \<not> timed env s p) (obj_keys ob (f_entering_tickets s))"
  by (auto simp: cleanup_entering_def obj_keys_def map_of_map_filter snaplock_wf_def object_map_wf_def split: option.splits)

lemma cleanup_entering_wf: "snaplock_wf s \<Longrightarrow> snaplock_wf (cleanup_entering env s)"
  by (auto simp: snaplock_wf_def cleanup_entering_def object_map_wf_def intro!: key_map_wf_filter omap_ok_map_filter)

lemma obj_keys_dom: "ob \<notin> set (map fst m) \<Longrightarrow> obj_keys ob m = []"
  using map_of_eq_None_iff [of m ob] by (simp add: obj_keys_def)

lemma heads_locked_mono: "heads_locked obs s s' \<Longrightarrow> obs \<subseteq> obs' \<Longrightarrow> heads_locked obs' s s'"
  unfolding heads_locked_def by (meson subsetD)

lemma cleanup_spec:
  assumes "cleanup env s = Inr s'" "snaplock_wf s"
  shows "snaplock_wf s' \<and> length (heap s') = length (heap s) \<and> heap_le (heap s) (heap s')
    \<and> same_timed env s s' \<and> f_computers s' = f_computers s \<and> sl_server_name s' = sl_server_name s
    \<and> heads_locked UNIV s s'
    \<and> (\<forall>ob. obj_keys ob (f_tickets s') = filter (\<lambda>(k, p). \<not> timed env s p) (obj_keys ob (f_tickets s))
        \<and> obj_keys ob (f_entering_tickets s') = filter (\<lambda>(k, p). \<not> timed env s p) (obj_keys ob (f_entering_tickets s)))"
proof -
  obtain s1 where s1: "cleanup_tickets env (map fst (f_tickets s)) s = Inr s1" and s': "s' = cleanup_entering env s1"
    using assms(1) by (auto simp: cleanup_def result_simps)
  have "distinct (map fst (f_tickets s))"
    using assms(2) by (simp add: snaplock_wf_def object_map_wf_def omap_ok_distinct)
  note sp = cleanup_tickets_spec [OF s1 assms(2) this]
  then have a: "advances env s s1" by blast
  then have wf1: "snaplock_wf s1" by (simp add: advances_def)
  have "obj_keys ob (f_tickets s') = filter (\<lambda>(k, p). \<not> timed env s p) (obj_keys ob (f_tickets s))" for ob
    using sp obj_keys_dom [of ob "f_tickets s"] by (auto simp: s' cleanup_entering_def)
  moreover have "obj_keys ob (f_entering_tickets s') = filter (\<lambda>(k, p). \<not> timed env s p) (obj_keys ob (f_entering_tickets s))" for ob
    using advances_filter_entering [OF a assms(2)] a
    by (simp add: s' obj_keys_cleanup_entering [OF wf1]) (simp add: advances_def)
  moreover have "heads_locked UNIV s s1" using sp heads_locked_mono by (metis subset_UNIV)
  then have "heads_locked UNIV s s'" by (simp add: s' cleanup_entering_def heads_locked_def newly_locked_def)
  moreover have "same_timed env s s'" "length (heap s') = length (heap s)" "heap_le (heap s) (heap s')"
    "f_computers s' = f_computers s" "sl_server_name s' = sl_server_name s"
    using a by (simp_all add: advances_def s' cleanup_entering_def same_timed_def timed_def)
  ultimately show ?thesis using cleanup_entering_wf [OF wf1] by (simp add: s')
qed

text \<open>
  What one message may do: keep the invariant, move tickets forward, and lock a ticket only when
  it is the first of its object.  A quiet change locks nothing.
\<close>

definition good :: "snaplock \<Rightarrow> snaplock \<Rightarrow> bool" where
  "good s s' \<longleftrightarrow> snaplock_wf s' \<and> heap_le (heap s) (heap s') \<and> heads_locked UNIV s s'
     \<and> sl_server_name s' = sl_server_name s"

definition quiet :: "snaplock \<Rightarrow> snaplock \<Rightarrow> bool" where
  "quiet s s' \<longleftrightarrow> snaplock_wf s' \<and> heap_le (heap s) (heap s')
     \<and> (\<forall>q < length (heap s). f_locked (heap s' ! q) = f_locked (heap s ! q)) \<and> sl_server_name s' = sl_server_name s"

lemma quiet_refl: "snaplock_wf s \<Longrightarrow> quiet s s"
  by (simp add: quiet_def)

lemma quiet_trans: "quiet s s' \<Longrightarrow> quiet s' s'' \<Longrightarrow> quiet s s''"
  unfolding quiet_def by (auto simp: heap_le_def intro: heap_le_trans ticket_le_trans)

lemma quiet_good: "quiet s s' \<Longrightarrow> good s s'"
  by (auto simp: quiet_def good_def heads_locked_def newly_locked_def)

lemma quiet_then_good: "quiet s s' \<Longrightarrow> good s' s'' \<Longrightarrow> good s s''"
proof -
  assume q: "quiet s s'" and g: "good s' s''"
  then have le: "heap_le (heap s) (heap s'')" by (auto simp: quiet_def good_def intro: heap_le_trans)
  have "newly_locked s' s'' r" if "newly_locked s s'' r" for r
    using that q by (auto simp: newly_locked_def quiet_def heap_le_def)
  with q g le show ?thesis by (simp add: quiet_def good_def heads_locked_def)
qed

lemma good_same_heap:
  "good s s' \<Longrightarrow> snaplock_wf s'' \<Longrightarrow> heap s'' = heap s' \<Longrightarrow> f_tickets s'' = f_tickets s' \<Longrightarrow>
   sl_server_name s'' = sl_server_name s' \<Longrightarrow> good s s''"
  by (simp add: good_def heads_locked_def newly_locked_def)

lemma quiet_same_heap:
  "snaplock_wf s' \<Longrightarrow> heap s' = heap s \<Longrightarrow> sl_server_name s' = sl_server_name s \<Longrightarrow> quiet s s'"
  by (simp add: quiet_def)

lemma send_message_quiet: "send_message cs s = Inr s' \<Longrightarrow> snaplock_wf s \<Longrightarrow> quiet s s'"
  by (auto simp: send_message_def result_simps intro!: quiet_same_heap)

lemma call_locked:
  "ticket_call t ev = Inr (t', out) \<Longrightarrow> \<forall>now srv q. ev \<noteq> Activate_Lock now srv q \<Longrightarrow> f_locked t' = f_locked t"
  by (cases ev)
    (auto simp: ticket_op_defs Let_def result_simps send_Inr split: if_splits option.splits)

lemma quiet_on_ticket:
  assumes "on_ticket p (\<lambda>t. ticket_call t ev) s = Inr s'" "p < length (heap s)" "event_ok (length (heap s)) ev"
    "\<forall>now srv q. ev \<noteq> Activate_Lock now srv q" "snaplock_wf s"
  shows "quiet s s'"
proof -
  obtain t out where t: "ticket_call (heap s ! p) ev = Inr (t, out)" and h: "heap s' = (heap s)[p := t]"
    using assms(1) by (auto simp: on_ticket_def result_simps)
  have "f_locked t = f_locked (heap s ! p)" using t assms(4) by (rule call_locked)
  then have "\<forall>q < length (heap s). f_locked (heap s' ! q) = f_locked (heap s ! q)"
    using assms(2) by (simp add: h nth_list_update)
  moreover have c: "calls s s'" using assms(1-3) by (rule calls_on_ticket)
  ultimately show ?thesis using calls_wf [OF c assms(5)] by (simp add: quiet_def calls_def)
qed

lemmas quiet_calls = quiet_on_ticket [where ev = Entering, simplified]
  quiet_on_ticket [where ev = "Entered q" for q, simplified]
  quiet_on_ticket [where ev = "Max_Ticket q n" for q n, simplified]
  quiet_on_ticket [where ev = "Ticket_Added q still" for q still, simplified]
  quiet_on_ticket [where ev = "Drop_Ticket srv" for srv, simplified]

lemma activate_first_lock_good:
  assumes "activate_first_lock env ob s = Inr s'" "snaplock_wf s"
  shows "good s s'"
proof -
  note sp = activate_first_lock_spec [OF assms]
  then have "heads_locked {ob} s s'" unfolding heads_locked_def by (metis insertI1 obj_keys_set)
  then have "heads_locked UNIV s s'" by (rule heads_locked_mono) simp
  with sp show ?thesis by (simp add: good_def advances_def)
qed

lemma cleanup_good: "cleanup env s = Inr s' \<Longrightarrow> snaplock_wf s \<Longrightarrow> good s s'"
  by (drule cleanup_spec) (simp_all add: good_def)

lemma quiet_put_entering:
  assumes "snaplock_wf s" "make_shared (new_ticket ob k to du se sv) s = (p, s1)" "du \<ge> SNAP_LOCK_MINIMUM_TIMEOUT"
  shows "quiet s (s1\<lparr>f_entering_tickets := obj_put ob k p (f_entering_tickets s1)\<rparr>) \<and> p < length (heap s1)"
proof -
  have s1: "p = length (heap s)" "s1 = s\<lparr>heap := heap s @ [new_ticket ob k to du se sv]\<rparr>"
    using assms(2) by (simp_all add: make_shared_def)
  have le: "heap_le (heap s) (heap s1)" by (simp add: heap_le_def s1 nth_append ticket_le_refl)
  have "ticket_wf (length (heap s1)) (new_ticket ob k to du se sv)"
    using assms(3) stages_ok_new [of ob k to du se sv] by (simp add: ticket_wf_def) (simp add: new_ticket_def)
  then have "heap_wf (heap s1)"
    using assms(1) by (auto simp: heap_wf_def s1 snaplock_wf_def intro: ticket_wf_mono)
  then have wf1: "snaplock_wf s1"
    using snaplock_wf_heap [OF assms(1) _ le] by (simp add: s1)
  have "entering_at (heap s1) ob k p" by (simp add: entering_at_def ticket_at_def s1 new_ticket_def)
  with wf1 have "snaplock_wf (s1\<lparr>f_entering_tickets := obj_put ob k p (f_entering_tickets s1)\<rparr>)"
    by (simp add: snaplock_wf_def object_map_wf_put)
  with le show ?thesis by (simp add: quiet_def s1 nth_append)
qed

lemma lock_quiet:
  assumes "lock env m s = Inr s'" "snaplock_wf s"
  shows "quiet s s'"
proof -
  obtain ps where ps: "get_parameters env [W_object_name, W_client_pid, W_timeout] m = Inr ps"
    using assms(1) by (auto simp: lock_def result_simps)
  show ?thesis
  proof (cases "p_timeout ps \<le> env_now env")
    case True
    with assms ps show ?thesis by (simp add: lock_def quiet_refl)
  next
    case False
    define ek where "ek = make_key (sl_server_name s) (show_int (p_client_pid ps))"
    obtain d p s1 where d: "to_int32 d \<ge> SNAP_LOCK_MINIMUM_TIMEOUT"
      and s1: "make_shared (new_ticket (p_object_name ps) ek (p_timeout ps) (to_int32 d)
        (f_sent_from_server m) (f_sent_from_service m)) s = (p, s1)"
      and s': "on_ticket p ticket_entering (s1\<lparr>f_entering_tickets := obj_put (p_object_name ps) ek p (f_entering_tickets s1)\<rparr>) = Inr s'"
      using assms(1) False ps
      by (auto simp: lock_def ek_def Let_def result_simps make_shared_def not_less split: if_splits)
    note q = quiet_put_entering [OF assms(2) s1 d]
    then have "snaplock_wf (s1\<lparr>f_entering_tickets := obj_put (p_object_name ps) ek p (f_entering_tickets s1)\<rparr>)"
      by (simp add: quiet_def)
    then have "quiet (s1\<lparr>f_entering_tickets := obj_put (p_object_name ps) ek p (f_entering_tickets s1)\<rparr>) s'"
      using s' q [THEN conjunct2] by (intro quiet_calls(1) [of p]) auto
    with q show ?thesis by (blast intro: quiet_trans)
  qed
qed

lemma unlock_quiet:
  assumes "unlock env m s = Inr s'" "snaplock_wf s"
  shows "quiet s s'"
proof -
  obtain ps where ps: "get_parameters env [W_object_name, W_client_pid] m = Inr ps"
    using assms(1) by (auto simp: unlock_def result_simps)
  show ?thesis
  proof (cases "find (\<lambda>(k, p). f_entering_key (heap s ! p) = make_key (sl_server_name s) (show_int (p_client_pid ps)))
      (obj_keys (p_object_name ps) (f_tickets s))")
    case None
    with assms ps show ?thesis by (simp add: unlock_def quiet_refl)
  next
    case (Some kp)
    obtain k p where kp: "kp = (k, p)" by force
    have "(k, p) \<in> set (obj_keys (p_object_name ps) (f_tickets s))"
      using Some kp by (metis find_Some_iff nth_mem)
    then have "p < length (heap s)" using assms(2) by (auto dest: wf_key_pointer)
    moreover have "on_ticket p (ticket_drop_ticket (sl_server_name s)) s = Inr s'"
      using assms(1) ps Some kp by (simp add: unlock_def)
    ultimately show ?thesis using assms(2) by (intro quiet_calls)
  qed
qed

lemma lockentering_allocate_quiet:
  assumes "lockentering_allocate env m ps s = Inr s'" "snaplock_wf s"
  shows "quiet s s'"
proof -
  obtain d server service p s1 where d: "to_int32 d \<ge> SNAP_LOCK_MINIMUM_TIMEOUT"
    and s1: "make_shared (new_ticket (p_object_name ps) (p_key ps) (p_timeout ps) (to_int32 d) server service) s = (p, s1)"
    and s': "s' = s1\<lparr>f_entering_tickets := obj_put (p_object_name ps) (p_key ps) p (f_entering_tickets s1)\<rparr>"
    using assms(1)
    by (auto simp: lockentering_allocate_def Let_def result_simps make_shared_def not_less split: if_splits list.splits)
  from quiet_put_entering [OF assms(2) s1 d] show ?thesis by (simp add: s')
qed

lemma lockentering_good:
  assumes "lockentering env m s = Inr s'" "snaplock_wf s"
  shows "good s s'"
proof -
  obtain ps s2 where ps: "get_parameters env [W_object_name, W_timeout, W_key, W_source] m = Inr ps"
    and s2: "(if p_timeout ps > env_now env then
              bindE (if obj_find (p_object_name ps) (p_key ps) (f_entering_tickets s) = None
                     then lockentering_allocate env m ps s else Inr s) (\<lambda>s1.
              send_message [set_command ''LOCKENTERED'', reply_to m,
                            add_parameter ''object_name'' (p_object_name ps),
                            add_parameter ''key'' (p_key ps)] s1)
            else Inr s) = Inr s2"
    and s': "cleanup env s2 = Inr s'"
    using assms(1) unfolding lockentering_def bindE_eq_Inr by blast
  have "quiet s s2"
  proof (cases "p_timeout ps > env_now env")
    case False
    with s2 assms(2) show ?thesis by (simp add: quiet_refl)
  next
    case True
    then obtain s1 cs where s1: "(if obj_find (p_object_name ps) (p_key ps) (f_entering_tickets s) = None
        then lockentering_allocate env m ps s else Inr s) = Inr s1" and sm: "send_message cs s1 = Inr s2"
      using s2 by (auto simp: bindE_eq_Inr)
    have q1: "quiet s s1"
      using s1 assms(2) by (cases "obj_find (p_object_name ps) (p_key ps) (f_entering_tickets s)")
        (auto intro: lockentering_allocate_quiet quiet_refl)
    then have "quiet s1 s2" using sm by (intro send_message_quiet) (simp_all add: quiet_def)
    with q1 show ?thesis by (rule quiet_trans)
  qed
  moreover from this have "good s2 s'" using s' by (intro cleanup_good) (simp_all add: quiet_def)
  ultimately show ?thesis by (rule quiet_then_good)
qed

lemma wf_find_entering: "snaplock_wf s \<Longrightarrow> obj_find ob k (f_entering_tickets s) = Some p \<Longrightarrow> p < length (heap s)"
  by (auto simp: snaplock_wf_def entering_at_def ticket_at_def dest!: object_map_wf_find)

lemma wf_find_ticket: "snaplock_wf s \<Longrightarrow> obj_find ob k (f_tickets s) = Some p \<Longrightarrow> p < length (heap s)"
  by (auto simp: snaplock_wf_def ticket_at_def dest!: object_map_wf_find)

lemma lockentered_quiet: "lockentered env m s = Inr s' \<Longrightarrow> snaplock_wf s \<Longrightarrow> quiet s s'"
  by (auto simp: lockentered_def result_simps quiet_refl split: option.splits
      intro: quiet_calls dest: wf_find_entering)

lemma max_ticket_quiet: "max_ticket env m s = Inr s' \<Longrightarrow> snaplock_wf s \<Longrightarrow> quiet s s'"
  by (auto simp: max_ticket_def result_simps quiet_refl split: option.splits
      intro: quiet_calls dest: wf_find_entering)

lemma get_max_ticket_good:
  assumes "get_max_ticket env m s = Inr s'" "snaplock_wf s"
  shows "good s s'"
proof -
  obtain s1 cs where s1: "cleanup env s = Inr s1" and s': "send_message cs s1 = Inr s'"
    using assms(1) unfolding get_max_ticket_def bindE_eq_Inr by blast
  have g: "good s s1" using s1 assms(2) by (rule cleanup_good)
  then have "quiet s1 s'" using s' by (intro send_message_quiet) (simp_all add: good_def)
  with g s' show ?thesis
    by (intro good_same_heap [OF g]) (auto simp: send_message_def result_simps quiet_def)
qed

lemma ticket_added_quiet:
  assumes "ticket_added env m s = Inr s'" "snaplock_wf s"
  shows "quiet s s'"
proof -
  obtain ps where ps: "get_parameters env [W_object_name, W_key] m = Inr ps"
    using assms(1) by (auto simp: ticket_added_def result_simps)
  show ?thesis
  proof (cases "obj_find (p_object_name ps) (p_key ps) (f_tickets s)";
         cases "omap_get (f_entering_tickets s) (p_object_name ps)")
    fix p still assume f: "obj_find (p_object_name ps) (p_key ps) (f_tickets s) = Some p"
      and st: "omap_get (f_entering_tickets s) (p_object_name ps) = Some still"
    have "on_ticket p (ticket_ticket_added (quorum s) still) s = Inr s'"
      using assms(1) ps f st by (simp add: ticket_added_def)
    moreover have "\<forall>k q. (k, q) \<in> set still \<longrightarrow> q < length (heap s)"
      using wf_entering_pointer [OF assms(2), of _ _ "p_object_name ps"] st by (simp add: obj_keys_def)
    ultimately show ?thesis using wf_find_ticket [OF assms(2) f] assms(2) by (intro quiet_calls)
  qed (use assms ps in \<open>auto simp: ticket_added_def quiet_refl\<close>)
qed

lemma add_ticket_quiet:
  assumes "add_ticket env m s = Inr s'" "snaplock_wf s"
  shows "quiet s s'"
proof -
  obtain ps where ps: "get_parameters env [W_object_name, W_timeout, W_key] m = Inr ps"
    using assms(1) by (auto simp: add_ticket_def result_simps)
  obtain ob key ekey km p cs where km: "omap_get (f_entering_tickets s) ob = Some km" "omap_get km ekey = Some p"
    and s': "send_message cs (s\<lparr>f_tickets := obj_put ob key p (f_tickets s)\<rparr>) = Inr s'"
    using assms(1) ps
    by (auto simp: add_ticket_def Let_def split: list.split_asm option.split_asm)
  from km have p: "obj_find ob ekey (f_entering_tickets s) = Some p" by (simp add: obj_find_def)
  have "ticket_at (heap s) ob key p"
    using object_map_wf_find [of "entering_at (heap s)", OF _ p] assms(2)
    by (simp add: snaplock_wf_def entering_at_def ticket_at_def)
  then have "snaplock_wf (s\<lparr>f_tickets := obj_put ob key p (f_tickets s)\<rparr>)"
    using assms(2) by (simp add: snaplock_wf_def object_map_wf_put)
  then have "quiet s (s\<lparr>f_tickets := obj_put ob key p (f_tickets s)\<rparr>)" by (simp add: quiet_def)
  moreover from this have "quiet (s\<lparr>f_tickets := obj_put ob key p (f_tickets s)\<rparr>) s'"
    using s' by (intro send_message_quiet) (simp_all add: quiet_def)
  ultimately show ?thesis by (rule quiet_trans)
qed

lemma good_erase_entering:
  "good s s1 \<Longrightarrow> good s (s1\<lparr>f_entering_tickets := obj_erase ob k (f_entering_tickets s1)\<rparr>)"
  using good_same_heap [of s s1 "s1\<lparr>f_entering_tickets := obj_erase ob k (f_entering_tickets s1)\<rparr>"]
  by (simp add: good_def snaplock_wf_def object_map_wf_obj_erase)

lemma drop_ticket_good:
  assumes "drop_ticket env m s = Inr s'" "snaplock_wf s"
  shows "good s s'"
proof -
  obtain ps where ps: "get_parameters env [W_object_name, W_key] m = Inr ps"
    using assms(1) by (auto simp: drop_ticket_def result_simps)
  obtain ob key ekey s1 where s': "s' = s1\<lparr>f_entering_tickets := obj_erase ob ekey (f_entering_tickets s1)\<rparr>"
    and s1: "s1 = s \<or> activate_first_lock env ob (s\<lparr>f_tickets := obj_erase ob key (f_tickets s)\<rparr>) = Inr s1"
    using assms(1) ps
    by (auto simp: drop_ticket_def Let_def result_simps split: list.split_asm option.split_asm)
  have wf: "snaplock_wf (s\<lparr>f_tickets := obj_erase ob key (f_tickets s)\<rparr>)"
    using assms(2) by (simp add: snaplock_wf_def object_map_wf_obj_erase)
  have "good s s1"
    using s1
  proof
    assume "s1 = s"
    then show ?thesis using assms(2) by (simp add: quiet_good quiet_refl)
  next
    assume "activate_first_lock env ob (s\<lparr>f_tickets := obj_erase ob key (f_tickets s)\<rparr>) = Inr s1"
    from activate_first_lock_good [OF this wf] show ?thesis
      by (rule quiet_then_good [rotated]) (use wf in \<open>simp add: quiet_def\<close>)
  qed
  then show ?thesis unfolding s' by (rule good_erase_entering)
qed

lemma remove_entering_all_spec:
  "\<forall>k p. (k, p) \<in> set km \<longrightarrow> p < length (heap s) \<Longrightarrow>
   calls s (remove_entering_all env key km s)
   \<and> (\<forall>q. f_locked (heap (remove_entering_all env key km s) ! q) = f_locked (heap s ! q))"
proof (induction km arbitrary: s)
  case Nil
  then show ?case by (simp add: remove_entering_all_def)
next
  case (Cons kp km)
  obtain k p where kp: "kp = (k, p)" by force
  with Cons.prems have p: "p < length (heap s)" by auto
  define s1 where "s1 = s\<lparr>heap := (heap s)[p := ticket_remove_entering (timed env s) key (heap s ! p)]\<rparr>"
  have "on_ticket p (\<lambda>t. ticket_call t (Remove_Entering (timed env s) key)) s = Inr s1"
    by (simp add: on_ticket_def s1_def)
  then have c: "calls s s1" using p by (rule calls_on_ticket) simp
  have l: "f_locked (heap s1 ! q) = f_locked (heap s ! q)" for q
    by (cases "p < length (heap s)")
      (auto simp: s1_def nth_list_update list_update_beyond ticket_remove_entering_def Let_def split: option.splits)
  have "\<forall>k p. (k, p) \<in> set km \<longrightarrow> p < length (heap s1)"
    using Cons.prems calls_fields [OF c] by simp
  from Cons.IH [OF this] c l show ?case
    by (auto simp: remove_entering_all_def kp s1_def intro: calls_trans)
qed

text \<open>The activation does not look at the entering tickets.\<close>

lemma timed_entering [simp]: "timed env (s\<lparr>f_entering_tickets := e\<rparr>) = timed env s"
  by (simp add: timed_def fun_eq_iff)

lemma entering_last:
  "s\<lparr>f_entering_tickets := e, heap := h\<rparr> = s\<lparr>heap := h, f_entering_tickets := e\<rparr>"
  "s\<lparr>f_entering_tickets := e, f_tickets := t\<rparr> = s\<lparr>f_tickets := t, f_entering_tickets := e\<rparr>"
  "s\<lparr>f_entering_tickets := e, f_sent := ms\<rparr> = s\<lparr>f_sent := ms, f_entering_tickets := e\<rparr>"
  by simp_all

lemma on_ticket_entering:
  "on_ticket p f (s\<lparr>f_entering_tickets := e\<rparr>) = bindE (on_ticket p f s) (\<lambda>s1. Inr (s1\<lparr>f_entering_tickets := e\<rparr>))"
  by (cases "f (heap s ! p)") (auto simp: on_ticket_def entering_last)

lemma activate_loop_entering:
  "activate_loop env km (s\<lparr>f_entering_tickets := e\<rparr>)
     = bindE (activate_loop env km s) (\<lambda>(km', s1). Inr (km', s1\<lparr>f_entering_tickets := e\<rparr>))"
proof (induction km arbitrary: s)
  case Nil
  then show ?case by simp
next
  case (Cons kp km)
  then show ?case by (cases kp) (simp add: on_ticket_entering bindE_assoc quorum_def)
qed

lemma activate_first_lock_entering:
  "activate_first_lock env ob (s\<lparr>f_entering_tickets := e\<rparr>)
     = bindE (activate_first_lock env ob s) (\<lambda>s1. Inr (s1\<lparr>f_entering_tickets := e\<rparr>))"
  by (auto simp: activate_first_lock_def activate_loop_entering bindE_assoc case_prod_beta entering_last split: option.splits)

lemma remove_entering_all_entering:
  "remove_entering_all env key km (s\<lparr>f_entering_tickets := e\<rparr>) = (remove_entering_all env key km s)\<lparr>f_entering_tickets := e\<rparr>"
proof (induction km arbitrary: s)
  case Nil
  then show ?case by (simp add: remove_entering_all_def)
next
  case (Cons kp km)
  obtain k p where kp: "kp = (k, p)" by force
  from Cons [of "s\<lparr>heap := (heap s)[p := ticket_remove_entering (timed env s) key (heap s ! p)]\<rparr>"]
  show ?case by (simp add: remove_entering_all_def kp entering_last)
qed

lemma omap_erase_put: "omap_erase k (omap_put k v m) = omap_erase k m"
  by (induction k v m rule: omap_put.induct) (auto simp: omap_erase_def)

lemma obj_set_put: "obj_set ob km (omap_put ob km m) = obj_set ob km m"
  by (simp add: obj_set_def omap_erase_put omap_put_put)

lemma exit_good:
  assumes "snaplock_wf s" "ts = obj_keys ob (f_tickets s)"
    "(if ts \<noteq> [] then activate_first_lock env ob (remove_entering_all env key ts s) else Inr (remove_entering_all env key ts s)) = Inr s3"
  shows "good s s3 \<and> f_entering_tickets s3 = f_entering_tickets s"
proof -
  define s2 where "s2 = remove_entering_all env key ts s"
  have "\<forall>k p. (k, p) \<in> set ts \<longrightarrow> p < length (heap s)"
    using wf_key_pointer [OF assms(1)] assms(2) by blast
  from remove_entering_all_spec [OF this] have c: "calls s s2" "\<forall>q. f_locked (heap s2 ! q) = f_locked (heap s ! q)"
    unfolding s2_def by blast+
  have wf2: "snaplock_wf s2" using c(1) assms(1) by (rule calls_wf)
  with c have q: "quiet s s2" by (simp add: quiet_def calls_def)
  show ?thesis
  proof (cases "ts = []")
    case True
    with assms(3) q c(1) show ?thesis by (auto simp: s2_def calls_fields intro: quiet_good)
  next
    case False
    with assms(3) have "activate_first_lock env ob s2 = Inr s3" by (simp add: s2_def)
    with activate_first_lock_good [OF this wf2] activate_first_lock_spec [OF this wf2] q c(1) show ?thesis
      by (auto simp: advances_def calls_fields intro: quiet_then_good)
  qed
qed

lemma lockexiting_good:
  assumes "lockexiting env m s = Inr s'" "snaplock_wf s"
  shows "good s s'"
proof -
  obtain ps where ps: "get_parameters env [W_object_name, W_key] m = Inr ps"
    using assms(1) by (auto simp: lockexiting_def result_simps)
  define ob where "ob = p_object_name ps"
  show ?thesis
  proof (cases "\<exists>km p. omap_get (f_entering_tickets s) ob = Some km \<and> omap_get km (p_key ps) = Some p")
    case False
    have "object_map_wf (entering_at (heap s)) (obj_set ob (obj_keys ob (f_entering_tickets s)) (f_entering_tickets s))"
      using assms(2) by (simp add: snaplock_wf_def object_map_wf_set object_map_wf_keys)
    with False assms ps show ?thesis
      by (auto simp: lockexiting_def Let_def ob_def snaplock_wf_def quiet_def
          split: option.split_asm intro!: quiet_good)
  next
    case True
    then obtain km p where km: "omap_get (f_entering_tickets s) ob = Some km" "omap_get km (p_key ps) = Some p" by blast
    define km1 where "km1 = omap_erase (p_key ps) km"
    define ts where "ts = obj_keys ob (f_tickets s)"
    obtain s3 where s3: "(if ts \<noteq> [] then activate_first_lock env ob (remove_entering_all env (p_key ps) ts s)
        else Inr (remove_entering_all env (p_key ps) ts s)) = Inr s3"
      and s': "s' = s3\<lparr>f_entering_tickets := obj_set ob km1 (omap_put ob km1 (f_entering_tickets s))\<rparr>"
      using assms(1) ps km
      by (cases "ts = []") (auto simp: lockexiting_def Let_def ob_def [symmetric] km1_def [symmetric] ts_def [symmetric] result_simps
          remove_entering_all_entering activate_first_lock_entering obj_keys_omap_put)
    have g: "good s s3" "f_entering_tickets s3 = f_entering_tickets s"
      using exit_good [OF assms(2) ts_def s3] by blast+
    then have "object_map_wf (entering_at (heap s3)) (f_entering_tickets s)" by (simp add: good_def snaplock_wf_def)
    with km(1) have "object_map_wf (entering_at (heap s3)) (obj_set ob km1 (omap_put ob km1 (f_entering_tickets s)))"
      by (auto simp: obj_set_put km1_def dest: object_map_wf_get intro!: object_map_wf_set key_map_wf_erase)
    with g(1) show ?thesis unfolding s'
      by (intro good_same_heap [OF g(1)]) (simp_all add: good_def snaplock_wf_def)
  qed
qed

lemma send_lockready_quiet: "send_lockready s = Inr s' \<Longrightarrow> snaplock_wf s \<Longrightarrow> quiet s s'"
  by (auto simp: send_lockready_def intro: send_message_quiet)

lemma quiet_computers: "snaplock_wf s \<Longrightarrow> omap_ok c \<Longrightarrow> quiet s (s\<lparr>f_computers := c\<rparr>)"
  by (simp add: quiet_def snaplock_wf_def)

lemma lockready_quiet:
  assumes "lockready m s = Inr s'" "snaplock_wf s"
  shows "quiet s s'"
proof -
  obtain n where n: "(if omap_get (f_computers s) n = None then
         if n \<noteq> sl_server_name s then send_lockready (s\<lparr>f_computers := omap_put n True (f_computers s)\<rparr>)
         else Inr (s\<lparr>f_computers := omap_put n True (f_computers s)\<rparr>)
       else Inr s) = Inr s'"
    using assms(1) unfolding lockready_def Let_def bindE_eq_Inr by blast
  have q: "quiet s (s\<lparr>f_computers := omap_put n True (f_computers s)\<rparr>)"
    using assms(2) by (intro quiet_computers) (simp_all add: snaplock_wf_def)
  have "send_lockready (s\<lparr>f_computers := omap_put n True (f_computers s)\<rparr>) = Inr s' \<Longrightarrow> quiet s s'"
    by (rule quiet_trans [OF q send_lockready_quiet]) (use q in \<open>simp_all add: quiet_def\<close>)
  with n q show ?thesis using assms(2) by (simp add: quiet_refl split: if_split_asm)
qed

lemma interpret_status_quiet: "interpret_status m s = Inr s' \<Longrightarrow> snaplock_wf s \<Longrightarrow> quiet s s'"
  by (auto simp: interpret_status_def result_simps quiet_refl split: if_splits intro: send_lockready_quiet)

lemma lockgone_quiet: "lockgone m s = Inr s' \<Longrightarrow> snaplock_wf s \<Longrightarrow> quiet s s'"
  by (auto simp: lockgone_def result_simps quiet_refl snaplock_wf_def split: if_splits intro!: quiet_computers)

lemma stop_quiet: "stop env b s = Inr s' \<Longrightarrow> snaplock_wf s \<Longrightarrow> quiet s s'"
  by (auto simp: stop_def send_message_def result_simps snaplock_wf_def quiet_def split: if_splits)

lemma help_quiet:
  assumes "bindE (send_message cs s) send_lockready = Inr s'" "snaplock_wf s"
  shows "quiet s s'"
proof -
  obtain s1 where s1: "send_message cs s = Inr s1" "send_lockready s1 = Inr s'"
    using assms(1) by (auto simp: result_simps)
  have "quiet s s1" using s1(1) assms(2) by (rule send_message_quiet)
  moreover from this have "quiet s1 s'" using s1(2) by (intro send_lockready_quiet) (simp_all add: quiet_def)
  ultimately show ?thesis by (rule quiet_trans)
qed

lemma list_tickets_quiet: "list_tickets env m s = Inr s' \<Longrightarrow> snaplock_wf s \<Longrightarrow> quiet s s'"
  unfolding list_tickets_def by (rule send_message_quiet)

lemma send_unknown_quiet: "send_unknown c s = Inr s' \<Longrightarrow> snaplock_wf s \<Longrightarrow> quiet s s'"
  unfolding send_unknown_def by (rule send_message_quiet)

lemma unknown_quiet: "bindE (get_parameter n m) (\<lambda>_. Inr s) = Inr s' \<Longrightarrow> snaplock_wf s \<Longrightarrow> quiet s s'"
  by (auto simp: result_simps quiet_refl)

lemmas handlers_good = lockentering_good drop_ticket_good get_max_ticket_good lockexiting_good
  quiet_good [OF add_ticket_quiet] quiet_good [OF lockgone_quiet] quiet_good [OF help_quiet]
  quiet_good [OF lock_quiet] quiet_good [OF lockentered_quiet] quiet_good [OF lockready_quiet]
  quiet_good [OF list_tickets_quiet] quiet_good [OF max_ticket_quiet] quiet_good [OF stop_quiet]
  quiet_good [OF interpret_status_quiet] quiet_good [OF ticket_added_quiet] quiet_good [OF unlock_quiet]
  quiet_good [OF unknown_quiet] quiet_good [OF send_unknown_quiet]

lemma if_Inr: "(if c then a else b) = Inr x \<Longrightarrow> (a = Inr x \<Longrightarrow> P) \<Longrightarrow> (b = Inr x \<Longrightarrow> P) \<Longrightarrow> P"
  by (simp split: if_split_asm)

lemma process_message_good:
  assumes "process_message env m s = Inr s'" "snaplock_wf s"
  shows "good s s'"
proof -
  have same: "Inr s = Inr s' \<Longrightarrow> good s s'" using assms(2) by (simp add: quiet_good quiet_refl)
  show ?thesis using assms(1) unfolding process_message_def Let_def
    by (elim if_Inr) (erule same handlers_good [OF _ assms(2)])+
qed

section \<open>What the daemon guarantees\<close>

definition daemon_step :: "snaplock \<Rightarrow> snaplock_env \<times> message \<Rightarrow> snaplock result" where
  "daemon_step s = (\<lambda>(env, m). process_message env m s)"

interpretation daemon: mono_machine daemon_step snaplock_wf "\<lambda>s s'. heap_le (heap s) (heap s')"
proof
  fix s :: snaplock and i and t :: snaplock
  assume s: "snaplock_wf s" and t: "daemon_step s i = Inr t"
  obtain env m where i: "i = (env, m)" by force
  from t have "good s t" using s by (auto simp: daemon_step_def i intro: process_message_good)
  then show "snaplock_wf t" "heap_le (heap s) (heap t)" by (simp_all add: good_def)
qed (auto intro: heap_le_trans)

lemma snaplock_wf_init: "snaplock_wf (init_snaplock name tool)"
  by (simp add: snaplock_wf_def init_snaplock_def heap_wf_def object_map_wf_def)


definition parse_dec :: "string \<Rightarrow> int option" where
  "parse_dec v = (if v \<noteq> [] \<and> list_all is_digit v then Some (int (dec_value v)) else None)"

definition test_env :: "int \<Rightarrow> snaplock_env" where
  "test_env now = \<lparr>env_now = now, env_connected = True, env_to_ll = parse_dec,
     env_date_short = (\<lambda>_. []), env_date_time = (\<lambda>_. [])\<rparr>"

definition test_message :: "string \<Rightarrow> string \<Rightarrow> string \<Rightarrow> (string \<times> string) list \<Rightarrow> message" where
  "test_message server service command ps = empty_message\<lparr>f_command := command,
     f_parameters := fold (\<lambda>(k, v). omap_put k v) ps [],
     f_sent_from_server := server, f_sent_from_service := service\<rparr>"

text \<open>One computer, alone: a client locks an object, every message goes back to the daemon.\<close>

definition sample_messages :: "(snaplock_env \<times> message) list" where
  "sample_messages = map (Pair (test_env 1000))
     [test_message ''a'' ''snaplock'' ''LOCKREADY'' [(''server_name'', ''a'')],
      test_message ''a'' ''lock_71'' ''LOCK''
        [(''object_name'', ''page''), (''pid'', ''71''), (''timeout'', ''1050''), (''duration'', ''30'')],
      test_message ''a'' ''snaplock'' ''LOCKENTERED'' [(''object_name'', ''page''), (''key'', ''a/71'')],
      test_message ''a'' ''snaplock'' ''MAXTICKET''
        [(''object_name'', ''page''), (''key'', ''a/71''), (''ticket_id'', ''0'')],
      test_message ''a'' ''snaplock'' ''ADDTICKET''
        [(''object_name'', ''page''), (''key'', ''00000001/a/71''), (''timeout'', ''1050'')],
      test_message ''a'' ''snaplock'' ''TICKETADDED'' [(''object_name'', ''page''), (''key'', ''00000001/a/71'')]]"

definition sample_exit :: message where
  "sample_exit = test_message ''a'' ''snaplock'' ''LOCKEXITING'' [(''object_name'', ''page''), (''key'', ''a/71'')]"

lemma sample_daemon:
  "case runE daemon_step (init_snaplock ''a'' False) sample_messages of
     Inl _ \<Rightarrow> False
   | Inr s \<Rightarrow> (case process_message (test_env 1000) sample_exit s of
         Inl _ \<Rightarrow> False
       | Inr s' \<Rightarrow> length (heap s) = 1 \<and> \<not> f_locked (heap s ! 0) \<and> f_locked (heap s' ! 0)
           \<and> obj_keys ''page'' (f_tickets s') = [(''00000001/a/71'', 0)]
           \<and> timed (test_env 1031) s' 0 \<and> sent_count ''LOCKED'' (f_sent s') = 1
           \<and> \<not> isl (cleanup (test_env 1031) s'))"
  by code_simp

lemma sample_daemon_run:
  obtains s s' where "runE daemon_step (init_snaplock ''a'' False) sample_messages = Inr s"
    "process_message (test_env 1000) sample_exit s = Inr s'" "length (heap s) = 1"
    "\<not> f_locked (heap s ! 0)" "f_locked (heap s' ! 0)"
    "obj_keys ''page'' (f_tickets s') = [(''00000001/a/71'', 0)]" "timed (test_env 1031) s' 0"
    "\<not> isl (cleanup (test_env 1031) s')"
  using sample_daemon by (auto split: sum.split_asm)






lemma foldl_max_word:
  "foldl (\<lambda>l (k, p). if f p > l then f p else l) (a :: ticket_id_t) xs = Max (insert a ((\<lambda>(k, p). f p) ` set xs))"
proof (induction xs arbitrary: a)
  case Nil
  then show ?case by simp
next
  case (Cons x xs)
  obtain k p where x: "x = (k, p)" by force
  have e: "(if f p > a then f p else a) = max a (f p)" by (auto simp: max_def)
  have "foldl (\<lambda>l (k, p). if f p > l then f p else l) a (x # xs) = Max (insert (max a (f p)) ((\<lambda>(k, p). f p) ` set xs))"
    by (simp only: x foldl.simps prod.case e Cons)
  also have "\<dots> = Max (insert a (insert (f p) ((\<lambda>(k, p). f p) ` set xs)))"
    by (cases "set xs = {}") (simp_all add: max.assoc)
  finally show ?case by (simp add: x)
qed

text \<open>
  The answer to \<open>GETMAXTICKET\<close> is the largest ticket number this daemon has for the object
  (zero when it has none).
\<close>

theorem last_ticket_is_max:
  "last_ticket ob s = Max (insert 0 ((\<lambda>(k, p). f_our_ticket (heap s ! p)) ` set (obj_keys ob (f_tickets s))))"
  unfolding last_ticket_def by (rule foldl_max_word)

text \<open>
  \<open>ADDTICKET\<close> files the entering ticket under its new key and answers \<open>TICKETADDED\<close>; it
  changes no ticket.  On a computer that did not start the lock the ticket number stays what it
  was, although the number is in the key of the message.
\<close>

theorem add_ticket_keeps_tickets:
  assumes "add_ticket env m s = Inr s'"
  shows "heap s' = heap s \<and> f_entering_tickets s' = f_entering_tickets s
    \<and> (\<exists>ps ekey p. get_parameters env [W_object_name, W_timeout, W_key] m = Inr ps
        \<and> obj_find (p_object_name ps) ekey (f_entering_tickets s) = Some p
        \<and> f_tickets s' = obj_put (p_object_name ps) (p_key ps) p (f_tickets s))
    \<and> (\<exists>r. f_sent s' = f_sent s @ [r])"
proof -
  obtain ps where ps: "get_parameters env [W_object_name, W_timeout, W_key] m = Inr ps"
    using assms by (auto simp: add_ticket_def result_simps)
  obtain km ekey p cs where km: "omap_get (f_entering_tickets s) (p_object_name ps) = Some km" "omap_get km ekey = Some p"
    and s': "send_message cs (s\<lparr>f_tickets := obj_put (p_object_name ps) (p_key ps) p (f_tickets s)\<rparr>) = Inr s'"
    using assms ps by (auto simp: add_ticket_def Let_def split: list.split_asm option.split_asm)
  have "obj_find (p_object_name ps) ekey (f_entering_tickets s) = Some p" using km by (simp add: obj_find_def)
  moreover have "heap s' = heap s" "f_entering_tickets s' = f_entering_tickets s"
    "f_tickets s' = obj_put (p_object_name ps) (p_key ps) p (f_tickets s)" "\<exists>r. f_sent s' = f_sent s @ [r]"
    using s' by (auto simp: send_message_def result_simps)
  ultimately show ?thesis using ps by blast
qed

theorem add_ticket_keeps_tickets_witness:
  "\<exists>s'. add_ticket (test_env 1000)
      (test_message ''b'' ''snaplock'' ''ADDTICKET''
         [(''object_name'', ''page''), (''key'', ''00000007/b/71''), (''timeout'', ''1050'')])
      ((init_snaplock ''a'' False)\<lparr>heap := [new_ticket ''page'' ''b/71'' 1050 30 ''b'' ''lock_71''],
         f_entering_tickets := [(''page'', [(''b/71'', 0)])]\<rparr>) = Inr s'
    \<and> f_our_ticket (heap s' ! 0) = 0"
proof -
  let ?s = "(init_snaplock ''a'' False)\<lparr>heap := [new_ticket ''page'' ''b/71'' 1050 30 ''b'' ''lock_71''],
         f_entering_tickets := [(''page'', [(''b/71'', 0)])]\<rparr>"
  let ?m = "test_message ''b'' ''snaplock'' ''ADDTICKET''
         [(''object_name'', ''page''), (''key'', ''00000007/b/71''), (''timeout'', ''1050'')]"
  have "\<not> isl (add_ticket (test_env 1000) ?m ?s)" by code_simp
  then obtain s' where s': "add_ticket (test_env 1000) ?m ?s = Inr s'"
    by (cases "add_ticket (test_env 1000) ?m ?s") auto
  with add_ticket_keeps_tickets [OF s'] show ?thesis by (auto simp: new_ticket_def)
qed

end
