(* ===== verification/Utf8.thy ===== *)
theory Utf8
  imports Snap_Prelude
begin

text \<open>
  \<open>snap_utf8.cpp\<close>: the tests \<open>is_valid_ascii()\<close> and \<open>is_valid_utf8()\<close> that the server runs on
  everything it receives from a client.  A C string is the list of its bytes before the
  terminating NUL; reading at its length reads the NUL.  The theorem: the accepted strings are
  exactly the concatenations of the UTF-8 encodings of Unicode scalar values.
\<close>

section \<open>The tests\<close>

definition byte_at :: "string \<Rightarrow> nat \<Rightarrow> nat" where
  "byte_at s i = (if i < length s then of_char (s ! i) else 0)"

fun is_valid_ascii :: "string \<Rightarrow> bool" where
  "is_valid_ascii [] = True"
| "is_valid_ascii (c # s) = (if (of_char c :: nat) \<ge> 0x80 then False else is_valid_ascii s)"

definition in_range :: "nat \<Rightarrow> nat \<Rightarrow> nat \<Rightarrow> bool" where
  "in_range lo hi b \<longleftrightarrow> b \<ge> lo \<and> b \<le> hi"

text \<open>The number of bytes the loop skips, zero when it returns \<open>false\<close>.\<close>

definition utf8_skip :: "string \<Rightarrow> nat" where
  "utf8_skip s =
     (if byte_at s 0 \<le> 0x7F then 1
      else if in_range 0xC2 0xDF (byte_at s 0) \<and> in_range 0x80 0xBF (byte_at s 1) then 2
      else if byte_at s 0 = 0xE0 \<and> in_range 0xA0 0xBF (byte_at s 1) \<and> in_range 0x80 0xBF (byte_at s 2) then 3
      else if (in_range 0xE1 0xEC (byte_at s 0) \<or> byte_at s 0 = 0xEE \<or> byte_at s 0 = 0xEF)
            \<and> in_range 0x80 0xBF (byte_at s 1) \<and> in_range 0x80 0xBF (byte_at s 2) then 3
      else if byte_at s 0 = 0xED \<and> in_range 0x80 0x9F (byte_at s 1) \<and> in_range 0x80 0xBF (byte_at s 2) then 3
      else if byte_at s 0 = 0xF0 \<and> in_range 0x90 0xBF (byte_at s 1)
            \<and> in_range 0x80 0xBF (byte_at s 2) \<and> in_range 0x80 0xBF (byte_at s 3) then 4
      else if in_range 0xF1 0xF3 (byte_at s 0) \<and> in_range 0x80 0xBF (byte_at s 1)
            \<and> in_range 0x80 0xBF (byte_at s 2) \<and> in_range 0x80 0xBF (byte_at s 3) then 4
      else if byte_at s 0 = 0xF4 \<and> in_range 0x80 0x8F (byte_at s 1)
            \<and> in_range 0x80 0xBF (byte_at s 2) \<and> in_range 0x80 0xBF (byte_at s 3) then 4
      else 0)"

function is_valid_utf8 :: "string \<Rightarrow> bool" where
  "is_valid_utf8 s =
     (if byte_at s 0 = 0 then True
      else if utf8_skip s = 0 then False
      else is_valid_utf8 (drop (utf8_skip s) s))"
  by pat_completeness auto

termination
proof (relation "measure length")
  fix s :: string
  assume "byte_at s 0 \<noteq> 0" "utf8_skip s \<noteq> 0"
  then show "(drop (utf8_skip s) s, s) \<in> measure length"
    by (cases s) (auto simp: byte_at_def)
qed simp

declare is_valid_utf8.simps [simp del]

section \<open>UTF-8\<close>

text \<open>The encoding of a scalar value, from the definition of UTF-8.\<close>

definition scalar :: "nat \<Rightarrow> bool" where
  "scalar c \<longleftrightarrow> 0 < c \<and> c \<le> 0x10FFFF \<and> \<not> (0xD800 \<le> c \<and> c \<le> 0xDFFF)"

definition utf8_bytes :: "nat \<Rightarrow> nat list" where
  "utf8_bytes c =
     (if c < 0x80 then [c]
      else if c < 0x800 then [0xC0 + c div 64, 0x80 + c mod 64]
      else if c < 0x10000 then [0xE0 + c div 4096, 0x80 + c div 64 mod 64, 0x80 + c mod 64]
      else [0xF0 + c div 262144, 0x80 + c div 4096 mod 64, 0x80 + c div 64 mod 64, 0x80 + c mod 64])"

definition encode :: "nat \<Rightarrow> string" where
  "encode c = map char_of (utf8_bytes c)"

definition utf8_text :: "string \<Rightarrow> bool" where
  "utf8_text s \<longleftrightarrow> (\<exists>cs. list_all scalar cs \<and> s = concat (map encode cs))"

lemma byte_at_Nil [simp]: "byte_at [] i = 0"
  by (simp add: byte_at_def)

lemma byte_at_0 [simp]: "byte_at (c # s) 0 = of_char c"
  by (simp add: byte_at_def)

lemma byte_at_Suc [simp]: "byte_at (c # s) (Suc i) = byte_at s i"
  by (simp add: byte_at_def)

lemma byte_at_numeral [simp]: "byte_at (c # s) (numeral k) = byte_at s (pred_numeral k)"
  by (simp add: numeral_eq_Suc)

lemma byte_at_1 [simp]: "byte_at (c # s) 1 = byte_at s 0"
  by simp

text \<open>The bytes of one encoded character, as the loop tests them.\<close>

lemma base64_3: "(c :: nat) = c div 4096 * 4096 + c div 64 mod 64 * 64 + c mod 64"
proof -
  have "c div 4096 = c div 64 div 64" by (simp add: div_mult2_eq [of c 64 64, simplified])
  then show ?thesis using mult_div_mod_eq [of 64 c] mult_div_mod_eq [of 64 "c div 64"] by linarith
qed

lemma base64_4: "(c :: nat) = c div 262144 * 262144 + c div 4096 mod 64 * 4096 + c div 64 mod 64 * 64 + c mod 64"
proof -
  have "c div 262144 = c div 4096 div 64" by (simp add: div_mult2_eq [of c 4096 64, simplified])
  then show ?thesis using base64_3 [of c] mult_div_mod_eq [of 64 "c div 4096"] by linarith
qed

lemma skip_2:
  fixes c :: nat
  assumes "0x80 \<le> c" "c < 0x800"
  shows "utf8_skip (char_of (0xC0 + c div 64) # char_of (0x80 + c mod 64) # s) = 2"
proof -
  from assms have "2 \<le> c div 64" "c div 64 \<le> 31" "c mod 64 \<le> 63" by auto
  then show ?thesis by (simp add: utf8_skip_def in_range_def)
qed

lemma skip_3:
  fixes c :: nat
  assumes "0x800 \<le> c" "c < 0x10000" "\<not> (0xD800 \<le> c \<and> c \<le> 0xDFFF)"
  shows "utf8_skip (char_of (0xE0 + c div 4096) # char_of (0x80 + c div 64 mod 64) # char_of (0x80 + c mod 64) # s) = 3"
proof -
  define x y z where xyz: "x = c div 4096" "y = c div 64 mod 64" "z = c mod 64"
  have c: "c = x * 4096 + y * 64 + z"
    unfolding xyz by (rule base64_3)
  have b: "y \<le> 63" "z \<le> 63" by (simp_all add: xyz less_Suc_eq_le [symmetric])
  have "x \<le> 15" using assms(2) c by linarith
  moreover have "x = 0 \<longrightarrow> 32 \<le> y" using assms(1) c b by linarith
  moreover have "x = 13 \<longrightarrow> y \<le> 31" using assms(3) c b by linarith
  ultimately show ?thesis using b
    unfolding xyz [symmetric] by (auto simp: utf8_skip_def in_range_def)
qed

lemma skip_4:
  fixes c :: nat
  assumes "0x10000 \<le> c" "c \<le> 0x10FFFF"
  shows "utf8_skip (char_of (0xF0 + c div 262144) # char_of (0x80 + c div 4096 mod 64)
    # char_of (0x80 + c div 64 mod 64) # char_of (0x80 + c mod 64) # s) = 4"
proof -
  define w x y z where xyz: "w = c div 262144" "x = c div 4096 mod 64" "y = c div 64 mod 64" "z = c mod 64"
  have c: "c = w * 262144 + x * 4096 + y * 64 + z"
    unfolding xyz by (rule base64_4)
  have b: "x \<le> 63" "y \<le> 63" "z \<le> 63" by (simp_all add: xyz less_Suc_eq_le [symmetric])
  have "w \<le> 4" using assms(2) c by linarith
  moreover have "w = 0 \<longrightarrow> 16 \<le> x" using assms(1) c b by linarith
  moreover have "w = 4 \<longrightarrow> x \<le> 15" using assms(2) c b by linarith
  ultimately show ?thesis using b
    unfolding xyz [symmetric] by (auto simp: utf8_skip_def in_range_def)
qed

lemma skip_encode:
  assumes "scalar c"
  shows "utf8_skip (encode c @ s) = length (encode c) \<and> byte_at (encode c @ s) 0 \<noteq> 0"
proof -
  consider "c < 0x80" | "0x80 \<le> c" "c < 0x800" | "0x800 \<le> c" "c < 0x10000" | "0x10000 \<le> c" by linarith
  then show ?thesis
  proof cases
    case 1
    with assms show ?thesis by (simp add: encode_def utf8_bytes_def scalar_def utf8_skip_def)
  next
    case 2
    with skip_2 [OF 2] show ?thesis by (auto simp: encode_def utf8_bytes_def)
  next
    case 3
    with assms skip_3 [OF 3] show ?thesis by (auto simp: encode_def utf8_bytes_def scalar_def)
  next
    case 4
    with assms skip_4 [OF 4] show ?thesis by (auto simp: encode_def utf8_bytes_def scalar_def)
  qed
qed

text \<open>And back: what the loop skips is the encoding of a scalar value.\<close>

lemma utf8_skip_cases:
  assumes "utf8_skip s = n" "n \<noteq> 0" "byte_at s 0 \<noteq> 0"
  shows "s \<noteq> [] \<and> n \<le> length s"
  using assms by (cases s; cases "tl s"; cases "tl (tl s)"; cases "tl (tl (tl s))")
    (auto simp: utf8_skip_def in_range_def split: if_splits)

lemma digit64: "(c :: nat) \<le> 63 \<Longrightarrow> (k * 64 + c) div 64 = k" "(c :: nat) \<le> 63 \<Longrightarrow> (k * 64 + c) mod 64 = c"
  by simp_all

lemma utf8_bytes_2:
  fixes a b :: nat
  assumes "2 \<le> a" "a \<le> 31" "b \<le> 63"
  shows "utf8_bytes (a * 64 + b) = [0xC0 + a, 0x80 + b] \<and> scalar (a * 64 + b)"
proof -
  have "0 < a * 64 + b" "128 \<le> a * 64 + b" "a * 64 + b < 2048" using assms by auto
  moreover have "(a * 64 + b) div 64 = a" "(a * 64 + b) mod 64 = b" using assms(3) by simp_all
  ultimately show ?thesis unfolding utf8_bytes_def scalar_def by auto
qed

lemma utf8_bytes_3:
  fixes a b c :: nat
  assumes "a \<le> 15" "b \<le> 63" "c \<le> 63" "a = 0 \<longrightarrow> 32 \<le> b" "a = 13 \<longrightarrow> b \<le> 31"
  shows "utf8_bytes (a * 4096 + b * 64 + c) = [0xE0 + a, 0x80 + b, 0x80 + c] \<and> scalar (a * 4096 + b * 64 + c)"
proof -
  let ?v = "a * 4096 + b * 64 + c"
  have "0x800 \<le> ?v" using assms(4) by (cases "a = 0") simp_all
  moreover have "?v < 0x10000" using assms(1-3) by simp
  moreover have "?v < 0xD800 \<or> 0xDFFF < ?v"
    using assms by (cases a "13 :: nat" rule: linorder_cases) auto
  ultimately have v: "0x800 \<le> ?v" "?v < 0x10000" "\<not> (0xD800 \<le> ?v \<and> ?v \<le> 0xDFFF)" by auto
  have vk: "?v = (a * 64 + b) * 64 + c" by simp
  have d: "?v div 64 = a * 64 + b" "?v mod 64 = c" unfolding vk using assms(3) by (simp_all only: digit64)
  have "?v div 4096 = ?v div 64 div 64" by (simp add: div_mult2_eq [of ?v 64 64, simplified])
  then have "?v div 4096 = a" "?v div 64 mod 64 = b" using assms(2) d by (simp_all only: digit64)
  with d v have "utf8_bytes ?v = [0xE0 + a, 0x80 + b, 0x80 + c]" by (simp add: utf8_bytes_def)
  moreover have "scalar ?v" unfolding scalar_def using v by linarith
  ultimately show ?thesis ..
qed

lemma utf8_bytes_4:
  fixes a b c d :: nat
  assumes "a \<le> 4" "b \<le> 63" "c \<le> 63" "d \<le> 63" "a = 0 \<longrightarrow> 16 \<le> b" "a = 4 \<longrightarrow> b \<le> 15"
  shows "utf8_bytes (a * 262144 + b * 4096 + c * 64 + d) = [0xF0 + a, 0x80 + b, 0x80 + c, 0x80 + d]
    \<and> scalar (a * 262144 + b * 4096 + c * 64 + d)"
proof -
  let ?v = "a * 262144 + b * 4096 + c * 64 + d"
  have v: "0x10000 \<le> ?v" using assms(5) by (cases "a = 0") simp_all
  have v': "?v \<le> 0x10FFFF" using assms(1-4,6) by (cases "a = 4") auto
  have vk: "?v = ((a * 64 + b) * 64 + c) * 64 + d" by simp
  have d: "?v div 64 = (a * 64 + b) * 64 + c" "?v mod 64 = d" unfolding vk using assms(4) by (simp_all only: digit64)
  have "?v div 4096 = ?v div 64 div 64" by (simp add: div_mult2_eq [of ?v 64 64, simplified])
  then have e: "?v div 4096 = a * 64 + b" "?v div 64 mod 64 = c" using assms(3) d by (simp_all only: digit64)
  have "?v div 262144 = ?v div 4096 div 64" by (simp add: div_mult2_eq [of ?v 4096 64, simplified])
  then have "?v div 262144 = a" "?v div 4096 mod 64 = b" using assms(2) e by (simp_all only: digit64)
  with d e v have "utf8_bytes ?v = [0xF0 + a, 0x80 + b, 0x80 + c, 0x80 + d]" by (simp add: utf8_bytes_def)
  moreover have "scalar ?v" unfolding scalar_def using v v' by linarith
  ultimately show ?thesis ..
qed

lemma encode_take:
  assumes "utf8_bytes v = map of_char cs" "scalar v"
  shows "\<exists>c. scalar c \<and> cs @ s = encode c @ s"
  using assms by (intro exI [of _ v]) (simp add: encode_def comp_def)

lemma utf8_skip_ranges:
  "utf8_skip s = 2 \<Longrightarrow> 2 \<le> byte_at s 0 - 0xC0 \<and> byte_at s 0 - 0xC0 \<le> 31 \<and> 0xC0 \<le> byte_at s 0 \<and> in_range 0x80 0xBF (byte_at s 1)"
  "utf8_skip s = 3 \<Longrightarrow> 0xE0 \<le> byte_at s 0 \<and> byte_at s 0 - 0xE0 \<le> 15 \<and> (byte_at s 0 - 0xE0 = 0 \<longrightarrow> 32 \<le> byte_at s 1 - 0x80)
    \<and> (byte_at s 0 - 0xE0 = 13 \<longrightarrow> byte_at s 1 - 0x80 \<le> 31) \<and> in_range 0x80 0xBF (byte_at s 1) \<and> in_range 0x80 0xBF (byte_at s 2)"
  "utf8_skip s = 4 \<Longrightarrow> 0xF0 \<le> byte_at s 0 \<and> byte_at s 0 - 0xF0 \<le> 4 \<and> (byte_at s 0 - 0xF0 = 0 \<longrightarrow> 16 \<le> byte_at s 1 - 0x80)
    \<and> (byte_at s 0 - 0xF0 = 4 \<longrightarrow> byte_at s 1 - 0x80 \<le> 15) \<and> in_range 0x80 0xBF (byte_at s 1)
    \<and> in_range 0x80 0xBF (byte_at s 2) \<and> in_range 0x80 0xBF (byte_at s 3)"
  "utf8_skip s = 1 \<Longrightarrow> byte_at s 0 \<le> 0x7F"
  "utf8_skip s \<in> {0, 1, 2, 3, 4}"
  by (auto simp: utf8_skip_def in_range_def split: if_splits)

lemma skip_bytes:
  assumes "byte_at s 0 \<noteq> 0" "utf8_skip s \<noteq> 0"
  shows "\<exists>v. utf8_bytes v = map of_char (take (utf8_skip s) s) \<and> scalar v"
proof -
  have len: "utf8_skip s \<le> length s" using utf8_skip_cases [OF refl assms(2,1)] by simp
  consider "utf8_skip s = 1" | "utf8_skip s = 2" | "utf8_skip s = 3" | "utf8_skip s = 4"
    using utf8_skip_ranges(5) [of s] assms(2) by blast
  then show ?thesis
  proof cases
    case 1
    then obtain x r where s: "s = x # r" using len by (cases s) auto
    show ?thesis unfolding 1 using utf8_skip_ranges(4) [OF 1] assms(1)
      by (intro exI [of _ "of_char x"]) (simp add: s utf8_bytes_def scalar_def)
  next
    case 2
    then obtain x y r where s: "s = x # y # r" using len by (cases s; cases "tl s") auto
    show ?thesis unfolding 2 using utf8_skip_ranges(1) [OF 2] utf8_bytes_2 [of "of_char x - 0xC0" "of_char y - 0x80"]
      by (intro exI [of _ "(of_char x - 0xC0) * 64 + (of_char y - 0x80)"]) (auto simp: s in_range_def)
  next
    case 3
    then obtain x y z r where s: "s = x # y # z # r" using len by (cases s; cases "tl s"; cases "tl (tl s)") auto
    show ?thesis unfolding 3 using utf8_skip_ranges(2) [OF 3]
        utf8_bytes_3 [of "of_char x - 0xE0" "of_char y - 0x80" "of_char z - 0x80"]
      by (intro exI [of _ "(of_char x - 0xE0) * 4096 + (of_char y - 0x80) * 64 + (of_char z - 0x80)"])
        (auto simp: s in_range_def)
  next
    case 4
    then obtain x y z w r where s: "s = x # y # z # w # r"
      using len by (cases s; cases "tl s"; cases "tl (tl s)"; cases "tl (tl (tl s))") auto
    show ?thesis unfolding 4 using utf8_skip_ranges(3) [OF 4]
        utf8_bytes_4 [of "of_char x - 0xF0" "of_char y - 0x80" "of_char z - 0x80" "of_char w - 0x80"]
      by (intro exI [of _ "(of_char x - 0xF0) * 262144 + (of_char y - 0x80) * 4096 + (of_char z - 0x80) * 64 + (of_char w - 0x80)"])
        (auto simp: s in_range_def)
  qed
qed

lemma skip_decode:
  assumes "byte_at s 0 \<noteq> 0" "utf8_skip s \<noteq> 0"
  shows "\<exists>c. scalar c \<and> s = encode c @ drop (utf8_skip s) s"
  using skip_bytes [OF assms] encode_take [of _ "take (utf8_skip s) s" "drop (utf8_skip s) s"] by auto

lemma of_char_eq_0: "(of_char c :: nat) = 0 \<longleftrightarrow> c = CHR 0x00"
proof -
  have "(of_char (CHR 0x00) :: nat) = 0" by simp
  then show ?thesis by (metis of_char_eq_iff)
qed

lemma byte_at_0_NUL: "CHR 0x00 \<notin> set s \<Longrightarrow> byte_at s 0 = 0 \<longleftrightarrow> s = []"
  by (cases s) (auto simp: byte_at_def of_char_eq_0)

lemma encode_not_Nil [simp]: "encode c \<noteq> []"
  by (simp add: encode_def utf8_bytes_def)

lemma utf8_text_Nil [simp]: "utf8_text []"
  unfolding utf8_text_def by (intro exI [of _ "[]"]) simp

lemma utf8_text_encode:
  assumes "scalar c"
  shows "utf8_text (encode c @ s) \<longleftrightarrow> utf8_text s"
proof
  assume "utf8_text s"
  then obtain cs where "list_all scalar cs" "s = concat (map encode cs)" by (auto simp: utf8_text_def)
  with assms show "utf8_text (encode c @ s)" unfolding utf8_text_def by (intro exI [of _ "c # cs"]) simp
next
  assume "utf8_text (encode c @ s)"
  then obtain cs where cs: "list_all scalar cs" "encode c @ s = concat (map encode cs)" by (auto simp: utf8_text_def)
  then obtain d ds where d: "cs = d # ds" by (cases cs) auto
  have eq: "encode c @ s = encode d @ concat (map encode ds)" using cs(2) d by simp
  have "utf8_skip (encode c @ s) = length (encode c)" using assms by (simp add: skip_encode)
  moreover have "utf8_skip (encode d @ concat (map encode ds)) = length (encode d)" using cs(1) d by (simp add: skip_encode)
  ultimately have "length (encode c) = length (encode d)" using eq by simp
  with eq have "s = concat (map encode ds)" by simp
  with cs(1) d show "utf8_text s" by (auto simp: utf8_text_def)
qed

lemma utf8_text_starts:
  assumes "utf8_text s" "s \<noteq> []"
  shows "utf8_skip s \<noteq> 0"
proof -
  obtain cs where cs: "list_all scalar cs" "s = concat (map encode cs)" using assms(1) by (auto simp: utf8_text_def)
  with assms(2) obtain d ds where d: "cs = d # ds" by (cases cs) auto
  with cs have "utf8_skip s = length (encode d)" by (simp add: skip_encode)
  then show ?thesis by simp
qed



lemma is_valid_ascii_iff: "is_valid_ascii s \<longleftrightarrow> list_all (\<lambda>c. (of_char c :: nat) < 128) s"
  by (induction s) auto

end
