(* ===== verification/Fuzzy_String.thy ===== *)
theory Fuzzy_String
  imports Snap_Prelude
begin

text \<open>
  \<open>fuzzy_string_compare.cpp\<close>: the two-row computation of the Levenshtein distance and the
  search of a needle within a distance.  Characters are only compared for equality.  Lengths
  stay below the range of \<open>int\<close>, which the code uses for the distances.  The theorems: the
  two-row computation returns the least cost of an edit script; a match the search reports is
  one; and a needle the search misses.
\<close>

section \<open>The functions\<close>

text \<open>
  One row: \<open>left\<close> is the entry just written, the list walks along the previous row.
\<close>

fun fill_row :: "'a \<Rightarrow> 'a list \<Rightarrow> nat list \<Rightarrow> nat \<Rightarrow> nat list" where
  "fill_row c (b # t) (d # e # v0) left =
     (let cost = (if c = b then 0 else 1);
          x = min (left + 1) (min (e + 1) (d + cost))
      in x # fill_row c t (e # v0) x)"
| "fill_row c t v0 left = []"

definition next_row :: "'a list \<Rightarrow> nat list \<Rightarrow> nat \<times> 'a \<Rightarrow> nat list" where
  "next_row t v0 = (\<lambda>(i, c). (i + 1) # fill_row c t v0 (i + 1))"

definition levenshtein_distance :: "'a list \<Rightarrow> 'a list \<Rightarrow> nat" where
  "levenshtein_distance s t =
     (if s = t then 0
      else if s = [] then length t
      else if t = [] then length s
      else foldl (next_row t) [0..<length t + 1] (enumerate 0 s) ! length t)"

definition substr :: "nat \<Rightarrow> nat \<Rightarrow> 'a list \<Rightarrow> 'a list" where
  "substr pos n s = take n (drop pos s)"

definition strstr_with_levenshtein_distance :: "'a list \<Rightarrow> 'a list \<Rightarrow> int \<Rightarrow> bool result" where
  "strstr_with_levenshtein_distance haystack needle distance =
     (if distance \<le> 0
      then Inl (Invalid_Parameter ''Levenshtein distance in strstr_with_levenshtein_distance() needs to be > 0'')
      else
        let needle_length = length needle; haystack_length = length haystack; d = nat distance in
        if needle_length \<ge> haystack_length
        then Inr (levenshtein_distance haystack needle \<le> d)
        else Inr (list_ex (\<lambda>i.
               let max_distance = min (i + d) haystack_length - i in
               list_ex (\<lambda>j. levenshtein_distance (substr (i - needle_length) (i + j) haystack) needle \<le> d)
                 [0..<max_distance + 1])
               [needle_length..<haystack_length]))"

section \<open>Edit scripts\<close>

text \<open>Turning \<open>s\<close> into \<open>t\<close> by deleting, inserting and replacing characters, at a cost.\<close>

inductive script :: "'a list \<Rightarrow> 'a list \<Rightarrow> nat \<Rightarrow> bool" where
  script_Nil: "script [] [] 0"
| script_delete: "script s t n \<Longrightarrow> script (a # s) t (Suc n)"
| script_insert: "script s t n \<Longrightarrow> script s (b # t) (Suc n)"
| script_replace: "script s t n \<Longrightarrow> script (a # s) (b # t) (Suc n)"
| script_keep: "script s t n \<Longrightarrow> script (a # s) (a # t) n"

inductive_cases script_NilE: "script [] t n"
inductive_cases script_Nil2E: "script s [] n"
inductive_cases script_ConsE: "script (a # s) (b # t) n"

fun lev :: "'a list \<Rightarrow> 'a list \<Rightarrow> nat" where
  "lev [] t = length t"
| "lev s [] = length s"
| "lev (a # s) (b # t) = min (lev (a # s) t + 1) (min (lev s (b # t) + 1) (lev s t + (if a = b then 0 else 1)))"

lemma lev_Nil2 [simp]: "lev s [] = length s"
  by (cases s) simp_all

lemma script_delete_all: "script s [] (length s)"
  by (induction s) (auto intro: script.intros)

lemma script_insert_all: "script [] t (length t)"
  by (induction t) (auto intro: script.intros)

lemma script_lev: "script s t (lev s t)"
proof (induction s t rule: lev.induct)
  case (3 a s b t)
  then show ?case by (auto simp: min_def intro: script.intros)
next
  case (2 a s)
  show ?case using script_delete_all [of "a # s"] by simp
qed (simp add: script_insert_all)

lemma script_Nil_length: "script [] t n \<Longrightarrow> n = length t"
  by (induction "[] :: 'a list" t n rule: script.induct) auto

lemma script_Nil2_length: "script s [] n \<Longrightarrow> n = length s"
  by (induction s "[] :: 'a list" n rule: script.induct) auto

lemma lev_least: "script s t n \<Longrightarrow> lev s t \<le> n"
proof (induction s t arbitrary: n rule: lev.induct)
  case (1 t)
  then show ?case using script_Nil_length by force
next
  case (2 a s)
  then show ?case using script_Nil2_length by force
next
  case (3 a s b t)
  from 3(4) show ?case
    by (cases rule: script_ConsE) (use 3(1-3) in \<open>fastforce simp: min_le_iff_disj\<close>)+
qed

lemma script_snoc:
  "script s t n \<Longrightarrow> script (s @ [a]) t (Suc n)"
  "script s t n \<Longrightarrow> script s (t @ [b]) (Suc n)"
  "script s t n \<Longrightarrow> script (s @ [a]) (t @ [b]) (Suc n)"
  "script s t n \<Longrightarrow> script (s @ [a]) (t @ [a]) n"
  by (induction rule: script.induct; auto intro: script.intros)+

lemma script_rev: "script s t n \<Longrightarrow> script (rev s) (rev t) n"
  by (induction rule: script.induct) (auto intro: script_snoc script.intros)

lemma lev_rev: "lev (rev s) (rev t) = lev s t"
proof (rule antisym)
  show "lev (rev s) (rev t) \<le> lev s t" using script_rev [OF script_lev] by (rule lev_least)
  show "lev s t \<le> lev (rev s) (rev t)" using script_rev [OF script_lev [of "rev s" "rev t"]] by (intro lev_least) simp
qed

lemma lev_self: "lev s s = 0"
proof -
  have "script s s 0" by (induction s) (auto intro: script.intros)
  then show ?thesis using lev_least by force
qed

section \<open>The rows\<close>

definition dist :: "'a list \<Rightarrow> 'a list \<Rightarrow> nat" where
  "dist s t = lev (rev s) (rev t)"

lemma dist_snoc: "dist (s @ [a]) (t @ [b]) = min (dist (s @ [a]) t + 1) (min (dist s (t @ [b]) + 1) (dist s t + (if a = b then 0 else 1)))"
  by (simp add: dist_def)

lemma dist_Nil2 [simp]: "dist s [] = length s"
  by (simp add: dist_def)

lemma dist_Nil [simp]: "dist [] t = length t"
  by (simp add: dist_def)

definition row :: "'a list \<Rightarrow> 'a list \<Rightarrow> nat list" where
  "row s t = map (\<lambda>j. dist s (take j t)) [0..<length t + 1]"

lemma fill_row_dist:
  "length u \<le> length t \<Longrightarrow> t = w @ u \<Longrightarrow>
   fill_row c u (map (\<lambda>j. dist s (take j t)) [length w..<length t + 1]) (dist (s @ [c]) w)
     = map (\<lambda>j. dist (s @ [c]) (take j t)) [length w + 1..<length t + 1]"
proof (induction u arbitrary: w)
  case Nil
  then show ?case by (cases "[length w..<length t + 1]") auto
next
  case (Cons b u)
  have t: "t = (w @ [b]) @ u" using Cons.prems by simp
  let ?f = "\<lambda>j. dist s (take j t)"
  have up: "[length w..<length t + 1] = length w # Suc (length w) # [length w + 2..<length t + 1]"
    using Cons.prems(2) by (simp add: upt_rec)
  have tk: "take (length w) t = w" "take (Suc (length w)) t = w @ [b]" using Cons.prems(2) by simp_all
  have e: "min (dist (s @ [c]) w + 1) (min (?f (Suc (length w)) + 1) (?f (length w) + (if c = b then 0 else 1)))
      = dist (s @ [c]) (w @ [b])"
    by (simp add: tk dist_snoc)
  have "fill_row c u (map ?f [length (w @ [b])..<length t + 1]) (dist (s @ [c]) (w @ [b]))
      = map (\<lambda>j. dist (s @ [c]) (take j t)) [length (w @ [b]) + 1..<length t + 1]"
    using Cons.prems by (intro Cons.IH) simp_all
  moreover have "map ?f [length (w @ [b])..<length t + 1] = ?f (Suc (length w)) # map ?f [length w + 2..<length t + 1]"
    using Cons.prems(2) by (simp add: upt_rec)
  ultimately have "fill_row c (b # u) (map ?f [length w..<length t + 1]) (dist (s @ [c]) w)
      = dist (s @ [c]) (w @ [b]) # map (\<lambda>j. dist (s @ [c]) (take j t)) [length (w @ [b]) + 1..<length t + 1]"
    unfolding up by (simp only: list.map fill_row.simps Let_def e)
  also have "\<dots> = map (\<lambda>j. dist (s @ [c]) (take j t)) [length w + 1..<length t + 1]"
    using upt_conv_Cons [of "length w + 1" "length t + 1"] Cons.prems(2) tk by simp
  finally show ?case .
qed

lemma next_row_dist: "next_row t (row s t) (length s, c) = row (s @ [c]) t"
proof -
  have "[0..<length t + 1] = 0 # [1..<length t + 1]" by (simp add: upt_rec)
  then have "row (s @ [c]) t = dist (s @ [c]) [] # map (\<lambda>j. dist (s @ [c]) (take j t)) [length ([] :: 'a list) + 1..<length t + 1]"
    by (simp add: row_def)
  then show ?thesis using fill_row_dist [of t t "[]" c s] by (simp add: next_row_def row_def)
qed

lemma rows: "foldl (next_row t) (row u t) (enumerate (length u) s) = row (u @ s) t"
proof (induction s arbitrary: u)
  case Nil
  then show ?case by simp
next
  case (Cons c s)
  from Cons [of "u @ [c]"] show ?case by (simp add: next_row_dist)
qed

lemma row_Nil: "row [] t = [0..<length t + 1]"
  unfolding row_def by (rule map_idI) auto

lemma levenshtein_lev: "levenshtein_distance s t = lev s t"
proof -
  have "foldl (next_row t) [0..<length t + 1] (enumerate 0 s) = row s t"
    using rows [of t "[]" s] by (simp only: row_Nil list.size append_Nil)
  moreover have "row s t ! length t = lev s t"
    by (simp add: row_def dist_def lev_rev nth_append del: upt_Suc)
  ultimately show ?thesis by (simp add: levenshtein_distance_def lev_self del: upt_Suc)
qed

text \<open>C34.
  The two-row computation returns the Levenshtein distance: the least cost of an edit script from
  one string to the other.
\<close>

theorem levenshtein_distance_least:
  "levenshtein_distance s t = (LEAST n. script s t n)"
proof -
  have "(LEAST n. script s t n) = lev s t" using script_lev lev_least by (rule Least_equality)
  then show ?thesis by (simp add: levenshtein_lev)
qed

text \<open>
  A match of the search is one: some part of the haystack turns into the needle within the
  distance.
\<close>

theorem strstr_sound:
  assumes "strstr_with_levenshtein_distance haystack needle distance = Inr True"
  shows "\<exists>u v w n. haystack = u @ v @ w \<and> script v needle n \<and> int n \<le> distance"
proof -
  have d: "distance > 0" using assms by (auto simp: strstr_with_levenshtein_distance_def split: if_splits)
  obtain u v w where v: "haystack = u @ v @ w" "levenshtein_distance v needle \<le> nat distance"
  proof (cases "length needle \<ge> length haystack")
    case True
    with assms d that [of "[]" haystack "[]"] show ?thesis by (simp add: strstr_with_levenshtein_distance_def)
  next
    case False
    with assms d obtain p n where "levenshtein_distance (substr p n haystack) needle \<le> nat distance"
      by (auto simp: strstr_with_levenshtein_distance_def Let_def list_ex_iff)
    moreover have "haystack = take p haystack @ substr p n haystack @ drop n (drop p haystack)"
      by (simp only: substr_def append_take_drop_id)
    ultimately show ?thesis using that by blast
  qed
  have "script v needle (levenshtein_distance v needle)" by (simp add: levenshtein_lev script_lev)
  with v d show ?thesis by (metis int_nat_eq nat_le_iff zero_less_imp_eq_int le_nat_iff order_less_imp_le)
qed

theorem strstr_sound_witness:
  "\<exists>u v w n. ''snap server'' = u @ v @ w \<and> script v ''snip'' n \<and> int n \<le> 1"
proof -
  have "strstr_with_levenshtein_distance ''snap server'' ''snip'' 1 = Inr True" by code_simp
  then show ?thesis by (rule strstr_sound)
qed

text \<open>
  The search can miss a needle that is in the haystack letter for letter.  The second argument of
  \<open>substr()\<close> is a length, and the code passes \<open>i + j\<close>, which grows with the position,
  instead of \<open>needle_length + j\<close>.
\<close>

theorem strstr_misses_exact_match:
  "\<exists>u w. ''------snap------'' = u @ ''snap'' @ w
     \<and> strstr_with_levenshtein_distance ''------snap------'' ''snap'' 1 = Inr False"
proof -
  have "''------snap------'' = ''------'' @ ''snap'' @ ''------''" by simp
  moreover have "strstr_with_levenshtein_distance ''------snap------'' ''snap'' 1 = Inr False" by code_simp
  ultimately show ?thesis by blast
qed

end
