(* ===== verification/Quoted_Printable.thy ===== *)
theory Quoted_Printable
  imports Snap_Prelude
begin

text \<open>
  \<open>quoted_printable.cpp\<close>: the encoder (a small state machine with a buffered space, a column
  and a CR flag) and the decoder.  Strings are C strings without their terminating NUL.  The
  theorems: with the binary flag the decoder gives back the input; no line is longer than 76
  characters, whatever the flags; and the inputs whose spaces move when the flag is not set.
\<close>

section \<open>The encoder\<close>

record qp_flags =
  FLAG_BINARY :: bool
  FLAG_EDBIC :: bool
  FLAG_LFONLY :: bool
  FLAG_NO_LONE_PERIOD :: bool

record qp_result =
  f_buffer :: char
  f_result :: string
  f_line :: nat
  f_cr :: bool

abbreviation NUL :: char where "NUL \<equiv> CHR 0x00"
abbreviation CR :: char where "CR \<equiv> CHR 0x0D"
abbreviation LF :: char where "LF \<equiv> CHR 0x0A"
abbreviation TAB :: char where "TAB \<equiv> CHR 0x09"

definition qp_init :: qp_result where
  "qp_init = \<lparr>f_buffer = NUL, f_result = [], f_line = 0, f_cr = False\<rparr>"

text \<open>The \<open>to_hex()\<close> of the encoder: capital letters, low four bits.\<close>

definition qp_to_hex :: "nat \<Rightarrow> char" where
  "qp_to_hex c = (let d = c mod 16 in if d \<le> 9 then char_of (d + 48) else char_of (d + 55))"

definition soft_break :: "qp_flags \<Rightarrow> string" where
  "soft_break fl = (if \<not> FLAG_LFONLY fl then [CHR ''='', CR, LF] else [CHR ''='', LF])"

definition add_byte :: "qp_flags \<Rightarrow> char \<Rightarrow> qp_result \<Rightarrow> qp_result" where
  "add_byte fl c r =
     (if c = LF \<or> c = CR then
        r\<lparr>f_result := f_result r @ (if c \<noteq> CR \<or> \<not> FLAG_LFONLY fl then [c] else []), f_line := 0\<rparr>
      else if f_line r \<ge> 75 then
        r\<lparr>f_result := f_result r @ soft_break fl @ [c], f_line := 1\<rparr>
      else r\<lparr>f_result := f_result r @ [c], f_line := f_line r + 1\<rparr>)"

definition add_hex :: "qp_flags \<Rightarrow> char \<Rightarrow> qp_result \<Rightarrow> qp_result" where
  "add_hex fl c r =
     (let r1 = (if f_line r \<ge> 73 then r\<lparr>f_result := f_result r @ soft_break fl, f_line := 0\<rparr> else r);
          n = of_char c :: nat
      in add_byte fl (qp_to_hex n) (add_byte fl (qp_to_hex (n div 16)) (add_byte fl (CHR ''='') r1)))"

definition flush_byte :: "qp_flags \<Rightarrow> qp_result \<Rightarrow> qp_result" where
  "flush_byte fl r = (if f_buffer r \<noteq> NUL then (add_byte fl (f_buffer r) r)\<lparr>f_buffer := NUL\<rparr> else r)"

definition flush_hex :: "qp_flags \<Rightarrow> qp_result \<Rightarrow> qp_result" where
  "flush_hex fl r = (if f_buffer r \<noteq> NUL then (add_hex fl (f_buffer r) r)\<lparr>f_buffer := NUL\<rparr> else r)"

definition add_data :: "qp_flags \<Rightarrow> char \<Rightarrow> qp_result \<Rightarrow> qp_result" where
  "add_data fl c r =
     (if c = CHR '' '' \<or> c = TAB then (flush_byte fl r)\<lparr>f_buffer := c\<rparr>
      else if c = LF \<and> f_cr r then r\<lparr>f_cr := False\<rparr>
      else
        let r1 = r\<lparr>f_cr := (c = CR)\<rparr> in
        if c = LF \<or> c = CR then add_byte fl LF (add_byte fl CR (flush_hex fl r1))
        else add_byte fl c (flush_byte fl r1))"

definition encode_char :: "qp_flags \<Rightarrow> char \<Rightarrow> bool" where
  "encode_char fl c =
     (if c \<in> {LF, CR, TAB, CHR '' ''} then FLAG_BINARY fl
      else if c = CHR ''='' then True
      else if c \<in> set [CHR ''!'', CHR 0x22, CHR ''#'', CHR ''$'', CHR ''@'', CHR ''['', CHR 0x5C, CHR '']'',
          CHR ''^'', CHR 0x60, CHR ''{'', CHR ''|'', CHR ''}'', CHR ''~''] then FLAG_EDBIC fl
      else \<not> (CHR '' '' \<le> c \<and> c \<le> CHR ''~''))"

definition add_char :: "qp_flags \<Rightarrow> char \<Rightarrow> qp_result \<Rightarrow> qp_result" where
  "add_char fl c r = (if encode_char fl c then add_hex fl c r else add_data fl c r)"

definition lone_period :: "qp_flags \<Rightarrow> string \<Rightarrow> qp_result \<Rightarrow> bool" where
  "lone_period fl s r \<longleftrightarrow> FLAG_NO_LONE_PERIOD fl \<and> hd s = CHR ''.''
     \<and> (tl s = [] \<or> hd (tl s) = CR \<or> hd (tl s) = LF) \<and> (f_line r = 0 \<or> f_line r \<ge> 75)"

fun add_chars :: "qp_flags \<Rightarrow> string \<Rightarrow> qp_result \<Rightarrow> qp_result" where
  "add_chars fl [] r = r"
| "add_chars fl (c # s) r =
     add_chars fl s (if lone_period fl (c # s) r then add_hex fl (CHR ''.'') r else add_char fl c r)"

definition add_string :: "qp_flags \<Rightarrow> string \<Rightarrow> qp_result \<Rightarrow> qp_result" where
  "add_string fl s r = flush_hex fl (add_chars fl s (r\<lparr>f_buffer := NUL\<rparr>))"

definition qp_encode :: "qp_flags \<Rightarrow> string \<Rightarrow> string" where
  "qp_encode fl input = f_result (add_string fl input qp_init)"

section \<open>The decoder\<close>

definition from_hex :: "char \<Rightarrow> nat option" where
  "from_hex c =
     (if is_digit c then Some (of_char c - 48)
      else if CHR ''a'' \<le> c \<and> c \<le> CHR ''f'' then Some (of_char c - 97 + 10)
      else if CHR ''A'' \<le> c \<and> c \<le> CHR ''F'' then Some (of_char c - 65 + 10)
      else None)"

fun get_byte :: "string \<Rightarrow> char \<times> string" where
  "get_byte [] = (NUL, [])"
| "get_byte (c # s) =
     (if c = NUL then (NUL, c # s)
      else if c = CHR ''='' \<and> s \<noteq> [] \<and> hd s = CR then
        (if tl s \<noteq> [] \<and> hd (tl s) = LF then get_byte (tl (tl s)) else get_byte (tl s))
      else if c = CHR ''='' \<and> s \<noteq> [] \<and> hd s = LF then get_byte (tl s)
      else (c, s))"

definition getc :: "string \<Rightarrow> char \<times> string" where
  "getc s =
     (let (c, s1) = get_byte s in
      if c = NUL then (NUL, s1)
      else if c = CHR ''='' then
        (let (c1, s2) = get_byte s1 in
         case from_hex c1 of
           None \<Rightarrow> (CHR ''?'', s2)
         | Some p \<Rightarrow>
             (let (c2, s3) = get_byte s2 in
              case from_hex c2 of
                None \<Rightarrow> (CHR ''?'', s3)
              | Some q \<Rightarrow> (char_of (p * 16 + q), s3)))
      else (c, s1))"

lemma get_byte_shorter: "length (snd (get_byte s)) \<le> length s \<and> (fst (get_byte s) \<noteq> NUL \<longrightarrow> length (snd (get_byte s)) < length s)"
proof (induction s rule: length_induct)
  case (1 s)
  show ?case
  proof (cases s)
    case Nil
    then show ?thesis by simp
  next
    case (Cons c t)
    have "length (tl t) < length s" "length (tl (tl t)) < length s" by (simp_all add: Cons less_Suc_eq_le)
    with 1 Cons show ?thesis by (fastforce simp del: length_tl)
  qed
qed

lemma getc_shorter: "fst (getc s) \<noteq> NUL \<Longrightarrow> length (snd (getc s)) < length s"
  using get_byte_shorter [of s] get_byte_shorter [of "snd (get_byte s)"] get_byte_shorter [of "snd (get_byte (snd (get_byte s)))"]
  by (auto simp: getc_def Let_def case_prod_beta split: if_splits option.splits)

function process :: "string \<Rightarrow> string" where
  "process s = (if fst (getc s) = NUL then [] else fst (getc s) # process (snd (getc s)))"
  by pat_completeness auto

termination
  by (relation "measure length") (auto dest: getc_shorter)

declare process.simps [simp del]

definition qp_decode :: "string \<Rightarrow> string" where
  "qp_decode input = process input"

section \<open>The binary flag\<close>

text \<open>
  A chunk of output stands for the character \<open>c\<close> when the decoder reads it as \<open>c\<close> whatever
  follows.
\<close>

definition stands_for :: "string \<Rightarrow> string \<Rightarrow> bool" where
  "stands_for ch w \<longleftrightarrow> (\<forall>x. process (ch @ x) = w @ process x)"

lemma stands_for_Nil: "stands_for [] []"
  by (simp add: stands_for_def)

lemma stands_for_append: "stands_for a v \<Longrightarrow> stands_for b w \<Longrightarrow> stands_for (a @ b) (v @ w)"
  by (simp add: stands_for_def)

lemma get_byte_soft: "get_byte (soft_break fl @ x) = get_byte x"
  by (simp add: soft_break_def)

lemma getc_soft: "getc (soft_break fl @ x) = getc x"
  by (simp only: getc_def get_byte_soft)

lemma stands_for_soft: "stands_for (soft_break fl) []"
  by (simp add: stands_for_def process.simps [of "soft_break fl @ x" for x] process.simps [of x for x] getc_soft)

lemma stands_for_literal:
  assumes "c \<noteq> NUL" "c \<noteq> CHR ''=''"
  shows "stands_for [c] [c]"
proof -
  have "getc (c # x) = (c, x)" for x using assms by (simp add: getc_def)
  then show ?thesis using assms by (simp add: stands_for_def process.simps [of "c # x" for x])
qed

lemma of_char_qp_to_hex: "(of_char (qp_to_hex n) :: nat) = (if n mod 16 \<le> 9 then n mod 16 + 48 else n mod 16 + 55)"
proof -
  have "n mod 16 < 16" by simp
  then show ?thesis by (simp add: qp_to_hex_def Let_def)
qed

lemma qp_to_hex_neq: "(of_char c :: nat) < 48 \<or> (of_char c :: nat) = 61 \<Longrightarrow> qp_to_hex n \<noteq> c"
proof
  assume "(of_char c :: nat) < 48 \<or> (of_char c :: nat) = 61" "qp_to_hex n = c"
  with of_char_qp_to_hex [of n] show False by (auto split: if_splits)
qed

lemma qp_to_hex_props:
  "from_hex (qp_to_hex n) = Some (n mod 16)" "qp_to_hex n \<noteq> NUL" "qp_to_hex n \<noteq> CR" "qp_to_hex n \<noteq> LF" "qp_to_hex n \<noteq> CHR ''=''"
proof -
  have "n mod 16 < 16" by simp
  then show "from_hex (qp_to_hex n) = Some (n mod 16)"
    by (auto simp: from_hex_def is_digit_of_char char_le_of_char of_char_qp_to_hex)
qed (rule qp_to_hex_neq; simp)+

lemma stands_for_hex:
  assumes "c \<noteq> NUL"
  shows "stands_for [CHR ''='', qp_to_hex (of_char c div 16), qp_to_hex (of_char c)] [c]"
proof -
  have "(of_char c :: nat) div 16 < 16" by (rule less_mult_imp_div_less) simp
  then have "(of_char c :: nat) div 16 mod 16 = of_char c div 16" by (rule mod_less)
  then have "(of_char c :: nat) div 16 mod 16 * 16 + of_char c mod 16 = of_char c" by (simp add: div_mult_mod_eq)
  then have "getc (CHR ''='' # qp_to_hex (of_char c div 16) # qp_to_hex (of_char c) # x) = (c, x)" for x
    by (simp add: getc_def qp_to_hex_props)
  then show ?thesis using assms
    by (simp add: stands_for_def process.simps [of "CHR ''='' # _"])
qed

text \<open>What a call appends to the result.\<close>

definition appends :: "string \<Rightarrow> qp_result \<Rightarrow> qp_result \<Rightarrow> bool" where
  "appends w r r' \<longleftrightarrow> f_buffer r' = NUL \<and> (\<exists>ch. f_result r' = f_result r @ ch \<and> stands_for ch w)"

lemma add_byte_appends:
  "f_buffer r = NUL \<Longrightarrow> c \<noteq> NUL \<Longrightarrow> c \<noteq> CHR ''='' \<Longrightarrow> c \<noteq> LF \<Longrightarrow> c \<noteq> CR \<Longrightarrow> appends [c] r (add_byte fl c r)"
  using stands_for_append [OF stands_for_soft stands_for_literal]
  by (auto simp: appends_def add_byte_def intro: stands_for_literal)

lemma add_hex_result:
  "\<exists>b. f_result (add_hex fl c r) = f_result r @ b @ [CHR ''='', qp_to_hex (of_char c div 16), qp_to_hex (of_char c)]
     \<and> (b = [] \<and> f_line r < 73 \<and> f_line (add_hex fl c r) = f_line r + 3
        \<or> b = soft_break fl \<and> f_line (add_hex fl c r) = 3) \<and> f_buffer (add_hex fl c r) = f_buffer r"
  by (auto simp: add_hex_def add_byte_def Let_def qp_to_hex_props)

lemma add_hex_appends: "f_buffer r = NUL \<Longrightarrow> c \<noteq> NUL \<Longrightarrow> appends [c] r (add_hex fl c r)"
proof -
  assume r: "f_buffer r = NUL" "c \<noteq> NUL"
  let ?h = "[CHR ''='', qp_to_hex (of_char c div 16), qp_to_hex (of_char c)]"
  obtain b where b: "f_result (add_hex fl c r) = f_result r @ b @ ?h" "b = [] \<or> b = soft_break fl"
    "f_buffer (add_hex fl c r) = f_buffer r"
    using add_hex_result [of fl c r] by blast
  have "stands_for b []" using b(2) stands_for_Nil stands_for_soft by blast
  then have "stands_for (b @ ?h) [c]" using stands_for_append [OF _ stands_for_hex [OF r(2)]] by fastforce
  with b r show ?thesis by (auto simp: appends_def)
qed

lemma add_char_appends:
  assumes "FLAG_BINARY fl" "f_buffer r = NUL" "c \<noteq> NUL"
  shows "appends [c] r (add_char fl c r)"
proof (cases "encode_char fl c")
  case True
  with assms show ?thesis by (simp add: add_char_def add_hex_appends)
next
  case False
  with assms(1) have c: "c \<noteq> LF" "c \<noteq> CR" "c \<noteq> TAB" "c \<noteq> CHR '' ''" "c \<noteq> CHR ''=''"
    by (auto simp: encode_char_def)
  then have "add_char fl c r = add_byte fl c (r\<lparr>f_cr := False\<rparr>)"
    using False assms(2) by (simp add: add_char_def add_data_def flush_byte_def Let_def)
  with add_byte_appends [of "r\<lparr>f_cr := False\<rparr>" c fl] c assms show ?thesis by (simp add: appends_def)
qed

lemma add_chars_appends:
  "FLAG_BINARY fl \<Longrightarrow> NUL \<notin> set s \<Longrightarrow> f_buffer r = NUL \<Longrightarrow> appends s r (add_chars fl s r)"
proof (induction s arbitrary: r)
  case Nil
  then show ?case using stands_for_Nil by (auto simp: appends_def)
next
  case (Cons c s)
  define r1 where "r1 = (if lone_period fl (c # s) r then add_hex fl (CHR ''.'') r else add_char fl c r)"
  have c: "lone_period fl (c # s) r \<Longrightarrow> c = CHR ''.''" by (simp add: lone_period_def)
  have "appends [c] r r1"
    using Cons.prems c add_hex_appends [of r "CHR ''.''" fl] add_char_appends [of fl r c] by (auto simp: r1_def)
  then obtain ch where ch: "f_buffer r1 = NUL" "f_result r1 = f_result r @ ch" "stands_for ch [c]" by (auto simp: appends_def)
  then have "appends s r1 (add_chars fl s r1)" using Cons by simp
  then show ?case using ch stands_for_append [OF ch(3)] by (auto simp: appends_def r1_def [symmetric])
qed

text \<open>C35.
  With the binary flag, the decoder gives back every string without a NUL that the encoder was
  given, whatever the other flags are.
\<close>

theorem quoted_printable_roundtrip:
  assumes "FLAG_BINARY fl" and "NUL \<notin> set s"
  shows "qp_decode (qp_encode fl s) = s"
proof -
  have "appends s qp_init (add_chars fl s qp_init)"
    using assms by (intro add_chars_appends) (simp_all add: qp_init_def)
  then obtain ch where ch: "f_buffer (add_chars fl s qp_init) = NUL" "f_result (add_chars fl s qp_init) = ch" "stands_for ch s"
    by (auto simp: appends_def qp_init_def)
  have "qp_init\<lparr>f_buffer := NUL\<rparr> = qp_init" by (simp add: qp_init_def)
  then have "qp_encode fl s = ch" using ch by (simp add: qp_encode_def add_string_def flush_hex_def)
  moreover have "process ch = s @ process []" using ch(3) unfolding stands_for_def by (metis append_Nil2)
  moreover have "process [] = []" by (simp add: process.simps getc_def)
  ultimately show ?thesis by (simp add: qp_decode_def)
qed

definition flags_binary :: qp_flags where
  "flags_binary = \<lparr>FLAG_BINARY = True, FLAG_EDBIC = False, FLAG_LFONLY = False, FLAG_NO_LONE_PERIOD = True\<rparr>"

definition flags_none :: qp_flags where
  "flags_none = \<lparr>FLAG_BINARY = False, FLAG_EDBIC = False, FLAG_LFONLY = False, FLAG_NO_LONE_PERIOD = False\<rparr>"

theorem quoted_printable_roundtrip_witness:
  "qp_decode (qp_encode flags_binary (replicate 80 (CHR ''.'') @ [LF, CHR 0xE9])) = replicate 80 (CHR ''.'') @ [LF, CHR 0xE9]"
  by (rule quoted_printable_roundtrip) (simp_all add: flags_binary_def)

text \<open>
  Without the binary flag a space that precedes an encoded character is written after it: the
  encoder keeps the space in its buffer and \<open>add_char()\<close> calls \<open>add_hex()\<close> without
  flushing the buffer first.
\<close>

theorem quoted_printable_space_moves:
  "qp_encode flags_none ''1 = 2'' = ''1=3D  2'' \<and> qp_decode (qp_encode flags_none ''1 = 2'') = ''1=  2''"
  by code_simp

text \<open>A line feed after a carriage return and a space is dropped.\<close>

lemma quoted_printable_lf_lost:
  "qp_decode (qp_encode flags_none [CR, CHR '' '', LF, CHR ''a'']) = [CR, LF, CHR '' '', CHR ''a'']"
  by code_simp

interpretation qp_codec: codec "qp_encode flags_binary" qp_decode id "\<lambda>s. NUL \<notin> set s"
proof
  fix s assume "NUL \<notin> set s"
  then have "appends s (qp_init\<lparr>f_buffer := NUL\<rparr>) (add_chars flags_binary s (qp_init\<lparr>f_buffer := NUL\<rparr>))"
    by (intro add_chars_appends) (simp_all add: flags_binary_def)
  then obtain ch where ch: "f_buffer (add_chars flags_binary s (qp_init\<lparr>f_buffer := NUL\<rparr>)) = NUL"
    "f_result (add_chars flags_binary s (qp_init\<lparr>f_buffer := NUL\<rparr>)) = ch" "\<forall>x. process (ch @ x) = s @ process x"
    by (auto simp: appends_def qp_init_def stands_for_def)
  have "process ch = s @ process []" using ch(3) by (metis append_Nil2)
  moreover have "process [] = []" by (simp add: process.simps getc_def)
  ultimately show "qp_decode (qp_encode flags_binary s) = id s"
    using ch by (simp add: qp_decode_def qp_encode_def add_string_def flush_hex_def)
qed simp

section \<open>The length of the lines\<close>

definition out_lines :: "string \<Rightarrow> string list" where
  "out_lines s = split_on LF (filter (\<lambda>c. c \<noteq> CR) s)"

lemma out_lines_char: "x \<noteq> CR \<Longrightarrow> x \<noteq> LF \<Longrightarrow> out_lines s = ls @ [l] \<Longrightarrow> out_lines (s @ [x]) = ls @ [l @ [x]]"
  by (simp add: out_lines_def split_on_snoc)

lemma out_lines_LF: "out_lines s = ls @ [l] \<Longrightarrow> out_lines (s @ [LF]) = (ls @ [l]) @ [[]]"
  by (simp add: out_lines_def split_on_snoc)

lemma out_lines_CR: "out_lines (s @ [CR]) = out_lines s"
  by (simp add: out_lines_def)

lemma out_lines_soft: "out_lines s = ls @ [l] \<Longrightarrow> out_lines (s @ soft_break fl) = (ls @ [l @ ''='']) @ [[]]"
proof -
  assume "out_lines s = ls @ [l]"
  then have "out_lines (s @ [CHR ''='']) = ls @ [l @ ''='']" by (rule out_lines_char [rotated 2]) simp_all
  then show ?thesis
    using out_lines_LF [of "s @ [CHR ''='']"] out_lines_LF [of "(s @ [CHR ''='']) @ [CR]"] out_lines_CR [of "s @ [CHR ''='']"]
    by (auto simp: soft_break_def)
qed

definition lines_ok :: "string \<Rightarrow> nat \<Rightarrow> bool" where
  "lines_ok s n \<longleftrightarrow> (\<exists>ls l. out_lines s = ls @ [l] \<and> list_all (\<lambda>x. length x \<le> 76) ls \<and> length l = n \<and> n \<le> 75)"

lemma lines_ok_char: "lines_ok s n \<Longrightarrow> n < 75 \<Longrightarrow> x \<noteq> CR \<Longrightarrow> x \<noteq> LF \<Longrightarrow> lines_ok (s @ [x]) (Suc n)"
  by (auto simp: lines_ok_def dest: out_lines_char)

lemma lines_ok_soft: "lines_ok s n \<Longrightarrow> lines_ok (s @ soft_break fl) 0"
  by (fastforce simp: lines_ok_def dest: out_lines_soft [of _ _ _ fl])

lemma lines_ok_hard: "lines_ok s n \<Longrightarrow> lines_ok (s @ [LF]) 0"
  by (fastforce simp: lines_ok_def dest: out_lines_LF)

lemma lines_ok_CR: "lines_ok s n \<Longrightarrow> lines_ok (s @ [CR]) n"
  by (simp add: lines_ok_def out_lines_CR)

lemma add_byte_lines:
  assumes "lines_ok (f_result r) (f_line r)" "c \<noteq> CR" "c \<noteq> LF"
  shows "lines_ok (f_result (add_byte fl c r)) (f_line (add_byte fl c r)) \<and> f_buffer (add_byte fl c r) = f_buffer r"
proof (cases "f_line r \<ge> 75")
  case True
  then show ?thesis
    using lines_ok_char [OF lines_ok_soft [OF assms(1), of fl], of c] assms(2,3) by (simp add: add_byte_def)
next
  case False
  then show ?thesis using lines_ok_char [OF assms(1)] assms(2,3) by (simp add: add_byte_def)
qed

definition qp_ok :: "qp_result \<Rightarrow> bool" where
  "qp_ok r \<longleftrightarrow> lines_ok (f_result r) (f_line r) \<and> f_buffer r \<in> {NUL, CHR '' '', TAB}"

lemma add_byte_ok: "qp_ok r \<Longrightarrow> c \<noteq> CR \<Longrightarrow> c \<noteq> LF \<Longrightarrow> qp_ok (add_byte fl c r)"
  using add_byte_lines [of r c fl] by (simp add: qp_ok_def)

lemma add_hex_ok: "qp_ok r \<Longrightarrow> qp_ok (add_hex fl c r)"
proof -
  assume r: "qp_ok r"
  let ?r1 = "if f_line r \<ge> 73 then r\<lparr>f_result := f_result r @ soft_break fl, f_line := 0\<rparr> else r"
  have "qp_ok ?r1" using r lines_ok_soft [of "f_result r" "f_line r" fl] by (simp add: qp_ok_def)
  then show ?thesis unfolding add_hex_def Let_def by (intro add_byte_ok) (simp_all add: qp_to_hex_props)
qed

lemma flush_byte_ok: "qp_ok r \<Longrightarrow> qp_ok (flush_byte fl r)"
proof -
  assume r: "qp_ok r"
  then have "f_buffer r \<noteq> CR" "f_buffer r \<noteq> LF" by (auto simp: qp_ok_def)
  with add_byte_ok [OF r] show ?thesis using r by (auto simp: flush_byte_def qp_ok_def)
qed

lemma flush_hex_ok: "qp_ok r \<Longrightarrow> qp_ok (flush_hex fl r)"
  using add_hex_ok [of r fl "f_buffer r"] by (auto simp: flush_hex_def qp_ok_def)

lemma newline_ok: "qp_ok r \<Longrightarrow> qp_ok (add_byte fl LF (add_byte fl CR r))"
  using lines_ok_hard [of "f_result r" "f_line r"] lines_ok_hard [of "f_result r @ [CR]" "f_line r"]
    lines_ok_CR [of "f_result r" "f_line r"]
  by (simp add: qp_ok_def add_byte_def)

lemma qp_ok_update [simp]: "qp_ok (r\<lparr>f_cr := b\<rparr>) \<longleftrightarrow> qp_ok r"
  by (simp add: qp_ok_def)

lemma add_data_ok: "qp_ok r \<Longrightarrow> qp_ok (add_data fl c r)"
proof -
  assume r: "qp_ok r"
  have "qp_ok ((flush_byte fl r)\<lparr>f_buffer := c\<rparr>)" if "c = CHR '' '' \<or> c = TAB"
    using flush_byte_ok [OF r, of fl] that by (auto simp: qp_ok_def)
  moreover have "qp_ok (add_byte fl LF (add_byte fl CR (flush_hex fl (r\<lparr>f_cr := b\<rparr>))))" for b
    using r by (intro newline_ok flush_hex_ok) simp
  moreover have "qp_ok (add_byte fl c (flush_byte fl (r\<lparr>f_cr := b\<rparr>)))" if "c \<noteq> LF" "c \<noteq> CR" for b
    using r that by (intro add_byte_ok flush_byte_ok) simp_all
  ultimately show ?thesis using r by (auto simp: add_data_def Let_def)
qed

lemma add_chars_ok: "qp_ok r \<Longrightarrow> qp_ok (add_chars fl s r)"
  by (induction s arbitrary: r) (auto simp: add_char_def add_hex_ok add_data_ok)

text \<open>
  No line the encoder writes is longer than 76 characters (line ends not counted), whatever the
  input and the flags are.
\<close>

theorem quoted_printable_lines:
  "list_all (\<lambda>l. length l \<le> 76) (out_lines (qp_encode fl s))"
proof -
  have "qp_ok (qp_init\<lparr>f_buffer := NUL\<rparr>)" by (simp add: qp_ok_def qp_init_def lines_ok_def out_lines_def)
  then have "qp_ok (add_string fl s qp_init)" unfolding add_string_def by (intro flush_hex_ok add_chars_ok)
  then show ?thesis by (auto simp: qp_ok_def lines_ok_def qp_encode_def)
qed

end
