(* ===== verification/Http_Strings.thy ===== *)
theory Http_Strings
  imports Complex_Main "HOL-Library.Multiset" Snap_Prelude
begin

text \<open>
  \<open>http_strings.cpp\<close>: the lists of weighted strings of HTTP headers such as
  \<open>Accept-Language\<close>.  Header text is ASCII, so that the lengths and offsets the code takes from a
  \<open>QString\<close> are those of its bytes.  \<open>QString::toFloat()\<close> belongs to Qt and is the
  argument \<open>to_float\<close> (\<open>None\<close> when it reports an error or a number that is not
  finite).  The theorems: the parser reads back what \<open>to_string()\<close> prints, the sort is
  stable, and one long name ends the parsing.
\<close>

section \<open>Parts\<close>

record part_t =
  f_name :: string
  f_level :: rat
  f_param :: "(string, string) omap"

definition new_part :: "string \<Rightarrow> part_t" where
  "new_part name = \<lparr>f_name = name, f_level = 1, f_param = []\<rparr>"

definition set_level :: "rat \<Rightarrow> part_t \<Rightarrow> part_t" where
  "set_level level p = p\<lparr>f_level := level\<rparr>"

definition part_get_parameter :: "string \<Rightarrow> part_t \<Rightarrow> string" where
  "part_get_parameter name p = (case omap_get (f_param p) name of None \<Rightarrow> [] | Some v \<Rightarrow> v)"

definition part_add_parameter :: "string \<Rightarrow> string \<Rightarrow> part_t \<Rightarrow> part_t" where
  "part_add_parameter name v p = p\<lparr>f_param := omap_put name v (f_param p)\<rparr>"

fun params_to_string :: "(string \<times> string) list \<Rightarrow> string" where
  "params_to_string [] = []"
| "params_to_string ((k, v) # ps) =
     ''; '' @ (if v \<noteq> [] then k @ ''='' @ v else k) @ params_to_string ps"

definition part_to_string :: "part_t \<Rightarrow> string" where
  "part_to_string p = f_name p @ params_to_string (f_param p)"

text \<open>\<open>operator <\<close>: the larger level comes first.\<close>

definition part_less :: "part_t \<Rightarrow> part_t \<Rightarrow> bool" where
  "part_less p q \<longleftrightarrow> f_level p > f_level q"

section \<open>The list\<close>

record weighted_http_string =
  f_str :: string
  f_parts :: "part_t list"
  f_error_messages :: "string list"

definition empty_weighted :: weighted_http_string where
  "empty_weighted = \<lparr>f_str = [], f_parts = [], f_error_messages = []\<rparr>"

definition sep :: "char \<Rightarrow> bool" where
  "sep c \<longleftrightarrow> c = CHR '','' \<or> c = CHR '';''"

definition sep_eq :: "char \<Rightarrow> bool" where
  "sep_eq c \<longleftrightarrow> sep c \<or> c = CHR ''=''"

definition err_name :: string where "err_name = ''part name is empty or too long (limit is 17 characters.)''"
definition err_negative :: string where "err_negative = ''the quality value (q=...) cannot be a negative number.''"
definition err_float :: string where "err_float = ''the quality value (q=...) is not a valid floating point.''"
definition err_equal :: string where "err_equal = ''found a spurious equal sign in a weighted st.''"

text \<open>A named parameter is stored; \<open>q\<close> also sets the level.\<close>

definition store_parameter :: "(string \<Rightarrow> rat option) \<Rightarrow> string \<Rightarrow> string \<Rightarrow> part_t \<times> string list \<Rightarrow> part_t \<times> string list" where
  "store_parameter to_float name v = (\<lambda>(part, errs).
     let part1 = part_add_parameter name v part in
     if name = ''q'' then
       (case to_float v of
          Some level \<Rightarrow> (if level \<ge> 0 then (set_level level part1, errs) else (part1, errs @ [err_negative]))
        | None \<Rightarrow> (part1, errs @ [err_float]))
     else (part1, errs))"

lemma length_dropWhile_tl: "length (dropWhile P (tl (dropWhile Q s))) \<le> length s"
proof -
  have "length (dropWhile P (tl (dropWhile Q s))) \<le> length (tl (dropWhile Q s))" by (rule length_dropWhile_le)
  also have "\<dots> \<le> length (dropWhile Q s)" by simp
  also have "\<dots> \<le> length s" by (rule length_dropWhile_le)
  finally show ?thesis .
qed

function parse_params :: "(string \<Rightarrow> rat option) \<Rightarrow> string \<Rightarrow> part_t \<times> string list \<Rightarrow> string \<times> part_t \<times> string list" where
  "parse_params to_float [] pe = ([], pe)"
| "parse_params to_float (c # s) pe =
     (if c = CHR '';'' then
        let name = simplified (takeWhile (\<lambda>c. \<not> sep_eq c) s);
            r = dropWhile (\<lambda>c. \<not> sep_eq c) s;
            eq = (r \<noteq> [] \<and> hd r = CHR ''='') in
        if name \<noteq> [] then
          (if eq then
             parse_params to_float (dropWhile (\<lambda>c. \<not> sep c) (tl r))
               (store_parameter to_float name (trimmed (takeWhile (\<lambda>c. \<not> sep c) (tl r))) pe)
           else parse_params to_float r (store_parameter to_float name [] pe))
        else if eq then
          parse_params to_float (dropWhile (\<lambda>c. \<not> sep c) (tl r)) (fst pe, snd pe @ [err_equal])
        else parse_params to_float r pe
      else (c # s, pe))"
  by pat_completeness auto

termination
  by (relation "measure (\<lambda>(f, s, pe). length s)")
    (simp_all add: less_Suc_eq_le length_dropWhile_le length_dropWhile_tl)

declare parse_params.simps [simp del]

lemma parse_params_length: "length (fst (parse_params f s pe)) \<le> length s"
proof (induction f s pe rule: parse_params.induct)
  case (1 f pe)
  then show ?case by (simp add: parse_params.simps)
next
  case (2 f c s pe)
  let ?r = "dropWhile (\<lambda>c. \<not> sep_eq c) s"
  have l: "length ?r \<le> length s" "length (dropWhile (\<lambda>c. \<not> sep c) (tl ?r)) \<le> length s"
    by (simp_all only: length_dropWhile_le length_dropWhile_tl)
  show ?case
    using 2(1) [OF _ refl refl refl] 2(2) [OF _ refl refl refl] 2(3) [OF _ refl refl refl] 2(4) [OF _ refl refl refl] l
    by (auto simp: parse_params.simps Let_def intro: le_trans le_SucI)
qed

lemma simplified_Nil [simp]: "simplified [] = []"
  by (simp add: simplified_def trimmed_def)

function parse_parts ::
  "(string \<Rightarrow> rat option) \<Rightarrow> string \<Rightarrow> part_t list \<Rightarrow> string list \<Rightarrow> part_t list \<times> string list" where
  "parse_parts to_float s0 parts errs =
     (let s = dropWhile (\<lambda>c. is_space c \<or> c = CHR '','') s0 in
      if s = [] then (parts, errs)
      else
        let name = simplified (takeWhile (\<lambda>c. \<not> sep c) s) in
        if name = [] \<or> length name > 17 then (parts, errs @ [err_name])
        else
          let (r, part, errs1) = parse_params to_float (dropWhile (\<lambda>c. \<not> sep c) s) (new_part name, errs)
          in parse_parts to_float r (parts @ [part]) errs1)"
  by pat_completeness auto

termination
proof (relation "measure (\<lambda>(f, s, p, e). length s)", goal_cases)
  case (2 f s0 parts errs s name x r y part errs1)
  have "s \<noteq> []" "takeWhile (\<lambda>c. \<not> sep c) s \<noteq> []" using 2 by auto
  then have "length (dropWhile (\<lambda>c. \<not> sep c) s) < length s"
    by (cases s) (auto simp: less_Suc_eq_le length_dropWhile_le split: if_splits)
  moreover have "length r \<le> length (dropWhile (\<lambda>c. \<not> sep c) s)"
    using parse_params_length [of f "dropWhile (\<lambda>c. \<not> sep c) s" "(new_part name, errs)"] 2 by (metis fst_conv)
  moreover have "length s \<le> length s0" using 2(1) by (simp add: length_dropWhile_le)
  ultimately show ?case by simp
qed simp

declare parse_parts.simps [simp del]

definition parse :: "(string \<Rightarrow> rat option) \<Rightarrow> string \<Rightarrow> bool \<Rightarrow> weighted_http_string \<Rightarrow> bool \<times> weighted_http_string" where
  "parse to_float str reset w =
     (let (w1, s) = (if f_str w = [] \<or> reset then (w\<lparr>f_parts := [], f_str := str\<rparr>, str)
                     else (w\<lparr>f_str := f_str w @ '','' @ str\<rparr>, '','' @ str));
          (parts, errs) = parse_parts to_float s (f_parts w1) []
      in (errs = [], w1\<lparr>f_parts := parts, f_error_messages := errs\<rparr>))"

text \<open>\<open>UNDEFINED_LEVEL\<close> is \<open>-1\<close>.\<close>

definition get_level :: "string \<Rightarrow> weighted_http_string \<Rightarrow> rat" where
  "get_level name w = (case find (\<lambda>p. f_name p = name) (f_parts w) of Some p \<Rightarrow> f_level p | None \<Rightarrow> - 1)"

text \<open>\<open>std::stable_sort\<close> with \<open>operator <\<close>.\<close>

definition sort_by_level :: "weighted_http_string \<Rightarrow> weighted_http_string" where
  "sort_by_level w = w\<lparr>f_parts := sort_key (\<lambda>p. - f_level p) (f_parts w)\<rparr>"

fun parts_to_string :: "string \<Rightarrow> part_t list \<Rightarrow> string" where
  "parts_to_string res [] = res"
| "parts_to_string res (p # ps) = parts_to_string (res @ (if res \<noteq> [] then '', '' else []) @ part_to_string p) ps"

definition to_string :: "weighted_http_string \<Rightarrow> string" where
  "to_string w = parts_to_string [] (f_parts w)"

section \<open>Printing and parsing\<close>

lemma trimmed_space [simp]: "is_space c \<Longrightarrow> trimmed (c # s) = trimmed s"
  by (simp add: trimmed_def)

lemma simplified_space [simp]: "is_space c \<Longrightarrow> simplified (c # s) = simplified s"
  by (simp add: simplified_def)

lemma hd_trimmed: "trimmed s \<noteq> [] \<Longrightarrow> \<not> is_space (hd (trimmed s))"
proof -
  assume ne: "trimmed s \<noteq> []"
  let ?u = "dropWhile is_space s"
  have "\<exists>t. ?u = trimmed s @ t"
    by (metis trimmed_def rev_append rev_rev_ident takeWhile_dropWhile_id)
  then obtain t where "?u = trimmed s @ t" by blast
  with ne have "?u \<noteq> []" "hd ?u = hd (trimmed s)" by auto
  then show ?thesis using hd_dropWhile by metis
qed

lemma squeeze_hd: "s \<noteq> [] \<Longrightarrow> \<not> is_space (hd s) \<Longrightarrow> squeeze s \<noteq> [] \<and> hd (squeeze s) = hd s"
  by (cases s) auto

lemma hd_simplified: "simplified s \<noteq> [] \<Longrightarrow> \<not> is_space (hd (simplified s))"
  using squeeze_hd [of "trimmed s"] hd_trimmed [of s] by (cases "trimmed s = []") (auto simp: simplified_def)

definition wf_param :: "string \<times> string \<Rightarrow> bool" where
  "wf_param = (\<lambda>(k, v). k \<noteq> [] \<and> simplified k = k \<and> list_all (\<lambda>c. \<not> sep_eq c) k
     \<and> trimmed v = v \<and> list_all (\<lambda>c. \<not> sep c) v)"

definition level_of :: "(string \<Rightarrow> rat option) \<Rightarrow> (string, string) omap \<Rightarrow> rat option" where
  "level_of f ps = (case omap_get ps ''q'' of None \<Rightarrow> Some 1
     | Some v \<Rightarrow> (case f v of Some l \<Rightarrow> if l \<ge> 0 then Some l else None | None \<Rightarrow> None))"

definition wf_part :: "(string \<Rightarrow> rat option) \<Rightarrow> part_t \<Rightarrow> bool" where
  "wf_part f p \<longleftrightarrow> f_name p \<noteq> [] \<and> length (f_name p) \<le> 17 \<and> simplified (f_name p) = f_name p
     \<and> list_all (\<lambda>c. \<not> sep c) (f_name p) \<and> omap_ok (f_param p) \<and> list_all wf_param (f_param p)
     \<and> level_of f (f_param p) = Some (f_level p)"

definition ends_part :: "string \<Rightarrow> bool" where
  "ends_part r \<longleftrightarrow> r = [] \<or> hd r = CHR '',''"

lemma takeWhile_sep: "list_all (\<lambda>c. \<not> P c) a \<Longrightarrow> b = [] \<or> P (hd b) \<Longrightarrow>
  takeWhile (\<lambda>c. \<not> P c) (a @ b) = a \<and> dropWhile (\<lambda>c. \<not> P c) (a @ b) = b"
proof -
  assume a: "list_all (\<lambda>c. \<not> P c) a" and b: "b = [] \<or> P (hd b)"
  have "takeWhile (\<lambda>c. \<not> P c) (a @ b) = a @ takeWhile (\<lambda>c. \<not> P c) b"
    "dropWhile (\<lambda>c. \<not> P c) (a @ b) = dropWhile (\<lambda>c. \<not> P c) b"
    using a by (simp_all add: list_all_iff)
  with b show ?thesis by (cases b) auto
qed

lemma params_start: "ends_part r \<Longrightarrow> params_to_string ps @ r = [] \<or> sep (hd (params_to_string ps @ r))"
  by (cases ps) (auto simp: ends_part_def sep_def)

lemma is_space_blank [simp]: "is_space CHR '' ''"
  by (simp add: is_space_def)

lemma parse_one_param:
  assumes "wf_param (k, v)" "rest = [] \<or> sep (hd rest)"
  shows "parse_params f (''; '' @ (if v \<noteq> [] then k @ ''='' @ v else k) @ rest) pe
    = parse_params f rest (store_parameter f k v pe)"
proof (cases "v = []")
  case True
  have "takeWhile (\<lambda>c. \<not> sep_eq c) ((CHR '' '' # k) @ rest) = CHR '' '' # k
      \<and> dropWhile (\<lambda>c. \<not> sep_eq c) ((CHR '' '' # k) @ rest) = rest"
    using assms by (intro takeWhile_sep) (auto simp: wf_param_def sep_eq_def sep_def)
  moreover have "\<not> (rest \<noteq> [] \<and> hd rest = CHR ''='')" using assms(2) by (auto simp: sep_def)
  ultimately show ?thesis using assms(1) True
    by (auto simp: parse_params.simps(2) [of f "CHR '';''"] wf_param_def Let_def)
next
  case False
  have t1: "takeWhile (\<lambda>c. \<not> sep_eq c) ((CHR '' '' # k) @ ''='' @ v @ rest) = CHR '' '' # k
      \<and> dropWhile (\<lambda>c. \<not> sep_eq c) ((CHR '' '' # k) @ ''='' @ v @ rest) = ''='' @ v @ rest"
    using assms by (intro takeWhile_sep) (auto simp: wf_param_def sep_eq_def sep_def)
  have t2: "takeWhile (\<lambda>c. \<not> sep c) (v @ rest) = v \<and> dropWhile (\<lambda>c. \<not> sep c) (v @ rest) = rest"
    using assms by (intro takeWhile_sep) (auto simp: wf_param_def)
  show ?thesis using assms(1) False t1 t2
    by (simp add: parse_params.simps(2) [of f "CHR '';''"] wf_param_def Let_def)
qed

lemma parse_params_to_string:
  "list_all wf_param ps \<Longrightarrow> ends_part rest \<Longrightarrow>
   parse_params f (params_to_string ps @ rest) pe = (rest, fold (\<lambda>(k, v). store_parameter f k v) ps pe)"
proof (induction ps arbitrary: pe)
  case Nil
  then show ?case by (cases rest) (auto simp: parse_params.simps ends_part_def)
next
  case (Cons kv ps)
  obtain k v where kv: "kv = (k, v)" by force
  have "parse_params f (params_to_string (kv # ps) @ rest) pe
      = parse_params f (params_to_string ps @ rest) (store_parameter f k v pe)"
    using parse_one_param [of k v "params_to_string ps @ rest" f pe] Cons.prems params_start [of rest ps] kv by simp
  with Cons kv show ?case by simp
qed

lemma store_all:
  assumes "omap_ok ps" "level_of f ps = Some l"
  shows "fold (\<lambda>(k, v). store_parameter f k v) ps (new_part n, []) = (\<lparr>f_name = n, f_level = l, f_param = ps\<rparr>, [])"
  using assms
proof (induction ps arbitrary: l rule: rev_induct)
  case Nil
  then show ?case by (simp add: new_part_def level_of_def)
next
  case (snoc kv ps)
  obtain k v where kv: "kv = (k, v)" by force
  have ok: "omap_ok ps" "\<forall>k' \<in> fst ` set ps. k' < k"
    using snoc.prems(1) by (auto simp: omap_ok_def kv sorted_wrt_append)
  then have none: "omap_get ps k = None" by (auto simp: map_of_eq_None_iff)
  show ?case
  proof (cases "k = ''q''")
    case True
    with snoc.prems(2) none kv have l: "f v = Some l" "l \<ge> 0"
      by (auto simp: level_of_def map_add_def split: option.splits if_splits)
    have "level_of f ps = Some 1" using none True by (simp add: level_of_def)
    from snoc.IH [OF ok(1) this] l True omap_put_last [OF ok(2), of v] show ?thesis
      by (simp add: kv store_parameter_def part_add_parameter_def set_level_def)
  next
    case False
    have "level_of f ps = Some l" using snoc.prems(2) False [symmetric] kv by (simp add: level_of_def map_add_def split: option.split_asm)
    from snoc.IH [OF ok(1) this] False show ?thesis
      by (simp add: kv store_parameter_def part_add_parameter_def omap_put_last [OF ok(2)])
  qed
qed

lemma parse_one_part:
  assumes "wf_part f p" "ends_part rest" "pre = [] \<or> pre = '', ''"
  shows "parse_parts f (pre @ part_to_string p @ rest) parts [] = parse_parts f rest (parts @ [p]) []"
proof -
  let ?s = "part_to_string p @ rest"
  have n: "f_name p \<noteq> []" "\<not> is_space (hd (f_name p))" "hd (f_name p) \<noteq> CHR '',''"
    using assms(1) hd_simplified [of "f_name p"] by (auto simp: wf_part_def sep_def list_all_iff)
  then have drop: "dropWhile (\<lambda>c. is_space c \<or> c = CHR '','') (pre @ ?s) = ?s"
    using assms(3) by (cases "f_name p") (auto simp: part_to_string_def)
  have "takeWhile (\<lambda>c. \<not> sep c) (f_name p @ params_to_string (f_param p) @ rest) = f_name p
    \<and> dropWhile (\<lambda>c. \<not> sep c) (f_name p @ params_to_string (f_param p) @ rest) = params_to_string (f_param p) @ rest"
    using assms(1) params_start [OF assms(2)] by (intro takeWhile_sep) (auto simp: wf_part_def)
  then have tk: "takeWhile (\<lambda>c. \<not> sep c) ?s = f_name p" "dropWhile (\<lambda>c. \<not> sep c) ?s = params_to_string (f_param p) @ rest"
    by (simp_all add: part_to_string_def)
  have "parse_params f (params_to_string (f_param p) @ rest) (new_part (f_name p), []) = (rest, p, [])"
    using assms(1,2) store_all [of "f_param p" f "f_level p" "f_name p"] by (simp add: parse_params_to_string wf_part_def)
  with drop tk n assms(1) show ?thesis
    by (subst parse_parts.simps) (simp add: Let_def wf_part_def part_to_string_def)
qed

definition tail_text :: "part_t list \<Rightarrow> string" where
  "tail_text ps = concat (map (\<lambda>p. '', '' @ part_to_string p) ps)"

lemma ends_part_tail: "ends_part (tail_text ps)"
  by (cases ps) (simp_all add: ends_part_def tail_text_def)

lemma parse_tail: "list_all (wf_part f) ps \<Longrightarrow> parse_parts f (tail_text ps) parts [] = (parts @ ps, [])"
proof (induction ps arbitrary: parts)
  case Nil
  then show ?case by (simp add: parse_parts.simps tail_text_def)
next
  case (Cons p ps)
  then have "parse_parts f ('', '' @ part_to_string p @ tail_text ps) parts [] = parse_parts f (tail_text ps) (parts @ [p]) []"
    by (intro parse_one_part ends_part_tail) simp_all
  with Cons show ?case by (simp add: tail_text_def)
qed

lemma parts_to_string_tail: "res \<noteq> [] \<Longrightarrow> parts_to_string res ps = res @ tail_text ps"
  by (induction ps arbitrary: res) (simp_all add: tail_text_def)

lemma parse_parts_to_string:
  assumes "list_all (wf_part f) ps"
  shows "parse_parts f (parts_to_string [] ps) [] [] = (ps, [])"
proof (cases ps)
  case Nil
  then show ?thesis by (simp add: parse_parts.simps)
next
  case (Cons p qs)
  with assms have "part_to_string p \<noteq> []" by (simp add: part_to_string_def wf_part_def)
  then have "parts_to_string [] ps = [] @ part_to_string p @ tail_text qs" by (simp add: Cons parts_to_string_tail)
  moreover have "parse_parts f ([] @ part_to_string p @ tail_text qs) [] [] = parse_parts f (tail_text qs) ([] @ [p]) []"
    using assms Cons by (intro parse_one_part ends_part_tail) simp_all
  ultimately show ?thesis using assms Cons by (simp add: parse_tail)
qed

text \<open>
  Parsing the text that \<open>to_string()\<close> prints succeeds and gives back the same parts, with their
  parameters and levels, in the same order, for parts whose names and parameters have no separator
  and no white space to simplify, names of at most 17 characters, and a level that is what the
  \<open>q\<close> parameter says.
\<close>

theorem weighted_roundtrip:
  assumes "list_all (wf_part to_float) (f_parts w)"
  shows "fst (parse to_float (to_string w) True v) \<and> f_parts (snd (parse to_float (to_string w) True v)) = f_parts w"
  using parse_parts_to_string [OF assms] by (simp add: parse_def to_string_def)

definition tenths :: "string \<Rightarrow> rat option" where
  "tenths s = (case s of
     [a, b, c] \<Rightarrow> if a = CHR ''0'' \<and> b = CHR ''.'' \<and> is_digit c then Some (rat_of_nat (digit_value c) / 10) else None
   | _ \<Rightarrow> None)"

definition sample_weighted :: weighted_http_string where
  "sample_weighted = empty_weighted\<lparr>f_parts :=
     [\<lparr>f_name = ''fr'', f_level = 1, f_param = []\<rparr>,
      \<lparr>f_name = ''en-us'', f_level = 4/5, f_param = [(''charset'', ''utf-8''), (''q'', ''0.8'')]\<rparr>]\<rparr>"

theorem weighted_roundtrip_witness:
  "f_parts (snd (parse tenths ''fr, en-us; charset=utf-8; q=0.8'' True empty_weighted)) = f_parts sample_weighted"
proof -
  have "list_all (wf_part tenths) (f_parts sample_weighted)" by code_simp
  moreover have "to_string sample_weighted = ''fr, en-us; charset=utf-8; q=0.8''" by code_simp
  ultimately show ?thesis using weighted_roundtrip [of tenths sample_weighted empty_weighted] by simp
qed

text \<open>
  The sort by level is a stable sort: the same parts, larger levels first, parts of one level in
  the order they had.
\<close>

theorem sort_by_level_stable:
  "mset (f_parts (sort_by_level w)) = mset (f_parts w)
   \<and> sorted_wrt (\<lambda>p q. \<not> part_less q p) (f_parts (sort_by_level w))
   \<and> filter (\<lambda>p. f_level p = l) (f_parts (sort_by_level w)) = filter (\<lambda>p. f_level p = l) (f_parts w)"
proof -
  have "sorted (map (\<lambda>p. - f_level p) (sort_key (\<lambda>p. - f_level p) (f_parts w)))" by (rule sorted_sort_key)
  then have "sorted_wrt (\<lambda>p q. \<not> part_less q p) (sort_key (\<lambda>p. - f_level p) (f_parts w))"
    by (simp add: sorted_wrt_map part_less_def not_less)
  moreover have "filter (\<lambda>p. f_level p = l) (sort_key (\<lambda>p. - f_level p) (f_parts w)) = filter (\<lambda>p. f_level p = l) (f_parts w)"
    using sort_key_stable [of "\<lambda>p. - f_level p" "- l" "f_parts w"] by simp
  ultimately show ?thesis by (simp add: sort_by_level_def)
qed

text \<open>
  One name of more than 17 characters ends the parsing: it and everything after it is lost.  The
  header \<open>Accept\<close> of a browser has such a name.
\<close>

theorem long_name_ends_parsing:
  "parse to_float ''text/html,application/xhtml+xml,text/plain'' True w
     = (False, w\<lparr>f_str := ''text/html,application/xhtml+xml,text/plain'',
          f_parts := [new_part ''text/html''], f_error_messages := [err_name]\<rparr>)"
proof -
  have "parse_parts to_float ''text/html,application/xhtml+xml,text/plain'' [] [] = ([new_part ''text/html''], [err_name])"
    by code_simp
  then show ?thesis by (simp add: parse_def)
qed

end
