(* ===== verification/Cache_Control.thy ===== *)
theory Cache_Control
  imports Http_Strings
begin

text \<open>
  \<open>cache_control.cpp\<close>: the cache control settings of a page or of a request, and the reading of
  a \<open>Cache-Control\<close> header.  The values are \<open>int64_t\<close> numbers of seconds, kept as integers:
  no operation adds to them except \<open>string_to_seconds()\<close>, which stops at ten digits.  The
  theorems: every value stays between \<open>-1\<close> (not defined) and one year whatever is called,
  the algebra of \<open>minimum()\<close> and of the updates, what a header sets, and what \<open>reset_cache_info()\<close>
  leaves behind.
\<close>

section \<open>Settings\<close>

definition AGE_MAXIMUM :: int where "AGE_MAXIMUM = 365 * 24 * 60 * 60"
definition IGNORE_VALUE :: int where "IGNORE_VALUE = - 1"

record cache_control_settings =
  f_max_age :: int
  f_max_stale :: int
  f_min_fresh :: int
  f_must_revalidate :: bool
  f_no_cache :: bool
  f_no_store :: bool
  f_no_transform :: bool
  f_only_if_cached :: bool
  f_private :: bool
  f_proxy_revalidate :: bool
  f_public :: bool
  f_s_maxage :: int

definition default_settings :: cache_control_settings where
  "default_settings = \<lparr>f_max_age = 0, f_max_stale = - 1, f_min_fresh = - 1, f_must_revalidate = True,
     f_no_cache = False, f_no_store = False, f_no_transform = False, f_only_if_cached = False,
     f_private = False, f_proxy_revalidate = False, f_public = False, f_s_maxage = - 1\<rparr>"

definition reset_cache_info :: "cache_control_settings \<Rightarrow> cache_control_settings" where
  "reset_cache_info s = s\<lparr>f_max_age := 0, f_max_stale := IGNORE_VALUE, f_min_fresh := IGNORE_VALUE,
     f_must_revalidate := True, f_no_cache := False, f_no_store := True, f_no_transform := False,
     f_only_if_cached := False, f_private := False, f_public := False, f_s_maxage := IGNORE_VALUE\<rparr>"

text \<open>The boolean setters.\<close>

definition set_must_revalidate :: "bool \<Rightarrow> cache_control_settings \<Rightarrow> cache_control_settings" where
  "set_must_revalidate b s = s\<lparr>f_must_revalidate := b\<rparr>"
definition set_private :: "bool \<Rightarrow> cache_control_settings \<Rightarrow> cache_control_settings" where
  "set_private b s = s\<lparr>f_private := b\<rparr>"
definition set_proxy_revalidate :: "bool \<Rightarrow> cache_control_settings \<Rightarrow> cache_control_settings" where
  "set_proxy_revalidate b s = s\<lparr>f_proxy_revalidate := b\<rparr>"
definition set_public :: "bool \<Rightarrow> cache_control_settings \<Rightarrow> cache_control_settings" where
  "set_public b s = s\<lparr>f_public := b\<rparr>"
definition set_no_cache :: "bool \<Rightarrow> cache_control_settings \<Rightarrow> cache_control_settings" where
  "set_no_cache b s = s\<lparr>f_no_cache := b\<rparr>"
definition set_no_store :: "bool \<Rightarrow> cache_control_settings \<Rightarrow> cache_control_settings" where
  "set_no_store b s = s\<lparr>f_no_store := b\<rparr>"
definition set_no_transform :: "bool \<Rightarrow> cache_control_settings \<Rightarrow> cache_control_settings" where
  "set_no_transform b s = s\<lparr>f_no_transform := b\<rparr>"
definition set_only_if_cached :: "bool \<Rightarrow> cache_control_settings \<Rightarrow> cache_control_settings" where
  "set_only_if_cached b s = s\<lparr>f_only_if_cached := b\<rparr>"

text \<open>The same clamping stands in four setters.\<close>

definition clamp_age :: "int \<Rightarrow> int" where
  "clamp_age a = (if a \<ge> AGE_MAXIMUM then AGE_MAXIMUM else if a < 0 then IGNORE_VALUE else a)"

definition set_max_age :: "int \<Rightarrow> cache_control_settings \<Rightarrow> cache_control_settings" where
  "set_max_age a s = s\<lparr>f_max_age := clamp_age a\<rparr>"
definition set_s_maxage :: "int \<Rightarrow> cache_control_settings \<Rightarrow> cache_control_settings" where
  "set_s_maxage a s = s\<lparr>f_s_maxage := clamp_age a\<rparr>"
definition set_max_stale :: "int \<Rightarrow> cache_control_settings \<Rightarrow> cache_control_settings" where
  "set_max_stale a s = s\<lparr>f_max_stale := clamp_age a\<rparr>"
definition set_min_fresh :: "int \<Rightarrow> cache_control_settings \<Rightarrow> cache_control_settings" where
  "set_min_fresh a s = s\<lparr>f_min_fresh := clamp_age a\<rparr>"

text \<open>
  \<open>string_to_seconds()\<close>: the loop with the index of the character and the value so far.
\<close>

fun seconds_loop :: "string \<Rightarrow> nat \<Rightarrow> int \<Rightarrow> int" where
  "seconds_loop [] i r = (if r > AGE_MAXIMUM then AGE_MAXIMUM else r)"
| "seconds_loop (c # s) i r =
     (if \<not> is_digit c \<or> i > 9 then IGNORE_VALUE
      else seconds_loop s (i + 1) (r * 10 + int (digit_value c)))"

definition string_to_seconds :: "string \<Rightarrow> int" where
  "string_to_seconds s = (if s = [] then IGNORE_VALUE else seconds_loop s 0 0)"

definition set_max_age_string :: "string \<Rightarrow> cache_control_settings \<Rightarrow> cache_control_settings" where
  "set_max_age_string a s = s\<lparr>f_max_age := string_to_seconds a\<rparr>"
definition set_s_maxage_string :: "string \<Rightarrow> cache_control_settings \<Rightarrow> cache_control_settings" where
  "set_s_maxage_string a s = s\<lparr>f_s_maxage := string_to_seconds a\<rparr>"
definition set_max_stale_string :: "string \<Rightarrow> cache_control_settings \<Rightarrow> cache_control_settings" where
  "set_max_stale_string a s = set_max_stale (string_to_seconds a) s"
definition set_min_fresh_string :: "string \<Rightarrow> cache_control_settings \<Rightarrow> cache_control_settings" where
  "set_min_fresh_string a s = set_min_fresh (string_to_seconds a) s"

definition update_max_age :: "int \<Rightarrow> cache_control_settings \<Rightarrow> cache_control_settings" where
  "update_max_age a s =
     (let a1 = (if a > AGE_MAXIMUM then AGE_MAXIMUM else a) in
      if a1 \<ge> 0 \<and> (f_max_age s = IGNORE_VALUE \<or> a1 < f_max_age s) then s\<lparr>f_max_age := a1\<rparr> else s)"

definition update_s_maxage :: "int \<Rightarrow> cache_control_settings \<Rightarrow> cache_control_settings" where
  "update_s_maxage a s =
     (let a1 = (if a \<ge> AGE_MAXIMUM then AGE_MAXIMUM else a) in
      if a1 \<ge> 0 \<and> (f_s_maxage s = IGNORE_VALUE \<or> a1 < f_s_maxage s) then s\<lparr>f_s_maxage := a1\<rparr> else s)"

definition minimum :: "int \<Rightarrow> int \<Rightarrow> int" where
  "minimum a b = (if a = IGNORE_VALUE then b else if b = IGNORE_VALUE then a else min a b)"

section \<open>The header\<close>

definition set_directive :: "string \<Rightarrow> bool \<Rightarrow> cache_control_settings \<Rightarrow> cache_control_settings" where
  "set_directive name negate s =
     (if starts_with ''max-age='' name then set_max_age_string (drop 8 name) s
      else if name = ''max-stale'' then set_max_stale 0 s
      else if starts_with ''max-stale='' name then set_max_stale_string (drop 10 name) s
      else if starts_with ''min-fresh='' name then set_min_fresh_string (drop 10 name) s
      else if name = ''must-revalidate'' then set_must_revalidate (\<not> negate) s
      else if name = ''no-cache'' then set_no_cache (\<not> negate) s
      else if name = ''no-store'' then set_no_store (\<not> negate) s
      else if name = ''no-transform'' then set_no_transform (\<not> negate) s
      else if name = ''only-if-cached'' then set_only_if_cached (\<not> negate) s
      else if name = ''private'' then set_private (\<not> negate) s
      else if name = ''proxy-revalidate'' then set_proxy_revalidate (\<not> negate) s
      else if name = ''public'' then set_public (\<not> negate) s
      else if starts_with ''s-maxage='' name then set_s_maxage_string (drop 9 name) s
      else s)"

definition set_part :: "bool \<Rightarrow> cache_control_settings \<Rightarrow> part_t \<Rightarrow> cache_control_settings" where
  "set_part internal_setup s c =
     (let name = f_name c in
      if name = [] then s
      else if internal_setup \<and> hd name = CHR ''!'' then set_directive (drop 1 name) True s
      else set_directive name False s)"

definition set_cache_info :: "(string \<Rightarrow> rat option) \<Rightarrow> string \<Rightarrow> bool \<Rightarrow> cache_control_settings \<Rightarrow> cache_control_settings" where
  "set_cache_info to_float info internal_setup s =
     foldl (set_part internal_setup) s (f_parts (snd (parse to_float info False empty_weighted)))"

section \<open>Ranges\<close>

definition age_ok :: "int \<Rightarrow> bool" where
  "age_ok a \<longleftrightarrow> IGNORE_VALUE \<le> a \<and> a \<le> AGE_MAXIMUM"

definition settings_ok :: "cache_control_settings \<Rightarrow> bool" where
  "settings_ok s \<longleftrightarrow> age_ok (f_max_age s) \<and> age_ok (f_max_stale s) \<and> age_ok (f_min_fresh s) \<and> age_ok (f_s_maxage s)"

lemmas age_defs = AGE_MAXIMUM_def IGNORE_VALUE_def age_ok_def

lemma age_ok_clamp [simp]: "age_ok (clamp_age a)"
  by (auto simp: clamp_age_def age_defs)

lemma age_ok_seconds_loop: "r \<ge> 0 \<Longrightarrow> age_ok (seconds_loop s i r)"
  by (induction s i r rule: seconds_loop.induct) (auto simp: age_defs)

lemma age_ok_seconds [simp]: "age_ok (string_to_seconds s)"
  by (auto simp: string_to_seconds_def age_ok_seconds_loop) (simp add: age_defs)

lemma seconds_loop_digits:
  "list_all is_digit s \<Longrightarrow> i + length s \<le> 10 \<Longrightarrow>
   seconds_loop s i r = min AGE_MAXIMUM (foldl (\<lambda>v c. v * 10 + int (digit_value c)) r s)"
  by (induction s i r rule: seconds_loop.induct) (auto simp: min_def)

lemma seconds_loop_bad: "\<not> list_all is_digit s \<or> i + length s > 10 \<Longrightarrow> i \<le> 10 \<Longrightarrow> seconds_loop s i r = IGNORE_VALUE"
proof (induction s i r rule: seconds_loop.induct)
  case (1 i r)
  then show ?case by simp
next
  case (2 c s i r)
  then show ?case by (cases "is_digit c \<and> i \<le> 9") auto
qed

lemma dec_value_int: "foldl (\<lambda>v c. v * 10 + int (digit_value c)) (int n) s = int (foldl (\<lambda>v c. v * 10 + digit_value c) n s)"
proof (induction s arbitrary: n)
  case Nil
  then show ?case by simp
next
  case (Cons c s)
  from Cons [of "n * 10 + digit_value c"] show ?case by simp
qed

text \<open>
  \<open>string_to_seconds()\<close> gives the decimal value of one to ten digits, at most one year, and
  \<open>-1\<close> for every other string.
\<close>

theorem string_to_seconds_correct:
  "string_to_seconds s = (if s \<noteq> [] \<and> list_all is_digit s \<and> length s \<le> 10
     then min AGE_MAXIMUM (int (dec_value s)) else IGNORE_VALUE)"
  using seconds_loop_digits [of s 0 0] seconds_loop_bad [of s 0 0] dec_value_int [of 0 s]
  by (auto simp: string_to_seconds_def dec_value_def)

section \<open>Every call\<close>

datatype cache_flag = Must_Revalidate | Private | Proxy_Revalidate | Public | No_Cache | No_Store
  | No_Transform | Only_If_Cached

fun set_flag :: "cache_flag \<Rightarrow> bool \<Rightarrow> cache_control_settings \<Rightarrow> cache_control_settings" where
  "set_flag Must_Revalidate = set_must_revalidate"
| "set_flag Private = set_private"
| "set_flag Proxy_Revalidate = set_proxy_revalidate"
| "set_flag Public = set_public"
| "set_flag No_Cache = set_no_cache"
| "set_flag No_Store = set_no_store"
| "set_flag No_Transform = set_no_transform"
| "set_flag Only_If_Cached = set_only_if_cached"

datatype cache_call =
    Reset_Cache_Info
  | Set_Cache_Info string bool
  | Set_Flag cache_flag bool
  | Set_Max_Age int | Set_Max_Age_String string | Update_Max_Age int
  | Set_S_Maxage int | Set_S_Maxage_String string | Update_S_Maxage int
  | Set_Max_Stale int | Set_Max_Stale_String string
  | Set_Min_Fresh int | Set_Min_Fresh_String string

fun cache_step :: "(string \<Rightarrow> rat option) \<Rightarrow> cache_control_settings \<Rightarrow> cache_call \<Rightarrow> cache_control_settings result" where
  "cache_step f s Reset_Cache_Info = Inr (reset_cache_info s)"
| "cache_step f s (Set_Cache_Info i b) = Inr (set_cache_info f i b s)"
| "cache_step f s (Set_Flag g b) = Inr (set_flag g b s)"
| "cache_step f s (Set_Max_Age a) = Inr (set_max_age a s)"
| "cache_step f s (Set_Max_Age_String a) = Inr (set_max_age_string a s)"
| "cache_step f s (Update_Max_Age a) = Inr (update_max_age a s)"
| "cache_step f s (Set_S_Maxage a) = Inr (set_s_maxage a s)"
| "cache_step f s (Set_S_Maxage_String a) = Inr (set_s_maxage_string a s)"
| "cache_step f s (Update_S_Maxage a) = Inr (update_s_maxage a s)"
| "cache_step f s (Set_Max_Stale a) = Inr (set_max_stale a s)"
| "cache_step f s (Set_Max_Stale_String a) = Inr (set_max_stale_string a s)"
| "cache_step f s (Set_Min_Fresh a) = Inr (set_min_fresh a s)"
| "cache_step f s (Set_Min_Fresh_String a) = Inr (set_min_fresh_string a s)"

lemmas flag_defs = set_must_revalidate_def set_private_def set_proxy_revalidate_def set_public_def
  set_no_cache_def set_no_store_def set_no_transform_def set_only_if_cached_def

lemmas age_setter_defs = set_max_age_def set_s_maxage_def set_max_stale_def set_min_fresh_def
  set_max_age_string_def set_s_maxage_string_def set_max_stale_string_def set_min_fresh_string_def

lemma settings_ok_ages:
  "settings_ok s \<Longrightarrow> settings_ok (set_max_age_string a s)" "settings_ok s \<Longrightarrow> settings_ok (set_s_maxage_string a s)"
  "settings_ok s \<Longrightarrow> settings_ok (set_max_stale_string a s)" "settings_ok s \<Longrightarrow> settings_ok (set_min_fresh_string a s)"
  "settings_ok s \<Longrightarrow> settings_ok (set_max_age i s)" "settings_ok s \<Longrightarrow> settings_ok (set_s_maxage i s)"
  "settings_ok s \<Longrightarrow> settings_ok (set_max_stale i s)" "settings_ok s \<Longrightarrow> settings_ok (set_min_fresh i s)"
  by (simp_all add: settings_ok_def age_setter_defs)

lemma settings_ok_updates:
  "settings_ok s \<Longrightarrow> settings_ok (update_max_age i s)" "settings_ok s \<Longrightarrow> settings_ok (update_s_maxage i s)"
  by (auto simp: settings_ok_def update_max_age_def update_s_maxage_def Let_def age_defs)

lemma settings_ok_flags: "settings_ok s \<Longrightarrow> settings_ok (set_flag g b s)"
  by (cases g) (auto simp: flag_defs settings_ok_def)

lemmas settings_ok_flag = settings_ok_flags [of _ Must_Revalidate, simplified] settings_ok_flags [of _ Private, simplified]
  settings_ok_flags [of _ Proxy_Revalidate, simplified] settings_ok_flags [of _ Public, simplified]
  settings_ok_flags [of _ No_Cache, simplified] settings_ok_flags [of _ No_Store, simplified]
  settings_ok_flags [of _ No_Transform, simplified] settings_ok_flags [of _ Only_If_Cached, simplified]

lemma settings_ok_directive: "settings_ok s \<Longrightarrow> settings_ok (set_directive name neg s)"
  unfolding set_directive_def
  by (simp add: settings_ok_ages settings_ok_flag)

lemma settings_ok_info: "settings_ok s \<Longrightarrow> settings_ok (set_cache_info f i b s)"
proof -
  have "settings_ok s \<Longrightarrow> settings_ok (foldl (set_part b) s ps)" for ps
    by (induction ps arbitrary: s) (auto simp: set_part_def Let_def settings_ok_directive)
  then show "settings_ok s \<Longrightarrow> settings_ok (set_cache_info f i b s)" by (simp add: set_cache_info_def)
qed

lemma settings_ok_reset: "settings_ok (reset_cache_info s)"
  by (simp add: settings_ok_def reset_cache_info_def age_defs)

lemma settings_ok_step: "settings_ok s \<Longrightarrow> cache_step f s c = Inr t \<Longrightarrow> settings_ok t"
  by (cases c) (auto simp: settings_ok_ages settings_ok_updates settings_ok_flags settings_ok_info settings_ok_reset
    split: if_splits)

interpretation cache: inv_machine "cache_step f" settings_ok for f
  by unfold_locales (rule settings_ok_step)

text \<open>
  Whatever calls are made on the settings and whatever a client sends in its header, every age
  stays between \<open>-1\<close> and one year.
\<close>

theorem cache_ages_in_range:
  assumes "runE (cache_step to_float) default_settings calls = Inr s"
  shows "settings_ok s"
proof -
  have "settings_ok default_settings" by (simp add: settings_ok_def default_settings_def age_defs)
  then show ?thesis using assms by (rule cache.run_inv)
qed

theorem cache_ages_in_range_witness:
  "\<exists>s. runE (cache_step (\<lambda>_. None)) default_settings [Set_Cache_Info ''max-age=999999999, !no-cache'' True, Update_Max_Age 600] = Inr s
     \<and> settings_ok s \<and> f_max_age s = 600"
proof -
  have "case runE (cache_step (\<lambda>_. None)) default_settings [Set_Cache_Info ''max-age=999999999, !no-cache'' True, Update_Max_Age 600] of
      Inr s \<Rightarrow> f_max_age s = 600 | Inl _ \<Rightarrow> False" by code_simp
  then obtain s where "runE (cache_step (\<lambda>_. None)) default_settings [Set_Cache_Info ''max-age=999999999, !no-cache'' True, Update_Max_Age 600] = Inr s"
    "f_max_age s = 600" by (auto split: sum.split_asm simp del: runE.simps)
  with cache_ages_in_range show ?thesis by blast
qed

text \<open>
  The two updates keep the smaller of the old and the new age in the sense of \<open>minimum()\<close>, where
  \<open>-1\<close> counts as "not defined"; a negative age is ignored.  \<open>minimum()\<close> is associative and
  commutative, so that the order of the updates does not matter.
\<close>

theorem update_is_minimum:
  "update_max_age a s = s\<lparr>f_max_age := minimum (f_max_age s) (clamp_age a)\<rparr>
   \<and> update_s_maxage a s = s\<lparr>f_s_maxage := minimum (f_s_maxage s) (clamp_age a)\<rparr>
   \<and> minimum x y = minimum y x \<and> minimum (minimum x y) z = minimum x (minimum y z)
   \<and> update_max_age a (update_max_age b s) = update_max_age b (update_max_age a s)"
proof -
  have m: "minimum x y = minimum y x" "minimum (minimum x y) z = minimum x (minimum y z)" for x y z
    by (auto simp: minimum_def min_def)
  have u: "update_max_age a s = s\<lparr>f_max_age := minimum (f_max_age s) (clamp_age a)\<rparr>" for a s
    by (auto simp: update_max_age_def Let_def minimum_def clamp_age_def age_defs)
  have v: "update_s_maxage a s = s\<lparr>f_s_maxage := minimum (f_s_maxage s) (clamp_age a)\<rparr>"
    by (auto simp: update_s_maxage_def Let_def minimum_def clamp_age_def age_defs)
  have "update_max_age a (update_max_age b s) = update_max_age b (update_max_age a s)"
    unfolding u by (simp, metis m)
  with m u v show ?thesis by blast
qed

text \<open>
  After \<open>reset_cache_info()\<close> the object does not look as if it just got initialized:
  \<open>no-store\<close> is set, which a new object does not have, and \<open>proxy-revalidate\<close> is what it was.
\<close>

theorem reset_is_not_default:
  "reset_cache_info s = default_settings\<lparr>f_no_store := True, f_proxy_revalidate := f_proxy_revalidate s\<rparr>
   \<and> reset_cache_info s \<noteq> default_settings"
proof -
  have "reset_cache_info s = default_settings\<lparr>f_no_store := True, f_proxy_revalidate := f_proxy_revalidate s\<rparr>"
    by (simp add: reset_cache_info_def default_settings_def IGNORE_VALUE_def)
  moreover have "f_no_store (reset_cache_info s) \<noteq> f_no_store default_settings"
    by (simp add: reset_cache_info_def default_settings_def)
  ultimately show ?thesis by metis
qed

text \<open>A directive of more than 17 characters is not read, nor is anything after it.\<close>

lemma long_directive_ignored:
  "set_cache_info to_float ''max-stale=31536000, no-store, no-cache'' False s = s"
proof -
  have "f_parts (snd (parse to_float ''max-stale=31536000, no-store, no-cache'' False empty_weighted)) = []"
    by code_simp
  then show ?thesis by (simp add: set_cache_info_def)
qed

end
