(* ===== verification/Snap_Version.thy ===== *)
theory Snap_Version
  imports Snap_Prelude
begin

text \<open>
  \<open>snap_version.cpp\<close>, first part: the validation of names, versions and operators, and the
  classes \<open>name\<close>, \<open>version_operator\<close> and \<open>version\<close>.  Version numbers are 32-bit words.
  Signed overflow of the \<open>int\<close> in which a number is read is taken to wrap.  The strings of the
  error messages are shortened; what matters to the code is whether they are empty.
  \<open>f_version_string\<close>, the cache of the text of a version, is not represented: it is cleared by
  the only function that changes the version.
  The theorems: which version strings are accepted and what they mean, that a version is read
  back from its text, and that the comparison orders the versions.
\<close>

section \<open>Validation\<close>

text \<open>A validator returns an error text or a value.\<close>

type_synonym 'a check = "string + 'a"

fun find_extension :: "string \<Rightarrow> string list \<Rightarrow> string option" where
  "find_extension filename [] = None"
| "find_extension filename (e # es) = (if ends_with e filename then Some e else find_extension filename es)"

text \<open>The loop returns the last character; \<open>p\<close> is the character before.\<close>

fun basic_name_loop :: "char \<Rightarrow> string \<Rightarrow> char check" where
  "basic_name_loop p [] = Inr p"
| "basic_name_loop p (c # s) =
     (if c = CHR ''-'' then
        (if p = CHR ''-'' then Inl ''two dashes (--) one after another'' else basic_name_loop c s)
      else if \<not> is_digit c \<and> \<not> is_lower c then Inl ''can only include letters (a-z), digits (0-9), and dashes (-)''
      else basic_name_loop c s)"

definition validate_basic_name :: "string \<Rightarrow> unit check" where
  "validate_basic_name name =
     (if length name < 2 then Inl ''must be at least two characters''
      else if \<not> is_lower (hd name) then Inl ''must start with a letter [a-z]''
      else case basic_name_loop (hd name) name of
             Inl e \<Rightarrow> Inl e
           | Inr c \<Rightarrow> (if c = CHR ''-'' then Inl ''cannot end with a dash (-) or a colon (:)'' else Inr ()))"

text \<open>The position of the first \<open>::\<close> splits the name.\<close>

fun split_namespace :: "string \<Rightarrow> (string \<times> string) option" where
  "split_namespace (a # b # s) =
     (if a = CHR '':'' \<and> b = CHR '':'' then Some ([], s)
      else map_option (\<lambda>(n, r). (a # n, r)) (split_namespace (b # s)))"
| "split_namespace s = None"

definition validate_name :: "string \<Rightarrow> (string \<times> string) check" where
  "validate_name name =
     (case split_namespace name of
        None \<Rightarrow> (case validate_basic_name name of Inl e \<Rightarrow> Inl e | Inr _ \<Rightarrow> Inr ([], name))
      | Some (ns, n) \<Rightarrow>
          (case validate_basic_name ns of
             Inl e \<Rightarrow> Inl e
           | Inr _ \<Rightarrow> (case validate_basic_name n of Inl e \<Rightarrow> Inl e | Inr _ \<Rightarrow> Inr (ns, n))))"

type_synonym version_number_t = "32 word"

text \<open>
  The two nested loops: \<open>None\<close> before a number, \<open>Some value\<close> inside one.  The left of the
  outer sum is the \<open>snap_logic_exception\<close>.
\<close>

fun version_loop :: "string \<Rightarrow> version_number_t option \<Rightarrow> version_number_t list \<Rightarrow> version_number_t list check result" where
  "version_loop [] None acc = Inr (Inr acc)"
| "version_loop [] (Some v) acc = Inr (Inr (acc @ [v]))"
| "version_loop (c # s) None acc =
     (if is_digit c then version_loop s (Some (of_nat (digit_value c))) acc
      else Inr (Inl ''expected to have a number at the start and after each period''))"
| "version_loop (c # s) (Some v) acc =
     (if is_digit c then version_loop s (Some (v * 10 + of_nat (digit_value c))) acc
      else if c \<noteq> CHR ''.'' then Inr (Inl ''expected to be composed of numbers and periods (.) only'')
      else if s = [] then Inl (Logic_Error ''The version_string was already checked for an ending period'')
      else version_loop s None (acc @ [v]))"

text \<open>The loop that pops the zeroes at the end, on the reversed list.\<close>

fun pop_zeroes :: "version_number_t list \<Rightarrow> version_number_t list" where
  "pop_zeroes (x # y # r) = (if x = 0 then pop_zeroes (y # r) else x # y # r)"
| "pop_zeroes r = r"

definition canonicalize :: "version_number_t list \<Rightarrow> version_number_t list" where
  "canonicalize v = rev (pop_zeroes (rev v))"

definition validate_version :: "string \<Rightarrow> version_number_t list check result" where
  "validate_version s =
     (if s = [] then Inr (Inl ''The version in a versioned filename is required after the name'')
      else if last s = CHR ''.'' then Inr (Inl ''The version in a versioned filename cannot end with a period'')
      else bindE (version_loop s None []) (\<lambda>r.
             case r of Inl e \<Rightarrow> Inr (Inl e) | Inr v \<Rightarrow> Inr (Inr (canonicalize v))))"

datatype operator_t = OPERATOR_UNORDERED | OPERATOR_EQUAL | OPERATOR_EXCEPT | OPERATOR_EARLIER
  | OPERATOR_LATER | OPERATOR_EARLIER_OR_EQUAL | OPERATOR_LATER_OR_EQUAL

definition validate_operator :: "string \<Rightarrow> operator_t check" where
  "validate_operator s =
     (if s = ''='' \<or> s = ''=='' then Inr OPERATOR_EQUAL
      else if s = ''!='' \<or> s = ''<>'' then Inr OPERATOR_EXCEPT
      else if s = ''<'' then Inr OPERATOR_EARLIER
      else if s = ''>'' then Inr OPERATOR_LATER
      else if s = ''<='' then Inr OPERATOR_EARLIER_OR_EQUAL
      else if s = ''>='' then Inr OPERATOR_LATER_OR_EQUAL
      else Inl (''Operator '' @ s @ '' is not recognized as a valid operator.''))"

section \<open>Names, operators, versions\<close>

datatype compare_t = COMPARE_INVALID | COMPARE_SMALLER | COMPARE_EQUAL | COMPARE_LARGER

fun compare_value :: "compare_t \<Rightarrow> int" where
  "compare_value COMPARE_INVALID = - 2"
| "compare_value COMPARE_SMALLER = - 1"
| "compare_value COMPARE_EQUAL = 0"
| "compare_value COMPARE_LARGER = 1"

record name =
  n_name :: string
  n_namespace :: string
  n_error :: string

definition new_name :: name where
  "new_name = \<lparr>n_name = [], n_namespace = [], n_error = []\<rparr>"

text \<open>\<open>clear()\<close> of the header leaves the namespace.\<close>

definition name_clear :: "name \<Rightarrow> name" where
  "name_clear n = n\<lparr>n_name := [], n_error := []\<rparr>"

definition set_name :: "string \<Rightarrow> name \<Rightarrow> bool \<times> name" where
  "set_name s n =
     (case validate_name s of
        Inl e \<Rightarrow> (False, n\<lparr>n_error := e\<rparr>)
      | Inr (ns, nm) \<Rightarrow> (True, n\<lparr>n_error := [], n_name := nm, n_namespace := ns\<rparr>))"

definition name_is_valid :: "name \<Rightarrow> bool" where
  "name_is_valid n \<longleftrightarrow> n_error n = []"

definition name_compare :: "name \<Rightarrow> name \<Rightarrow> compare_t" where
  "name_compare l r =
     (if \<not> name_is_valid l \<or> \<not> name_is_valid r then COMPARE_INVALID
      else if n_name l = ''any'' \<or> n_name r = ''any'' then COMPARE_EQUAL
      else if n_name l < n_name r then COMPARE_SMALLER
      else if n_name l > n_name r then COMPARE_LARGER
      else COMPARE_EQUAL)"

record version_operator =
  vo_operator :: operator_t
  vo_error :: string

definition new_operator :: version_operator where
  "new_operator = \<lparr>vo_operator = OPERATOR_UNORDERED, vo_error = []\<rparr>"

text \<open>Every value of the type is one of the cases of the switch.\<close>

definition set_operator :: "operator_t \<Rightarrow> version_operator \<Rightarrow> version_operator" where
  "set_operator op vo = vo\<lparr>vo_operator := op\<rparr>"

definition set_operator_string :: "string \<Rightarrow> version_operator \<Rightarrow> bool \<times> version_operator" where
  "set_operator_string s vo =
     (case validate_operator s of
        Inl e \<Rightarrow> (False, vo\<lparr>vo_error := e\<rparr>)
      | Inr op \<Rightarrow> (True, set_operator op (vo\<lparr>vo_error := []\<rparr>)))"

fun get_operator_string :: "operator_t \<Rightarrow> string" where
  "get_operator_string OPERATOR_UNORDERED = []"
| "get_operator_string OPERATOR_EQUAL = ''=''"
| "get_operator_string OPERATOR_EXCEPT = ''!=''"
| "get_operator_string OPERATOR_EARLIER = ''<''"
| "get_operator_string OPERATOR_LATER = ''>''"
| "get_operator_string OPERATOR_EARLIER_OR_EQUAL = ''<=''"
| "get_operator_string OPERATOR_LATER_OR_EQUAL = ''>=''"

record version =
  v_version :: "version_number_t list"
  v_error :: string
  v_operator :: version_operator

definition new_version :: version where
  "new_version = \<lparr>v_version = [], v_error = [], v_operator = new_operator\<rparr>"

definition set_version :: "version_number_t list \<Rightarrow> version \<Rightarrow> version" where
  "set_version vs v = v\<lparr>v_error := [], v_version := canonicalize vs\<rparr>"

definition set_version_string :: "string \<Rightarrow> version \<Rightarrow> (bool \<times> version) result" where
  "set_version_string s v =
     bindE (validate_version s) (\<lambda>r.
       case r of Inl e \<Rightarrow> Inr (False, v\<lparr>v_error := e\<rparr>) | Inr vs \<Rightarrow> Inr (True, set_version vs v))"

definition version_set_operator :: "version_operator \<Rightarrow> version \<Rightarrow> version" where
  "version_set_operator vo v = v\<lparr>v_operator := vo\<rparr>"

fun dotted :: "string list \<Rightarrow> string" where
  "dotted [] = []"
| "dotted [x] = x"
| "dotted (x # xs) = x @ ''.'' @ dotted xs"

definition get_version_string :: "version \<Rightarrow> string" where
  "get_version_string v = dotted (map (\<lambda>w. show_int (sint w)) (v_version v))"

definition get_opversion_string :: "version \<Rightarrow> string" where
  "get_opversion_string v =
     (if vo_operator (v_operator v) \<noteq> OPERATOR_UNORDERED
      then get_operator_string (vo_operator (v_operator v)) @ '' '' @ get_version_string v
      else get_version_string v)"

definition version_is_valid :: "version \<Rightarrow> bool" where
  "version_is_valid v \<longleftrightarrow> v_error v = [] \<and> vo_error (v_operator v) = []"

text \<open>The loop over both vectors, the shorter one continued with zeroes.\<close>

definition number_at :: "version_number_t list \<Rightarrow> nat \<Rightarrow> int" where
  "number_at v i = (if i \<ge> length v then 0 else sint (v ! i))"

fun compare_from :: "version_number_t list \<Rightarrow> version_number_t list \<Rightarrow> nat list \<Rightarrow> compare_t" where
  "compare_from l r [] = COMPARE_EQUAL"
| "compare_from l r (i # is) =
     (if number_at l i < number_at r i then COMPARE_SMALLER
      else if number_at l i > number_at r i then COMPARE_LARGER
      else compare_from l r is)"

definition version_compare :: "version \<Rightarrow> version \<Rightarrow> compare_t" where
  "version_compare l r =
     (if \<not> version_is_valid l \<or> \<not> version_is_valid r then COMPARE_INVALID
      else compare_from (v_version l) (v_version r) [0..<max (length (v_version l)) (length (v_version r))])"

section \<open>Valid names\<close>

lemma basic_name_loop_chars:
  "basic_name_loop p s = Inr c \<Longrightarrow> \<forall>x \<in> set s. is_digit x \<or> is_lower x \<or> x = CHR ''-''"
  by (induction p s rule: basic_name_loop.induct) (auto split: if_splits)

lemma basic_name_chars:
  "validate_basic_name s = Inr u \<Longrightarrow> \<forall>x \<in> set s. is_digit x \<or> is_lower x \<or> x = CHR ''-''"
  by (auto simp: validate_basic_name_def dest: basic_name_loop_chars split: if_splits sum.splits)

lemma basic_name_no_char:
  "validate_basic_name s = Inr u \<Longrightarrow> \<not> is_digit c \<Longrightarrow> \<not> is_lower c \<Longrightarrow> c \<noteq> CHR ''-'' \<Longrightarrow> c \<notin> set s"
  using basic_name_chars by blast

lemma basic_name_not_Nil: "validate_basic_name s = Inr u \<Longrightarrow> s \<noteq> []"
  by (auto simp: validate_basic_name_def split: if_splits)

lemma split_namespace_None: "CHR '':'' \<notin> set s \<Longrightarrow> split_namespace s = None"
  by (induction s rule: split_namespace.induct) auto

lemma validate_name_basic: "validate_basic_name s = Inr u \<Longrightarrow> validate_name s = Inr ([], s)"
  using basic_name_no_char [of s u "CHR '':''"] split_namespace_None [of s]
  by (simp add: validate_name_def is_digit_def is_lower_def)

lemma basic_name_loop_error: "basic_name_loop p s = Inl e \<Longrightarrow> e \<noteq> []"
  by (induction p s rule: basic_name_loop.induct) (auto split: if_splits)

lemma validate_basic_name_error: "validate_basic_name s = Inl e \<Longrightarrow> e \<noteq> []"
  by (auto simp: validate_basic_name_def dest: basic_name_loop_error split: if_splits sum.splits)

lemma validate_name_error: "validate_name s = Inl e \<Longrightarrow> e \<noteq> []"
  by (auto simp: validate_name_def dest: validate_basic_name_error split: option.splits sum.splits prod.splits)

section \<open>What a version string means\<close>

definition part_ok :: "string \<Rightarrow> bool" where
  "part_ok p \<longleftrightarrow> p \<noteq> [] \<and> list_all is_digit p"

definition version_parts_ok :: "string \<Rightarrow> bool" where
  "version_parts_ok s \<longleftrightarrow> list_all part_ok (split_on CHR ''.'' s)"

definition version_numbers :: "string list \<Rightarrow> version_number_t list" where
  "version_numbers ps = map (\<lambda>p. of_nat (dec_value p)) ps"

definition canonical :: "version_number_t list \<Rightarrow> bool" where
  "canonical v \<longleftrightarrow> v \<noteq> [] \<and> (length v = 1 \<or> last v \<noteq> 0)"

lemma pop_zeroes_not_Nil [simp]: "pop_zeroes r = [] \<longleftrightarrow> r = []"
  by (induction r rule: pop_zeroes.induct) auto

lemma canonical_pop_zeroes: "r \<noteq> [] \<Longrightarrow> canonical (rev (pop_zeroes r))"
  by (induction r rule: pop_zeroes.induct) (auto simp: canonical_def)

lemma canonicalize_canonical: "v \<noteq> [] \<Longrightarrow> canonical (canonicalize v)"
  by (simp add: canonicalize_def canonical_pop_zeroes)

lemma pop_zeroes_id: "r = [] \<or> length r = 1 \<or> hd r \<noteq> 0 \<Longrightarrow> pop_zeroes r = r"
  by (induction r rule: pop_zeroes.induct) auto

lemma canonicalize_id: "canonical v \<Longrightarrow> canonicalize v = v"
  using pop_zeroes_id [of "rev v"] by (auto simp: canonicalize_def canonical_def hd_rev)

lemma canonicalize_idem [simp]: "canonicalize (canonicalize v) = canonicalize v"
proof (cases "v = []")
  case True
  then show ?thesis by (simp add: canonicalize_def)
next
  case False
  then show ?thesis by (simp add: canonicalize_canonical canonicalize_id)
qed

text \<open>The loop inside a number, and at its end.\<close>

lemma version_loop_digits:
  "list_all is_digit p \<Longrightarrow> version_loop (p @ s) (Some (of_nat n)) acc
     = version_loop s (Some (of_nat (foldl (\<lambda>v c. v * 10 + digit_value c) n p))) acc"
proof (induction p arbitrary: n)
  case Nil
  then show ?case by simp
next
  case (Cons c p)
  have "of_nat n * 10 + of_nat (digit_value c) = (of_nat (n * 10 + digit_value c) :: version_number_t)" by simp
  with Cons show ?case by (simp only: append_Cons version_loop.simps list.pred_inject foldl.simps if_True)
qed

lemma version_loop_number:
  assumes "p \<noteq> []" "list_all is_digit p"
  shows "version_loop (p @ s) None acc = version_loop s (Some (of_nat (dec_value p))) acc"
  using assms version_loop_digits [of "tl p" s "digit_value (hd p)" acc]
  by (cases p) (auto simp: dec_value_def)

lemma digit_not_period [simp]: "is_digit c \<Longrightarrow> c \<noteq> CHR ''.''"
  by (auto simp: is_digit_def)

lemma dotted_split: "dotted (split_on CHR ''.'' s) = s"
proof (induction s)
  case (Cons c s)
  then show ?case by (cases "split_on CHR ''.'' s" rule: dotted.cases) (auto split: list.splits)
qed simp

lemma split_on_parts: "p \<in> set (split_on c s) \<Longrightarrow> c \<notin> set p"
  by (induction s arbitrary: p) (auto split: if_splits list.splits)

lemma dotted_not_Nil: "ps \<noteq> [] \<Longrightarrow> last ps \<noteq> [] \<Longrightarrow> dotted ps \<noteq> []"
  by (induction ps rule: dotted.induct) auto

text \<open>The loop on the text before the next period, which is not a number.\<close>

lemma version_loop_bad:
  assumes "\<not> list_all is_digit p" "CHR ''.'' \<notin> set p"
  shows "\<exists>e. e \<noteq> [] \<and> version_loop (p @ s) a acc = Inr (Inl e)"
  using assms
proof (induction p arbitrary: a)
  case Nil
  then show ?case by simp
next
  case (Cons c p)
  then show ?case by (cases a) auto
qed

lemma version_loop_empty: "version_loop (CHR ''.'' # s) None acc = Inr (Inl ''expected to have a number at the start and after each period'')"
  by (simp add: is_digit_def)

text \<open>The whole loop, on parts of which the last one is not empty.\<close>

lemma version_loop_dotted:
  assumes "ps \<noteq> []" "last ps \<noteq> []" "\<forall>p \<in> set ps. CHR ''.'' \<notin> set p"
  shows "if list_all part_ok ps then version_loop (dotted ps) None acc = Inr (Inr (acc @ version_numbers ps))
         else \<exists>e. e \<noteq> [] \<and> version_loop (dotted ps) None acc = Inr (Inl e)"
  using assms
proof (induction ps arbitrary: acc rule: dotted.induct)
  case 1
  then show ?case by simp
next
  case (2 p)
  show ?case
  proof (cases "part_ok p")
    case True
    then show ?thesis using version_loop_number [of p "[]" acc] by (simp add: part_ok_def version_numbers_def)
  next
    case False
    then show ?thesis using version_loop_bad [of p "[]" None acc] 2 by (simp add: part_ok_def)
  qed
next
  case (3 p q ps)
  have d: "dotted (p # q # ps) = p @ CHR ''.'' # dotted (q # ps)" by simp
  consider (bad) "\<not> list_all is_digit p" | (none) "p = []" | (num) "part_ok p" by (auto simp: part_ok_def)
  then show ?case
  proof cases
    case bad
    then show ?thesis using version_loop_bad [of p _ None acc] 3(4) by (simp add: d part_ok_def del: dotted.simps)
  next
    case none
    then show ?thesis by (simp add: part_ok_def version_loop_empty del: version_loop.simps)
  next
    case num
    have "version_loop (dotted (p # q # ps)) None acc = version_loop (dotted (q # ps)) None (acc @ [of_nat (dec_value p)])"
      using num dotted_not_Nil [of "q # ps"] 3(3)
      by (simp add: d version_loop_number part_ok_def is_digit_def del: dotted.simps)
    with 3(1) [of "acc @ [of_nat (dec_value p)]"] 3(3,4) num show ?thesis
      by (simp add: version_numbers_def del: dotted.simps split: if_splits)
  qed
qed

lemma last_part: "s \<noteq> [] \<Longrightarrow> last (split_on c s) = [] \<longleftrightarrow> last s = c"
  by (induction s rule: rev_induct) (simp_all add: split_on_snoc)

lemma validate_version_parts:
  "if version_parts_ok s then validate_version s = Inr (Inr (canonicalize (version_numbers (split_on CHR ''.'' s))))
   else \<exists>e. e \<noteq> [] \<and> validate_version s = Inr (Inl e)"
proof -
  let ?ps = "split_on CHR ''.'' s"
  consider "s = []" | "s \<noteq> []" "last s = CHR ''.''" | "s \<noteq> []" "last s \<noteq> CHR ''.''" by blast
  then show ?thesis
  proof cases
    case 1
    then show ?thesis by (simp add: validate_version_def version_parts_ok_def part_ok_def)
  next
    case 2
    then have "last ?ps = []" by (simp add: last_part)
    then have "[] \<in> set ?ps" by (metis last_in_set split_on_not_Nil)
    then have "\<not> version_parts_ok s" by (auto simp: version_parts_ok_def part_ok_def list_all_iff)
    with 2 show ?thesis by (simp add: validate_version_def)
  next
    case 3
    then have "last ?ps \<noteq> []" by (simp add: last_part)
    then have "if version_parts_ok s then version_loop s None [] = Inr (Inr (version_numbers ?ps))
        else \<exists>e. e \<noteq> [] \<and> version_loop s None [] = Inr (Inl e)"
      using version_loop_dotted [OF split_on_not_Nil, of "CHR ''.''" s "[]"] split_on_parts
      by (simp only: dotted_split version_parts_ok_def append_Nil ball_simps) blast
    with 3 show ?thesis by (auto simp: validate_version_def split: if_splits)
  qed
qed


section \<open>Versions are read back from their text\<close>

text \<open>The numbers that print without a sign.\<close>

definition printable :: "version_number_t list \<Rightarrow> bool" where
  "printable v \<longleftrightarrow> list_all (\<lambda>w. 0 \<le> sint w) v"

lemma show_sint: "0 \<le> sint (w :: version_number_t) \<Longrightarrow> show_int (sint w) = show_nat (unat w)"
  using sint_less [of w] by (simp add: show_int_def unat_eq_nat_uint uint_sint take_bit_int_eq_self)

lemma split_on_dotted:
  "ps \<noteq> [] \<Longrightarrow> \<forall>p \<in> set ps. CHR ''.'' \<notin> set p \<Longrightarrow> split_on CHR ''.'' (dotted ps) = ps"
  by (induction ps rule: dotted.induct) (auto simp: split_on_append)

lemma part_ok_show_nat [simp]: "part_ok (show_nat n)"
  using show_nat_digits [of n] by (simp add: part_ok_def list_all_iff)

lemma part_ok_period: "part_ok p \<Longrightarrow> CHR ''.'' \<notin> set p"
  using digit_not_period by (metis part_ok_def list_all_iff)

lemma version_text_numbers:
  assumes "v \<noteq> []" "printable v"
  defines "s \<equiv> dotted (map (\<lambda>w. show_int (sint w)) v)"
  shows "version_parts_ok s" "version_numbers (split_on CHR ''.'' s) = v"
proof -
  have p: "map (\<lambda>w. show_int (sint w)) v = map (\<lambda>w. show_nat (unat w)) v"
    using assms(2) by (auto simp: printable_def list_all_iff show_sint)
  have "split_on CHR ''.'' s = map (\<lambda>w. show_nat (unat w)) v"
    using assms(1) unfolding s_def p by (intro split_on_dotted) (auto simp: part_ok_period)
  then show "version_parts_ok s" "version_numbers (split_on CHR ''.'' s) = v"
    by (simp_all add: version_parts_ok_def list_all_iff version_numbers_def o_def)
qed

lemma version_string_read:
  assumes "canonical (v_version v)" "printable (v_version v)"
  shows "validate_version (get_version_string v) = Inr (Inr (v_version v))"
proof -
  have "v_version v \<noteq> []" using assms(1) by (simp add: canonical_def)
  from version_text_numbers [OF this assms(2)] validate_version_parts [of "get_version_string v"] assms(1)
  show ?thesis by (simp add: get_version_string_def canonicalize_id)
qed

text \<open>
  \<open>set_version_string()\<close> reads back the text of a version: on any other version object it
  succeeds and leaves the same numbers, when these are canonical and below \<open>2\<^sup>3\<^sup>1\<close>.
\<close>
theorem version_roundtrip:
  assumes "canonical (v_version v)" "printable (v_version v)"
  shows "set_version_string (get_version_string v) w = Inr (True, w\<lparr>v_error := [], v_version := v_version v\<rparr>)"
  using version_string_read [OF assms] assms(1) by (simp add: set_version_string_def set_version_def canonicalize_id)

theorem version_roundtrip_witness:
  "set_version_string (get_version_string (new_version\<lparr>v_version := [1, 20, 3]\<rparr>)) new_version
     = Inr (True, new_version\<lparr>v_version := [1, 20, 3]\<rparr>)"
  using version_roundtrip [of "new_version\<lparr>v_version := [1, 20, 3]\<rparr>" new_version]
  by (simp add: canonical_def printable_def new_version_def)

section \<open>The order of the versions\<close>

text \<open>
  What the clients of a comparison rely on: on the valid values of \<open>'a\<close> it is the comparison of a
  total preorder.
\<close>

locale comparison =
  fixes cmp :: "'a \<Rightarrow> 'a \<Rightarrow> compare_t"
    and valid :: "'a \<Rightarrow> bool"
  assumes ordered: "valid x \<Longrightarrow> valid y \<Longrightarrow> cmp x y \<noteq> COMPARE_INVALID"
    and swap: "valid x \<Longrightarrow> valid y \<Longrightarrow> cmp x y = COMPARE_SMALLER \<longleftrightarrow> cmp y x = COMPARE_LARGER"
    and refl: "valid x \<Longrightarrow> cmp x x = COMPARE_EQUAL"
    and less_trans: "valid x \<Longrightarrow> valid y \<Longrightarrow> valid z \<Longrightarrow>
      cmp x y = COMPARE_SMALLER \<Longrightarrow> cmp y z \<noteq> COMPARE_LARGER \<Longrightarrow> cmp x z = COMPARE_SMALLER"
    and equal_trans: "valid x \<Longrightarrow> valid y \<Longrightarrow> valid z \<Longrightarrow>
      cmp x y = COMPARE_EQUAL \<Longrightarrow> cmp x z = cmp y z"
begin

lemma equal_sym: "valid x \<Longrightarrow> valid y \<Longrightarrow> cmp x y = COMPARE_EQUAL \<Longrightarrow> cmp y x = COMPARE_EQUAL"
  using equal_trans [of x y x] refl by simp

lemma le_total: "valid x \<Longrightarrow> valid y \<Longrightarrow> cmp x y \<noteq> COMPARE_LARGER \<or> cmp y x \<noteq> COMPARE_LARGER"
  using swap [of x y] swap [of y x] by (cases "cmp x y") simp_all

lemma le_trans:
  assumes "valid x" "valid y" "valid z" "cmp x y \<noteq> COMPARE_LARGER" "cmp y z \<noteq> COMPARE_LARGER"
  shows "cmp x z \<noteq> COMPARE_LARGER"
proof (cases "cmp x y")
  case COMPARE_SMALLER
  with less_trans [of x y z] assms show ?thesis by simp
next
  case COMPARE_EQUAL
  with assms equal_trans [of x y z] show ?thesis by simp
qed (use assms ordered in auto)

end

text \<open>A version denotes the sequence of its numbers, continued with zeroes.\<close>

definition number_less :: "version_number_t list \<Rightarrow> version_number_t list \<Rightarrow> bool" where
  "number_less l r \<longleftrightarrow> (\<exists>i. number_at l i < number_at r i \<and> (\<forall>j < i. number_at l j = number_at r j))"

lemma compare_from_range:
  "(\<forall>j < m. number_at l j = number_at r j) \<Longrightarrow>
   (\<forall>j \<ge> m + k. number_at l j = number_at r j) \<Longrightarrow>
   compare_from l r [m ..< m + k] =
     (if number_less l r then COMPARE_SMALLER else if number_less r l then COMPARE_LARGER else COMPARE_EQUAL)"
proof (induction k arbitrary: m)
  case 0
  then have "number_at l j = number_at r j" for j by (cases "j < m") auto
  then show ?case by (simp add: number_less_def)
next
  case (Suc k)
  have r: "[m ..< Suc (m + k)] = m # [Suc m ..< Suc (m + k)]" by (simp add: upt_conv_Cons)
  consider (less) "number_at l m < number_at r m" | (greater) "number_at l m > number_at r m"
    | (equal) "number_at l m = number_at r m" by linarith
  then show ?case
  proof cases
    case less
    with Suc(2) have "number_less l r" unfolding number_less_def by blast
    with less show ?thesis by (simp add: r del: upt_Suc)
  next
    case greater
    with Suc(2) have "number_less r l" unfolding number_less_def by (metis (full_types))
    moreover have "\<not> number_less l r"
      using greater Suc(2) unfolding number_less_def by (metis linorder_neqE_nat order_less_asym order_less_irrefl)
    ultimately show ?thesis using greater by (simp add: r del: upt_Suc)
  next
    case equal
    with Suc(2) have "\<forall>j < Suc m. number_at l j = number_at r j" by (auto simp: less_Suc_eq)
    from Suc(1) [OF this] Suc(3) equal show ?thesis by (simp add: r del: upt_Suc)
  qed
qed

lemma version_compare_numbers:
  assumes "version_is_valid a" "version_is_valid b"
  shows "version_compare a b =
    (if number_less (v_version a) (v_version b) then COMPARE_SMALLER
     else if number_less (v_version b) (v_version a) then COMPARE_LARGER else COMPARE_EQUAL)"
  using assms compare_from_range [of 0 "v_version a" "v_version b" "max (length (v_version a)) (length (v_version b))"]
  by (simp add: version_compare_def number_at_def)

lemma number_less_trans: "number_less a b \<Longrightarrow> number_less b c \<Longrightarrow> number_less a c"
  unfolding number_less_def
proof (elim exE conjE)
  fix i k
  assume "number_at a i < number_at b i" "\<forall>j < i. number_at a j = number_at b j"
    "number_at b k < number_at c k" "\<forall>j < k. number_at b j = number_at c j"
  then show "\<exists>i. number_at a i < number_at c i \<and> (\<forall>j < i. number_at a j = number_at c j)"
    by (intro exI [of _ "min i k"]) (cases i k rule: linorder_cases; force)
qed

lemma number_less_irrefl [simp]: "\<not> number_less a a"
  by (simp add: number_less_def)

lemma number_eq_iff: "\<not> number_less a b \<and> \<not> number_less b a \<longleftrightarrow> number_at a = number_at b"
proof
  assume n: "\<not> number_less a b \<and> \<not> number_less b a"
  have "number_at a i = number_at b i" for i
  proof (induction i rule: less_induct)
    case (less i)
    with n show ?case unfolding number_less_def by (metis linorder_neqE)
  qed
  then show "number_at a = number_at b" by blast
qed (simp add: number_less_def)

interpretation versions: comparison version_compare version_is_valid
proof (unfold_locales, goal_cases)
  case (1 x y)
  then show ?case by (simp add: version_compare_numbers)
next
  case (2 x y)
  then show ?case by (auto simp: version_compare_numbers dest: number_less_trans)
next
  case (3 x)
  then show ?case by (simp add: version_compare_numbers)
next
  case (4 x y z)
  then have "number_less (v_version x) (v_version y)" by (simp add: version_compare_numbers split: if_splits)
  moreover have "number_less (v_version y) (v_version z) \<or> number_at (v_version y) = number_at (v_version z)"
    using 4 number_eq_iff by (auto simp: version_compare_numbers split: if_splits)
  ultimately have "number_less (v_version x) (v_version z)"
    by (elim disjE) (erule (1) number_less_trans, simp add: number_less_def)
  with 4 show ?case by (simp add: version_compare_numbers)
next
  case (5 x y z)
  then have "number_at (v_version x) = number_at (v_version y)"
    using number_eq_iff by (auto simp: version_compare_numbers split: if_splits)
  then have "number_less (v_version x) = number_less (v_version y)" "number_less a (v_version x) = number_less a (v_version y)" for a
    by (auto simp: number_less_def fun_eq_iff)
  with 5 show ?case by (simp add: version_compare_numbers)
qed

lemma canonical_length:
  assumes "canonical a" "canonical b" "number_at a = number_at b"
  shows "length b \<le> length a"
proof (rule ccontr)
  assume "\<not> length b \<le> length a"
  then have "number_at a (length b - 1) = 0" and b: "b \<noteq> []" by (auto simp: number_at_def)
  moreover have "number_at b (length b - 1) = sint (last b)" using b by (cases b) (simp_all add: number_at_def last_conv_nth)
  ultimately have "sint (last b) = 0" using assms(3) by simp
  then have "last b = 0" by (simp add: signed_eq_0_iff)
  with assms(1,2) \<open>\<not> length b \<le> length a\<close> show False by (auto simp: canonical_def Suc_le_eq)
qed

lemma number_at_inject:
  assumes "canonical a" "canonical b"
  shows "number_at a = number_at b \<longleftrightarrow> a = b"
proof
  assume n: "number_at a = number_at b"
  then have l: "length a = length b" using canonical_length [OF assms n] canonical_length [OF assms(2,1)] by simp
  show "a = b"
  proof (rule nth_equalityI [OF l])
    fix i
    assume "i < length a"
    then show "a ! i = b ! i" using fun_cong [OF n, of i] l by (simp add: number_at_def signed_word_eqI)
  qed
qed simp

text \<open>
  \<open>version::compare()\<close> on valid versions: equal exactly for the same canonical numbers, smaller one way
  exactly when larger the other way, and "not larger" is transitive.
\<close>
theorem version_order:
  assumes "version_is_valid a" "version_is_valid b" "version_is_valid c"
    and "canonical (v_version a)" "canonical (v_version b)"
  shows "(version_compare a b = COMPARE_EQUAL \<longleftrightarrow> v_version a = v_version b)
    \<and> (version_compare a b = COMPARE_SMALLER \<longleftrightarrow> version_compare b a = COMPARE_LARGER)
    \<and> version_compare a b \<noteq> COMPARE_INVALID
    \<and> (version_compare a b \<noteq> COMPARE_LARGER \<longrightarrow> version_compare b c \<noteq> COMPARE_LARGER
         \<longrightarrow> version_compare a c \<noteq> COMPARE_LARGER)"
proof (intro conjI impI)
  show "version_compare a b = COMPARE_EQUAL \<longleftrightarrow> v_version a = v_version b"
    using assms number_at_inject [of "v_version a" "v_version b"] number_eq_iff [of "v_version a" "v_version b"]
    by (auto simp: version_compare_numbers)
qed (use assms versions.swap versions.ordered versions.le_trans in blast)+

theorem version_order_witness:
  "version_compare (new_version\<lparr>v_version := [1, 2]\<rparr>) (new_version\<lparr>v_version := [1, 10]\<rparr>) \<noteq> COMPARE_EQUAL"
  using version_order [of "new_version\<lparr>v_version := [1, 2]\<rparr>" "new_version\<lparr>v_version := [1, 10]\<rparr>" new_version]
  by (simp add: canonical_def version_is_valid_def new_version_def new_operator_def)

end
