(* ===== verification/Versioned_Filename.thy ===== *)
theory Versioned_Filename
  imports Snap_Version
begin

text \<open>
  \<open>snap_version.cpp\<close>, the class \<open>versioned_filename\<close>: the name of a file
  \<open>path/name_version_browser.ext\<close>, its parser, its printer, and the comparison of two of them.
  The theorems: a printed filename is read back with any path before it, a filename that is
  refused changes nothing but the error, the comparison is an order on valid filenames when the
  wildcard \<open>any\<close> is not used, and two errors of the class: one that a later success does not clear,
  one that the comparison does not look at.
\<close>

section \<open>The operations\<close>

record versioned_filename =
  vf_error :: string
  vf_extension :: string
  vf_name :: name
  vf_version :: version
  vf_browser :: name

definition new_filename :: "string \<Rightarrow> versioned_filename result" where
  "new_filename extension =
     (if extension = [] then Inl (Invalid_Parameter ''the extension of a versioned filename cannot be the empty string'')
      else Inr \<lparr>vf_error = [],
        vf_extension = (if hd extension \<noteq> CHR ''.'' then CHR ''.'' # extension else extension),
        vf_name = new_name, vf_version = new_version, vf_browser = new_name\<rparr>)"

text \<open>\<open>indexOf(c, from)\<close> of \<open>QString\<close>, \<open>mid(pos, n)\<close>, and the position after the last slash.\<close>

definition index_from :: "char \<Rightarrow> nat \<Rightarrow> string \<Rightarrow> nat option" where
  "index_from c from s = (if c \<in> set (drop from s) then Some (from + index_of c (drop from s)) else None)"

definition mid :: "nat \<Rightarrow> nat \<Rightarrow> string \<Rightarrow> string" where
  "mid pos n s = take n (drop pos s)"

definition base_start :: "string \<Rightarrow> nat" where
  "base_start s = length s - length (takeWhile (\<lambda>c. c \<noteq> CHR ''/'') (rev s))"

text \<open>The positions of the two underscores; the second one is the end of the base name when there is none.\<close>

definition split_filename :: "string \<Rightarrow> nat \<Rightarrow> (nat \<times> nat) check" where
  "split_filename filename max_length =
     (case index_from CHR ''_'' (base_start filename) filename of
        None \<Rightarrow> Inl ''a versioned filename is expected to include an underscore (_) as the name and version separator''
      | Some p1 \<Rightarrow>
          if p1 > max_length
          then Inl ''a versioned filename is expected to include an underscore (_) as the name and version separator''
          else (case index_from CHR ''_'' (p1 + 1) filename of
                  None \<Rightarrow> Inr (p1, max_length)
                | Some p2 \<Rightarrow>
                    if p2 > max_length then Inr (p1, max_length)
                    else if p2 + 1 \<ge> max_length
                    then Inl ''a browser name must be specified in a versioned filename if you include two underscores (_)''
                    else Inr (p1, p2)))"

definition set_parts :: "string \<Rightarrow> string \<Rightarrow> string \<Rightarrow> versioned_filename \<Rightarrow> (bool \<times> versioned_filename) result" where
  "set_parts nm vs browser f =
     bindE (set_version_string vs (vf_version f)) (\<lambda>(_, v).
       Inr (True, f\<lparr>vf_name := snd (set_name nm (vf_name f)), vf_version := v,
         vf_browser := (if browser = [] then name_clear (vf_browser f) else snd (set_name browser (vf_browser f)))\<rparr>))"

text \<open>The validations, in the order of the code; there is a browser when the second underscore was found.\<close>

definition check_parts ::
  "string \<Rightarrow> string \<Rightarrow> string option \<Rightarrow> versioned_filename \<Rightarrow> (bool \<times> versioned_filename) result" where
  "check_parts nm vs browser f =
     (case validate_name nm of
        Inl e \<Rightarrow> Inr (False, f\<lparr>vf_error := e\<rparr>)
      | Inr _ \<Rightarrow>
          bindE (validate_version vs) (\<lambda>r.
            case r of
              Inl e \<Rightarrow> Inr (False, f\<lparr>vf_error := e\<rparr>)
            | Inr _ \<Rightarrow>
                (case browser of
                   None \<Rightarrow> set_parts nm vs [] f
                 | Some b \<Rightarrow>
                     (case validate_basic_name b of
                        Inl e \<Rightarrow> Inr (False, f\<lparr>vf_error := e\<rparr>)
                      | Inr _ \<Rightarrow> set_parts nm vs b f))))"

definition set_filename :: "string \<Rightarrow> versioned_filename \<Rightarrow> (bool \<times> versioned_filename) result" where
  "set_filename filename f0 =
     (let f = f0\<lparr>vf_error := []\<rparr> in
      if \<not> ends_with (vf_extension f) filename
      then Inr (False, f\<lparr>vf_error := ''this filename must end with the extension in lowercase''\<rparr>)
      else
        let max_length = length filename - length (vf_extension f); start = base_start filename in
        case split_filename filename max_length of
          Inl e \<Rightarrow> Inr (False, f\<lparr>vf_error := e\<rparr>)
        | Inr (p1, p2) \<Rightarrow>
            check_parts (mid start (p1 - start) filename) (mid (p1 + 1) (p2 - (p1 + 1)) filename)
              (if p2 < max_length then Some (mid (p2 + 1) (max_length - p2 - 1) filename) else None) f)"

definition filename_set_name :: "string \<Rightarrow> versioned_filename \<Rightarrow> bool \<times> versioned_filename" where
  "filename_set_name nm f =
     (case validate_name nm of
        Inl e \<Rightarrow> (False, f\<lparr>vf_error := e\<rparr>)
      | Inr _ \<Rightarrow> (True, f\<lparr>vf_name := snd (set_name nm (vf_name f))\<rparr>))"

definition filename_set_version :: "string \<Rightarrow> versioned_filename \<Rightarrow> (bool \<times> versioned_filename) result" where
  "filename_set_version vs f =
     bindE (validate_version vs) (\<lambda>r.
       case r of
         Inl e \<Rightarrow> Inr (False, f\<lparr>vf_error := e\<rparr>)
       | Inr _ \<Rightarrow> bindE (set_version_string vs (vf_version f)) (\<lambda>(_, v). Inr (True, f\<lparr>vf_version := v\<rparr>)))"

definition filename_is_valid :: "versioned_filename \<Rightarrow> bool" where
  "filename_is_valid f \<longleftrightarrow> vf_error f = [] \<and> name_is_valid (vf_name f) \<and> version_is_valid (vf_version f)
     \<and> name_is_valid (vf_browser f)"

definition get_filename :: "bool \<Rightarrow> versioned_filename \<Rightarrow> string" where
  "get_filename extension f =
     (if \<not> filename_is_valid f then []
      else n_name (vf_name f) @ ''_'' @ get_version_string (vf_version f)
        @ (if n_name (vf_browser f) = [] then [] else CHR ''_'' # n_name (vf_browser f))
        @ (if extension then vf_extension f else []))"

definition filename_compare :: "versioned_filename \<Rightarrow> versioned_filename \<Rightarrow> compare_t" where
  "filename_compare l r =
     (if \<not> filename_is_valid l then COMPARE_INVALID
      else let c = name_compare (vf_name l) (vf_name r) in
           if c \<noteq> COMPARE_EQUAL then c
           else let c = name_compare (vf_browser l) (vf_browser r) in
                if c \<noteq> COMPARE_EQUAL then c
                else version_compare (vf_version l) (vf_version r))"

definition filename_eq :: "versioned_filename \<Rightarrow> versioned_filename \<Rightarrow> bool" where
  "filename_eq l r \<longleftrightarrow> filename_compare l r = COMPARE_EQUAL"

definition filename_ne :: "versioned_filename \<Rightarrow> versioned_filename \<Rightarrow> bool" where
  "filename_ne l r \<longleftrightarrow> filename_compare l r = COMPARE_SMALLER \<or> filename_compare l r = COMPARE_LARGER"

definition filename_less :: "versioned_filename \<Rightarrow> versioned_filename \<Rightarrow> bool" where
  "filename_less l r \<longleftrightarrow> filename_compare l r = COMPARE_SMALLER"

definition filename_le :: "versioned_filename \<Rightarrow> versioned_filename \<Rightarrow> bool" where
  "filename_le l r \<longleftrightarrow> filename_compare l r = COMPARE_SMALLER \<or> filename_compare l r = COMPARE_EQUAL"

text \<open>\<open>r > COMPARE_EQUAL\<close> and \<open>r >= COMPARE_EQUAL\<close> on the values of the enumeration.\<close>

definition filename_greater :: "versioned_filename \<Rightarrow> versioned_filename \<Rightarrow> bool" where
  "filename_greater l r \<longleftrightarrow> compare_value (filename_compare l r) > compare_value COMPARE_EQUAL"

definition filename_ge :: "versioned_filename \<Rightarrow> versioned_filename \<Rightarrow> bool" where
  "filename_ge l r \<longleftrightarrow> compare_value (filename_compare l r) \<ge> compare_value COMPARE_EQUAL"

section \<open>Positions\<close>

lemma index_from_found: "c \<notin> set b \<Longrightarrow> index_from c (length a) (a @ b @ c # r) = Some (length a + length b)"
  by (simp add: index_from_def index_of_def takeWhile_append)

lemma index_from_beyond:
  "c \<notin> set b \<Longrightarrow> index_from c (length a) (a @ b @ x # t) = Some p \<Longrightarrow> x \<noteq> c \<Longrightarrow> length a + length b < p"
  by (auto simp: index_from_def index_of_def takeWhile_append split: if_splits)

lemma base_start_append:
  assumes "CHR ''/'' \<notin> set s" "path = [] \<or> last path = CHR ''/''"
  shows "base_start (path @ s) = length path"
proof -
  have "takeWhile (\<lambda>c. c \<noteq> CHR ''/'') (rev s @ rev path) = rev s @ takeWhile (\<lambda>c. c \<noteq> CHR ''/'') (rev path)"
    using assms(1) by (intro takeWhile_append2) auto
  moreover have "takeWhile (\<lambda>c. c \<noteq> CHR ''/'') (rev path) = []"
    using assms(2) by (cases path rule: rev_cases) auto
  ultimately show ?thesis by (simp add: base_start_def)
qed

lemma mid_append: "mid (length a) (length b) (a @ b @ c) = b"
  by (simp add: mid_def)

text \<open>The cut of a printed filename, with and without a browser.\<close>

lemma split_filename_browser:
  assumes "CHR ''_'' \<notin> set nm" "CHR ''_'' \<notin> set vs" "b \<noteq> []"
    and "base_start fn = length path" "fn = path @ nm @ ''_'' @ vs @ ''_'' @ b @ ext"
    and "m = length (path @ nm @ ''_'' @ vs @ ''_'' @ b)"
  shows "split_filename fn m = Inr (length (path @ nm), length (path @ nm @ ''_'' @ vs))"
proof -
  have "index_from CHR ''_'' (length path) fn = Some (length path + length nm)"
    using index_from_found [of "CHR ''_''" nm path] assms(1,5) by simp
  moreover have "index_from CHR ''_'' (length path + length nm + 1) fn = Some (length path + length nm + 1 + length vs)"
    using index_from_found [of "CHR ''_''" vs "path @ nm @ ''_''"] assms(2,5) by simp
  moreover have "0 < length b" using assms(3) by simp
  ultimately show ?thesis using assms(4,6) by (simp add: split_filename_def)
qed

lemma split_filename_no_browser:
  assumes "CHR ''_'' \<notin> set nm" "CHR ''_'' \<notin> set vs"
    and "base_start fn = length path" "fn = path @ nm @ ''_'' @ vs @ CHR ''.'' # ext"
    and "m = length (path @ nm @ ''_'' @ vs)"
  shows "split_filename fn m = Inr (length (path @ nm), m)"
proof -
  have "index_from CHR ''_'' (length path) fn = Some (length path + length nm)"
    using index_from_found [of "CHR ''_''" nm path] assms(1,4) by simp
  moreover have "m < p2" if "index_from CHR ''_'' (length path + length nm + 1) fn = Some p2" for p2
    using index_from_beyond [of "CHR ''_''" vs "path @ nm @ ''_''" "CHR ''.''" ext p2] assms(2,4,5) that by simp
  ultimately show ?thesis using assms(3,5) by (auto simp: split_filename_def split: option.splits)
qed

section \<open>Printed filenames are read back\<close>

text \<open>The values that \<open>get_filename()\<close> prints in full.\<close>

definition wf_filename :: "versioned_filename \<Rightarrow> bool" where
  "wf_filename f \<longleftrightarrow> filename_is_valid f \<and> validate_basic_name (n_name (vf_name f)) = Inr ()
     \<and> (n_name (vf_browser f) = [] \<or> validate_basic_name (n_name (vf_browser f)) = Inr ())
     \<and> canonical (v_version (vf_version f)) \<and> printable (v_version (vf_version f))
     \<and> vf_extension f \<noteq> [] \<and> hd (vf_extension f) = CHR ''.'' \<and> CHR ''/'' \<notin> set (vf_extension f)"

lemma dotted_chars: "c \<in> set (dotted ps) \<Longrightarrow> c = CHR ''.'' \<or> (\<exists>p \<in> set ps. c \<in> set p)"
  by (induction ps rule: dotted.induct) auto

lemma version_string_chars:
  assumes "printable (v_version v)" "c \<in> set (get_version_string v)"
  shows "c = CHR ''.'' \<or> is_digit c"
proof -
  have "map (\<lambda>w. show_int (sint w)) (v_version v) = map (\<lambda>w. show_nat (unat w)) (v_version v)"
    using assms(1) by (auto simp: printable_def list_all_iff show_sint)
  with dotted_chars [of c "map (\<lambda>w. show_nat (unat w)) (v_version v)"] assms(2) show_nat_digits
  show ?thesis by (auto simp: get_version_string_def)
qed

lemma version_string_specials:
  assumes "printable (v_version v)"
  shows "CHR ''_'' \<notin> set (get_version_string v)" "CHR ''/'' \<notin> set (get_version_string v)"
  using version_string_chars [OF assms] by (force simp: is_digit_def)+

lemma basic_name_specials:
  assumes "validate_basic_name s = Inr u"
  shows "CHR ''_'' \<notin> set s" "CHR ''/'' \<notin> set s"
  by (rule basic_name_no_char [OF assms]; simp add: is_digit_def is_lower_def)+

lemma ends_with_append3: "ends_with e (a @ b @ c @ d @ x @ y @ e)"
  using ends_with_append [of e "a @ b @ c @ d @ x @ y"] by simp

text \<open>What the parser keeps of a printed filename.\<close>

definition same_filename :: "versioned_filename \<Rightarrow> versioned_filename \<Rightarrow> bool" where
  "same_filename f g \<longleftrightarrow> n_name (vf_name f) = n_name (vf_name g) \<and> n_name (vf_browser f) = n_name (vf_browser g)
     \<and> v_version (vf_version f) = v_version (vf_version g) \<and> vf_extension f = vf_extension g"

lemma set_parts_same:
  assumes "wf_filename f" "vf_extension g = vf_extension f"
  shows "\<exists>h. set_parts (n_name (vf_name f)) (get_version_string (vf_version f)) (n_name (vf_browser f)) g = Inr (True, h)
    \<and> same_filename h f"
proof -
  have "validate_version (get_version_string (vf_version f)) = Inr (Inr (v_version (vf_version f)))"
    and "validate_name (n_name (vf_name f)) = Inr ([], n_name (vf_name f))"
    and "n_name (vf_browser f) \<noteq> [] \<Longrightarrow> validate_name (n_name (vf_browser f)) = Inr ([], n_name (vf_browser f))"
    using assms(1) version_string_read validate_name_basic by (auto simp: wf_filename_def)
  with assms show ?thesis
    by (auto simp: set_parts_def set_version_string_def set_version_def set_name_def name_clear_def same_filename_def
        wf_filename_def canonicalize_id)
qed

lemma filename_read_browser:
  assumes f: "wf_filename f" and g: "vf_extension g = vf_extension f"
    and path: "path = [] \<or> last path = CHR ''/''" and b: "n_name (vf_browser f) \<noteq> []"
  shows "\<exists>h. set_filename (path @ get_filename True f) g = Inr (True, h) \<and> same_filename h f"
proof -
  define nm vs br where "nm = n_name (vf_name f)" and "vs = get_version_string (vf_version f)"
    and "br = n_name (vf_browser f)"
  define fn where "fn = path @ nm @ ''_'' @ vs @ ''_'' @ br @ vf_extension f"
  define m where "m = length (path @ nm @ ''_'' @ vs @ ''_'' @ br)"
  note d = nm_def vs_def br_def
  have v: "validate_basic_name nm = Inr ()" "validate_basic_name br = Inr ()" "printable (v_version (vf_version f))"
    "CHR ''/'' \<notin> set (vf_extension f)" "br \<noteq> []" "validate_version vs = Inr (Inr (v_version (vf_version f)))"
    using f b version_string_read by (auto simp: wf_filename_def d)
  have start: "base_start fn = length path" unfolding fn_def
    by (rule base_start_append [OF _ path]) (use v basic_name_specials version_string_specials in \<open>auto simp: d\<close>)
  have cut: "split_filename fn m = Inr (length (path @ nm), length (path @ nm @ ''_'' @ vs))"
    by (rule split_filename_browser [OF _ _ \<open>br \<noteq> []\<close> start fn_def m_def])
      (use v basic_name_specials version_string_specials in \<open>auto simp: d\<close>)
  have parts: "mid (length path) (length nm) fn = nm" "mid (Suc (length path + length nm)) (length vs) fn = vs"
    "mid (Suc (Suc (length path + (length nm + length vs)))) (length br) fn = br"
    using mid_append [of path nm] mid_append [of "path @ nm @ ''_''" vs] mid_append [of "path @ nm @ ''_'' @ vs @ ''_''" br]
    by (simp_all add: fn_def)
  have "ends_with (vf_extension f) fn" using ends_with_append3 [of "vf_extension f" path nm "''_''" vs "''_''" br] by (simp add: fn_def)
  moreover have "length fn - length (vf_extension f) = m" by (simp add: fn_def m_def)
  ultimately have "set_filename fn g = set_parts nm vs br (g\<lparr>vf_error := []\<rparr>)"
    using cut parts start v g by (simp add: set_filename_def check_parts_def Let_def validate_name_basic) (simp add: m_def)
  moreover have "path @ get_filename True f = fn" using f b by (simp add: get_filename_def wf_filename_def fn_def d)
  ultimately show ?thesis using set_parts_same [OF f, of "g\<lparr>vf_error := []\<rparr>"] g by (simp add: d)
qed

lemma filename_read_no_browser:
  assumes f: "wf_filename f" and g: "vf_extension g = vf_extension f"
    and path: "path = [] \<or> last path = CHR ''/''" and b: "n_name (vf_browser f) = []"
  shows "\<exists>h. set_filename (path @ get_filename True f) g = Inr (True, h) \<and> same_filename h f"
proof -
  define nm vs where "nm = n_name (vf_name f)" and "vs = get_version_string (vf_version f)"
  obtain ext where ext: "vf_extension f = CHR ''.'' # ext"
    using f by (cases "vf_extension f") (auto simp: wf_filename_def)
  define fn where "fn = path @ nm @ ''_'' @ vs @ CHR ''.'' # ext"
  define m where "m = length (path @ nm @ ''_'' @ vs)"
  note d = nm_def vs_def
  have v: "validate_basic_name nm = Inr ()" "printable (v_version (vf_version f))"
    "CHR ''/'' \<notin> set ext" "validate_version vs = Inr (Inr (v_version (vf_version f)))"
    using f version_string_read by (auto simp: wf_filename_def d ext)
  have start: "base_start fn = length path" unfolding fn_def
    by (rule base_start_append [OF _ path]) (use v basic_name_specials version_string_specials in \<open>auto simp: d\<close>)
  have cut: "split_filename fn m = Inr (length (path @ nm), m)"
    by (rule split_filename_no_browser [OF _ _ start fn_def m_def])
      (use v basic_name_specials version_string_specials in \<open>auto simp: d\<close>)
  have parts: "mid (length path) (length nm) fn = nm" "mid (Suc (length path + length nm)) (length vs) fn = vs"
    using mid_append [of path nm] mid_append [of "path @ nm @ ''_''" vs] by (simp_all add: fn_def)
  have "ends_with (CHR ''.'' # ext) fn" using ends_with_append3 [of "CHR ''.'' # ext" path nm "''_''" vs "[]" "[]"] by (simp add: fn_def)
  then have "set_filename fn g = set_parts nm vs [] (g\<lparr>vf_error := []\<rparr>)"
    using cut parts start v g ext by (simp add: set_filename_def check_parts_def Let_def validate_name_basic m_def fn_def)
  moreover have "path @ get_filename True f = fn" using f b by (simp add: get_filename_def wf_filename_def fn_def d ext)
  ultimately show ?thesis using set_parts_same [OF f, of "g\<lparr>vf_error := []\<rparr>"] g b by (simp add: d)
qed

text \<open>
  \<open>set_filename()\<close> reads back what \<open>get_filename(true)\<close> prints, with any directory before it and into
  any object of the same extension: it succeeds with the same name, version and browser.
\<close>
theorem filename_roundtrip:
  assumes "wf_filename f" "vf_extension g = vf_extension f" "path = [] \<or> last path = CHR ''/''"
  shows "\<exists>h. set_filename (path @ get_filename True f) g = Inr (True, h) \<and> same_filename h f"
  using filename_read_browser [OF assms] filename_read_no_browser [OF assms] by blast

definition sample_filename :: versioned_filename where
  "sample_filename = \<lparr>vf_error = [], vf_extension = ''.js'', vf_name = new_name\<lparr>n_name := ''jquery''\<rparr>,
     vf_version = new_version\<lparr>v_version := [1, 11]\<rparr>, vf_browser = new_name\<lparr>n_name := ''ie''\<rparr>\<rparr>"

theorem filename_roundtrip_witness:
  "\<exists>h. set_filename (''/usr/share/'' @ get_filename True sample_filename) sample_filename = Inr (True, h)
     \<and> same_filename h sample_filename"
  by (rule filename_roundtrip) (simp_all add: wf_filename_def sample_filename_def filename_is_valid_def name_is_valid_def
    version_is_valid_def new_version_def new_operator_def new_name_def canonical_def printable_def
    validate_basic_name_def is_lower_def is_digit_def)

section \<open>Success and refusal\<close>

lemma set_parts_valid:
  assumes "validate_name nm = Inr n" "validate_version vs = Inr (Inr v)" "br = [] \<or> validate_name br = Inr b"
    and "vf_error f = []" "vo_error (v_operator (vf_version f)) = []"
  shows "\<exists>g. set_parts nm vs br f = Inr (True, g) \<and> filename_is_valid g"
  using assms
  by (cases n; cases b) (auto simp: set_parts_def set_version_string_def set_version_def set_name_def name_clear_def
    filename_is_valid_def name_is_valid_def version_is_valid_def)

lemma split_filename_error: "split_filename fn m = Inl e \<Longrightarrow> e \<noteq> []"
  by (auto simp: split_filename_def split: option.splits if_splits)

text \<open>The two outcomes: a valid object, or the old one with an error.\<close>

definition outcome :: "versioned_filename \<Rightarrow> (bool \<times> versioned_filename) result \<Rightarrow> bool" where
  "outcome f r \<longleftrightarrow> (\<exists>b g. r = Inr (b, g) \<and>
     (if b then filename_is_valid g else vf_error g \<noteq> [] \<and> g = f\<lparr>vf_error := vf_error g\<rparr>))"

lemma outcome_refused: "e \<noteq> [] \<Longrightarrow> outcome f (Inr (False, f\<lparr>vf_error := e\<rparr>))"
  by (auto simp: outcome_def)

lemma outcome_error: "outcome (f\<lparr>vf_error := e\<rparr>) r \<longleftrightarrow> outcome f r"
  by (simp add: outcome_def)

lemma outcome_parts:
  assumes "vf_error f = []" "vo_error (v_operator (vf_version f)) = []"
  shows "outcome f (check_parts nm vs br f)"
proof (cases "validate_name nm")
  case (Inl e)
  then show ?thesis by (auto simp: check_parts_def intro!: outcome_refused dest: validate_name_error)
next
  case nm: (Inr n)
  obtain r where r: "validate_version vs = Inr r" "\<And>e. r = Inl e \<Longrightarrow> e \<noteq> []"
    using validate_version_parts [of vs] by (auto split: if_splits)
  show ?thesis
  proof (cases r)
    case (Inl e)
    with nm r show ?thesis by (auto simp: check_parts_def intro!: outcome_refused)
  next
    case v: (Inr v)
    have set: "outcome f (set_parts nm vs b f)" if "b = [] \<or> validate_name b = Inr c" for b c
      using set_parts_valid [OF nm _ that assms, of vs v] r v by (auto simp: outcome_def)
    show ?thesis
    proof (cases br)
      case None
      with nm r v set [of "[]"] show ?thesis by (simp add: check_parts_def)
    next
      case (Some b)
      with nm r v set [of b] show ?thesis
        by (cases "validate_basic_name b")
          (auto simp: check_parts_def validate_name_basic intro!: outcome_refused dest: validate_basic_name_error)
    qed
  qed
qed

text \<open>
  \<open>set_filename()\<close> always returns.  When it returns true the object is valid; when it returns false
  it set an error and the name, the version, the browser and the extension are as before.
\<close>
theorem set_filename_contract:
  assumes "vo_error (v_operator (vf_version f)) = []"
  shows "\<exists>b g. set_filename fn f = Inr (b, g) \<and>
    (if b then filename_is_valid g else vf_error g \<noteq> [] \<and> g = f\<lparr>vf_error := vf_error g\<rparr>)"
proof -
  let ?f = "f\<lparr>vf_error := []\<rparr>"
  have parts: "outcome ?f (check_parts nm vs br ?f)" for nm vs br using outcome_parts [of ?f] assms by simp
  have refused: "outcome ?f (Inr (False, ?f\<lparr>vf_error := e\<rparr>))" if "e \<noteq> []" for e using outcome_refused [OF that, of ?f] .
  have "outcome ?f (set_filename fn f)"
  proof (cases "split_filename fn (length fn - length (vf_extension f))")
    case (Inl e)
    then show ?thesis using refused split_filename_error [OF Inl] by (simp add: set_filename_def Let_def del: versioned_filename.update_convs)
  next
    case (Inr p)
    then show ?thesis using refused parts by (cases p) (simp add: set_filename_def Let_def)
  qed
  then have "outcome f (set_filename fn f)" by (simp only: outcome_error)
  then show ?thesis by (simp only: outcome_def)
qed

theorem set_filename_contract_witness:
  "\<exists>b g. set_filename ''jquery.js'' sample_filename = Inr (b, g) \<and>
    (if b then filename_is_valid g else vf_error g \<noteq> [] \<and> g = sample_filename\<lparr>vf_error := vf_error g\<rparr>)"
  by (rule set_filename_contract) (simp add: sample_filename_def new_version_def new_operator_def)

section \<open>Errors that stay and errors that are not seen\<close>

text \<open>
  \<open>versioned_filename::set_version()\<close> with a valid version returns true but keeps an earlier error, so
  that the object is still not valid and has no filename: \<open>validate_version()\<close> does not clear the error.
\<close>
theorem version_error_stays:
  assumes "vf_error f \<noteq> []" "version_parts_ok vs"
  shows "\<exists>g. filename_set_version vs f = Inr (True, g) \<and> \<not> filename_is_valid g \<and> get_filename ext g = []"
proof -
  obtain v where "validate_version vs = Inr (Inr v)" using validate_version_parts [of vs] assms(2) by auto
  with assms(1) show ?thesis
    by (simp add: filename_set_version_def set_version_string_def filename_is_valid_def get_filename_def)
qed

theorem version_error_stays_witness:
  "\<exists>g. filename_set_version ''1.2'' (sample_filename\<lparr>vf_error := ''expected''\<rparr>) = Inr (True, g)
     \<and> \<not> filename_is_valid g \<and> get_filename True g = []"
  by (rule version_error_stays) (simp_all add: version_parts_ok_def part_ok_def is_digit_def)

text \<open>
  \<open>versioned_filename::compare()\<close> looks at the error of the left filename only: a valid filename and a copy of it
  with an error compare equal one way and are unordered the other way.
\<close>
theorem compare_misses_error:
  assumes "filename_is_valid f" "e \<noteq> []"
  shows "filename_compare f (f\<lparr>vf_error := e\<rparr>) = COMPARE_EQUAL
    \<and> filename_compare (f\<lparr>vf_error := e\<rparr>) f = COMPARE_INVALID"
  using assms versions.refl [of "vf_version f"]
  by (simp add: filename_compare_def name_compare_def filename_is_valid_def Let_def)

theorem compare_misses_error_witness:
  "filename_compare sample_filename (sample_filename\<lparr>vf_error := ''refused''\<rparr>) = COMPARE_EQUAL
    \<and> filename_compare (sample_filename\<lparr>vf_error := ''refused''\<rparr>) sample_filename = COMPARE_INVALID"
  by (rule compare_misses_error) (simp_all add: sample_filename_def filename_is_valid_def name_is_valid_def
    version_is_valid_def new_version_def new_operator_def new_name_def)

section \<open>The order of the filenames\<close>

text \<open>\<open>any\<close> is equal to every name, so names are ordered without it.\<close>

definition ordered_name :: "name \<Rightarrow> bool" where
  "ordered_name n \<longleftrightarrow> name_is_valid n \<and> n_name n \<noteq> ''any''"

interpretation names: comparison name_compare ordered_name
  by unfold_locales (auto simp: name_compare_def ordered_name_def split: if_splits)

text \<open>Two comparisons, the second one for the values that are equal for the first one.\<close>

lemma comparison_lex:
  assumes "comparison f v" "comparison g w"
  shows "comparison (\<lambda>x y. if f (p x) (p y) \<noteq> COMPARE_EQUAL then f (p x) (p y) else g (q x) (q y)) (\<lambda>x. v (p x) \<and> w (q x))"
proof -
  note F = comparison.ordered [OF assms(1)] comparison.swap [OF assms(1)] comparison.refl [OF assms(1)]
    comparison.less_trans [OF assms(1)] comparison.equal_trans [OF assms(1)] comparison.equal_sym [OF assms(1)]
  note G = comparison.ordered [OF assms(2)] comparison.swap [OF assms(2)] comparison.refl [OF assms(2)]
    comparison.less_trans [OF assms(2)] comparison.equal_trans [OF assms(2)]
  show ?thesis
  proof (unfold_locales, goal_cases)
    case (1 x y)
    then show ?case using F(1) G(1) by simp
  next
    case (2 x y)
    then show ?case
      using F(1) [of "p x" "p y"] F(2) [of "p x" "p y"] F(2) [of "p y" "p x"] F(6) [of "p x" "p y"] G(2) [of "q x" "q y"]
      by (cases "f (p x) (p y)") simp_all
  next
    case (3 x)
    then show ?case using F(3) G(3) by simp
  next
    case (4 x y z)
    then show ?case
      using F(1) [of "p y" "p z"] F(4,5) [of "p x" "p y" "p z"] G(4) [of "q x" "q y" "q z"]
      by (cases "f (p x) (p y)"; cases "f (p y) (p z)") simp_all
  next
    case (5 x y z)
    then show ?case using F(5) [of "p x" "p y" "p z"] G(5) [of "q x" "q y" "q z"] by (simp split: if_splits)
  qed
qed

lemma comparison_cong:
  assumes "comparison f v" "\<And>x y. w x \<Longrightarrow> w y \<Longrightarrow> g x y = f x y" "\<And>x. w x \<Longrightarrow> v x"
  shows "comparison g w"
proof -
  note F = comparison.ordered [OF assms(1)] comparison.swap [OF assms(1)] comparison.refl [OF assms(1)]
    comparison.less_trans [OF assms(1)] comparison.equal_trans [OF assms(1)]
  show ?thesis
  proof (unfold_locales, goal_cases)
    case (2 x y)
    then show ?case using F(2) [of x y] by (simp add: assms(2,3))
  next
    case (4 x y z)
    then show ?case using F(4) [of x y z] by (simp add: assms(2,3))
  next
    case (5 x y z)
    then show ?case using F(5) [of x y z] by (simp add: assms(2,3))
  qed (simp_all add: assms(2,3) F(1,3))
qed

definition ordered_filename :: "versioned_filename \<Rightarrow> bool" where
  "ordered_filename f \<longleftrightarrow> filename_is_valid f \<and> ordered_name (vf_name f) \<and> ordered_name (vf_browser f)"

interpretation filenames: comparison filename_compare ordered_filename
proof -
  have b: "comparison (\<lambda>x y. if name_compare (vf_browser x) (vf_browser y) \<noteq> COMPARE_EQUAL
      then name_compare (vf_browser x) (vf_browser y) else version_compare (vf_version x) (vf_version y))
      (\<lambda>x. ordered_name (vf_browser x) \<and> version_is_valid (vf_version x))"
    by (rule comparison_lex [OF names.comparison_axioms versions.comparison_axioms])
  show "comparison filename_compare ordered_filename"
    by (rule comparison_cong [OF comparison_lex [OF names.comparison_axioms b, of vf_name "\<lambda>x. x"]])
      (auto simp: filename_compare_def ordered_filename_def Let_def filename_is_valid_def)
qed

text \<open>
  The six operators of valid filenames, none of which has the name or the browser \<open>any\<close>, are those of a total order:
  one of \<open><\<close>, \<open>==\<close> and \<open>>\<close> holds, \<open>!=\<close>, \<open><=\<close> and \<open>>=\<close> are the
  complements of \<open>==\<close>, \<open>>\<close> and \<open><\<close>, and \<open><=\<close> is transitive.
\<close>
theorem filename_order:
  assumes "ordered_filename a" "ordered_filename b" "ordered_filename c"
  shows "(filename_less a b \<longleftrightarrow> filename_greater b a)
    \<and> (filename_less a b \<or> filename_eq a b \<or> filename_greater a b)
    \<and> (filename_ne a b \<longleftrightarrow> \<not> filename_eq a b)
    \<and> (filename_le a b \<longleftrightarrow> \<not> filename_greater a b)
    \<and> (filename_ge a b \<longleftrightarrow> \<not> filename_less a b)
    \<and> (filename_le a b \<longrightarrow> filename_le b c \<longrightarrow> filename_le a c)"
proof -
  have g: "filename_greater x y \<longleftrightarrow> filename_compare x y = COMPARE_LARGER" for x y
    by (cases "filename_compare x y") (simp_all add: filename_greater_def)
  have ge: "filename_ge x y \<longleftrightarrow> filename_compare x y = COMPARE_LARGER \<or> filename_compare x y = COMPARE_EQUAL" for x y
    by (cases "filename_compare x y") (simp_all add: filename_ge_def)
  have le: "filename_le x y \<longleftrightarrow> filename_compare x y \<noteq> COMPARE_LARGER" if "ordered_filename x" "ordered_filename y" for x y
    using filenames.ordered [OF that] by (cases "filename_compare x y") (simp_all add: filename_le_def)
  show ?thesis
  proof (intro conjI impI)
    show "filename_less a b \<longleftrightarrow> filename_greater b a" using filenames.swap assms by (simp add: filename_less_def g)
    show "filename_le a c" if "filename_le a b" "filename_le b c"
      using filenames.le_trans [OF assms] that assms by (simp add: le)
  qed (use filenames.ordered [OF assms(1,2)] in \<open>cases "filename_compare a b"; simp add: filename_less_def filename_eq_def
      filename_ne_def filename_le_def g ge\<close>)+
qed

theorem filename_order_witness:
  "filename_less sample_filename sample_filename \<longleftrightarrow> filename_greater sample_filename sample_filename"
  using filename_order [of sample_filename sample_filename sample_filename]
  by (simp add: ordered_filename_def ordered_name_def sample_filename_def filename_is_valid_def name_is_valid_def
    version_is_valid_def new_version_def new_operator_def new_name_def)

end
