(* ===== verification/Snap_Dependency.thy ===== *)
theory Snap_Dependency
  imports Versioned_Filename
begin

text \<open>
  \<open>snap_version.cpp\<close>, the class \<open>dependency\<close>: a name, a list of versions with operators and a
  list of browsers, \<open>name (>= 1.0, < 2.0) [ie, firefox]\<close>.  A dependency object is not cleared
  when it is set again, and what was read before an error stays in it, so the lists are threaded through
  the loops.  The text of a version is read as a C string, which ends at the first NUL.
  The theorems: a printed dependency is read back, a range stands for its two bounds, and a range
  of one version is refused.
\<close>

section \<open>The operations\<close>

record dependency =
  d_error :: string
  d_name :: name
  d_versions :: "version list"
  d_browsers :: "name list"

definition new_dependency :: dependency where
  "new_dependency = \<lparr>d_error = [], d_name = new_name, d_versions = [], d_browsers = []\<rparr>"

text \<open>The characters of a version, and the operator before the next digit.\<close>

definition version_char :: "char \<Rightarrow> bool" where
  "version_char c \<longleftrightarrow> is_digit c \<or> c = CHR ''.''"

definition operator_text :: "string \<Rightarrow> string" where
  "operator_text s = trimmed (takeWhile (\<lambda>c. \<not> is_digit c) s)"

definition after_operator :: "string \<Rightarrow> string" where
  "after_operator s = dropWhile is_space (dropWhile (\<lambda>c. \<not> is_digit c) s)"

text \<open>
  The second switch on the operator of a range: the versions to add, in the order of the code, and
  whether they are in the right order.
\<close>

definition with_operator :: "operator_t \<Rightarrow> version_operator \<Rightarrow> version \<Rightarrow> version" where
  "with_operator op vo v = version_set_operator (set_operator op vo) v"

definition add_range :: "version_operator \<Rightarrow> version \<Rightarrow> version \<Rightarrow> (version list \<times> string) result" where
  "add_range vo v rhs =
     (case vo_operator vo of
        OPERATOR_EARLIER \<Rightarrow>
          (let l = with_operator OPERATOR_LATER vo v; r = with_operator OPERATOR_EARLIER vo rhs in
           Inr ([l, r], if compare_value (version_compare l r) \<ge> compare_value COMPARE_EQUAL
             then ''versions are not in the correct order in range'' else []))
      | OPERATOR_EARLIER_OR_EQUAL \<Rightarrow>
          (let l = with_operator OPERATOR_LATER_OR_EQUAL vo v; r = with_operator OPERATOR_EARLIER_OR_EQUAL vo rhs in
           Inr ([l, r], if compare_value (version_compare l r) \<ge> compare_value COMPARE_EQUAL
             then ''versions are not in the correct order in range'' else []))
      | OPERATOR_LATER \<Rightarrow>
          (let r = with_operator OPERATOR_LATER vo rhs; l = with_operator OPERATOR_EARLIER vo v in
           Inr ([r, l], if compare_value (version_compare l r) \<le> compare_value COMPARE_EQUAL
             then ''versions are not in the correct order in range'' else []))
      | OPERATOR_LATER_OR_EQUAL \<Rightarrow>
          (let r = with_operator OPERATOR_LATER_OR_EQUAL vo rhs; l = with_operator OPERATOR_EARLIER_OR_EQUAL vo v in
           Inr ([r, l], if compare_value (version_compare l r) \<le> compare_value COMPARE_EQUAL
             then ''versions are not in the correct order in range'' else []))
      | _ \<Rightarrow> Inl (Logic_Error ''unexpected operators in this second switch(range_op) statement''))"

text \<open>
  What follows a version \<open>v\<close> when it is not the end of the entry: an operator and a second version.  The
  result is the versions to add and an error, empty when there is none.
\<close>

definition read_range :: "version_operator \<Rightarrow> version \<Rightarrow> string \<Rightarrow> (version list \<times> string) result" where
  "read_range vo v s =
     (if vo_operator vo \<noteq> OPERATOR_UNORDERED
      then Inr ([], ''a version specification in a dependency can only include one operator'')
      else case set_operator_string (operator_text s) vo of
             (False, vo1) \<Rightarrow> Inr ([], vo_error vo1)
           | (True, vo1) \<Rightarrow>
               if vo_operator vo1 \<in> {OPERATOR_UNORDERED, OPERATOR_EQUAL, OPERATOR_EXCEPT}
               then Inr ([], ''unsupported operator for a range'')
               else
                 let s1 = after_operator s in
                 if dropWhile version_char s1 \<noteq> []
                 then Inr ([], ''a version range can have two versions separated by an operator'')
                 else bindE (set_version_string (takeWhile version_char s1) new_version) (\<lambda>(ok, rhs).
                        if \<not> ok then Inr ([], v_error rhs) else add_range vo1 v rhs))"

text \<open>A version, after the operator in front of it was read.\<close>

definition read_version :: "version_operator \<Rightarrow> string \<Rightarrow> (version list \<times> string) result" where
  "read_version vo s =
     bindE (set_version_string (takeWhile version_char s) new_version) (\<lambda>(ok, v).
       if \<not> ok then Inr ([], v_error v)
       else
         let s1 = dropWhile is_space (dropWhile version_char s) in
         if s1 \<noteq> [] then read_range vo v s1
         else
           let vo1 = (if vo_operator vo = OPERATOR_UNORDERED then set_operator OPERATOR_LATER_OR_EQUAL vo else vo)
           in Inr ([version_set_operator vo1 v], []))"

text \<open>One entry of the list of versions.\<close>

definition read_entry :: "string \<Rightarrow> (version list \<times> string) result" where
  "read_entry vonly =
     (let s = takeWhile (\<lambda>c. c \<noteq> CHR 0x00) vonly in
      if takeWhile version_char s = [] then
        (case set_operator_string (operator_text s) new_operator of
           (False, vo) \<Rightarrow> Inr ([], vo_error vo)
         | (True, vo) \<Rightarrow> read_version vo (after_operator s))
      else read_version new_operator s)"

text \<open>The loop over the entries: the versions read so far and an error, empty when there is none.\<close>

fun read_entries :: "string list \<Rightarrow> version list \<Rightarrow> (version list \<times> string) result" where
  "read_entries [] acc = Inr (acc, [])"
| "read_entries (e # es) acc =
     (let vonly = trimmed e in
      if vonly = [] then read_entries es acc
      else bindE (read_entry vonly) (\<lambda>(vs, err).
             if err \<noteq> [] then Inr (acc @ vs, err) else read_entries es (acc @ vs)))"

fun read_browsers :: "string list \<Rightarrow> name list \<Rightarrow> name list \<times> string" where
  "read_browsers [] acc = (acc, [])"
| "read_browsers (e # es) acc =
     (let bn = trimmed e in
      if bn = [] then read_browsers es acc
      else case validate_name bn of
             Inl err \<Rightarrow> (acc, err)
           | Inr _ \<Rightarrow> read_browsers es (acc @ [snd (set_name bn new_name)]))"

definition skip_spaces :: "string \<Rightarrow> nat \<Rightarrow> nat" where
  "skip_spaces d pos = pos + length (takeWhile is_space (drop pos d))"

text \<open>The list of versions at \<open>pos\<close>, if there is one: the new position, and the object; an error ends the call.\<close>

definition dep_versions :: "string \<Rightarrow> nat \<Rightarrow> dependency \<Rightarrow> (nat \<times> dependency) result" where
  "dep_versions d pos dep =
     (if pos < length d \<and> d ! pos = CHR ''('' then
        (case index_from CHR '')'' (pos + 1) d of
           None \<Rightarrow> Inr (pos, dep\<lparr>d_error := ''version dependency syntax error, ) not found''\<rparr>)
         | Some end_pos \<Rightarrow>
             bindE (read_entries (split_skip CHR '','' (mid (pos + 1) (end_pos - (pos + 1)) d)) (d_versions dep)) (\<lambda>(vs, err).
               Inr (skip_spaces d (end_pos + 1), dep\<lparr>d_versions := vs, d_error := err\<rparr>)))
      else Inr (pos, dep))"

text \<open>The list of browsers; its end is the first bracket of the whole text.\<close>

definition dep_browsers :: "string \<Rightarrow> nat \<Rightarrow> dependency \<Rightarrow> nat \<times> dependency" where
  "dep_browsers d pos dep =
     (if pos < length d \<and> d ! pos = CHR ''['' then
        (case index_from CHR '']'' 0 d of
           None \<Rightarrow> (pos, dep\<lparr>d_error := ''Invalid browser dependency list, the list of browsers must end with a ]''\<rparr>)
         | Some end_pos \<Rightarrow>
             let text = (if end_pos < pos + 1 then drop (pos + 1) d else mid (pos + 1) (end_pos - (pos + 1)) d);
                 (bs, err) = read_browsers (split_skip CHR '','' text) (d_browsers dep)
             in (skip_spaces d (end_pos + 1), dep\<lparr>d_browsers := bs, d_error := err\<rparr>))
      else (pos, dep))"

definition name_end :: "string \<Rightarrow> nat" where
  "name_end d = min (index_of CHR '' '' d) (min (index_of CHR ''('' d) (index_of CHR ''['' d))"

definition set_dependency :: "string \<Rightarrow> dependency \<Rightarrow> (bool \<times> dependency) result" where
  "set_dependency dependency_string dep0 =
     (let dep = dep0\<lparr>d_error := []\<rparr>; d = simplified dependency_string in
      if index_of CHR ''('' d \<noteq> length d \<and> index_of CHR ''('' d > index_of CHR ''['' d
      then Inr (False, dep\<lparr>d_error := ''version dependency syntax error, [ found before (''\<rparr>)
      else
        let dep_name = take (name_end d) d in
        case validate_name dep_name of
          Inl e \<Rightarrow> Inr (False, dep\<lparr>d_error := e\<rparr>)
        | Inr _ \<Rightarrow>
            bindE (dep_versions d (skip_spaces d (name_end d)) (dep\<lparr>d_name := snd (set_name dep_name (d_name dep))\<rparr>)) (\<lambda>(pos, dep1).
              if d_error dep1 \<noteq> [] then Inr (False, dep1)
              else
                let (pos1, dep2) = dep_browsers d pos dep1 in
                if d_error dep2 \<noteq> [] then Inr (False, dep2)
                else if pos1 \<noteq> length d
                then Inr (False, dep2\<lparr>d_error := ''left over data at the end of the dependency string''\<rparr>)
                else Inr (True, dep2)))"

text \<open>The lists of the canonical text, and the text.\<close>

fun commas :: "string list \<Rightarrow> string" where
  "commas [] = []"
| "commas [x] = x"
| "commas (x # xs) = x @ '', '' @ commas xs"

definition get_dependency_string :: "dependency \<Rightarrow> string" where
  "get_dependency_string d =
     (if n_namespace (d_name d) = [] then [] else n_namespace (d_name d) @ ''::'')
     @ n_name (d_name d)
     @ (if d_versions d = [] then [] else '' ('' @ commas (map get_opversion_string (d_versions d)) @ '')'')
     @ (if d_browsers d = [] then [] else '' ['' @ commas (map n_name (d_browsers d)) @ '']'')"

definition dependency_is_valid :: "dependency \<Rightarrow> bool" where
  "dependency_is_valid d \<longleftrightarrow> d_error d = [] \<and> name_is_valid (d_name d)
     \<and> list_all version_is_valid (d_versions d) \<and> list_all name_is_valid (d_browsers d)"

section \<open>One entry of each list\<close>

text \<open>The versions of a list that is read back: valid, with an operator, and numbers that print without a sign.\<close>

definition wf_entry :: "version \<Rightarrow> bool" where
  "wf_entry v \<longleftrightarrow> v_error v = [] \<and> vo_error (v_operator v) = [] \<and> vo_operator (v_operator v) \<noteq> OPERATOR_UNORDERED
     \<and> canonical (v_version v) \<and> printable (v_version v)"

definition op_char :: "char \<Rightarrow> bool" where
  "op_char c \<longleftrightarrow> c \<in> set ''<>=!''"

lemma operator_string_chars: "c \<in> set (get_operator_string op) \<Longrightarrow> op_char c"
  by (cases op) (auto simp: op_char_def)

lemma operator_string_not_Nil: "op \<noteq> OPERATOR_UNORDERED \<Longrightarrow> get_operator_string op \<noteq> []"
  by (cases op) auto

lemma op_char_classes: "op_char c \<Longrightarrow> \<not> is_digit c \<and> \<not> is_space c \<and> c \<noteq> CHR ''.'' \<and> c \<noteq> CHR 0x00 \<and> c \<notin> set '',()[]:''"
  by (auto simp: op_char_def is_digit_def is_space_def)

lemma version_char_classes: "version_char c \<Longrightarrow> \<not> is_space c \<and> c \<noteq> CHR 0x00 \<and> c \<notin> set '',()[]:''"
  by (auto simp: version_char_def is_digit_of_char is_space_def char_le_of_char)

lemma set_operator_string_print:
  "op \<noteq> OPERATOR_UNORDERED \<Longrightarrow>
     set_operator_string (get_operator_string op) new_operator = (True, \<lparr>vo_operator = op, vo_error = []\<rparr>)"
  by (cases op) (auto simp: set_operator_string_def validate_operator_def set_operator_def new_operator_def)

lemma version_string_version_chars: "printable (v_version v) \<Longrightarrow> \<forall>c \<in> set (get_version_string v). version_char c"
  using version_string_chars by (auto simp: version_char_def)

lemma version_string_hd:
  assumes "canonical (v_version v)" "printable (v_version v)"
  shows "\<exists>c t. get_version_string v = c # t \<and> is_digit c"
proof -
  obtain w ws where v: "v_version v = w # ws" using assms(1) by (cases "v_version v") (auto simp: canonical_def)
  then have "show_int (sint w) = show_nat (unat w)" using assms(2) by (simp add: printable_def show_sint)
  moreover obtain c t where "show_nat (unat w) = c # t" by (cases "show_nat (unat w)") auto
  moreover have "is_digit c" using show_nat_digits [of "unat w"] calculation(2) by simp
  ultimately show ?thesis using v by (cases ws) (auto simp: get_version_string_def)
qed

lemma opversion_string: "wf_entry v \<Longrightarrow>
    get_opversion_string v = get_operator_string (vo_operator (v_operator v)) @ CHR '' '' # get_version_string v"
  by (simp add: get_opversion_string_def wf_entry_def)

lemma operator_read:
  assumes "op \<noteq> OPERATOR_UNORDERED" "is_digit c"
  shows "operator_text (get_operator_string op @ CHR '' '' # c # t) = get_operator_string op"
    and "after_operator (get_operator_string op @ CHR '' '' # c # t) = c # t"
proof -
  let ?o = "get_operator_string op @ '' ''"
  have nd: "\<forall>x \<in> set ?o. \<not> is_digit x" using operator_string_chars op_char_classes by (auto simp: is_digit_def)
  have "takeWhile (\<lambda>c. \<not> is_digit c) (?o @ c # t) = ?o" "dropWhile (\<lambda>c. \<not> is_digit c) (?o @ c # t) = c # t"
    using nd assms(2) by (simp_all add: takeWhile_append dropWhile_append)
  moreover have "trimmed ?o = get_operator_string op" by (cases op) (simp_all add: trimmed_def is_space_def)
  moreover have "\<not> is_space c" using assms(2) version_char_classes [of c] by (simp add: version_char_def)
  ultimately show "operator_text (get_operator_string op @ CHR '' '' # c # t) = get_operator_string op"
    and "after_operator (get_operator_string op @ CHR '' '' # c # t) = c # t"
    by (simp_all add: operator_text_def after_operator_def)
qed

lemma read_entry_print:
  assumes "wf_entry v"
  shows "read_entry (get_opversion_string v) = Inr ([v], [])"
proof -
  let ?op = "vo_operator (v_operator v)" let ?vs = "get_version_string v"
  have w: "?op \<noteq> OPERATOR_UNORDERED" "canonical (v_version v)" "printable (v_version v)" using assms by (auto simp: wf_entry_def)
  obtain c t where vs: "?vs = c # t" "is_digit c" using version_string_hd w(2,3) by blast
  have chars: "\<forall>x \<in> set ?vs. version_char x" using version_string_version_chars w(3) .
  have "\<forall>x \<in> set (get_opversion_string v). x \<noteq> CHR 0x00"
    using chars operator_string_chars op_char_classes [of "CHR 0x00"] version_char_classes [of "CHR 0x00"]
    by (auto simp: opversion_string [OF assms])
  then have nul: "takeWhile (\<lambda>c. c \<noteq> CHR 0x00) (get_opversion_string v) = get_opversion_string v"
    by (simp add: takeWhile_eq_all_conv)
  have "takeWhile version_char (get_opversion_string v) = []"
    using w(1) by (cases ?op) (simp_all add: opversion_string [OF assms] version_char_def is_digit_def)
  moreover have tw: "takeWhile version_char ?vs = ?vs" "dropWhile version_char ?vs = []" using chars by (simp_all add: takeWhile_eq_all_conv)
  have "set_version_string ?vs new_version = Inr (True, new_version\<lparr>v_version := v_version v\<rparr>)"
    using version_string_read [OF w(2,3)] w(2) by (simp add: set_version_string_def set_version_def canonicalize_id new_version_def)
  moreover have "version_set_operator \<lparr>vo_operator = ?op, vo_error = []\<rparr> (new_version\<lparr>v_version := v_version v\<rparr>) = v"
    using assms by (cases v; cases "v_operator v") (simp add: version_set_operator_def new_version_def wf_entry_def)
  moreover have "operator_text (get_opversion_string v) = get_operator_string ?op" "after_operator (get_opversion_string v) = ?vs"
    using operator_read [OF w(1) vs(2), of t] by (simp_all add: opversion_string [OF assms] vs(1))
  ultimately show ?thesis
    using set_operator_string_print [OF w(1)] w(1) by (simp add: read_entry_def nul Let_def read_version_def tw)
qed

section \<open>The lists\<close>

lemma split_commas:
  "ts \<noteq> [] \<Longrightarrow> \<forall>t \<in> set ts. CHR '','' \<notin> set t \<Longrightarrow>
     split_on CHR '','' (commas ts) = hd ts # map (\<lambda>t. CHR '' '' # t) (tl ts)"
proof (induction ts rule: commas.induct)
  case (3 x y ts)
  then have "split_on CHR '','' (commas (x # y # ts)) = x # split_on CHR '','' (CHR '' '' # commas (y # ts))"
    by (simp add: split_on_append)
  moreover have "split_on CHR '','' (CHR '' '' # commas (y # ts)) = (CHR '' '' # y) # map (\<lambda>t. CHR '' '' # t) ts"
    using 3 by simp
  ultimately show ?case by simp
qed simp_all

text \<open>The entries of a printed list, each with its text once trimmed.\<close>

lemma split_skip_commas:
  assumes "ts \<noteq> []" "\<forall>t \<in> set ts. t \<noteq> [] \<and> CHR '','' \<notin> set t \<and> \<not> is_space (hd t) \<and> \<not> is_space (last t)"
  shows "map trimmed (split_skip CHR '','' (commas ts)) = ts"
proof -
  have "split_skip CHR '','' (commas ts) = hd ts # map (\<lambda>t. CHR '' '' # t) (tl ts)"
    using split_commas [OF assms(1)] assms by (cases ts) (auto simp: split_skip_def filter_map o_def)
  then show ?thesis using assms by (cases ts) (auto simp: trimmed_ends trimmed_blank o_def intro!: map_idI)
qed

lemma read_entries_print:
  "map trimmed es = map get_opversion_string vs \<Longrightarrow> list_all wf_entry vs \<Longrightarrow> read_entries es acc = Inr (acc @ vs, [])"
proof (induction es arbitrary: vs acc)
  case (Cons e es)
  then obtain v ws where vs: "vs = v # ws" by (cases vs) auto
  have "trimmed e \<noteq> []" using Cons(2,3) by (simp add: vs opversion_string)
  with Cons show ?case by (simp add: vs read_entry_print)
qed simp

definition wf_browser :: "name \<Rightarrow> bool" where
  "wf_browser n \<longleftrightarrow> validate_basic_name (n_name n) = Inr () \<and> n_namespace n = [] \<and> n_error n = []"

lemma set_name_basic: "wf_browser n \<Longrightarrow> set_name (n_name n) new_name = (True, n)"
  by (cases n) (simp add: wf_browser_def set_name_def validate_name_basic new_name_def)

lemma read_browsers_print:
  "map trimmed es = map n_name bs \<Longrightarrow> list_all wf_browser bs \<Longrightarrow> read_browsers es acc = (acc @ bs, [])"
proof (induction es arbitrary: bs acc)
  case (Cons e es)
  then obtain b cs where bs: "bs = b # cs" by (cases bs) auto
  have "trimmed e = n_name b" "wf_browser b" using Cons(2,3) by (simp_all add: bs)
  then have "trimmed e \<noteq> []" "validate_name (trimmed e) = Inr ([], n_name b)" "snd (set_name (trimmed e) new_name) = b"
    using basic_name_not_Nil set_name_basic by (auto simp: wf_browser_def validate_name_basic)
  with Cons show ?case by (simp add: bs)
qed simp

section \<open>Positions\<close>

lemma skip_spaces_at: "skip_spaces (a @ s) (length a) = length a + length (takeWhile is_space s)"
  by (simp add: skip_spaces_def)

lemma dep_versions_text:
  assumes "d = a @ CHR ''('' # t @ CHR '')'' # r" "CHR '')'' \<notin> set t"
    and "read_entries (split_skip CHR '','' t) (d_versions dep) = Inr (vs, [])"
  shows "dep_versions d (length a) dep = Inr (skip_spaces d (length a + length t + 2), dep\<lparr>d_versions := vs, d_error := []\<rparr>)"
proof -
  have "index_from CHR '')'' (Suc (length a)) d = Some (Suc (length a) + length t)" "mid (Suc (length a)) (length t) d = t"
    using index_from_found [of "CHR '')''" t "a @ ''(''" r] mid_append [of "a @ ''(''" t "CHR '')'' # r"] assms by simp_all
  moreover have "length a < length d" "d ! length a = CHR ''(''" using assms(1) by simp_all
  ultimately show ?thesis using assms(3) by (simp add: dep_versions_def)
qed

lemma dep_browsers_text:
  assumes "d = a @ CHR ''['' # t @ CHR '']'' # r" "CHR '']'' \<notin> set a" "CHR '']'' \<notin> set t"
    and "read_browsers (split_skip CHR '','' t) (d_browsers dep) = (bs, [])"
  shows "dep_browsers d (length a) dep = (skip_spaces d (length a + length t + 2), dep\<lparr>d_browsers := bs, d_error := []\<rparr>)"
proof -
  have "index_from CHR '']'' 0 d = Some (Suc (length a) + length t)" "mid (Suc (length a)) (length t) d = t"
    using index_from_found [of "CHR '']''" "a @ ''['' @ t" "[]" r] mid_append [of "a @ ''[''" t "CHR '']'' # r"] assms by simp_all
  moreover have "length a < length d" "d ! length a = CHR ''[''" using assms(1) by simp_all
  ultimately show ?thesis using assms(4) by (simp add: dep_browsers_def)
qed

section \<open>Printed dependencies are read back\<close>

definition wf_dependency :: "dependency \<Rightarrow> bool" where
  "wf_dependency d \<longleftrightarrow> d_error d = [] \<and> n_error (d_name d) = []
     \<and> validate_basic_name (n_name (d_name d)) = Inr ()
     \<and> (n_namespace (d_name d) = [] \<or> validate_basic_name (n_namespace (d_name d)) = Inr ())
     \<and> list_all wf_entry (d_versions d) \<and> list_all wf_browser (d_browsers d)"

text \<open>The three parts of the text.\<close>

definition name_text :: "name \<Rightarrow> string" where
  "name_text n = (if n_namespace n = [] then [] else n_namespace n @ ''::'') @ n_name n"

definition versions_text :: "version list \<Rightarrow> string" where
  "versions_text vs = (if vs = [] then [] else '' ('' @ commas (map get_opversion_string vs) @ '')'')"

definition browsers_text :: "name list \<Rightarrow> string" where
  "browsers_text bs = (if bs = [] then [] else '' ['' @ commas (map n_name bs) @ '']'')"

lemma dependency_text:
  "get_dependency_string d = name_text (d_name d) @ versions_text (d_versions d) @ browsers_text (d_browsers d)"
  by (simp add: get_dependency_string_def name_text_def versions_text_def browsers_text_def)

lemma commas_chars: "c \<in> set (commas ts) \<Longrightarrow> c = CHR '','' \<or> c = CHR '' '' \<or> (\<exists>t \<in> set ts. c \<in> set t)"
  by (induction ts rule: commas.induct) auto

lemma commas_neat:
  "\<forall>t \<in> set ts. neat t \<and> t \<noteq> [] \<and> \<not> is_space (hd t) \<and> \<not> is_space (last t) \<Longrightarrow>
     neat (commas ts) \<and> (ts \<noteq> [] \<longrightarrow> commas ts \<noteq> [] \<and> \<not> is_space (hd (commas ts)) \<and> \<not> is_space (last (commas ts)))"
  by (induction ts rule: commas.induct) (auto simp: neat_append is_space_def hd_append)

lemma entry_text:
  assumes "wf_entry v"
  defines "t \<equiv> get_opversion_string v"
  shows "neat t \<and> t \<noteq> [] \<and> \<not> is_space (hd t) \<and> \<not> is_space (last t)" "c \<in> set t \<Longrightarrow> c \<notin> set '',()[]:''"
proof -
  let ?op = "get_operator_string (vo_operator (v_operator v))" let ?vs = "get_version_string v"
  have t: "t = ?op @ CHR '' '' # ?vs" by (simp add: t_def opversion_string [OF assms(1)])
  have o: "\<forall>c \<in> set ?op. op_char c" using operator_string_chars by blast
  have v: "\<forall>c \<in> set ?vs. version_char c" using version_string_version_chars assms(1) by (auto simp: wf_entry_def)
  have n: "?op \<noteq> []" "?vs \<noteq> []"
    using assms(1) operator_string_not_Nil version_string_hd [of v] by (auto simp: wf_entry_def)
  have "neat ?op" "neat ?vs" using o v op_char_classes version_char_classes by (auto intro!: neat_no_space)
  moreover have "\<not> is_space (hd ?op)" "\<not> is_space (hd ?vs)" "\<not> is_space (last ?op)" "\<not> is_space (last ?vs)"
    using o v n op_char_classes version_char_classes by (meson hd_in_set last_in_set)+
  ultimately show "neat t \<and> t \<noteq> [] \<and> \<not> is_space (hd t) \<and> \<not> is_space (last t)"
    using n by (simp add: t neat_append is_space_def)
  show "c \<notin> set '',()[]:''" if "c \<in> set t"
    using that o v op_char_classes [of c] version_char_classes [of c] by (auto simp: t)
qed

lemma basic_name_text:
  assumes "validate_basic_name s = Inr u"
  shows "neat s \<and> s \<noteq> [] \<and> \<not> is_space (hd s) \<and> \<not> is_space (last s)" "c \<in> set s \<Longrightarrow> \<not> is_space c \<and> c \<notin> set '',()[]:''"
proof -
  have c: "\<not> is_space c \<and> c \<notin> set '',()[]:''" if "c \<in> set s" for c
    using basic_name_chars [OF assms] that
    by (auto simp: is_digit_of_char is_lower_def is_space_def char_le_of_char)
  have "s \<noteq> []" using basic_name_not_Nil assms .
  with c show "neat s \<and> s \<noteq> [] \<and> \<not> is_space (hd s) \<and> \<not> is_space (last s)" by (auto intro!: neat_no_space)
  show "\<not> is_space c \<and> c \<notin> set '',()[]:''" if "c \<in> set s" using c that .
qed

text \<open>The lists inside the parentheses and the brackets.\<close>

lemma versions_inside:
  assumes "list_all wf_entry vs" "vs \<noteq> []"
  defines "t \<equiv> commas (map get_opversion_string vs)"
  shows "neat t \<and> t \<noteq> [] \<and> \<not> is_space (hd t) \<and> \<not> is_space (last t)" "c \<in> set t \<Longrightarrow> c \<notin> set ''()[]:''"
    "read_entries (split_skip CHR '','' t) acc = Inr (acc @ vs, [])"
proof -
  have e: "\<forall>u \<in> set (map get_opversion_string vs). neat u \<and> u \<noteq> [] \<and> \<not> is_space (hd u) \<and> \<not> is_space (last u)"
    using entry_text(1) assms(1) by (auto simp: list_all_iff)
  have c: "c \<notin> set '',()[]:''" if "u \<in> set (map get_opversion_string vs)" "c \<in> set u" for u c
    using entry_text(2) assms(1) that by (auto simp: list_all_iff)
  show "neat t \<and> t \<noteq> [] \<and> \<not> is_space (hd t) \<and> \<not> is_space (last t)"
    using commas_neat [OF e] assms(2) by (simp add: t_def)
  show "c \<notin> set ''()[]:''" if "c \<in> set t" using commas_chars [of c "map get_opversion_string vs"] that c by (auto simp: t_def)
  have "map trimmed (split_skip CHR '','' t) = map get_opversion_string vs"
    unfolding t_def by (rule split_skip_commas) (use e c assms(2) in auto)
  then show "read_entries (split_skip CHR '','' t) acc = Inr (acc @ vs, [])" using read_entries_print assms(1) by blast
qed

lemma browsers_inside:
  assumes "list_all wf_browser bs" "bs \<noteq> []"
  defines "t \<equiv> commas (map n_name bs)"
  shows "neat t \<and> t \<noteq> [] \<and> \<not> is_space (hd t) \<and> \<not> is_space (last t)" "c \<in> set t \<Longrightarrow> c \<notin> set ''()[]:''"
    "read_browsers (split_skip CHR '','' t) acc = (acc @ bs, [])"
proof -
  have e: "\<forall>u \<in> set (map n_name bs). neat u \<and> u \<noteq> [] \<and> \<not> is_space (hd u) \<and> \<not> is_space (last u)"
    using basic_name_text(1) assms(1) by (auto simp: list_all_iff wf_browser_def)
  have c: "c \<notin> set '',()[]:''" if "u \<in> set (map n_name bs)" "c \<in> set u" for u c
    using basic_name_text(2) assms(1) that by (auto simp: list_all_iff wf_browser_def)
  show "neat t \<and> t \<noteq> [] \<and> \<not> is_space (hd t) \<and> \<not> is_space (last t)"
    using commas_neat [OF e] assms(2) by (simp add: t_def)
  show "c \<notin> set ''()[]:''" if "c \<in> set t" using commas_chars [of c "map n_name bs"] that c by (auto simp: t_def)
  have "map trimmed (split_skip CHR '','' t) = map n_name bs"
    unfolding t_def by (rule split_skip_commas) (use e c assms(2) in auto)
  then show "read_browsers (split_skip CHR '','' t) acc = (acc @ bs, [])" using read_browsers_print assms(1) by blast
qed

lemma read_versions_part:
  assumes "list_all wf_entry vs" "d = n @ versions_text vs @ b" "b = [] \<or> (\<exists>r. b = '' ['' @ r)" "d_error dep = []"
  shows "dep_versions d (skip_spaces d (length n)) dep
    = Inr (skip_spaces d (length (n @ versions_text vs)), dep\<lparr>d_versions := d_versions dep @ vs\<rparr>)"
proof (cases "vs = []")
  case True
  with assms(2,3,4) show ?thesis
    using skip_spaces_at [of n b] by (auto simp: versions_text_def dep_versions_def is_space_def nth_append)
next
  case False
  let ?t = "commas (map get_opversion_string vs)"
  note i = versions_inside [OF assms(1) False]
  have d: "d = (n @ '' '') @ CHR ''('' # ?t @ CHR '')'' # b" using assms(2) False by (simp add: versions_text_def)
  have "skip_spaces d (length n) = length (n @ '' '')" using skip_spaces_at [of n "'' ('' @ ?t @ CHR '')'' # b"] d by (simp add: is_space_def)
  moreover have "CHR '')'' \<notin> set ?t" using i(2) by auto
  ultimately show ?thesis
    using dep_versions_text [OF d _ i(3)] assms(4) False by (simp add: versions_text_def)
qed

lemma read_browsers_part:
  assumes "list_all wf_browser bs" "d = a @ browsers_text bs" "CHR '']'' \<notin> set a" "d_error dep = []"
  shows "dep_browsers d (skip_spaces d (length a)) dep = (length d, dep\<lparr>d_browsers := d_browsers dep @ bs\<rparr>)"
proof (cases "bs = []")
  case True
  with assms(2) show ?thesis
    using skip_spaces_at [of a "[]"] by (simp add: browsers_text_def dep_browsers_def)
next
  case False
  let ?t = "commas (map n_name bs)"
  note i = browsers_inside [OF assms(1) False]
  have d: "d = (a @ '' '') @ CHR ''['' # ?t @ CHR '']'' # []" using assms(2) False by (simp add: browsers_text_def)
  have "skip_spaces d (length a) = length (a @ '' '')" using skip_spaces_at [of a "'' ['' @ ?t @ '']''"] d by (simp add: is_space_def)
  moreover have "skip_spaces d (length d) = length d" using skip_spaces_at [of d "[]"] by simp
  moreover have "CHR '']'' \<notin> set ?t" using i(2) by auto
  ultimately show ?thesis
    using dep_browsers_text [OF d _ _ i(3)] assms(3,4) d by simp
qed

lemma index_of_beyond: "c \<notin> set a \<Longrightarrow> length a \<le> index_of c (a @ r)"
  by (simp add: index_of_def takeWhile_append)

lemma index_of_at: "c \<notin> set a \<Longrightarrow> r = [] \<or> hd r = c \<Longrightarrow> index_of c (a @ r) = length a"
  by (cases r) (auto simp: index_of_def takeWhile_append takeWhile_not_in)

lemma index_of_none: "c \<notin> set a \<Longrightarrow> index_of c a = length a"
  using index_of_at [of c a "[]"] by simp

lemma split_namespace_Some:
  "CHR '':'' \<notin> set ns \<Longrightarrow> split_namespace (ns @ CHR '':'' # CHR '':'' # n) = Some (ns, n)"
proof (induction ns)
  case (Cons a ns)
  then show ?case by (cases ns) auto
qed simp

lemma name_text_read:
  assumes "validate_basic_name (n_name n) = Inr ()" "n_namespace n = [] \<or> validate_basic_name (n_namespace n) = Inr ()"
    and "n_error n = []"
  shows "validate_name (name_text n) = Inr (n_namespace n, n_name n)" "snd (set_name (name_text n) m) = n"
proof -
  have "CHR '':'' \<notin> set (n_namespace n)" using basic_name_text(2) [of "n_namespace n"] assms(2) by auto
  then show "validate_name (name_text n) = Inr (n_namespace n, n_name n)"
    using assms(1,2) validate_name_basic [OF assms(1)]
    by (cases "n_namespace n = []") (auto simp: name_text_def validate_name_def split_namespace_Some)
  then show "snd (set_name (name_text n) m) = n" using assms(3) by (simp add: set_name_def)
qed

lemma name_text_chars:
  assumes "validate_basic_name (n_name n) = Inr ()" "n_namespace n = [] \<or> validate_basic_name (n_namespace n) = Inr ()"
  shows "name_text n \<noteq> []" "c \<in> set (name_text n) \<Longrightarrow> \<not> is_space c \<and> c \<notin> set '',()[]''"
  using basic_name_text [OF assms(1)] basic_name_text(2) [of "n_namespace n" "()" c] assms(2)
  by (auto simp: name_text_def is_space_def split: if_splits)

text \<open>The cut of the name, on the three parts of a printed dependency.\<close>

lemma name_end_text:
  assumes "\<And>c. c \<in> set n \<Longrightarrow> \<not> is_space c \<and> c \<notin> set '',()[]''" "r = [] \<or> hd r = CHR '' ''"
  shows "name_end (n @ r) = length n"
proof -
  have "CHR '' '' \<notin> set n" "CHR ''('' \<notin> set n" "CHR ''['' \<notin> set n" using assms(1) by (auto simp: is_space_def)
  then show ?thesis using index_of_at [of _ n r] index_of_beyond [of _ n r] assms(2) by (simp add: name_end_def)
qed

lemma text_neat:
  assumes "neat n \<and> n \<noteq> [] \<and> \<not> is_space (hd n) \<and> \<not> is_space (last n)" "list_all wf_entry vs" "list_all wf_browser bs"
  shows "simplified (n @ versions_text vs @ browsers_text bs) = n @ versions_text vs @ browsers_text bs"
proof (rule simplified_neat)
  have v: "versions_text vs = [] \<or> neat (versions_text vs) \<and> hd (versions_text vs) = CHR '' '' \<and> \<not> is_space (last (versions_text vs))"
    using versions_inside(1) [OF assms(2)] by (auto simp: versions_text_def neat_append is_space_def)
  have b: "browsers_text bs = [] \<or> neat (browsers_text bs) \<and> hd (browsers_text bs) = CHR '' '' \<and> \<not> is_space (last (browsers_text bs))"
    using browsers_inside(1) [OF assms(3)] by (auto simp: browsers_text_def neat_append is_space_def)
  show "neat (n @ versions_text vs @ browsers_text bs)" using assms(1) v b by (auto simp: neat_append)
  show "n @ versions_text vs @ browsers_text bs = [] \<or> \<not> is_space (hd (n @ versions_text vs @ browsers_text bs))
      \<and> \<not> is_space (last (n @ versions_text vs @ browsers_text bs))"
    using assms(1) v b by (auto simp: hd_append last_append)
qed

lemma no_bracket_first:
  assumes "\<And>c. c \<in> set n \<Longrightarrow> \<not> is_space c \<and> c \<notin> set '',()[]''" "list_all wf_browser bs"
    and d_def: "d = n @ versions_text vs @ browsers_text bs"
  shows "\<not> (index_of CHR ''('' d \<noteq> length d \<and> index_of CHR ''('' d > index_of CHR ''['' d)"
proof (cases "vs = []")
  case True
  have "CHR ''('' \<notin> set (browsers_text bs)" using browsers_inside(2) [OF assms(2)] by (cases "bs = []") (auto simp: browsers_text_def)
  with True assms(1) have "CHR ''('' \<notin> set d" by (auto simp: d_def versions_text_def)
  then show ?thesis by (simp add: index_of_none)
next
  case False
  let ?r = "commas (map get_opversion_string vs) @ '')'' @ browsers_text bs"
  have d: "d = (n @ '' '') @ CHR ''('' # ?r" using False by (simp add: d_def versions_text_def)
  have "index_of CHR ''('' d = length (n @ '' '')" unfolding d by (rule index_of_at) (use assms(1) in auto)
  moreover have "length (n @ '' ('') \<le> index_of CHR ''['' d"
    using index_of_beyond [of "CHR ''[''" "n @ '' (''" ?r] assms(1) d by auto
  ultimately show ?thesis by simp
qed

text \<open>
  \<open>set_dependency()\<close> reads back the canonical text of a dependency: a new object becomes equal to the one
  that was printed, with its name and namespace, its versions with their operators and its browsers.
\<close>
theorem dependency_roundtrip:
  assumes "wf_dependency d"
  shows "set_dependency (get_dependency_string d) new_dependency = Inr (True, d)"
proof -
  define n where "n = name_text (d_name d)"
  define t where "t = n @ versions_text (d_versions d) @ browsers_text (d_browsers d)"
  have w: "list_all wf_entry (d_versions d)" "list_all wf_browser (d_browsers d)" "d_error d = []"
    and nm: "validate_basic_name (n_name (d_name d)) = Inr ()"
      "n_namespace (d_name d) = [] \<or> validate_basic_name (n_namespace (d_name d)) = Inr ()" "n_error (d_name d) = []"
    using assms by (auto simp: wf_dependency_def)
  note n = name_text_chars [OF nm(1,2), folded n_def]
  have "neat n \<and> n \<noteq> [] \<and> \<not> is_space (hd n) \<and> \<not> is_space (last n)" using n by (auto intro!: neat_no_space)
  then have neat: "simplified t = t" unfolding t_def by (rule text_neat [OF _ w(1,2)])
  have cut: "name_end t = length n" unfolding t_def
    by (rule name_end_text [OF n(2)]) (auto simp: versions_text_def browsers_text_def)
  define new where "new = new_dependency\<lparr>d_name := d_name d\<rparr>"
  have v: "dep_versions t (skip_spaces t (length n)) new
      = Inr (skip_spaces t (length (n @ versions_text (d_versions d))), new\<lparr>d_versions := d_versions d\<rparr>)"
    using read_versions_part [OF w(1), of t n "browsers_text (d_browsers d)" new]
    by (simp add: t_def browsers_text_def new_def new_dependency_def)
  have "CHR '']'' \<notin> set (n @ versions_text (d_versions d))"
    using n(2) versions_inside(2) [OF w(1)] by (cases "d_versions d = []") (auto simp: versions_text_def)
  then have b: "dep_browsers t (skip_spaces t (length (n @ versions_text (d_versions d)))) (new\<lparr>d_versions := d_versions d\<rparr>)
      = (length t, new\<lparr>d_versions := d_versions d, d_browsers := d_browsers d\<rparr>)"
    using read_browsers_part [OF w(2), of t "n @ versions_text (d_versions d)" "new\<lparr>d_versions := d_versions d\<rparr>"]
    by (simp add: t_def new_def new_dependency_def)
  have "take (length n) t = n" by (simp add: t_def)
  moreover have "new\<lparr>d_versions := d_versions d, d_browsers := d_browsers d\<rparr> = d"
    using w(3) by (cases d) (simp add: new_def new_dependency_def)
  ultimately have "set_dependency t new_dependency = Inr (True, d)"
    using v b neat cut no_bracket_first [OF n(2) w(2) t_def] name_text_read [OF nm] w(3)
    by (simp add: set_dependency_def Let_def n_def new_def new_dependency_def)
  then show ?thesis by (simp add: dependency_text t_def n_def)
qed

definition sample_dependency :: dependency where
  "sample_dependency = \<lparr>d_error = [], d_name = \<lparr>n_name = ''jquery'', n_namespace = ''ns'', n_error = []\<rparr>,
     d_versions = [\<lparr>v_version = [1, 5], v_error = [], v_operator = \<lparr>vo_operator = OPERATOR_LATER_OR_EQUAL, vo_error = []\<rparr>\<rparr>,
       \<lparr>v_version = [2], v_error = [], v_operator = \<lparr>vo_operator = OPERATOR_EARLIER, vo_error = []\<rparr>\<rparr>],
     d_browsers = [\<lparr>n_name = ''ie'', n_namespace = [], n_error = []\<rparr>]\<rparr>"

theorem dependency_roundtrip_witness:
  "set_dependency (get_dependency_string sample_dependency) new_dependency = Inr (True, sample_dependency)"
  by (rule dependency_roundtrip) (simp add: wf_dependency_def sample_dependency_def wf_entry_def wf_browser_def
    canonical_def printable_def validate_basic_name_def is_lower_def is_digit_def)

section \<open>Ranges\<close>

text \<open>The set of versions that an entry with an operator admits.\<close>

fun admits :: "operator_t \<Rightarrow> compare_t \<Rightarrow> bool" where
  "admits OPERATOR_UNORDERED c \<longleftrightarrow> False"
| "admits OPERATOR_EQUAL c \<longleftrightarrow> c = COMPARE_EQUAL"
| "admits OPERATOR_EXCEPT c \<longleftrightarrow> c = COMPARE_SMALLER \<or> c = COMPARE_LARGER"
| "admits OPERATOR_EARLIER c \<longleftrightarrow> c = COMPARE_SMALLER"
| "admits OPERATOR_LATER c \<longleftrightarrow> c = COMPARE_LARGER"
| "admits OPERATOR_EARLIER_OR_EQUAL c \<longleftrightarrow> c = COMPARE_SMALLER \<or> c = COMPARE_EQUAL"
| "admits OPERATOR_LATER_OR_EQUAL c \<longleftrightarrow> c = COMPARE_LARGER \<or> c = COMPARE_EQUAL"

definition entry_admits :: "version \<Rightarrow> version \<Rightarrow> bool" where
  "entry_admits e x \<longleftrightarrow> admits (vo_operator (v_operator e)) (version_compare x e)"

text \<open>The versions that a range \<open>lo < hi\<close>, \<open>lo <= hi\<close>, \<open>hi > lo\<close> or \<open>hi >= lo\<close> stands for.\<close>

fun range_admits :: "operator_t \<Rightarrow> version \<Rightarrow> version \<Rightarrow> version \<Rightarrow> bool" where
  "range_admits OPERATOR_EARLIER l r x \<longleftrightarrow> version_compare l x = COMPARE_SMALLER \<and> version_compare x r = COMPARE_SMALLER"
| "range_admits OPERATOR_EARLIER_OR_EQUAL l r x \<longleftrightarrow>
     version_compare l x \<in> {COMPARE_SMALLER, COMPARE_EQUAL} \<and> version_compare x r \<in> {COMPARE_SMALLER, COMPARE_EQUAL}"
| "range_admits OPERATOR_LATER l r x \<longleftrightarrow> version_compare r x = COMPARE_SMALLER \<and> version_compare x l = COMPARE_SMALLER"
| "range_admits OPERATOR_LATER_OR_EQUAL l r x \<longleftrightarrow>
     version_compare r x \<in> {COMPARE_SMALLER, COMPARE_EQUAL} \<and> version_compare x l \<in> {COMPARE_SMALLER, COMPARE_EQUAL}"
| "range_admits _ l r x \<longleftrightarrow> False"

lemma with_operator_compare [simp]:
  assumes "vo_error vo = []" "version_is_valid v"
  shows "version_compare (with_operator op vo v) x = version_compare v x"
    "version_compare x (with_operator op vo v) = version_compare x v"
    "vo_operator (v_operator (with_operator op vo v)) = op" "version_is_valid (with_operator op vo v)"
  using assms by (simp_all add: version_compare_def with_operator_def version_set_operator_def set_operator_def version_is_valid_def)

lemma version_compare_swap:
  assumes "version_is_valid a" "version_is_valid b"
  shows "version_compare a b = COMPARE_LARGER \<longleftrightarrow> version_compare b a = COMPARE_SMALLER"
    "version_compare a b = COMPARE_EQUAL \<longleftrightarrow> version_compare b a = COMPARE_EQUAL"
  using versions.swap [OF assms(2,1)] versions.equal_sym assms by blast+

text \<open>
  A range adds two entries, and a version satisfies both exactly when it is in the range; it is
  refused when the bounds are equal or in the wrong order.
\<close>
theorem range_entries:
  assumes "version_is_valid l" "version_is_valid r" "version_is_valid x" "vo_error vo = []"
    and "add_range vo l r = Inr (es, err)"
  shows "length es = 2 \<and> (list_all (\<lambda>e. entry_admits e x) es \<longleftrightarrow> range_admits (vo_operator vo) l r x)
    \<and> (err = [] \<longleftrightarrow> version_compare l r =
        (if vo_operator vo \<in> {OPERATOR_EARLIER, OPERATOR_EARLIER_OR_EQUAL} then COMPARE_SMALLER else COMPARE_LARGER))"
proof -
  note c = version_compare_swap [OF assms(3,1)] version_compare_swap [OF assms(3,2)]
  have "compare_value (version_compare l r) \<ge> 0 \<longleftrightarrow> version_compare l r \<noteq> COMPARE_SMALLER"
    "compare_value (version_compare l r) \<le> 0 \<longleftrightarrow> version_compare l r \<noteq> COMPARE_LARGER"
    using versions.ordered [OF assms(1,2)] by (cases "version_compare l r"; simp)+
  then show ?thesis
    using assms by (cases "vo_operator vo") (auto simp: add_range_def Let_def entry_admits_def c)
qed

theorem range_entries_witness:
  "\<exists>es. add_range (new_operator\<lparr>vo_operator := OPERATOR_EARLIER\<rparr>) (new_version\<lparr>v_version := [1]\<rparr>) (new_version\<lparr>v_version := [2]\<rparr>)
      = Inr (es, [])"
  using range_entries [of "new_version\<lparr>v_version := [1]\<rparr>" "new_version\<lparr>v_version := [2]\<rparr>" new_version
      "new_operator\<lparr>vo_operator := OPERATOR_EARLIER\<rparr>"]
  by (simp add: add_range_def Let_def version_is_valid_def new_version_def new_operator_def with_operator_def
      version_set_operator_def set_operator_def version_compare_def number_at_def)

text \<open>A range of one version is refused, also when its operator includes the bounds.\<close>

lemma equal_range_refused:
  "map_sum id fst (set_dependency ''jquery (1.0 <= 1.0)'' new_dependency) = Inr False"
  by code_simp

end
