(* ===== verification/Version_Finder.thy ===== *)
theory Version_Finder
  imports Snap_Dependency
begin

text \<open>
  \<open>snap_version.cpp\<close>, the class \<open>quick_find_version_in_source\<close>: it reads the fields of the comment
  at the start of a source file.  The input is a list of bytes.  \<open>getc()\<close> returns a signed
  \<open>char\<close>, so that the byte \<open>0xFF\<close> is taken for the end of the file.  \<open>QString::fromUtf8()\<close> is the
  identity here: the code only tests ASCII characters, and a description is kept as its bytes.
  The loop of \<open>find_version()\<close> has no test for the end of the file; it is a partial function, \<open>None\<close>
  when it never returns.
  The theorems: the loop returns when a line closes the comment, and it never returns on a comment that is
  not closed and has no wrong field.
\<close>

section \<open>Lines\<close>

record finder =
  q_data :: string
  q_name :: name
  q_layout :: name
  q_version :: version
  q_browsers :: "name list"
  q_error :: string
  q_description :: string
  q_depends :: "dependency list"

definition new_finder :: finder where
  "new_finder = \<lparr>q_data = [], q_name = new_name, q_layout = new_name, q_version = new_version, q_browsers = [],
     q_error = [], q_description = [], q_depends = []\<rparr>"

text \<open>The three values on which the inner loop of \<open>get_line()\<close> stops.\<close>

definition end_of_line :: "char \<Rightarrow> bool" where
  "end_of_line c \<longleftrightarrow> c = CHR 0x0A \<or> c = CHR 0x0D \<or> c = CHR 0xFF"

definition raw_line :: "string \<Rightarrow> string" where
  "raw_line data = trimmed (takeWhile (\<lambda>c. c \<noteq> CHR 0x00) (takeWhile (\<lambda>c. \<not> end_of_line c) data))"

text \<open>The line and the data left; whether the line ended with the end of the file.\<close>

lemma dropWhile_rest_shorter [termination_simp]: "dropWhile P s = c # r \<Longrightarrow> length r < length s"
  using length_dropWhile_le [of P s] by simp

fun get_line :: "string \<Rightarrow> string \<times> string" where
  "get_line data =
     (case dropWhile (\<lambda>c. \<not> end_of_line c) data of
        [] \<Rightarrow> (raw_line data, [])
      | c # rest \<Rightarrow> if raw_line data \<noteq> [] \<or> c = CHR 0xFF then (raw_line data, rest) else get_line rest)"

declare get_line.simps [simp del]

section \<open>Fields\<close>

definition field_upper :: "char \<Rightarrow> char" where
  "field_upper c = (if is_lower c then char_of (of_char c - 32 :: nat) else c)"

fun field_match :: "string \<Rightarrow> string \<Rightarrow> string option" where
  "field_match (n # ns) (c # s) = (if field_upper c \<noteq> n then None else field_match ns s)"
| "field_match [] (c # s) = (if c = CHR '':'' then Some s else None)"
| "field_match ns [] = None"

definition field_start :: "string \<Rightarrow> string" where
  "field_start line =
     (case dropWhile is_space line of
        c # s \<Rightarrow> if c = CHR ''*'' then dropWhile is_space s else c # s
      | [] \<Rightarrow> [])"

definition field_check :: "string \<Rightarrow> string \<Rightarrow> string option" where
  "field_check field line = map_option simplified (field_match field (field_start line))"

text \<open>The list of dependencies: \<open>cur\<close> is the text since the last comma outside parentheses and brackets.\<close>

definition push_dependency :: "string \<Rightarrow> dependency list \<Rightarrow> dependency list result" where
  "push_dependency cur ds =
     (if cur = [] then Inr ds else bindE (set_dependency cur new_dependency) (\<lambda>(_, d). Inr (ds @ [d])))"

fun depends_loop :: "string \<Rightarrow> string \<Rightarrow> int \<Rightarrow> int \<Rightarrow> dependency list \<Rightarrow> (bool \<times> dependency list) result" where
  "depends_loop [] cur paren brack ds =
     (if paren = 0 \<and> brack = 0 then bindE (push_dependency cur ds) (\<lambda>ds1. Inr (True, ds1)) else Inr (False, ds))"
| "depends_loop (c # s) cur paren brack ds =
     (if c = CHR ''('' then depends_loop s (cur @ [c]) (paren + 1) brack ds
      else if c = CHR '')'' then depends_loop s (cur @ [c]) (paren - 1) brack ds
      else if c = CHR ''['' then depends_loop s (cur @ [c]) paren (brack + 1) ds
      else if c = CHR '']'' then depends_loop s (cur @ [c]) paren (brack - 1) ds
      else if c = CHR '','' \<and> paren = 0 \<and> brack = 0
      then bindE (push_dependency cur ds) (\<lambda>ds1. depends_loop s [] paren brack ds1)
      else depends_loop s (cur @ [c]) paren brack ds)"

text \<open>The browsers of a field; the first invalid name ends the call with its error.\<close>

fun find_browsers :: "string list \<Rightarrow> name list \<Rightarrow> name list \<times> string option" where
  "find_browsers [] acc = (acc, None)"
| "find_browsers (b # bs) acc =
     (case set_name (trimmed b) new_name of
        (False, n) \<Rightarrow> (acc, Some (n_error n))
      | (True, n) \<Rightarrow> find_browsers bs (acc @ [n]))"

text \<open>One field each: whether to go on, and the object.  When not, \<open>find_version()\<close> returns false.\<close>

definition refuse :: "string \<Rightarrow> finder \<Rightarrow> bool \<times> finder" where
  "refuse e q = (False, q\<lparr>q_error := e\<rparr>)"

definition on_name :: "string \<Rightarrow> finder \<Rightarrow> bool \<times> finder" where
  "on_name value q =
     (if n_name (q_name q) \<noteq> [] then refuse ''name field cannot be defined more than once'' q
      else case set_name value (q_name q) of
             (True, n) \<Rightarrow> (True, q\<lparr>q_name := n\<rparr>)
           | (False, n) \<Rightarrow> refuse (n_error n) (q\<lparr>q_name := n\<rparr>))"

definition on_layout :: "string \<Rightarrow> finder \<Rightarrow> bool \<times> finder" where
  "on_layout value q =
     (if n_name (q_layout q) \<noteq> [] then refuse ''layout field cannot be defined more than once'' q
      else case set_name value (q_layout q) of
             (True, n) \<Rightarrow> (True, q\<lparr>q_layout := n\<rparr>)
           | (False, n) \<Rightarrow> refuse (n_error n) (q\<lparr>q_layout := n\<rparr>))"

definition on_version :: "string \<Rightarrow> finder \<Rightarrow> (bool \<times> finder) result" where
  "on_version value q =
     (if get_version_string (q_version q) \<noteq> [] then Inr (refuse ''version field cannot be defined more than once'' q)
      else bindE (set_version_string value (q_version q)) (\<lambda>(ok, v).
             Inr (if ok then (True, q\<lparr>q_version := v\<rparr>) else refuse (v_error v) (q\<lparr>q_version := v\<rparr>))))"

definition on_browsers :: "string \<Rightarrow> finder \<Rightarrow> bool \<times> finder" where
  "on_browsers value q =
     (if q_browsers q \<noteq> [] then refuse ''browser field cannot be defined more than once'' q
      else case find_browsers (split_on CHR '','' value) [] of
             (bs, None) \<Rightarrow> (True, q\<lparr>q_browsers := bs\<rparr>)
           | (bs, Some e) \<Rightarrow> refuse e (q\<lparr>q_browsers := bs\<rparr>))"

definition on_description :: "string \<Rightarrow> finder \<Rightarrow> bool \<times> finder" where
  "on_description value q =
     (if q_description q \<noteq> [] then refuse ''description field cannot be defined more than once'' q
      else (True, q\<lparr>q_description := value\<rparr>))"

definition on_depends :: "string \<Rightarrow> finder \<Rightarrow> (bool \<times> finder) result" where
  "on_depends value q =
     (if q_depends q \<noteq> [] then Inr (refuse ''depends field cannot be defined more than once'' q)
      else if value = [] then Inr (True, q)
      else bindE (depends_loop value [] 0 0 []) (\<lambda>(ok, ds).
             Inr (if ok then (True, q\<lparr>q_depends := ds\<rparr>)
                  else refuse ''depends field () or [] mismatch'' (q\<lparr>q_depends := ds\<rparr>))))"

text \<open>The fields of a line after the name, the first one that matches.\<close>

definition other_fields :: "string \<Rightarrow> finder \<Rightarrow> (bool \<times> finder) result" where
  "other_fields l q =
     (case field_check ''LAYOUT'' l of Some value \<Rightarrow> Inr (on_layout value q) | None \<Rightarrow>
      case field_check ''VERSION'' l of Some value \<Rightarrow> on_version value q | None \<Rightarrow>
      case field_check ''BROWSERS'' l of Some value \<Rightarrow> Inr (on_browsers value q) | None \<Rightarrow>
      case field_check ''DESCRIPTION'' l of Some value \<Rightarrow> Inr (on_description value q) | None \<Rightarrow>
      case field_check ''DEPENDS'' l of Some value \<Rightarrow> on_depends value q | None \<Rightarrow> Inr (True, q))"

definition line_fields :: "string \<Rightarrow> finder \<Rightarrow> (bool \<times> finder) result" where
  "line_fields l q =
     (case field_check ''NAME'' l of
        None \<Rightarrow> other_fields l q
      | Some value \<Rightarrow> (case on_name value q of (False, q1) \<Rightarrow> Inr (False, q1) | (True, q1) \<Rightarrow> other_fields l q1))"

definition closes :: "string \<Rightarrow> bool" where
  "closes l \<longleftrightarrow> list_ex (\<lambda>i. l ! i = CHR ''*'' \<and> l ! Suc i = CHR ''/'') [0..<length l - 1]"

text \<open>The end of the comment: the result is whether there was a version; the default browser is \<open>all\<close>.\<close>

definition end_of_comment :: "finder \<Rightarrow> bool \<times> finder" where
  "end_of_comment q =
     (if get_version_string (q_version q) = [] then (False, q)
      else if q_browsers q = [] then (True, q\<lparr>q_browsers := [snd (set_name ''all'' new_name)]\<rparr>)
      else (True, q))"

text \<open>One turn of the loop: \<open>Some\<close> result when it returns.\<close>

definition line_step :: "string \<Rightarrow> finder \<Rightarrow> (bool option \<times> finder) result" where
  "line_step l q =
     bindE (line_fields l q) (\<lambda>(go, q1).
       if \<not> go then Inr (Some False, q1)
       else if closes l then (case end_of_comment q1 of (b, q2) \<Rightarrow> Inr (Some b, q2))
       else Inr (None, q1))"

definition next_line :: "finder \<Rightarrow> string \<times> finder" where
  "next_line q = (case get_line (q_data q) of (l, d) \<Rightarrow> (l, q\<lparr>q_data := d\<rparr>))"

partial_function (option) find_loop :: "string \<Rightarrow> finder \<Rightarrow> (bool \<times> finder) result option" where
  "find_loop l q =
     (case line_step l q of
        Inl e \<Rightarrow> Some (Inl e)
      | Inr (Some b, q1) \<Rightarrow> Some (Inr (b, q1))
      | Inr (None, q1) \<Rightarrow> (case next_line q1 of (l1, q2) \<Rightarrow> find_loop l1 q2))"

declare find_loop.simps [code]

definition find_version :: "string \<Rightarrow> finder \<Rightarrow> (bool \<times> finder) result option" where
  "find_version data q0 =
     (case next_line (q0\<lparr>q_data := data\<rparr>) of
        (l, q) \<Rightarrow>
          if \<not> starts_with ''/*'' l then Some (Inr (refuse ''file does not start with a C-like comment'' q))
          else find_loop l q)"

definition finder_is_valid :: "finder \<Rightarrow> bool" where
  "finder_is_valid q \<longleftrightarrow> q_error q = [] \<and> name_is_valid (q_name q) \<and> version_is_valid (q_version q)
     \<and> list_all name_is_valid (q_browsers q)"

section \<open>When the loop returns\<close>

text \<open>The lines that \<open>get_line()\<close> returns before the data is used up.\<close>

lemma get_line_shorter: "data \<noteq> [] \<Longrightarrow> length (snd (get_line data)) < length data"
proof (induction data rule: get_line.induct)
  case (1 data)
  show ?case
  proof (cases "dropWhile (\<lambda>c. \<not> end_of_line c) data")
    case Nil
    then have "get_line data = (raw_line data, [])" by (simp only: get_line.simps [of data] list.case)
    with 1(2) show ?thesis by simp
  next
    case (Cons c r)
    then have "length r < length data" by (rule dropWhile_rest_shorter)
    with 1 Cons show ?thesis by (cases "r = []") (auto simp: get_line.simps [of data] get_line.simps [of "[]"])
  qed
qed

lemma get_line_Nil: "get_line [] = ([], [])"
  by (simp add: get_line.simps raw_line_def trimmed_def)

function lines :: "string \<Rightarrow> string list" where
  "lines data = (if data = [] then [] else case get_line data of (l, d) \<Rightarrow> l # lines d)"
  by pat_completeness auto

termination
  by (relation "measure length") (auto, metis get_line_shorter snd_conv)

declare lines.simps [simp del]

text \<open>The fields do not touch the input.\<close>

lemma field_data:
  "q_data (snd (on_name v q)) = q_data q" "q_data (snd (on_layout v q)) = q_data q"
  "q_data (snd (on_browsers v q)) = q_data q" "q_data (snd (on_description v q)) = q_data q"
  "on_version v q = Inr r \<Longrightarrow> q_data (snd r) = q_data q" "on_depends v q = Inr r \<Longrightarrow> q_data (snd r) = q_data q"
  by (auto simp: on_name_def on_layout_def on_browsers_def on_description_def on_version_def on_depends_def refuse_def
      result_simps split: bool.splits prod.splits option.splits if_splits)

lemma other_fields_data: "other_fields l q = Inr r \<Longrightarrow> q_data (snd r) = q_data q"
  by (auto simp: other_fields_def field_data split: option.splits)

lemma line_fields_data: "line_fields l q = Inr r \<Longrightarrow> q_data (snd r) = q_data q"
  using field_data(1) [of _ q]
  by (auto simp: line_fields_def split: option.splits bool.splits prod.splits dest: other_fields_data)
    (metis other_fields_data snd_conv)+

lemma line_step_data: "line_step l q = Inr (None, q1) \<Longrightarrow> q_data q1 = q_data q"
  by (auto simp: line_step_def result_simps split: if_splits prod.splits dest: line_fields_data)

text \<open>At the end of the data the loop turns around.\<close>

lemma field_check_Nil: "field_check f [] = None"
  by (cases f) (auto simp: field_check_def field_start_def)

lemma line_step_no_field:
  assumes "\<forall>f \<in> {''NAME'', ''LAYOUT'', ''VERSION'', ''BROWSERS'', ''DESCRIPTION'', ''DEPENDS''}. field_check f l = None" "\<not> closes l"
  shows "line_step l q = Inr (None, q)"
  using assms by (simp add: line_step_def line_fields_def other_fields_def)

lemma find_loop_at_end: "find_loop l q = Some r \<Longrightarrow> \<not> (l = [] \<and> q_data q = [])"
proof (rule find_loop.raw_induct [of "\<lambda>l q r. \<not> (l = [] \<and> q_data q = [])"], goal_cases)
  case (1 loop l q r)
  have "line_step [] q = Inr (None, q)" by (rule line_step_no_field) (simp_all add: field_check_Nil closes_def)
  moreover have "q_data q = [] \<Longrightarrow> next_line q = ([], q)" by (simp add: next_line_def get_line_Nil)
  ultimately show ?case using 1 by auto
qed

text \<open>The condition under which no line ends the loop.\<close>

definition silent :: "string \<Rightarrow> bool" where
  "silent l \<longleftrightarrow> \<not> closes l \<and>
     list_all (\<lambda>f. field_check f l = None) [''NAME'', ''LAYOUT'', ''VERSION'', ''BROWSERS'', ''DESCRIPTION'', ''DEPENDS'']"

lemma find_loop_silent: "silent l \<Longrightarrow> list_all silent (lines (q_data q)) \<Longrightarrow> find_loop l q = None"
proof (induction "length (q_data q)" arbitrary: l q rule: less_induct)
  case less
  have step: "line_step l q = Inr (None, q)" using less(2) by (intro line_step_no_field) (auto simp: silent_def)
  obtain l1 d where g: "get_line (q_data q) = (l1, d)" by (cases "get_line (q_data q)")
  then have u: "find_loop l q = find_loop l1 (q\<lparr>q_data := d\<rparr>)"
    by (subst find_loop.simps) (simp add: step next_line_def)
  show ?case
  proof (cases "q_data q = []")
    case True
    with g have "l1 = []" "d = []" by (simp_all add: get_line_Nil)
    with u find_loop_at_end [of "[]" "q\<lparr>q_data := []\<rparr>"] show ?thesis by (cases "find_loop [] (q\<lparr>q_data := []\<rparr>)") auto
  next
    case False
    then have "length d < length (q_data q)" using get_line_shorter [of "q_data q"] g by simp
    moreover have "silent l1" "list_all silent (lines d)" using less(3) False g by (simp_all add: lines.simps [of "q_data q"])
    ultimately show ?thesis using less(1) [of "q\<lparr>q_data := d\<rparr>" l1] u by simp
  qed
qed

lemma find_loop_closes: "closes l \<or> list_ex closes (lines (q_data q)) \<Longrightarrow> \<exists>r. find_loop l q = Some r"
proof (induction "length (q_data q)" arbitrary: l q rule: less_induct)
  case less
  show ?case
  proof (cases "\<exists>q1. line_step l q = Inr (None, q1)")
    case False
    then show ?thesis by (subst find_loop.simps) (auto split: sum.splits prod.splits option.splits)
  next
    case True
    then obtain q1 where step: "line_step l q = Inr (None, q1)" by blast
    then have q1: "q_data q1 = q_data q" and "\<not> closes l"
      using line_step_data [OF step] by (auto simp: line_step_def result_simps split: if_splits prod.splits)
    with less(2) have ex: "list_ex closes (lines (q_data q))" by blast
    then have ne: "q_data q \<noteq> []" by (auto simp: lines.simps)
    obtain l1 d where g: "get_line (q_data q) = (l1, d)" by (cases "get_line (q_data q)")
    have "find_loop l q = find_loop l1 (q1\<lparr>q_data := d\<rparr>)"
      by (subst find_loop.simps) (simp add: step next_line_def q1 g)
    moreover have "length d < length (q_data q)" using get_line_shorter [OF ne] g by simp
    moreover have "closes l1 \<or> list_ex closes (lines d)" using ex ne g by (simp add: lines.simps [of "q_data q"])
    ultimately show ?thesis using less(1) [of "q1\<lparr>q_data := d\<rparr>" l1] by simp
  qed
qed

text \<open>C31.
  \<open>find_version()\<close> returns on every file with a line that contains the end of a comment.
\<close>
theorem find_version_returns:
  assumes "list_ex closes (lines data)"
  shows "\<exists>r. find_version data q = Some r"
proof -
  have "data \<noteq> []" using assms by (auto simp: lines.simps)
  then show ?thesis
    using assms find_loop_closes [of "fst (get_line data)" "q\<lparr>q_data := snd (get_line data)\<rparr>"]
    by (auto simp: find_version_def next_line_def lines.simps [of data] split: prod.splits)
qed

theorem find_version_returns_witness:
  "\<exists>r. find_version ''/* Version: 1.2 */'' new_finder = Some r"
  by (rule find_version_returns) code_simp

text \<open>
  \<open>find_version()\<close> never returns on a file that starts a comment and has neither its end nor a field:
  after the last line it reads empty lines forever.
\<close>
theorem find_version_hangs:
  assumes "list_all silent (lines data)" "starts_with ''/*'' (hd (lines data))" "data \<noteq> []"
  shows "find_version data q = None"
  using assms find_loop_silent [of "fst (get_line data)" "q\<lparr>q_data := snd (get_line data)\<rparr>"]
  by (auto simp: find_version_def next_line_def lines.simps [of data] split: prod.splits)

theorem find_version_hangs_witness: "find_version ''/* Copyright 2018'' new_finder = None"
  by (rule find_version_hangs) (code_simp, code_simp, simp)

text \<open>What the class reads from a complete comment.\<close>

definition sample_source :: string where
  "sample_source = ''/*'' @ [CHR 0x0A] @ '' * Name: editor'' @ [CHR 0x0A] @ '' * Version: 1.02.0'' @ [CHR 0x0A]
     @ '' * Depends: jquery (>= 1.0, < 2), output'' @ [CHR 0x0A] @ '' */'' @ [CHR 0x0A]"

definition found :: "(bool \<times> finder) result option \<Rightarrow> (string \<times> string \<times> string list \<times> string list) option" where
  "found r = (case r of
     Some (Inr (True, q)) \<Rightarrow> Some (n_name (q_name q), get_version_string (q_version q), map n_name (q_browsers q),
       map get_dependency_string (q_depends q))
   | _ \<Rightarrow> None)"

lemma sample_source_found:
  "found (find_version sample_source new_finder)
     = Some (''editor'', ''1.2'', [''all''], [''jquery (>= 1, < 2)'', ''output''])"
  by code_simp

end
