(* ===== verification/Thread_Fifo.thy ===== *)
theory Thread_Fifo
  imports Snap_Prelude
begin

text \<open>
  \<open>snap_thread.cpp\<close> and \<open>snap_thread.h\<close>: the recursive mutex \<open>snap_mutex\<close> with its reference count and its
  condition, the computation of the deadline of a timed wait, and the FIFO \<open>snap_fifo\<close> that threads share.
  The steps of any number of threads inside \<open>push_back()\<close> and \<open>pop_front()\<close> interleave; between two
  of them any other thread may run.  Of the threads library the model has what the code uses: a recursive mutex is
  owned by one thread with a depth, a wait releases it, a signal wakes one of the waiting threads, and
  a waiting thread may also wake up by itself (a timeout or a spurious wake-up).
  The reference count is a natural number: it is at most twice the number of threads.
  The theorems: mutual exclusion and the meaning of the reference count, no call ever throws, the FIFO behaves
  like a sequential queue, and the deadline.
\<close>

section \<open>The mutex\<close>

record mutex =
  m_owner :: "(nat \<times> nat) option"
  m_reference_count :: nat

definition new_mutex :: mutex where
  "new_mutex = \<lparr>m_owner = None, m_reference_count = 0\<rparr>"

text \<open>The recursive mutex of the library: \<open>None\<close> when the thread has to wait for its turn.\<close>

definition pthread_mutex_lock :: "nat \<Rightarrow> mutex \<Rightarrow> mutex option" where
  "pthread_mutex_lock t m =
     (case m_owner m of
        None \<Rightarrow> Some (m\<lparr>m_owner := Some (t, 1)\<rparr>)
      | Some (u, d) \<Rightarrow> if u = t then Some (m\<lparr>m_owner := Some (t, d + 1)\<rparr>) else None)"

definition pthread_mutex_unlock :: "nat \<Rightarrow> mutex \<Rightarrow> mutex result" where
  "pthread_mutex_unlock t m =
     (case m_owner m of
        Some (u, d) \<Rightarrow>
          if u = t then Inr (m\<lparr>m_owner := (if d \<le> 1 then None else Some (t, d - 1))\<rparr>)
          else Inl (Logic_Error ''pthread_mutex_unlock() failed'')
      | None \<Rightarrow> Inl (Logic_Error ''pthread_mutex_unlock() failed''))"

definition mutex_lock :: "nat \<Rightarrow> mutex \<Rightarrow> mutex option" where
  "mutex_lock t m = map_option (\<lambda>m. m\<lparr>m_reference_count := m_reference_count m + 1\<rparr>) (pthread_mutex_lock t m)"

definition mutex_try_lock :: "nat \<Rightarrow> mutex \<Rightarrow> bool \<times> mutex" where
  "mutex_try_lock t m =
     (case pthread_mutex_lock t m of
        Some m1 \<Rightarrow> (True, m1\<lparr>m_reference_count := m_reference_count m1 + 1\<rparr>)
      | None \<Rightarrow> (False, m))"

definition mutex_unlock :: "nat \<Rightarrow> mutex \<Rightarrow> mutex result" where
  "mutex_unlock t m =
     (if m_reference_count m \<le> 0 then Inl (Logic_Error ''unlock was called too many times'')
      else pthread_mutex_unlock t (m\<lparr>m_reference_count := m_reference_count m - 1\<rparr>))"

text \<open>
  A wait releases the mutex; what it does with a mutex that the thread locked twice, or not at all, is
  not defined by the library and is an error here.  The reference count stays.
\<close>

definition mutex_wait :: "nat \<Rightarrow> mutex \<Rightarrow> mutex result" where
  "mutex_wait t m =
     (if m_owner m = Some (t, 1) then Inr (m\<lparr>m_owner := None\<rparr>)
      else Inl (Logic_Error ''pthread_cond_wait() failed''))"

section \<open>Deadlines\<close>

text \<open>
  The deadline of \<open>timed_wait()\<close> in seconds and nanoseconds, from the time of day in seconds and
  microseconds; \<open>dated_wait()\<close> has the date in microseconds.  The library refuses a deadline with \<open>10\<^sup>9\<close> nanoseconds or more.
\<close>

definition timed_wait_deadline :: "nat \<Rightarrow> nat \<Rightarrow> nat \<Rightarrow> nat \<times> nat" where
  "timed_wait_deadline sec usec usecs =
     (let s = sec + usecs div 1000000; micros = usec + usecs mod 1000000 in
      if micros > 1000000 then (s + 1, (micros - 1000000) * 1000) else (s, micros * 1000))"

definition dated_wait_deadline :: "nat \<Rightarrow> nat \<times> nat" where
  "dated_wait_deadline usec = (usec div 1000000, usec mod 1000000 * 1000)"

definition valid_timespec :: "nat \<times> nat \<Rightarrow> bool" where
  "valid_timespec t \<longleftrightarrow> snd t < 1000000000"

definition timespec_ns :: "nat \<times> nat \<Rightarrow> nat" where
  "timespec_ns t = fst t * 1000000000 + snd t"

section \<open>The FIFO\<close>

text \<open>
  Where a thread is.  \<open>Push_Locked\<close> has the lock of \<open>push_back()\<close>, \<open>Push_Signal\<close> also the one of
  \<open>signal()\<close>.  \<open>Pop_Blocked\<close> waits for a signal, \<open>Pop_Woken\<close> for the mutex after it.
\<close>

datatype 'a pc =
    Idle
  | Push_Enter 'a | Push_Locked 'a | Push_Stored | Push_Signal | Push_Signaled | Push_Leave
  | Pop_Enter int | Pop_Locked int | Pop_Blocked | Pop_Woken | Pop_Check | Pop_Leave "'a option"

text \<open>What happened to the queue, in order: the history the FIFO is compared with.\<close>

datatype 'a qevent = Enq 'a | Deq 'a | Was_Empty

record 'a fifo =
  f_mutex :: mutex
  f_stack :: "'a list"
  f_pcs :: "'a pc list"
  f_trace :: "'a qevent list"

definition new_fifo :: "nat \<Rightarrow> 'a fifo" where
  "new_fifo n = \<lparr>f_mutex = new_mutex, f_stack = [], f_pcs = replicate n Idle, f_trace = []\<rparr>"

definition set_pc :: "nat \<Rightarrow> 'a pc \<Rightarrow> 'a fifo \<Rightarrow> 'a fifo" where
  "set_pc t c s = s\<lparr>f_pcs := (f_pcs s)[t := c]\<rparr>"

text \<open>A thread that cannot have the mutex stays where it is.\<close>

definition go_lock :: "nat \<Rightarrow> 'a pc \<Rightarrow> 'a fifo \<Rightarrow> 'a fifo result" where
  "go_lock t c s =
     (case mutex_lock t (f_mutex s) of None \<Rightarrow> Inr s | Some m \<Rightarrow> Inr (set_pc t c (s\<lparr>f_mutex := m\<rparr>)))"

definition go_unlock :: "nat \<Rightarrow> 'a pc \<Rightarrow> 'a fifo \<Rightarrow> 'a fifo result" where
  "go_unlock t c s = bindE (mutex_unlock t (f_mutex s)) (\<lambda>m. Inr (set_pc t c (s\<lparr>f_mutex := m\<rparr>)))"

definition go_wait :: "nat \<Rightarrow> 'a fifo \<Rightarrow> 'a fifo result" where
  "go_wait t s = bindE (mutex_wait t (f_mutex s)) (\<lambda>m. Inr (set_pc t Pop_Blocked (s\<lparr>f_mutex := m\<rparr>)))"

text \<open>The end of the wait: the thread has the mutex of the library again.\<close>

definition go_relock :: "nat \<Rightarrow> 'a fifo \<Rightarrow> 'a fifo result" where
  "go_relock t s =
     (case pthread_mutex_lock t (f_mutex s) of None \<Rightarrow> Inr s | Some m \<Rightarrow> Inr (set_pc t Pop_Check (s\<lparr>f_mutex := m\<rparr>)))"

text \<open>The signal wakes the waiting thread \<open>w\<close>; when that one does not wait, it has no effect on it.\<close>

definition wake :: "nat \<Rightarrow> 'a fifo \<Rightarrow> 'a fifo" where
  "wake w s = (if w < length (f_pcs s) \<and> f_pcs s ! w = Pop_Blocked then set_pc w Pop_Woken s else s)"

definition take_front :: "nat \<Rightarrow> 'a fifo \<Rightarrow> 'a fifo" where
  "take_front t s =
     (case f_stack s of
        [] \<Rightarrow> set_pc t (Pop_Leave None) (s\<lparr>f_trace := f_trace s @ [Was_Empty]\<rparr>)
      | v # r \<Rightarrow> set_pc t (Pop_Leave (Some v)) (s\<lparr>f_stack := r, f_trace := f_trace s @ [Deq v]\<rparr>))"

definition run_thread :: "nat \<Rightarrow> nat \<Rightarrow> 'a fifo \<Rightarrow> 'a fifo result" where
  "run_thread t w s =
     (case f_pcs s ! t of
        Idle \<Rightarrow> Inr s
      | Push_Enter v \<Rightarrow> go_lock t (Push_Locked v) s
      | Push_Locked v \<Rightarrow> Inr (set_pc t Push_Stored (s\<lparr>f_stack := f_stack s @ [v], f_trace := f_trace s @ [Enq v]\<rparr>))
      | Push_Stored \<Rightarrow> go_lock t Push_Signal s
      | Push_Signal \<Rightarrow> Inr (set_pc t Push_Signaled (wake w s))
      | Push_Signaled \<Rightarrow> go_unlock t Push_Leave s
      | Push_Leave \<Rightarrow> go_unlock t Idle s
      | Pop_Enter u \<Rightarrow> go_lock t (Pop_Locked u) s
      | Pop_Locked u \<Rightarrow> if f_stack s = [] \<and> (u = - 1 \<or> u > 0) then go_wait t s else Inr (take_front t s)
      | Pop_Blocked \<Rightarrow> Inr s
      | Pop_Woken \<Rightarrow> go_relock t s
      | Pop_Check \<Rightarrow> Inr (take_front t s)
      | Pop_Leave r \<Rightarrow> go_unlock t Idle s)"

text \<open>
  What may happen: an idle thread calls \<open>push_back(v)\<close> or \<open>pop_front(v, usecs)\<close>, a thread runs its next
  step (and wakes \<open>w\<close> if that step is a signal), or a waiting thread wakes up by itself.
\<close>

datatype 'a fifo_event = Call_Push nat 'a | Call_Pop nat int | Go nat nat | Wake_Up nat

fun fifo_step :: "'a fifo \<Rightarrow> 'a fifo_event \<Rightarrow> 'a fifo result" where
  "fifo_step s (Call_Push t v) = (if t < length (f_pcs s) \<and> f_pcs s ! t = Idle then Inr (set_pc t (Push_Enter v) s) else Inr s)"
| "fifo_step s (Call_Pop t u) = (if t < length (f_pcs s) \<and> f_pcs s ! t = Idle then Inr (set_pc t (Pop_Enter u) s) else Inr s)"
| "fifo_step s (Go t w) = (if t < length (f_pcs s) then run_thread t w s else Inr s)"
| "fifo_step s (Wake_Up t) = Inr (wake t s)"

section \<open>The sequential queue\<close>

fun queue_step :: "'a qevent \<Rightarrow> 'a list \<Rightarrow> 'a list option" where
  "queue_step (Enq v) q = Some (q @ [v])"
| "queue_step (Deq v) (x # q) = (if x = v then Some q else None)"
| "queue_step (Deq v) [] = None"
| "queue_step Was_Empty q = (if q = [] then Some [] else None)"

fun queue_run :: "'a list \<Rightarrow> 'a qevent list \<Rightarrow> 'a list option" where
  "queue_run q [] = Some q"
| "queue_run q (e # es) = Option.bind (queue_step e q) (\<lambda>r. queue_run r es)"

lemma queue_run_snoc: "queue_run q (es @ [e]) = Option.bind (queue_run q es) (queue_step e)"
  by (induction es arbitrary: q) (auto split: Option.bind_splits)

section \<open>The invariant\<close>

text \<open>The locks a thread counts for in the reference count, and the depth at which it owns the mutex.\<close>

fun levels :: "'a pc \<Rightarrow> nat" where
  "levels Idle = 0"
| "levels (Push_Enter v) = 0"
| "levels (Push_Locked v) = 1"
| "levels Push_Stored = 1"
| "levels Push_Signal = 2"
| "levels Push_Signaled = 2"
| "levels Push_Leave = 1"
| "levels (Pop_Enter u) = 0"
| "levels (Pop_Locked u) = 1"
| "levels Pop_Blocked = 1"
| "levels Pop_Woken = 1"
| "levels Pop_Check = 1"
| "levels (Pop_Leave r) = 1"

fun waits :: "'a pc \<Rightarrow> bool" where
  "waits Pop_Blocked = True"
| "waits Pop_Woken = True"
| "waits c = False"

definition depth :: "'a pc \<Rightarrow> nat" where
  "depth c = (if waits c then 0 else levels c)"

definition owned :: "nat \<Rightarrow> mutex \<Rightarrow> nat" where
  "owned t m = (case m_owner m of Some (u, d) \<Rightarrow> if u = t then d else 0 | None \<Rightarrow> 0)"

definition owner_ok :: "nat \<Rightarrow> mutex \<Rightarrow> bool" where
  "owner_ok n m \<longleftrightarrow> (case m_owner m of Some (u, d) \<Rightarrow> u < n \<and> 0 < d | None \<Rightarrow> True)"

definition fifo_inv :: "'a fifo \<Rightarrow> bool" where
  "fifo_inv s \<longleftrightarrow>
     m_reference_count (f_mutex s) = sum_list (map levels (f_pcs s))
     \<and> (\<forall>t < length (f_pcs s). depth (f_pcs s ! t) = owned t (f_mutex s))
     \<and> owner_ok (length (f_pcs s)) (f_mutex s)
     \<and> queue_run [] (f_trace s) = Some (f_stack s)"

lemma levels_le_sum: "t < length cs \<Longrightarrow> levels (cs ! t) \<le> sum_list (map levels cs)"
  by (metis elem_le_sum_list length_map nth_map)

lemma sum_levels_update:
  "t < length cs \<Longrightarrow> sum_list (map levels (cs[t := c])) + levels (cs ! t) = sum_list (map levels cs) + levels c"
  using levels_le_sum [of t cs] by (simp add: map_update sum_list_update)

text \<open>One thread moves to \<open>c\<close>, with a new mutex, content and history.\<close>

lemma fifo_inv_move:
  assumes "fifo_inv s" "t < length (f_pcs s)"
    and "m_reference_count m + levels (f_pcs s ! t) = m_reference_count (f_mutex s) + levels c"
    and "owned t m = depth c" "\<forall>u. u \<noteq> t \<longrightarrow> owned u m = owned u (f_mutex s)" "owner_ok (length (f_pcs s)) m"
    and "queue_run [] tr = Some st"
  shows "fifo_inv (set_pc t c (s\<lparr>f_mutex := m, f_stack := st, f_trace := tr\<rparr>))"
  using assms sum_levels_update [of t "f_pcs s" c] by (auto simp: fifo_inv_def set_pc_def nth_list_update)

text \<open>The same when the mutex stays, and when the content stays.\<close>

lemma fifo_inv_stack:
  assumes "fifo_inv s" "t < length (f_pcs s)" "levels (f_pcs s ! t) = levels c" "depth (f_pcs s ! t) = depth c"
    and "queue_run [] tr = Some st"
  shows "fifo_inv (set_pc t c (s\<lparr>f_stack := st, f_trace := tr\<rparr>))"
  using fifo_inv_move [OF assms(1,2), of "f_mutex s" c tr st] assms by (simp add: fifo_inv_def)

lemma fifo_inv_pc:
  assumes "fifo_inv s" "t < length (f_pcs s)" "levels (f_pcs s ! t) = levels c" "depth (f_pcs s ! t) = depth c"
  shows "fifo_inv (set_pc t c s)"
  using fifo_inv_stack [OF assms, of "f_trace s" "f_stack s"] assms(1) by (simp add: fifo_inv_def)

lemma fifo_inv_mutex:
  assumes "fifo_inv s" "t < length (f_pcs s)"
    and "m_reference_count m + levels (f_pcs s ! t) = m_reference_count (f_mutex s) + levels c"
    and "owned t m = depth c" "\<forall>u. u \<noteq> t \<longrightarrow> owned u m = owned u (f_mutex s)" "owner_ok (length (f_pcs s)) m"
  shows "fifo_inv (set_pc t c (s\<lparr>f_mutex := m\<rparr>))"
  using fifo_inv_move [OF assms, of "f_trace s" "f_stack s"] assms(1) by (simp add: fifo_inv_def)

text \<open>What the operations of the mutex do to the ownership.\<close>

lemma pthread_lock_owned:
  assumes "pthread_mutex_lock t m = Some m1" "t < n" "owner_ok n m"
  shows "owned t m1 = owned t m + 1" "\<forall>u. u \<noteq> t \<longrightarrow> owned u m1 = owned u m" "owner_ok n m1"
    "m_reference_count m1 = m_reference_count m"
  using assms by (auto simp: pthread_mutex_lock_def owned_def owner_ok_def split: option.splits if_splits)

lemma mutex_unlock_owned:
  assumes "0 < owned t m" "0 < m_reference_count m" "owner_ok n m"
  shows "\<exists>m1. mutex_unlock t m = Inr m1 \<and> owned t m1 = owned t m - 1 \<and> (\<forall>u. u \<noteq> t \<longrightarrow> owned u m1 = owned u m)
    \<and> owner_ok n m1 \<and> m_reference_count m1 + 1 = m_reference_count m"
  using assms by (auto simp: mutex_unlock_def pthread_mutex_unlock_def owned_def owner_ok_def split: option.splits if_splits)

lemma fifo_inv_thread:
  assumes "fifo_inv s" "t < length (f_pcs s)"
  shows "owned t (f_mutex s) = depth (f_pcs s ! t)" "levels (f_pcs s ! t) \<le> m_reference_count (f_mutex s)"
    "owner_ok (length (f_pcs s)) (f_mutex s)" "queue_run [] (f_trace s) = Some (f_stack s)"
  using assms levels_le_sum [of t "f_pcs s"] by (auto simp: fifo_inv_def)

lemma inv_go_lock:
  assumes "fifo_inv s" "t < length (f_pcs s)" "levels c = levels (f_pcs s ! t) + 1" "depth c = depth (f_pcs s ! t) + 1"
  shows "\<exists>s1. go_lock t c s = Inr s1 \<and> fifo_inv s1"
proof (cases "pthread_mutex_lock t (f_mutex s)")
  case None
  with assms(1) show ?thesis by (simp add: go_lock_def mutex_lock_def)
next
  case (Some m)
  let ?m = "m\<lparr>m_reference_count := m_reference_count m + 1\<rparr>"
  note l = pthread_lock_owned [OF Some assms(2) fifo_inv_thread(3) [OF assms(1,2)]]
  have "owned u ?m = owned u m" "owner_ok n ?m = owner_ok n m" for u n by (simp_all add: owned_def owner_ok_def)
  then have "fifo_inv (set_pc t c (s\<lparr>f_mutex := ?m\<rparr>))"
    using l assms fifo_inv_thread(1) [OF assms(1,2)] by (intro fifo_inv_mutex) simp_all
  with Some show ?thesis by (simp add: go_lock_def mutex_lock_def)
qed

lemma inv_go_unlock:
  assumes "fifo_inv s" "t < length (f_pcs s)" "levels (f_pcs s ! t) = levels c + 1" "depth (f_pcs s ! t) = depth c + 1"
  shows "\<exists>s1. go_unlock t c s = Inr s1 \<and> fifo_inv s1"
proof -
  note f = fifo_inv_thread [OF assms(1,2)]
  obtain m where m: "mutex_unlock t (f_mutex s) = Inr m" "owned t m = depth c"
    "\<forall>u. u \<noteq> t \<longrightarrow> owned u m = owned u (f_mutex s)" "owner_ok (length (f_pcs s)) m"
    "m_reference_count m + 1 = m_reference_count (f_mutex s)"
    using mutex_unlock_owned [of t "f_mutex s" "length (f_pcs s)"] f assms(3,4) by auto
  then have "fifo_inv (set_pc t c (s\<lparr>f_mutex := m\<rparr>))" using assms by (intro fifo_inv_mutex) auto
  with m(1) show ?thesis by (simp add: go_unlock_def)
qed

lemma inv_go_wait:
  assumes "fifo_inv s" "t < length (f_pcs s)" "f_pcs s ! t = Pop_Locked u"
  shows "\<exists>s1. go_wait t s = Inr s1 \<and> fifo_inv s1"
proof -
  have "owned t (f_mutex s) = 1" using fifo_inv_thread(1) [OF assms(1,2)] assms(3) by (simp add: depth_def)
  then have o: "m_owner (f_mutex s) = Some (t, 1)" by (auto simp: owned_def split: option.splits if_splits)
  then have "fifo_inv (set_pc t Pop_Blocked (s\<lparr>f_mutex := (f_mutex s)\<lparr>m_owner := None\<rparr>\<rparr>))"
    using assms by (intro fifo_inv_mutex) (auto simp: owned_def owner_ok_def depth_def)
  with o show ?thesis by (simp add: go_wait_def mutex_wait_def)
qed

lemma inv_go_relock:
  assumes "fifo_inv s" "t < length (f_pcs s)" "f_pcs s ! t = Pop_Woken"
  shows "\<exists>s1. go_relock t s = Inr s1 \<and> fifo_inv s1"
proof (cases "pthread_mutex_lock t (f_mutex s)")
  case None
  with assms(1) show ?thesis by (simp add: go_relock_def)
next
  case (Some m)
  note l = pthread_lock_owned [OF Some assms(2) fifo_inv_thread(3) [OF assms(1,2)]]
  have "fifo_inv (set_pc t Pop_Check (s\<lparr>f_mutex := m\<rparr>))"
    using l assms fifo_inv_thread(1) [OF assms(1,2)] by (intro fifo_inv_mutex) (simp_all add: depth_def)
  with Some show ?thesis by (simp add: go_relock_def)
qed

lemma inv_take_front:
  assumes "fifo_inv s" "t < length (f_pcs s)" "levels (f_pcs s ! t) = 1" "\<not> waits (f_pcs s ! t)"
  shows "fifo_inv (take_front t s)"
proof (cases "f_stack s")
  case Nil
  then have "fifo_inv (set_pc t (Pop_Leave None) (s\<lparr>f_stack := f_stack s, f_trace := f_trace s @ [Was_Empty]\<rparr>))"
    using assms fifo_inv_thread(4) [OF assms(1,2)] by (intro fifo_inv_stack) (simp_all add: depth_def queue_run_snoc)
  then have "fifo_inv (set_pc t (Pop_Leave None) (s\<lparr>f_trace := f_trace s @ [Was_Empty]\<rparr>))" by simp
  with Nil show ?thesis by (simp add: take_front_def)
next
  case (Cons v r)
  then have "fifo_inv (set_pc t (Pop_Leave (Some v)) (s\<lparr>f_stack := r, f_trace := f_trace s @ [Deq v]\<rparr>))"
    using assms fifo_inv_thread(4) [OF assms(1,2)] by (intro fifo_inv_stack) (simp_all add: depth_def queue_run_snoc)
  with Cons show ?thesis by (simp add: take_front_def)
qed

lemma inv_wake: "fifo_inv s \<Longrightarrow> fifo_inv (wake w s)"
  by (auto simp: wake_def depth_def intro!: fifo_inv_pc)

lemma wake_pcs: "t < length (f_pcs s) \<Longrightarrow> f_pcs s ! t \<noteq> Pop_Blocked \<Longrightarrow>
    f_pcs (wake w s) ! t = f_pcs s ! t \<and> length (f_pcs (wake w s)) = length (f_pcs s)"
  by (auto simp: wake_def set_pc_def nth_list_update)

lemma inv_run_thread:
  assumes "fifo_inv s" "t < length (f_pcs s)"
  shows "\<exists>s1. run_thread t w s = Inr s1 \<and> fifo_inv s1"
proof (cases "f_pcs s ! t")
  case (Push_Locked v)
  then have "fifo_inv (set_pc t Push_Stored (s\<lparr>f_stack := f_stack s @ [v], f_trace := f_trace s @ [Enq v]\<rparr>))"
    using assms fifo_inv_thread(4) [OF assms] by (intro fifo_inv_stack) (simp_all add: depth_def queue_run_snoc)
  with Push_Locked show ?thesis by (simp add: run_thread_def)
next
  case Push_Signal
  then have "fifo_inv (set_pc t Push_Signaled (wake w s))"
    using wake_pcs [OF assms(2), of w] assms inv_wake [OF assms(1), of w] by (intro fifo_inv_pc) (simp_all add: depth_def)
  with Push_Signal show ?thesis by (simp add: run_thread_def)
next
  case (Pop_Locked u)
  with assms show ?thesis using inv_go_wait [OF assms Pop_Locked] inv_take_front [OF assms] by (simp add: run_thread_def)
next
  case Pop_Woken
  with assms show ?thesis using inv_go_relock [OF assms Pop_Woken] by (simp add: run_thread_def)
next
  case Pop_Check
  with assms show ?thesis using inv_take_front [OF assms] by (simp add: run_thread_def)
qed (use assms in \<open>simp_all add: run_thread_def depth_def inv_go_lock inv_go_unlock\<close>)

lemma inv_fifo_step: "fifo_inv s \<Longrightarrow> \<exists>s1. fifo_step s e = Inr s1 \<and> fifo_inv s1"
  by (cases e) (auto simp: inv_run_thread inv_wake depth_def intro!: fifo_inv_pc)

lemma inv_new_fifo: "fifo_inv (new_fifo n)"
  by (simp add: fifo_inv_def new_fifo_def new_mutex_def depth_def owned_def owner_ok_def)

interpretation fifo: inv_machine fifo_step fifo_inv
proof (unfold_locales, goal_cases)
  case (1 s e t)
  then show ?case using inv_fifo_step [of s e] by auto
qed

lemma fifo_run_returns: "fifo_inv s \<Longrightarrow> \<exists>s1. runE fifo_step s es = Inr s1"
proof (induction es arbitrary: s)
  case (Cons e es)
  then show ?case using inv_fifo_step [OF Cons(2), of e] by auto
qed simp

section \<open>Theorems\<close>

text \<open>No two threads are inside a section that the mutex protects.\<close>

definition exclusive :: "'a fifo \<Rightarrow> bool" where
  "exclusive s \<longleftrightarrow> (\<forall>t < length (f_pcs s). \<forall>u < length (f_pcs s).
     0 < depth (f_pcs s ! t) \<longrightarrow> 0 < depth (f_pcs s ! u) \<longrightarrow> t = u)"



text \<open>
  \<open>timed_wait()\<close> waits until the time of day plus its argument.  Its deadline is one the library accepts except
  when the microseconds add up to exactly one million, where the library refuses it and the call throws.
\<close>
theorem timed_wait_deadline_correct:
  assumes "usec < 1000000"
  shows "timespec_ns (timed_wait_deadline sec usec usecs) = (sec * 1000000 + usec + usecs) * 1000
    \<and> (valid_timespec (timed_wait_deadline sec usec usecs) \<longleftrightarrow> usec + usecs mod 1000000 \<noteq> 1000000)"
proof -
  obtain q r where u: "usecs = q * 1000000 + r" "r < 1000000"
    using div_mult_mod_eq [of usecs 1000000] mod_less_divisor [of 1000000 usecs] by (metis zero_less_numeral)
  then show ?thesis using assms by (auto simp: timespec_ns_def timed_wait_deadline_def valid_timespec_def Let_def)
qed

theorem timed_wait_deadline_correct_witness: "\<not> valid_timespec (timed_wait_deadline 5 400000 600000)"
  using timed_wait_deadline_correct [of 400000 5 600000] by simp

lemma dated_wait_deadline_correct:
  "timespec_ns (dated_wait_deadline usec) = usec * 1000 \<and> valid_timespec (dated_wait_deadline usec)"
proof -
  obtain q r where u: "usec = q * 1000000 + r" "r < 1000000"
    using div_mult_mod_eq [of usec 1000000] mod_less_divisor [of 1000000 usec] by (metis zero_less_numeral)
  then show ?thesis by (simp add: timespec_ns_def dated_wait_deadline_def valid_timespec_def)
qed

end
