(* ===== verification/Thread_Control.thy ===== *)
theory Thread_Control
  imports Snap_Prelude
begin

text \<open>
  \<open>snap_thread.cpp\<close>, the class \<open>snap_thread\<close>: a controller that starts and stops a thread, and the thread.
  Every access to the flags is in a section that the mutex of the object protects, so a step of the relation is
  one such section; the controller waits on the condition of the mutex between two of them.  A
  waiting controller is awake after a signal, or spontaneously.  The runner is a parameter of the steps: when its
  \<open>run()\<close> returns, and whether it throws.  An exception that is not a \<open>std::exception\<close> ends the process and
  is not represented.
  The theorems: no wake-up is lost, a thread whose \<open>run()\<close> returns is always stopped in a bounded number
  of steps, and the two ways in which \<open>stop()\<close> never returns: the runner threw, or the thread was not created.
\<close>

section \<open>State and operations\<close>

datatype child_pc = No_Thread | Created | In_Run | Finished | Died

datatype ctrl_pc = Free | Start_Blocked | Start_Awake | Stop_Blocked | Stop_Awake

datatype call_result = Started bool | Stopped | Rethrown string

record thread =
  f_running :: bool
  f_started :: bool
  f_stopping :: bool
  f_exception :: "string option"
  t_child :: child_pc
  t_ctrl :: ctrl_pc
  t_results :: "call_result list"

definition new_thread :: thread where
  "new_thread = \<lparr>f_running = False, f_started = False, f_stopping = False, f_exception = None,
     t_child = No_Thread, t_ctrl = Free, t_results = []\<rparr>"

definition returns :: "call_result \<Rightarrow> thread \<Rightarrow> thread" where
  "returns r t = t\<lparr>t_ctrl := Free, t_results := t_results t @ [r]\<rparr>"

definition is_running :: "thread \<Rightarrow> bool" where
  "is_running t = f_running t"

definition is_stopping :: "thread \<Rightarrow> bool" where
  "is_stopping t = f_stopping t"

text \<open>\<open>continue_running()\<close> of a runner, which may have no controller.\<close>

definition continue_running :: "thread option \<Rightarrow> bool" where
  "continue_running t = (case t of None \<Rightarrow> True | Some t \<Rightarrow> \<not> is_stopping t)"

text \<open>\<open>signal()\<close>, and a wake-up without a signal.\<close>

definition signal :: "thread \<Rightarrow> thread" where
  "signal t =
     (case t_ctrl t of
        Start_Blocked \<Rightarrow> t\<lparr>t_ctrl := Start_Awake\<rparr>
      | Stop_Blocked \<Rightarrow> t\<lparr>t_ctrl := Stop_Awake\<rparr>
      | _ \<Rightarrow> t)"

text \<open>The test of the loop of \<open>start()\<close>: return or wait.\<close>

definition start_check :: "thread \<Rightarrow> thread" where
  "start_check t = (if f_started t then returns (Started True) t else t\<lparr>t_ctrl := Start_Blocked\<rparr>)"

definition start :: "bool \<Rightarrow> bool \<Rightarrow> thread \<Rightarrow> thread" where
  "start ready created t =
     (if f_running t then returns (Started False) t
      else if \<not> ready then returns (Started False) t
      else
        let t1 = t\<lparr>f_running := True, f_started := False, f_stopping := False\<rparr> in
        if \<not> created then returns (Started False) t1
        else start_check (t1\<lparr>t_child := Created\<rparr>))"

text \<open>The loop of \<open>stop()\<close>, and what follows it outside the section: the exception of the thread is thrown again.\<close>

definition stop_check :: "thread \<Rightarrow> thread" where
  "stop_check t =
     (if f_running t then t\<lparr>t_ctrl := Stop_Blocked\<rparr>
      else case f_exception t of None \<Rightarrow> returns Stopped t | Some e \<Rightarrow> returns (Rethrown e) t)"

definition stop :: "thread \<Rightarrow> thread" where
  "stop t = (if \<not> f_running t then returns Stopped t else stop_check (t\<lparr>f_stopping := True\<rparr>))"

text \<open>\<open>internal_run()\<close>: before \<open>run()\<close>, after it, and the handler of its exceptions.\<close>

definition run_begin :: "thread \<Rightarrow> thread" where
  "run_begin t = signal (t\<lparr>f_started := True, t_child := In_Run\<rparr>)"

definition run_end :: "thread \<Rightarrow> thread" where
  "run_end t = signal (t\<lparr>f_running := False, t_child := Finished\<rparr>)"

definition run_catch :: "string \<Rightarrow> thread \<Rightarrow> thread" where
  "run_catch e t = t\<lparr>f_exception := Some e, t_child := Died\<rparr>"

text \<open>\<open>kill()\<close>: whether the signal was sent, with the answer of the library as a parameter.\<close>

definition kill :: "bool \<Rightarrow> thread \<Rightarrow> bool" where
  "kill sent t = (f_running t \<and> sent)"

section \<open>Steps\<close>

inductive thread_step :: "thread \<Rightarrow> thread \<Rightarrow> bool" where
  call_start: "t_ctrl t = Free \<Longrightarrow> thread_step t (start ready created t)"
| call_stop: "t_ctrl t = Free \<Longrightarrow> thread_step t (stop t)"
| start_resume: "t_ctrl t = Start_Awake \<Longrightarrow> thread_step t (start_check t)"
| stop_resume: "t_ctrl t = Stop_Awake \<Longrightarrow> thread_step t (stop_check t)"
| child_begin: "t_child t = Created \<Longrightarrow> thread_step t (run_begin t)"
| child_end: "t_child t = In_Run \<Longrightarrow> thread_step t (run_end t)"
| child_throw: "t_child t = In_Run \<Longrightarrow> thread_step t (run_catch e t)"
| spurious: "thread_step t (signal t)"

inductive_cases thread_stepE: "thread_step t u"

inductive thread_reach :: "thread \<Rightarrow> bool" where
  initial: "thread_reach new_thread"
| step: "thread_reach t \<Longrightarrow> thread_step t u \<Longrightarrow> thread_reach u"

lemmas thread_defs = start_def stop_def start_check_def stop_check_def run_begin_def run_end_def run_catch_def
  signal_def returns_def Let_def

text \<open>
  The invariant: the flags follow the thread.  A controller that waits for the start has a thread that did not begin;
  one that waits for the end has a thread that runs, that died, or that was never created.
\<close>

definition thread_inv :: "thread \<Rightarrow> bool" where
  "thread_inv t \<longleftrightarrow>
     (t_child t \<in> {Created, In_Run, Died} \<longrightarrow> f_running t)
     \<and> (t_child t = Created \<longrightarrow> \<not> f_started t \<and> t_ctrl t \<in> {Start_Blocked, Start_Awake})
     \<and> (t_ctrl t = Start_Blocked \<longrightarrow> t_child t = Created)
     \<and> (t_ctrl t = Start_Awake \<and> t_child t \<noteq> Created \<longrightarrow> f_started t)
     \<and> (t_ctrl t = Stop_Blocked \<longrightarrow> f_running t)
     \<and> (t_child t = Died \<longleftrightarrow> f_exception t \<noteq> None)"

lemma thread_inv_step: "thread_step t u \<Longrightarrow> thread_inv t \<Longrightarrow> thread_inv u"
  by (erule thread_stepE; cases "t_ctrl t"; cases "t_child t")
    (simp_all add: thread_inv_def thread_defs split: if_splits option.splits)

lemma thread_reach_inv: "thread_reach t \<Longrightarrow> thread_inv t"
proof (induction rule: thread_reach.induct)
  case initial
  then show ?case by (simp add: thread_inv_def new_thread_def)
qed (rule thread_inv_step)

section \<open>Calls that return\<close>

text \<open>The steps of a call that goes on and of a thread whose \<open>run()\<close> returns.\<close>

inductive progress :: "thread \<Rightarrow> thread \<Rightarrow> bool" where
  go_start: "t_ctrl t = Start_Awake \<Longrightarrow> progress t (start_check t)"
| go_stop: "t_ctrl t = Stop_Awake \<Longrightarrow> progress t (stop_check t)"
| go_begin: "t_child t = Created \<Longrightarrow> progress t (run_begin t)"
| go_end: "t_child t = In_Run \<Longrightarrow> progress t (run_end t)"

inductive_cases progressE: "progress t u"

text \<open>Nobody is left who would reset \<open>f_running\<close>.\<close>

definition stuck :: "thread \<Rightarrow> bool" where
  "stuck t \<longleftrightarrow> f_running t \<and> t_child t \<notin> {Created, In_Run}"

fun child_rank :: "child_pc \<Rightarrow> nat" where
  "child_rank Created = 2"
| "child_rank In_Run = 1"
| "child_rank _ = 0"

fun ctrl_rank :: "ctrl_pc \<Rightarrow> nat" where
  "ctrl_rank Free = 0"
| "ctrl_rank Start_Blocked = 1"
| "ctrl_rank Stop_Blocked = 1"
| "ctrl_rank Start_Awake = 2"
| "ctrl_rank Stop_Awake = 2"

definition rank :: "thread \<Rightarrow> nat" where
  "rank t = 3 * child_rank (t_child t) + ctrl_rank (t_ctrl t)"

lemma rank_bound: "rank t \<le> 8"
  by (cases "t_child t"; cases "t_ctrl t") (simp_all add: rank_def)

lemma progress_step: "progress t u \<Longrightarrow> thread_step t u"
  by (erule progressE) (auto intro: thread_step.intros)

lemma progress_rank: "progress t u \<Longrightarrow> rank u < rank t"
  by (erule progressE; cases "t_ctrl t"; simp add: rank_def thread_defs split: option.splits)

lemma progress_not_stuck: "progress t u \<Longrightarrow> \<not> stuck t \<Longrightarrow> \<not> stuck u"
  by (erule progressE; cases "t_ctrl t"; simp add: stuck_def thread_defs split: option.splits if_splits)

lemma progress_enabled: "thread_inv t \<Longrightarrow> \<not> stuck t \<Longrightarrow> t_ctrl t \<noteq> Free \<Longrightarrow> \<exists>u. progress t u"
  by (cases "t_ctrl t") (auto simp: thread_inv_def stuck_def intro: progress.intros)

lemma progress_pow_rank: "(progress ^^ n) t u \<Longrightarrow> rank u + n \<le> rank t"
proof (induction n arbitrary: u)
  case (Suc n)
  then obtain v where "(progress ^^ n) t v" "progress v u" by auto
  with Suc(1) [of v] progress_rank [of v u] show ?case by simp
qed simp

lemma call_finishes:
  "thread_inv t \<Longrightarrow> \<not> stuck t \<Longrightarrow> \<exists>n u. (progress ^^ n) t u \<and> t_ctrl u = Free"
proof (induction "rank t" arbitrary: t rule: less_induct)
  case less
  show ?case
  proof (cases "t_ctrl t = Free")
    case True
    then show ?thesis by (intro exI [of _ 0]) auto
  next
    case False
    then obtain v where v: "progress t v" using progress_enabled less(2,3) by blast
    then obtain n u where u: "(progress ^^ n) v u" "t_ctrl u = Free"
      using less(1) [OF progress_rank [OF v]] thread_inv_step [OF progress_step [OF v]] less(2,3) progress_not_stuck [OF v] by blast
    have "(progress ^^ Suc n) t u" using v u(1) by (rule relpowp_Suc_I2)
    with u(2) show ?thesis by blast
  qed
qed

text \<open>C29.
  A call of \<open>start()\<close> or \<open>stop()\<close> in progress returns when the thread's \<open>run()\<close> returns: from
  every reachable state where the thread is still to begin or to end, or is already marked as not running, the call comes to
  its end, and no order of the steps takes more than eight of them.
\<close>
theorem calls_return:
  assumes "thread_reach t" "\<not> stuck t"
  shows "(\<exists>n u. (progress ^^ n) t u \<and> t_ctrl u = Free) \<and> (\<forall>n u. (progress ^^ n) t u \<longrightarrow> n \<le> 8)"
proof
  show "\<exists>n u. (progress ^^ n) t u \<and> t_ctrl u = Free" using call_finishes thread_reach_inv assms by blast
  show "\<forall>n u. (progress ^^ n) t u \<longrightarrow> n \<le> 8"
    using progress_pow_rank rank_bound by (meson add_leD2 order_trans)
qed

theorem calls_return_witness:
  "\<exists>n u. (progress ^^ n) (stop (start_check (run_begin (start True True new_thread)))) u \<and> t_ctrl u = Free"
proof -
  let ?a = "start True True new_thread"
  let ?b = "run_begin ?a"
  let ?c = "start_check ?b"
  have "thread_reach ?a" by (rule thread_reach.step [OF initial call_start]) (simp add: new_thread_def)
  then have "thread_reach ?b" by (rule thread_reach.step [OF _ child_begin]) (simp add: thread_defs new_thread_def)
  then have "thread_reach ?c" by (rule thread_reach.step [OF _ start_resume]) (simp add: thread_defs new_thread_def)
  then have "thread_reach (stop ?c)" by (rule thread_reach.step [OF _ call_stop]) (simp add: thread_defs new_thread_def)
  moreover have "\<not> stuck (stop ?c)" by (simp add: thread_defs new_thread_def stuck_def)
  ultimately show ?thesis using calls_return by blast
qed

section \<open>Calls that do not return\<close>

definition stop_waits :: "thread \<Rightarrow> bool" where
  "stop_waits t \<longleftrightarrow> stuck t \<and> t_ctrl t \<in> {Stop_Blocked, Stop_Awake}"

lemma stop_waits_step: "thread_step t u \<Longrightarrow> stop_waits t \<Longrightarrow> stop_waits u"
  by (erule thread_stepE; cases "t_ctrl t"; simp add: stop_waits_def stuck_def thread_defs)

lemma stop_waits_steps: "thread_step\<^sup>*\<^sup>* t u \<Longrightarrow> stop_waits t \<Longrightarrow> stop_waits u"
  by (induction rule: rtranclp_induct) (auto intro: stop_waits_step)

lemma stop_of_stuck: "stuck t \<Longrightarrow> stop_waits (stop t)"
  by (simp add: stop_waits_def stuck_def thread_defs)

text \<open>C30.
  \<open>stop()\<close> never returns after the runner threw an exception, or after the creation of the thread failed: no
  later state, whatever wake-ups there are, has a free controller.  The destructor calls \<open>stop()\<close> too.
\<close>
theorem stop_never_returns:
  assumes "thread_reach t" "t_child t = In_Run \<and> v = run_catch e t \<or> \<not> f_running t \<and> v = start True False t"
    and "thread_step\<^sup>*\<^sup>* (stop v) u"
  shows "t_ctrl u \<noteq> Free"
proof -
  have "thread_inv t" using thread_reach_inv assms(1) .
  then have "stuck v" using assms(2) by (auto simp: thread_inv_def stuck_def thread_defs)
  then have "stop_waits u" using stop_waits_steps [OF assms(3)] stop_of_stuck by blast
  then show ?thesis by (auto simp: stop_waits_def)
qed

theorem stop_never_returns_witness: "t_ctrl (stop (start True False new_thread)) \<noteq> Free"
  by (rule stop_never_returns [OF thread_reach.initial, of "start True False new_thread"]) (simp_all add: new_thread_def)

text \<open>
  The exception that \<open>internal_run()\<close> keeps for \<open>stop()\<close> is never thrown again.
\<close>
theorem exception_never_rethrown: "thread_reach t \<Longrightarrow> Rethrown e \<notin> set (t_results t)"
proof (induction rule: thread_reach.induct)
  case (step t u)
  have "thread_inv t" using thread_reach_inv step(1) .
  with step(2,3) show ?case
    by (elim thread_stepE; cases "t_ctrl t"; cases "f_exception t")
      (auto simp: thread_inv_def thread_defs split: if_splits)
qed (simp add: new_thread_def)

theorem exception_never_rethrown_witness: "Rethrown ''broken'' \<notin> set (t_results new_thread)"
  by (rule exception_never_rethrown) (rule thread_reach.initial)

end
