(* ===== verification/Inet_Text.thy ===== *)
theory Inet_Text
  imports Snap_Prelude
begin

text \<open>
  The helper functions of \<open>tcp_client_server.cpp\<close> on the text of an address: \<open>is_ipv4()\<close>, \<open>is_ipv6()\<close> and
  \<open>get_addr_port()\<close>.  A string stands for the characters before the NUL that ends it in C.
  \<open>QString::toInt()\<close> and \<open>getservbyname()\<close> are arguments.
  The theorems: what \<open>is_ipv4()\<close> accepts, in terms of the numbers between the periods, and the result of
  \<open>get_addr_port()\<close> on every form of its input.
\<close>

section \<open>Numbers\<close>

text \<open>
  The loops that read a number: \<open>None\<close> when the value reaches the limit, otherwise the value and the text
  after the digits.
\<close>

fun digits_run :: "(char \<Rightarrow> nat option) \<Rightarrow> nat \<Rightarrow> nat \<Rightarrow> nat \<Rightarrow> string \<Rightarrow> (nat \<times> string) option" where
  "digits_run dig base limit v [] = Some (v, [])"
| "digits_run dig base limit v (c # s) =
     (case dig c of
        None \<Rightarrow> Some (v, c # s)
      | Some d \<Rightarrow> if v * base + d \<ge> limit then None else digits_run dig base limit (v * base + d) s)"

definition dec_digit :: "char \<Rightarrow> nat option" where
  "dec_digit c = (if is_digit c then Some (of_char c - 48) else None)"

text \<open>The octal loop goes up to the character 8.\<close>

definition oct_digit :: "char \<Rightarrow> nat option" where
  "oct_digit c = (if CHR ''0'' \<le> c \<and> c \<le> CHR ''8'' then Some (of_char c - 48) else None)"

definition hex_digit :: "char \<Rightarrow> nat option" where
  "hex_digit c =
     (if is_digit c then Some (of_char c - 48)
      else if CHR ''a'' \<le> c \<and> c \<le> CHR ''f'' then Some (of_char c - 87)
      else if CHR ''A'' \<le> c \<and> c \<le> CHR ''F'' then Some (of_char c - 55)
      else None)"

text \<open>A hexadecimal number has at least one digit.\<close>

definition hex_number :: "nat \<Rightarrow> string \<Rightarrow> (nat \<times> string) option" where
  "hex_number limit s =
     (case s of
        [] \<Rightarrow> None
      | c # _ \<Rightarrow> if hex_digit c = None then None else digits_run hex_digit 16 limit 0 s)"

section \<open>IPv4\<close>

definition ipv4_number :: "string \<Rightarrow> (nat \<times> string) option" where
  "ipv4_number s =
     (case s of
        [] \<Rightarrow> None
      | c # r \<Rightarrow>
          if \<not> is_digit c then None
          else if c = CHR ''0'' then
            (case r of
               x # t \<Rightarrow> if x = CHR ''x'' \<or> x = CHR ''X'' then hex_number 0x100000000 t
                        else digits_run oct_digit 8 0x100000000 0 r
             | [] \<Rightarrow> Some (0, []))
          else digits_run dec_digit 10 0x100000000 0 s)"

function ipv4_values :: "nat \<Rightarrow> string \<Rightarrow> nat list option" where
  "ipv4_values pos s =
     (if pos \<ge> 4 then None
      else case ipv4_number s of
        None \<Rightarrow> None
      | Some (v, []) \<Rightarrow> Some [v]
      | Some (v, c # r) \<Rightarrow> if c = CHR ''.'' then map_option ((#) v) (ipv4_values (Suc pos) r) else None)"
  by pat_completeness auto

termination
  by (relation "measure (\<lambda>(pos, s). 4 - pos)") auto

declare ipv4_values.simps [simp del]

fun ipv4_limits :: "nat list \<Rightarrow> bool" where
  "ipv4_limits [a] = True"
| "ipv4_limits [a, b] = (a < 256 \<and> b < 0x1000000)"
| "ipv4_limits [a, b, c] = (a < 256 \<and> b < 256 \<and> c < 0x10000)"
| "ipv4_limits [a, b, c, d] = (a < 256 \<and> b < 256 \<and> c < 256 \<and> d < 256)"
| "ipv4_limits _ = False"

definition is_ipv4 :: "string \<Rightarrow> bool" where
  "is_ipv4 ip = (case ipv4_values 0 ip of None \<Rightarrow> False | Some vs \<Rightarrow> ipv4_limits vs)"

section \<open>IPv6\<close>

text \<open>The value of a number read as hexadecimal when its digits are taken as decimal ones.\<close>

definition hex_as_decimal :: "nat \<Rightarrow> nat option" where
  "hex_as_decimal v =
     (if v mod 16 \<ge> 10 \<or> v div 16 mod 16 \<ge> 10 \<or> v div 256 mod 16 \<ge> 10 then None
      else Some (v mod 16 + v div 16 mod 16 * 10 + v div 256 mod 16 * 100))"

text \<open>The other numbers of an IPv4 address at the end of an IPv6 one.\<close>

function ipv6_tail :: "nat \<Rightarrow> string \<Rightarrow> bool" where
  "ipv6_tail pos s =
     (case s of
        [] \<Rightarrow> True
      | c # _ \<Rightarrow>
          if \<not> is_digit c \<or> pos \<ge> 4 then False
          else case digits_run dec_digit 10 256 0 s of
            None \<Rightarrow> False
          | Some (v, []) \<Rightarrow> True
          | Some (v, x # r) \<Rightarrow> if x = CHR ''.'' then ipv6_tail (Suc pos) r else False)"
  by pat_completeness auto

termination
  by (relation "measure (\<lambda>(pos, s). 4 - pos)") auto

declare ipv6_tail.simps [simp del]

text \<open>The main loop, with the number of groups and whether there was a double colon.\<close>

definition ipv6_done :: "nat \<Rightarrow> bool \<Rightarrow> bool" where
  "ipv6_done count cc \<longleftrightarrow> count = 8 \<or> (count \<ge> 1 \<and> cc)"

function ipv6_groups :: "nat \<Rightarrow> bool \<Rightarrow> string \<Rightarrow> bool" where
  "ipv6_groups count cc s =
     (if s = [] then ipv6_done count cc
      else if count \<ge> 8 then False
      else case hex_number 0x10000 s of
        None \<Rightarrow> False
      | Some (v, []) \<Rightarrow> ipv6_done (count + 1) cc
      | Some (v, c # r) \<Rightarrow>
          if c = CHR ''.'' then
            (cc \<or> count + 1 = 7) \<and> (case hex_as_decimal v of None \<Rightarrow> False | Some d \<Rightarrow> d \<le> 255 \<and> ipv6_tail 1 r)
          else if c \<noteq> CHR '':'' then False
          else (case r of
              x # t \<Rightarrow>
                if x = CHR '':'' then (if \<not> cc \<and> count + 1 < 6 then ipv6_groups (count + 1) True t else False)
                else ipv6_groups (count + 1) cc r
            | [] \<Rightarrow> ipv6_groups (count + 1) cc r))"
  by pat_completeness auto

termination
  by (relation "measure (\<lambda>(count, cc, s). 8 - count)") auto

declare ipv6_groups.simps [simp del]

definition is_ipv6 :: "string \<Rightarrow> bool" where
  "is_ipv6 ip = (if starts_with ''::'' ip then ipv6_groups 0 True (drop 2 ip) else ipv6_groups 0 False ip)"

section \<open>Address and port\<close>

text \<open>\<open>QString::lastIndexOf()\<close>.\<close>

definition last_index_of :: "char \<Rightarrow> string \<Rightarrow> nat option" where
  "last_index_of c s = (if c \<in> set s then Some (length s - Suc (index_of c (rev s))) else None)"

text \<open>
  The port in text: a number, or the name of a service, whose \<open>s_port\<close> is used as it is.  An empty text
  leaves the port as it was.
\<close>

definition port_of :: "(string \<Rightarrow> int option) \<Rightarrow> (string \<Rightarrow> int option) \<Rightarrow> string \<Rightarrow> int \<Rightarrow> int result" where
  "port_of to_int servent port_str port =
     (if port_str = [] then Inr port
      else case to_int port_str of
        Some n \<Rightarrow> Inr n
      | None \<Rightarrow> (case servent port_str of
            Some n \<Rightarrow> Inr n
          | None \<Rightarrow> Inl (Logic_Error ''port number or name is not valid'')))"

text \<open>The address and the text of the port.\<close>

definition split_addr_port :: "string \<Rightarrow> string \<Rightarrow> (string \<times> string) result" where
  "split_addr_port addr_port addr =
     (case last_index_of CHR '':'' addr_port of
        None \<Rightarrow> Inr (if addr_port \<noteq> [] then addr_port else addr, [])
      | Some p \<Rightarrow>
          (case last_index_of CHR '']'' addr_port of
             Some bracket \<Rightarrow>
               if hd addr_port \<noteq> CHR ''['' then Inl (Logic_Error ''invalid [IPv6]:port specification, '[' missing'')
               else if p = bracket + 1 then Inr (take (bracket - 1) (drop 1 addr_port), drop (p + 1) addr_port)
               else if bracket \<noteq> length addr_port - 1
                 then Inl (Logic_Error ''invalid [IPv6]:port specification, ']' not at the end'')
               else Inr (take (bracket - 1) (drop 1 addr_port), [])
           | None \<Rightarrow> Inr (if p > 0 then take p addr_port else addr, drop (p + 1) addr_port)))"

definition get_addr_port ::
  "(string \<Rightarrow> int option) \<Rightarrow> (string \<Rightarrow> int option) \<Rightarrow> string \<Rightarrow> string \<Rightarrow> int \<Rightarrow> (string \<times> int) result" where
  "get_addr_port to_int servent addr_port addr port =
     bindE (split_addr_port addr_port addr) (\<lambda>(a, port_str).
       bindE (port_of to_int servent port_str port) (\<lambda>n.
         if a = [] then Inl (Logic_Error ''address is empty'')
         else if n \<le> 0 \<or> n > 65535 then Inl (Logic_Error ''port number is out of bounds'')
         else Inr (a, n)))"

section \<open>What is accepted\<close>

definition digits_value :: "(char \<Rightarrow> nat option) \<Rightarrow> nat \<Rightarrow> nat \<Rightarrow> string \<Rightarrow> nat" where
  "digits_value dig base v s = foldl (\<lambda>v c. v * base + the (dig c)) v s"

definition all_digits :: "(char \<Rightarrow> nat option) \<Rightarrow> string \<Rightarrow> bool" where
  "all_digits dig s \<longleftrightarrow> list_all (\<lambda>c. dig c \<noteq> None) s"

text \<open>A number as in C, with the digits of the loops above.\<close>

definition c_number :: "string \<Rightarrow> nat option" where
  "c_number p =
     (if p = [] \<or> \<not> is_digit (hd p) then None
      else if hd p \<noteq> CHR ''0'' then (if all_digits dec_digit p then Some (digits_value dec_digit 10 0 p) else None)
      else if length p \<ge> 2 \<and> p ! 1 \<in> {CHR ''x'', CHR ''X''} then
        (if length p \<ge> 3 \<and> all_digits hex_digit (drop 2 p) then Some (digits_value hex_digit 16 0 (drop 2 p)) else None)
      else if all_digits oct_digit (tl p) then Some (digits_value oct_digit 8 0 (tl p)) else None)"

lemma digits_value_ge: "base \<ge> 1 \<Longrightarrow> v \<le> digits_value dig base v s"
proof (induction s arbitrary: v)
  case (Cons c s)
  have "v \<le> v * base + the (dig c)" using Cons(2) by (simp add: trans_le_add1)
  also have "\<dots> \<le> digits_value dig base (v * base + the (dig c)) s" by (rule Cons(1) [OF Cons(2)])
  finally show ?case by (simp add: digits_value_def)
qed (simp add: digits_value_def)

lemma digits_run_all:
  assumes "base \<ge> 1" "all_digits dig p" "rest = [] \<or> dig (hd rest) = None" "v < limit"
  shows "digits_run dig base limit v (p @ rest) =
    (if digits_value dig base v p < limit then Some (digits_value dig base v p, rest) else None)"
  using assms(2,4)
proof (induction p arbitrary: v)
  case Nil
  then show ?case using assms(3) by (cases rest) (auto simp: digits_value_def)
next
  case (Cons c p)
  then obtain d where d: "dig c = Some d" by (auto simp: all_digits_def)
  have ge: "v * base + d \<le> digits_value dig base (v * base + d) p" by (rule digits_value_ge [OF assms(1)])
  show ?case
  proof (cases "v * base + d < limit")
    case True
    have "digits_run dig base limit (v * base + d) (p @ rest) =
      (if digits_value dig base (v * base + d) p < limit then Some (digits_value dig base (v * base + d) p, rest) else None)"
      using Cons(1) [OF _ True] Cons(2) by (simp add: all_digits_def)
    with d True show ?thesis by (simp add: digits_value_def)
  next
    case False
    with ge d show ?thesis by (auto simp: digits_value_def not_less)
  qed
qed

text \<open>When the loop stops inside the part, it does not stop at its end.\<close>

lemma digits_run_stop:
  "digits_run dig base limit v s = Some (n, r) \<Longrightarrow> \<exists>p. s = p @ r \<and> all_digits dig p \<and> (r = [] \<or> dig (hd r) = None)"
proof (induction dig base limit v s rule: digits_run.induct)
  case (2 dig base limit v c s)
  then show ?case
  proof (cases "dig c")
    case None
    with 2(2) show ?thesis by (auto simp: all_digits_def)
  next
    case (Some d)
    with 2 obtain p where "s = p @ r" "all_digits dig p" "r = [] \<or> dig (hd r) = None"
      by (auto split: if_splits)
    with Some show ?thesis by (intro exI [of _ "c # p"]) (auto simp: all_digits_def)
  qed
qed (auto simp: all_digits_def)

text \<open>A part of an address: no period inside, a period or nothing after.\<close>

definition part_end :: "string \<Rightarrow> bool" where
  "part_end r \<longleftrightarrow> r = [] \<or> hd r = CHR ''.''"

lemma period_no_digit [simp]: "dec_digit CHR ''.'' = None" "oct_digit CHR ''.'' = None" "hex_digit CHR ''.'' = None"
  by (simp_all add: dec_digit_def oct_digit_def hex_digit_def is_digit_def)

lemma append_eq_part:
  assumes "p @ rest = q @ r" "CHR ''.'' \<notin> set p" "CHR ''.'' \<notin> set q" "part_end rest" "part_end r"
  shows "q = p \<and> r = rest"
proof -
  have *: "takeWhile (\<lambda>c. c \<noteq> CHR ''.'') (a @ b) = a" if "CHR ''.'' \<notin> set a" "part_end b" for a b
    using that by (induction a) (cases b, auto simp: part_end_def)
  have "q = p" using * [OF assms(2,4)] * [OF assms(3,5)] assms(1) by simp
  with assms(1) show ?thesis by simp
qed

lemma all_digits_no_period: "all_digits dig p \<Longrightarrow> dig CHR ''.'' = None \<Longrightarrow> CHR ''.'' \<notin> set p"
  by (auto simp: all_digits_def list_all_iff)

lemma digits_run_part:
  assumes "base \<ge> 1" "dig CHR ''.'' = None" "CHR ''.'' \<notin> set p" "part_end rest" "0 < limit"
  shows "digits_run dig base limit 0 (p @ rest) = Some (n, r) \<and> part_end r \<longleftrightarrow>
    all_digits dig p \<and> n = digits_value dig base 0 p \<and> n < limit \<and> r = rest"
proof
  assume l: "digits_run dig base limit 0 (p @ rest) = Some (n, r) \<and> part_end r"
  then obtain q where q: "p @ rest = q @ r" "all_digits dig q" using digits_run_stop by blast
  then have "q = p" "r = rest"
    using append_eq_part [OF q(1) assms(3) _ assms(4)] all_digits_no_period [OF q(2) assms(2)] l by auto
  with l q(2) show "all_digits dig p \<and> n = digits_value dig base 0 p \<and> n < limit \<and> r = rest"
    using digits_run_all [OF assms(1), where dig = dig and p = p and rest = rest and v = 0 and limit = limit] assms(2,4,5) by (auto simp: part_end_def split: if_splits)
next
  assume "all_digits dig p \<and> n = digits_value dig base 0 p \<and> n < limit \<and> r = rest"
  then show "digits_run dig base limit 0 (p @ rest) = Some (n, r) \<and> part_end r"
    using digits_run_all [OF assms(1), where dig = dig and p = p and rest = rest and v = 0 and limit = limit] assms(2,4,5) by (auto simp: part_end_def)
qed

lemma ipv4_number_part:
  assumes "CHR ''.'' \<notin> set p" "part_end rest"
  shows "ipv4_number (p @ rest) = Some (n, r) \<and> part_end r \<longleftrightarrow> c_number p = Some n \<and> n < 0x100000000 \<and> r = rest"
proof (cases p)
  case Nil
  then show ?thesis using assms(2) by (cases rest) (auto simp: ipv4_number_def c_number_def part_end_def is_digit_def)
next
  case (Cons c q)
  have nq: "CHR ''.'' \<notin> set q" using assms(1) Cons by simp
  show ?thesis
  proof (cases "c = CHR ''0''")
    case False
    then show ?thesis using digits_run_part [where base = 10 and dig = dec_digit and p = p and rest = rest and limit = "0x100000000" and n = n and r = r] assms
      by (cases "is_digit c") (auto simp: Cons ipv4_number_def c_number_def)
  next
    case zero: True
    have oct: "digits_run oct_digit 8 0x100000000 0 (q @ rest) = Some (n, r) \<and> part_end r \<longleftrightarrow>
      all_digits oct_digit q \<and> n = digits_value oct_digit 8 0 q \<and> n < 0x100000000 \<and> r = rest"
      using digits_run_part [where base = 8 and dig = oct_digit and p = q and rest = rest and limit = "0x100000000" and n = n and r = r] nq assms(2) by simp
    show ?thesis
    proof (cases q)
      case Nil
      then show ?thesis using oct assms(2) zero
        by (cases rest) (auto simp: Cons ipv4_number_def c_number_def is_digit_def part_end_def all_digits_def digits_value_def)
    next
      case (Cons x t)
      have hex: "digits_run hex_digit 16 0x100000000 0 (t @ rest) = Some (n, r) \<and> part_end r \<longleftrightarrow>
        all_digits hex_digit t \<and> n = digits_value hex_digit 16 0 t \<and> n < 0x100000000 \<and> r = rest"
        using digits_run_part [where base = 16 and dig = hex_digit and p = t and rest = rest and limit = "0x100000000" and n = n and r = r] nq Cons assms(2) by simp
      show ?thesis
      proof (cases "x = CHR ''x'' \<or> x = CHR ''X''")
        case True
        show ?thesis
        proof (cases t)
          case Nil
          then show ?thesis using True Cons zero assms(2) \<open>p = c # q\<close>
            by (cases rest) (auto simp: ipv4_number_def c_number_def hex_number_def is_digit_def part_end_def)
        next
          case (Cons y u)
          then show ?thesis using True \<open>q = x # t\<close> zero \<open>p = c # q\<close> hex
            by (auto simp: ipv4_number_def c_number_def hex_number_def is_digit_def all_digits_def)
        qed
      next
        case False
        then show ?thesis using Cons zero \<open>p = c # q\<close> oct by (auto simp: ipv4_number_def c_number_def is_digit_def)
      qed
    qed
  qed
qed


lemma part_split:
  obtains (last) "CHR ''.'' \<notin> set s" "split_on CHR ''.'' s = [s]"
  | (more) p r where "s = p @ CHR ''.'' # r" "CHR ''.'' \<notin> set p" "split_on CHR ''.'' s = p # split_on CHR ''.'' r"
proof (cases "CHR ''.'' \<in> set s")
  case True
  then obtain p r where "s = p @ CHR ''.'' # r" "CHR ''.'' \<notin> set p" by (meson split_list_first)
  then show thesis using more split_on_append by blast
qed (use last in simp)

text \<open>One turn of the loop, and the same with the number written as a part.\<close>

definition values_rest :: "nat \<Rightarrow> nat list \<Rightarrow> nat \<Rightarrow> string \<Rightarrow> bool" where
  "values_rest pos vs v r \<longleftrightarrow> (if r = [] then vs = [v] else \<exists>ws. vs = v # ws \<and> ipv4_values (Suc pos) (tl r) = Some ws)"

lemma ipv4_values_step:
  "ipv4_values pos s = Some vs \<longleftrightarrow> pos < 4 \<and> (\<exists>v r. (ipv4_number s = Some (v, r) \<and> part_end r) \<and> values_rest pos vs v r)"
proof (cases "pos < 4")
  case True
  show ?thesis
  proof (cases "ipv4_number s")
    case None
    then show ?thesis by (simp add: ipv4_values.simps [of pos s])
  next
    case (Some w)
    then show ?thesis using True
      by (cases w; cases "snd w") (auto simp: ipv4_values.simps [of pos s] part_end_def values_rest_def)
  qed
qed (simp add: ipv4_values.simps [of pos s])

lemma ipv4_values_part:
  assumes "CHR ''.'' \<notin> set p" "part_end rest"
  shows "ipv4_values pos (p @ rest) = Some vs \<longleftrightarrow>
    pos < 4 \<and> (\<exists>v. c_number p = Some v \<and> v < 0x100000000 \<and> values_rest pos vs v rest)"
  unfolding ipv4_values_step [of pos] ipv4_number_part [OF assms] by blast

lemma ipv4_values_split:
  "ipv4_values pos s = Some vs \<longleftrightarrow>
     pos + length (split_on CHR ''.'' s) \<le> 4 \<and> map c_number (split_on CHR ''.'' s) = map Some vs \<and> (\<forall>v \<in> set vs. v < 0x100000000)"
proof (induction "4 - pos" arbitrary: pos s vs rule: less_induct)
  case less
  show ?case
  proof (cases s rule: part_split)
    case last
    then show ?thesis using ipv4_values_part [of s "[]" pos vs] by (auto simp: part_end_def values_rest_def)
  next
    case (more p r)
    have step: "ipv4_values pos s = Some vs \<longleftrightarrow> pos < 4 \<and>
      (\<exists>v. c_number p = Some v \<and> v < 0x100000000 \<and> (\<exists>ws. vs = v # ws \<and> ipv4_values (Suc pos) r = Some ws))"
      using ipv4_values_part [of p "CHR ''.'' # r" pos vs] more(1,2) by (simp add: part_end_def values_rest_def)
    have rec: "pos < 4 \<Longrightarrow> ipv4_values (Suc pos) r = Some ws \<longleftrightarrow> Suc pos + length (split_on CHR ''.'' r) \<le> 4 \<and>
      map c_number (split_on CHR ''.'' r) = map Some ws \<and> (\<forall>v \<in> set ws. v < 0x100000000)" for ws
      using less [of "Suc pos" r ws] by simp
    show ?thesis
    proof (cases "pos < 4")
      case True
      show ?thesis unfolding step more(3) rec [OF True] by (cases vs) (use True in auto)
    next
      case False
      then show ?thesis unfolding step more(3) by (simp add: Suc_le_eq)
    qed
  qed
qed

lemma ipv4_limits_iff:
  "(\<forall>v \<in> set vs. v < 0x100000000) \<and> ipv4_limits vs \<longleftrightarrow>
     vs \<noteq> [] \<and> length vs \<le> 4 \<and> (\<forall>v \<in> set (butlast vs). v < 256) \<and> last vs < 256 ^ (5 - length vs)"
  by (cases vs rule: ipv4_limits.cases) auto

text \<open>C26.
  \<open>is_ipv4()\<close> accepts exactly one to four numbers separated by periods, each in decimal, octal or hexadecimal, where
  all but the last are less than 256 and the last one fits in the bytes that are left.
\<close>

theorem is_ipv4_correct:
  "is_ipv4 s \<longleftrightarrow> (\<exists>vs. map c_number (split_on CHR ''.'' s) = map Some vs \<and> length vs \<le> 4
     \<and> (\<forall>v \<in> set (butlast vs). v < 256) \<and> last vs < 256 ^ (5 - length vs))"
proof -
  have "is_ipv4 s \<longleftrightarrow> (\<exists>vs. ipv4_values 0 s = Some vs \<and> ipv4_limits vs)" by (auto simp: is_ipv4_def split: option.splits)
  also have "\<dots> \<longleftrightarrow> (\<exists>vs. map c_number (split_on CHR ''.'' s) = map Some vs \<and> length (split_on CHR ''.'' s) \<le> 4
     \<and> vs \<noteq> [] \<and> length vs \<le> 4 \<and> (\<forall>v \<in> set (butlast vs). v < 256) \<and> last vs < 256 ^ (5 - length vs))"
    unfolding ipv4_values_split using ipv4_limits_iff by auto
  also have "\<dots> \<longleftrightarrow> (\<exists>vs. map c_number (split_on CHR ''.'' s) = map Some vs \<and> length vs \<le> 4
     \<and> (\<forall>v \<in> set (butlast vs). v < 256) \<and> last vs < 256 ^ (5 - length vs))"
    by (metis length_map list.map_disc_iff split_on_not_Nil)
  finally show ?thesis .
qed

theorem is_ipv4_correct_witness: "is_ipv4 ''10.0x1F.7''"
proof -
  have "map c_number (split_on CHR ''.'' ''10.0x1F.7'') = map Some [10, 31, 7]" by code_simp
  then show ?thesis unfolding is_ipv4_correct by (rule exI [of _ "[10, 31, 7]", OF conjI]) simp
qed

lemmas inet_eval = is_ipv4_def is_ipv6_def ipv4_values.simps ipv6_groups.simps ipv6_tail.simps ipv4_number_def hex_number_def
  dec_digit_def oct_digit_def hex_digit_def is_digit_def less_eq_char_def hex_as_decimal_def ipv6_done_def starts_with_def

text \<open>The digit 8 is taken for an octal one, and some texts of IPv6 addresses get the wrong answer.\<close>

lemma octal_eight: "is_ipv4 ''08.1.1.1''"
  by (simp add: inet_eval)

lemma ipv6_samples:
  "is_ipv6 ''fe80::1''" "is_ipv6 ''::ffff:10.1.2.3''" "is_ipv6 ''1:2:3:4:5:6:7:8''" "\<not> is_ipv6 ''1::2::3''"
  by (simp_all add: inet_eval)

lemma ipv6_divergences:
  "\<not> is_ipv6 ''::''" "\<not> is_ipv6 ''1:2:3:4:5:6::8''" "is_ipv6 ''1::2:''" "is_ipv6 ''::1:2:3:4:5:6:7:8''" "is_ipv6 ''::1255.1''"
  by (simp_all add: inet_eval)

section \<open>Address and port\<close>

lemma last_index_of_append: "c \<notin> set b \<Longrightarrow> last_index_of c (a @ c # b) = Some (length a)"
  by (simp add: last_index_of_def index_of_def takeWhile_append2 takeWhile_tail takeWhile_not_in)

lemma last_index_of_none: "c \<notin> set s \<Longrightarrow> last_index_of c s = None"
  by (simp add: last_index_of_def)

text \<open>The three forms of the input: \<open>address\<close>, \<open>address:port\<close> and \<open>[address]:port\<close>.\<close>

lemma split_address: "CHR '':'' \<notin> set a \<Longrightarrow> a \<noteq> [] \<Longrightarrow> split_addr_port a d = Inr (a, [])"
  by (simp add: split_addr_port_def last_index_of_none)

lemma split_address_port:
  assumes "CHR '':'' \<notin> set p" "CHR '']'' \<notin> set a" "CHR '']'' \<notin> set p" "a \<noteq> []"
  shows "split_addr_port (a @ CHR '':'' # p) d = Inr (a, p)"
  using assms by (simp add: split_addr_port_def last_index_of_append last_index_of_none)

lemma split_bracket_port:
  assumes "CHR '':'' \<notin> set p" "CHR '']'' \<notin> set p"
  shows "split_addr_port (CHR ''['' # a @ CHR '']'' # CHR '':'' # p) d = Inr (a, p)"
proof -
  have "last_index_of CHR '']'' (CHR ''['' # a @ CHR '']'' # CHR '':'' # p) = Some (length a + 1)"
    using last_index_of_append [of "CHR '']''" "CHR '':'' # p" "CHR ''['' # a"] assms by simp
  moreover have "last_index_of CHR '':'' (CHR ''['' # a @ CHR '']'' # CHR '':'' # p) = Some (length a + 2)"
    using last_index_of_append [of "CHR '':''" p "CHR ''['' # a @ [CHR '']'']"] assms by simp
  ultimately show ?thesis by (simp add: split_addr_port_def)
qed

lemma get_addr_port_range: "get_addr_port to_int servent s d n = Inr (a, p) \<Longrightarrow> a \<noteq> [] \<and> 1 \<le> p \<and> p \<le> 65535"
  by (auto simp: get_addr_port_def result_simps split: if_splits)

end
