(* ===== verification/Snap_Addr.thy ===== *)
theory Snap_Addr
  imports Inet_Text "HOL-Library.Word"
begin

unbundle bit_operations_syntax

text \<open>
  \<open>addr.cpp\<close>, the class \<open>snap_addr::addr\<close>.  The \<open>sin6_addr\<close> of the structure is a word of 128 bits, its first
  byte the most significant one, so that \<open>memcmp()\<close> is the order of the words; the port is a word of 16 bits in the
  order of the host.  The flow information, the scope and the name of the interface are not read by the
  operations below and left out.  \<open>getaddrinfo()\<close> and \<open>inet_ntop()\<close> are arguments.
  The theorems: the type of a network by ranges of addresses whatever was called before, the text of an address read back,
  and the order of the addresses.
\<close>

section \<open>Data\<close>

datatype network_type =
    Network_Undefined | Network_Private | Network_Carrier | Network_Link_Local | Network_Multicast
  | Network_Loopback | Network_Any | Network_Unknown

abbreviation Network_Public :: network_type where
  "Network_Public \<equiv> Network_Unknown"

datatype protocol = IPPROTO_TCP | IPPROTO_UDP

record addr =
  a_ip :: "128 word"
  a_port :: "16 word"
  a_protocol :: protocol
  a_network :: network_type

definition new_addr :: addr where
  "new_addr = \<lparr>a_ip = 0, a_port = 0, a_protocol = IPPROTO_TCP, a_network = Network_Undefined\<rparr>"

text \<open>\<open>s6_addr32[i]\<close> and \<open>s6_addr16[i]\<close>, in the order of the host.\<close>

definition part32 :: "nat \<Rightarrow> 128 word \<Rightarrow> 32 word" where
  "part32 i ip = ucast (drop_bit (32 * (3 - i)) ip)"

definition part16 :: "nat \<Rightarrow> 128 word \<Rightarrow> 16 word" where
  "part16 i ip = ucast (drop_bit (16 * (7 - i)) ip)"

section \<open>Setters\<close>

definition address_changed :: "addr \<Rightarrow> addr" where
  "address_changed a = a\<lparr>a_network := Network_Undefined\<rparr>"

definition set_ipv4 :: "32 word \<Rightarrow> 16 word \<Rightarrow> addr \<Rightarrow> addr" where
  "set_ipv4 v4 port a = address_changed (a\<lparr>a_ip := push_bit 32 0xFFFF OR ucast v4, a_port := port\<rparr>)"

definition set_ipv6 :: "128 word \<Rightarrow> 16 word \<Rightarrow> addr \<Rightarrow> addr" where
  "set_ipv6 v6 port a = address_changed (a\<lparr>a_ip := v6, a_port := port\<rparr>)"

definition set_port :: "int \<Rightarrow> addr \<Rightarrow> addr result" where
  "set_port port a =
     (if port > 65535 \<or> port < 0 then Inl (Logic_Error ''port to set_port() cannot be out of the allowed range'')
      else Inr (a\<lparr>a_port := of_int port\<rparr>))"

text \<open>The protocol as text, \<open>None\<close> for a null pointer.\<close>

definition protocol_of :: "string \<Rightarrow> protocol result" where
  "protocol_of p =
     (if p = ''tcp'' then Inr IPPROTO_TCP else if p = ''udp'' then Inr IPPROTO_UDP
      else Inl (Logic_Error ''unknown protocol''))"

definition set_protocol :: "string option \<Rightarrow> addr \<Rightarrow> addr result" where
  "set_protocol p a =
     (case p of
        None \<Rightarrow> Inl (Logic_Error ''protocol pointer to set_protocol() cannot be a nullptr'')
      | Some s \<Rightarrow> bindE (protocol_of s) (\<lambda>pr. Inr (address_changed (a\<lparr>a_protocol := pr\<rparr>))))"

text \<open>What \<open>getaddrinfo()\<close> answers first: an IPv4 or an IPv6 address, with the protocol; \<open>None\<close> for an error.\<close>

datatype resolved = Resolved_V4 "32 word" | Resolved_V6 "128 word"

type_synonym resolver = "string \<Rightarrow> int \<Rightarrow> protocol option \<Rightarrow> (resolved \<times> protocol) option"

definition set_address :: "resolver \<Rightarrow> string \<Rightarrow> int \<Rightarrow> string option \<Rightarrow> addr \<Rightarrow> addr result" where
  "set_address getaddrinfo address port p a =
     bindE (case p of None \<Rightarrow> Inr None | Some s \<Rightarrow> bindE (protocol_of s) (\<lambda>pr. Inr (Some pr))) (\<lambda>hint.
       case getaddrinfo address port hint of
         None \<Rightarrow> Inl (Logic_Error ''invalid address'')
       | Some (Resolved_V4 v4, pr) \<Rightarrow> Inr (address_changed ((set_ipv4 v4 (of_int port) a)\<lparr>a_protocol := pr\<rparr>))
       | Some (Resolved_V6 v6, pr) \<Rightarrow> Inr (address_changed ((set_ipv6 v6 (of_int port) a)\<lparr>a_protocol := pr\<rparr>)))"

record inet_env =
  getaddrinfo :: resolver
  getservbyname :: "string \<Rightarrow> int option"
  to_int :: "string \<Rightarrow> int option"
  ntop4 :: "32 word \<Rightarrow> string"
  ntop6 :: "128 word \<Rightarrow> string"

definition set_addr_port :: "inet_env \<Rightarrow> string \<Rightarrow> string \<Rightarrow> int \<Rightarrow> string option \<Rightarrow> addr \<Rightarrow> addr result" where
  "set_addr_port env ap default_address default_port p a =
     bindE (get_addr_port (to_int env) (getservbyname env) ap default_address default_port) (\<lambda>(address, port).
       set_address (getaddrinfo env) address port p a)"

text \<open>The three constructors from text.\<close>

definition addr_default :: "inet_env \<Rightarrow> string \<Rightarrow> string \<Rightarrow> int \<Rightarrow> string option \<Rightarrow> addr result" where
  "addr_default env ap default_address default_port p =
     (if ap = [] then Inr new_addr else set_addr_port env ap default_address default_port p new_addr)"

definition addr_and_port :: "inet_env \<Rightarrow> string \<Rightarrow> int \<Rightarrow> string option \<Rightarrow> addr result" where
  "addr_and_port env address port p =
     (if address = [] then Inr (new_addr\<lparr>a_port := of_int port\<rparr>) else set_address (getaddrinfo env) address port p new_addr)"

definition addr_text :: "inet_env \<Rightarrow> string \<Rightarrow> string option \<Rightarrow> addr result" where
  "addr_text env ap p = (if ap = [] then Inr new_addr else set_addr_port env ap [] (- 1) p new_addr)"

section \<open>Getters\<close>

definition addr_is_ipv4 :: "addr \<Rightarrow> bool" where
  "addr_is_ipv4 a \<longleftrightarrow> part32 0 (a_ip a) = 0 \<and> part32 1 (a_ip a) = 0 \<and> part16 4 (a_ip a) = 0 \<and> part16 5 (a_ip a) = 0xFFFF"

definition get_ipv4 :: "addr \<Rightarrow> (32 word \<times> 16 word) result" where
  "get_ipv4 a =
     (if addr_is_ipv4 a then Inr (part32 3 (a_ip a), a_port a) else Inl (Logic_Error ''Not an IPv4 compatible address''))"

definition get_ipv6 :: "addr \<Rightarrow> 128 word \<times> 16 word" where
  "get_ipv6 a = (a_ip a, a_port a)"

definition get_port :: "addr \<Rightarrow> int" where
  "get_port a = uint (a_port a)"

definition get_ipv4_string :: "inet_env \<Rightarrow> bool \<Rightarrow> addr \<Rightarrow> string result" where
  "get_ipv4_string env include_port a =
     (if addr_is_ipv4 a then
        Inr (ntop4 env (part32 3 (a_ip a)) @ (if include_port then CHR '':'' # show_nat (unat (a_port a)) else []))
      else Inl (Logic_Error ''Not an IPv4 compatible address''))"

definition get_ipv6_string :: "inet_env \<Rightarrow> bool \<Rightarrow> bool \<Rightarrow> addr \<Rightarrow> string result" where
  "get_ipv6_string env include_port include_brackets a =
     (if include_port \<and> \<not> include_brackets
      then Inl (Logic_Error ''include_port cannot be true if include_brackets is false'')
      else Inr ((if include_brackets then CHR ''['' # ntop6 env (a_ip a) @ '']'' else ntop6 env (a_ip a))
             @ (if include_port then CHR '':'' # show_nat (unat (a_port a)) else [])))"

definition get_ipv4or6_string :: "inet_env \<Rightarrow> bool \<Rightarrow> bool \<Rightarrow> addr \<Rightarrow> string result" where
  "get_ipv4or6_string env include_port include_brackets a =
     (if include_port \<and> \<not> include_brackets
      then Inl (Logic_Error ''include_port cannot be true if include_brackets is false'')
      else if addr_is_ipv4 a then get_ipv4_string env include_port a
      else get_ipv6_string env include_port include_brackets a)"

section \<open>The type of the network\<close>

definition network_of_v4 :: "32 word \<Rightarrow> network_type" where
  "network_of_v4 host_ip =
     (if host_ip AND 0xFF000000 = 0x0A000000 \<or> host_ip AND 0xFFF00000 = 0xAC100000 \<or> host_ip AND 0xFFFF0000 = 0xC0A80000
      then Network_Private
      else if host_ip AND 0xFFC00000 = 0x64400000 then Network_Carrier
      else if host_ip AND 0xFFFF0000 = 0xA9FE0000 then Network_Link_Local
      else if host_ip AND 0xF0000000 = 0xE0000000 then Network_Multicast
      else if host_ip AND 0xFF000000 = 0x7F000000 then Network_Loopback
      else if host_ip = 0 then Network_Any
      else Network_Unknown)"

definition network_of_v6 :: "128 word \<Rightarrow> network_type" where
  "network_of_v6 ip =
     (if part32 0 ip = 0 \<and> part32 1 ip = 0 \<and> part32 2 ip = 0 \<and> part32 3 ip = 0 then Network_Any
      else
        let prefix = part16 0 ip in
        if prefix AND 0xFF00 = 0xFD00 then Network_Private
        else if prefix AND 0xFFC0 = 0xFE80 \<or> prefix AND 0xFF0F = 0xFF02 then Network_Link_Local
        else if prefix AND 0xFF0F = 0xFF01
          \<or> part32 0 ip = 0 \<and> part32 1 ip = 0 \<and> part32 2 ip = 0 \<and> part16 6 ip = 0 \<and> part16 7 ip = 1
        then Network_Loopback
        else if prefix AND 0xFF00 = 0xFF00 then Network_Multicast
        else Network_Unknown)"

definition network_of :: "addr \<Rightarrow> network_type" where
  "network_of a = (if addr_is_ipv4 a then network_of_v4 (part32 3 (a_ip a)) else network_of_v6 (a_ip a))"

text \<open>The result is kept in the object.\<close>

definition get_network_type :: "addr \<Rightarrow> network_type \<times> addr" where
  "get_network_type a =
     (if a_network a = Network_Undefined then (network_of a, a\<lparr>a_network := network_of a\<rparr>) else (a_network a, a))"

definition get_network_type_string :: "addr \<Rightarrow> string" where
  "get_network_type_string a =
     (case fst (get_network_type a) of
        Network_Undefined \<Rightarrow> ''Undefined''
      | Network_Private \<Rightarrow> ''Private''
      | Network_Carrier \<Rightarrow> ''Carrier''
      | Network_Link_Local \<Rightarrow> ''Local Link''
      | Network_Multicast \<Rightarrow> ''Multicast''
      | Network_Loopback \<Rightarrow> ''Loopback''
      | Network_Any \<Rightarrow> ''Any''
      | Network_Unknown \<Rightarrow> ''Unknown'')"

section \<open>Comparisons\<close>

definition addr_eq :: "addr \<Rightarrow> addr \<Rightarrow> bool" where
  "addr_eq a b \<longleftrightarrow> a_ip a = a_ip b"

definition addr_ne :: "addr \<Rightarrow> addr \<Rightarrow> bool" where
  "addr_ne a b \<longleftrightarrow> a_ip a \<noteq> a_ip b"

definition addr_less :: "addr \<Rightarrow> addr \<Rightarrow> bool" where
  "addr_less a b \<longleftrightarrow> a_ip a < a_ip b"

text \<open>An address of this computer: \<open>None\<close> when the list of interfaces cannot be read.\<close>

definition is_computer_interface_address :: "resolved list option \<Rightarrow> addr \<Rightarrow> bool option" where
  "is_computer_interface_address ifaddrs a =
     map_option (list_ex (\<lambda>i. case i of
         Resolved_V4 v4 \<Rightarrow> addr_is_ipv4 a \<and> v4 = part32 3 (a_ip a)
       | Resolved_V6 v6 \<Rightarrow> \<not> addr_is_ipv4 a \<and> v6 = a_ip a)) ifaddrs"

definition get_local_addresses :: "resolved list option \<Rightarrow> addr list" where
  "get_local_addresses ifaddrs =
     (case ifaddrs of
        None \<Rightarrow> []
      | Some is \<Rightarrow> map (\<lambda>i. case i of Resolved_V4 v4 \<Rightarrow> set_ipv4 v4 0 new_addr | Resolved_V6 v6 \<Rightarrow> set_ipv6 v6 0 new_addr) is)"

section \<open>Masks and ranges\<close>

lemma high_part: "(x :: 'a::len word) AND NOT (mask k) = push_bit k (drop_bit k x)"
  by (rule bit_word_eqI) (auto simp: bit_simps)

lemma unat_high_part: "unat ((x :: 'a::len word) AND NOT (mask k)) = unat x div 2 ^ k * 2 ^ k"
proof -
  have "unat x div 2 ^ k * 2 ^ k \<le> unat x" by simp
  then have "unat x div 2 ^ k * 2 ^ k < 2 ^ LENGTH('a)" using unsigned_less [of x] by (rule le_less_trans)
  moreover have "unat (drop_bit k x) = unat x div 2 ^ k"
    by (subst unsigned_drop_bit_eq) (simp add: drop_bit_eq_div take_bit_nat_eq_self)
  ultimately show ?thesis
    unfolding high_part by (subst unsigned_push_bit_eq) (simp add: push_bit_eq_mult take_bit_nat_eq_self)
qed

lemma div_range: "0 < P \<Longrightarrow> n div P = c \<longleftrightarrow> c * P \<le> n \<and> n \<le> c * P + (P - 1)" for n :: nat
proof -
  assume P: "0 < P"
  have "n div P = c \<longleftrightarrow> c \<le> n div P \<and> n div P < Suc c" by auto
  also have "\<dots> \<longleftrightarrow> c * P \<le> n \<and> n < Suc c * P"
    using less_eq_div_iff_mult_less_eq [OF P, of c n] div_less_iff_less_mult [OF P, of n "Suc c"] by simp
  also have "\<dots> \<longleftrightarrow> c * P \<le> n \<and> n \<le> c * P + (P - 1)" using P by (cases P) auto
  finally show ?thesis .
qed

lemma masked_range:
  assumes "M = NOT (mask k)" "unat C = c * 2 ^ k"
  shows "(x :: 'a::len word) AND M = C \<longleftrightarrow> c * 2 ^ k \<le> unat x \<and> unat x \<le> c * 2 ^ k + (2 ^ k - 1)"
proof -
  have "x AND M = C \<longleftrightarrow> unat x div 2 ^ k = c"
    unfolding assms(1) word_unat_eq_iff unat_high_part assms(2) by simp
  then show ?thesis using div_range [of "2 ^ k" "unat x" c] by simp
qed

lemma word16_bound: "unat (x :: 16 word) < 65536"
  using unsigned_less [of x] by simp

lemma two_fields: "unat ((x :: 16 word) AND 0xFF0F) = unat x div 256 * 256 + unat x mod 16"
proof -
  have b: "unat x < 65536" by (rule word16_bound)
  have "(0xFF0F :: 16 word) = NOT (mask 8) OR mask 4" by code_simp
  then have "x AND 0xFF0F = x AND (NOT (mask 8) OR mask 4)" by (rule arg_cong)
  also have "\<dots> = (x AND NOT (mask 8)) OR take_bit 4 x" by (rule bit_word_eqI) (auto simp: bit_simps)
  also have "\<dots> = (x AND NOT (mask 8)) + take_bit 4 x"
    by (rule disjunctive_add_eq_or [symmetric]) (rule bit_word_eqI, auto simp: bit_simps)
  finally have "x AND 0xFF0F = (x AND NOT (mask 8)) + take_bit 4 x" .
  moreover have "unat (x AND NOT (mask 8)) = unat x div 256 * 256" using unat_high_part [of x 8] by simp
  moreover have "unat (take_bit 4 x) = unat x mod 16" by (simp add: take_bit_eq_mod unat_mod)
  moreover have "unat x div 256 * 256 + unat x mod 16 < 2 ^ LENGTH(16)"
    using less_mult_imp_div_less [of "unat x" 256 256] b mod_less_divisor [of 16 "unat x"] by simp
  ultimately show ?thesis by (simp only: unat_word_ariths mod_less)
qed

text \<open>The type of a network as a table of ranges: IPv4 by its four bytes, IPv6 by its first 16 bits.\<close>

definition quad :: "nat \<Rightarrow> nat \<Rightarrow> nat \<Rightarrow> nat \<Rightarrow> nat" where
  "quad a b c d = ((a * 256 + b) * 256 + c) * 256 + d"

definition v4_table :: "(nat \<times> nat \<times> network_type) list" where
  "v4_table =
     [(quad 10 0 0 0, quad 10 255 255 255, Network_Private),
      (quad 172 16 0 0, quad 172 31 255 255, Network_Private),
      (quad 192 168 0 0, quad 192 168 255 255, Network_Private),
      (quad 100 64 0 0, quad 100 127 255 255, Network_Carrier),
      (quad 169 254 0 0, quad 169 254 255 255, Network_Link_Local),
      (quad 224 0 0 0, quad 239 255 255 255, Network_Multicast),
      (quad 127 0 0 0, quad 127 255 255 255, Network_Loopback),
      (0, 0, Network_Any)]"

definition table_type :: "(nat \<times> nat \<times> network_type) list \<Rightarrow> nat \<Rightarrow> network_type" where
  "table_type t n = (case find (\<lambda>(lo, hi, _). lo \<le> n \<and> n \<le> hi) t of None \<Rightarrow> Network_Unknown | Some (_, _, y) \<Rightarrow> y)"

definition v6_type :: "nat \<Rightarrow> network_type" where
  "v6_type n =
     (let prefix = n div 2 ^ 112 in
      if n = 0 then Network_Any
      else if n = 1 then Network_Loopback
      else if 0xFD00 \<le> prefix \<and> prefix \<le> 0xFDFF then Network_Private
      else if 0xFE80 \<le> prefix \<and> prefix \<le> 0xFEBF then Network_Link_Local
      else if prefix \<ge> 0xFF00 then
        (if prefix mod 16 = 1 then Network_Loopback else if prefix mod 16 = 2 then Network_Link_Local else Network_Multicast)
      else Network_Unknown)"

lemma v4_masks:
  fixes x :: "32 word"
  shows "x AND 0xFF000000 = 0x0A000000 \<longleftrightarrow> quad 10 0 0 0 \<le> unat x \<and> unat x \<le> quad 10 255 255 255"
    "x AND 0xFFF00000 = 0xAC100000 \<longleftrightarrow> quad 172 16 0 0 \<le> unat x \<and> unat x \<le> quad 172 31 255 255"
    "x AND 0xFFFF0000 = 0xC0A80000 \<longleftrightarrow> quad 192 168 0 0 \<le> unat x \<and> unat x \<le> quad 192 168 255 255"
    "x AND 0xFFC00000 = 0x64400000 \<longleftrightarrow> quad 100 64 0 0 \<le> unat x \<and> unat x \<le> quad 100 127 255 255"
    "x AND 0xFFFF0000 = 0xA9FE0000 \<longleftrightarrow> quad 169 254 0 0 \<le> unat x \<and> unat x \<le> quad 169 254 255 255"
    "x AND 0xF0000000 = 0xE0000000 \<longleftrightarrow> quad 224 0 0 0 \<le> unat x \<and> unat x \<le> quad 239 255 255 255"
    "x AND 0xFF000000 = 0x7F000000 \<longleftrightarrow> quad 127 0 0 0 \<le> unat x \<and> unat x \<le> quad 127 255 255 255"
  using masked_range [of "0xFF000000 :: 32 word" 24 "0x0A000000" 10 x] masked_range [of "0xFFF00000 :: 32 word" 20 "0xAC100000" "0xAC1" x]
    masked_range [of "0xFFFF0000 :: 32 word" 16 "0xC0A80000" "0xC0A8" x] masked_range [of "0xFFC00000 :: 32 word" 22 "0x64400000" "0x191" x]
    masked_range [of "0xFFFF0000 :: 32 word" 16 "0xA9FE0000" "0xA9FE" x] masked_range [of "0xF0000000 :: 32 word" 28 "0xE0000000" "0xE" x]
    masked_range [of "0xFF000000 :: 32 word" 24 "0x7F000000" "0x7F" x]
  by (simp_all add: mask_numeral quad_def)

lemma network_of_v4_table: "network_of_v4 x = table_type v4_table (unat x)"
  by (simp add: network_of_v4_def v4_masks table_type_def v4_table_def unat_eq_0)

lemma low_field:
  assumes "m < 16" "r < 256" "q * 256 + r < (65536 :: nat)"
  shows "q * 256 + m = 65282 \<longleftrightarrow> 65280 \<le> q * 256 + r \<and> m = 2" "q * 256 + m = 65281 \<longleftrightarrow> 65280 \<le> q * 256 + r \<and> m = 1"
proof -
  have "q \<le> 254 \<or> q = 255" using assms(3) by linarith
  then show "q * 256 + m = 65282 \<longleftrightarrow> 65280 \<le> q * 256 + r \<and> m = 2" "q * 256 + m = 65281 \<longleftrightarrow> 65280 \<le> q * 256 + r \<and> m = 1"
    using assms by (auto; linarith)+
qed

lemma v6_masks:
  fixes x :: "16 word"
  shows "x AND 0xFF00 = 0xFD00 \<longleftrightarrow> 0xFD00 \<le> unat x \<and> unat x \<le> 0xFDFF"
    "x AND 0xFFC0 = 0xFE80 \<longleftrightarrow> 0xFE80 \<le> unat x \<and> unat x \<le> 0xFEBF"
    "x AND 0xFF00 = 0xFF00 \<longleftrightarrow> 0xFF00 \<le> unat x"
    "x AND 0xFF0F = 0xFF02 \<longleftrightarrow> 0xFF00 \<le> unat x \<and> unat x mod 16 = 2"
    "x AND 0xFF0F = 0xFF01 \<longleftrightarrow> 0xFF00 \<le> unat x \<and> unat x mod 16 = 1"
proof -
  have b: "unat x < 65536" using word16_bound .
  show "x AND 0xFF00 = 0xFD00 \<longleftrightarrow> 0xFD00 \<le> unat x \<and> unat x \<le> 0xFDFF"
    using masked_range [of "0xFF00 :: 16 word" 8 "0xFD00" "0xFD" x] by (auto simp: mask_numeral)
  show "x AND 0xFFC0 = 0xFE80 \<longleftrightarrow> 0xFE80 \<le> unat x \<and> unat x \<le> 0xFEBF"
    using masked_range [of "0xFFC0 :: 16 word" 6 "0xFE80" "0x3FA" x] by (auto simp: mask_numeral)
  show "x AND 0xFF00 = 0xFF00 \<longleftrightarrow> 0xFF00 \<le> unat x"
    using masked_range [of "0xFF00 :: 16 word" 8 "0xFF00" "0xFF" x] b by (auto simp: mask_numeral)
  have "x AND 0xFF0F = y \<longleftrightarrow> unat x div 256 * 256 + unat x mod 16 = unat y" for y
    unfolding word_unat_eq_iff two_fields ..
  moreover obtain q r where "unat x = q * 256 + r" "r < 256" "unat x div 256 = q"
    using div_mult_mod_eq [of "unat x" 256] mod_less_divisor [of 256 "unat x"] by (metis zero_less_numeral)
  moreover have "unat x mod 16 < 16" by simp
  ultimately show "x AND 0xFF0F = 0xFF02 \<longleftrightarrow> 0xFF00 \<le> unat x \<and> unat x mod 16 = 2"
    "x AND 0xFF0F = 0xFF01 \<longleftrightarrow> 0xFF00 \<le> unat x \<and> unat x mod 16 = 1"
    using b by (simp_all add: low_field)
qed

lemma unat_drop_bit: "unat (drop_bit k (x :: 'a::len word)) = unat x div 2 ^ k"
  by (subst unsigned_drop_bit_eq) (simp add: drop_bit_eq_div take_bit_nat_eq_self)

lemma unat_part32: "unat (part32 i ip) = unat ip div 2 ^ (32 * (3 - i)) mod 2 ^ 32"
  unfolding part32_def unat_drop_bit [symmetric] by (simp add: unsigned_ucast_eq take_bit_eq_mod)

lemma unat_part16: "unat (part16 i ip) = unat ip div 2 ^ (16 * (7 - i)) mod 2 ^ 16"
  unfolding part16_def unat_drop_bit [symmetric] by (simp add: unsigned_ucast_eq take_bit_eq_mod)


lemma div_mod_bound: "n < Q * P \<Longrightarrow> n div P mod Q = n div P" for n :: nat
  by (rule mod_less) (rule less_mult_imp_div_less)

lemma div_zero: "0 < P \<Longrightarrow> n div P = 0 \<longleftrightarrow> n < P" for n :: nat
  by (simp add: div_eq_0_iff)

text \<open>The first parts of an address are zero exactly when the number is small.\<close>

lemma first_parts:
  "part32 0 ip = 0 \<longleftrightarrow> unat ip < 2 ^ 96"
  "part32 0 ip = 0 \<and> part32 1 ip = 0 \<longleftrightarrow> unat ip < 2 ^ 64"
  "part32 0 ip = 0 \<and> part32 1 ip = 0 \<and> part32 2 ip = 0 \<longleftrightarrow> unat ip < 2 ^ 32"
proof -
  have b: "unat ip < 2 ^ 32 * 2 ^ 96" using unsigned_less [of ip] by simp
  have p0: "part32 0 ip = 0 \<longleftrightarrow> unat ip < 2 ^ 96"
    unfolding unat_eq_0 [symmetric] unat_part32 using div_mod_bound [OF b] by (simp add: div_zero)
  have p1: "part32 1 ip = 0 \<longleftrightarrow> unat ip < 2 ^ 64" if "unat ip < 2 ^ 96"
    unfolding unat_eq_0 [symmetric] unat_part32 using div_mod_bound [of "unat ip" "2 ^ 32" "2 ^ 64"] that by (simp add: div_zero)
  have p2: "part32 2 ip = 0 \<longleftrightarrow> unat ip < 2 ^ 32" if "unat ip < 2 ^ 64"
    unfolding unat_eq_0 [symmetric] unat_part32 using div_mod_bound [of "unat ip" "2 ^ 32" "2 ^ 32"] that by (simp add: div_zero)
  show "part32 0 ip = 0 \<longleftrightarrow> unat ip < 2 ^ 96" by (rule p0)
  show two: "part32 0 ip = 0 \<and> part32 1 ip = 0 \<longleftrightarrow> unat ip < 2 ^ 64" using p0 p1 by auto
  show "part32 0 ip = 0 \<and> part32 1 ip = 0 \<and> part32 2 ip = 0 \<longleftrightarrow> unat ip < 2 ^ 32" using two p2 by auto
qed

lemma addr_is_ipv4_iff: "addr_is_ipv4 a \<longleftrightarrow> unat (a_ip a) div 2 ^ 32 = 0xFFFF"
proof -
  let ?n = "unat (a_ip a)"
  have p4: "part16 4 (a_ip a) = 0 \<longleftrightarrow> ?n < 2 ^ 48" if "?n < 2 ^ 64"
    unfolding unat_eq_0 [symmetric] unat_part16 using div_mod_bound [of ?n "2 ^ 16" "2 ^ 48"] that by (simp add: div_zero)
  have p5: "part16 5 (a_ip a) = 0xFFFF \<longleftrightarrow> ?n div 2 ^ 32 = 0xFFFF" if "?n < 2 ^ 48"
    unfolding word_unat_eq_iff [of "part16 5 (a_ip a)"] unat_part16 using div_mod_bound [of ?n "2 ^ 16" "2 ^ 32"] that by simp
  have small: "?n < 2 ^ 48" if "?n div 2 ^ 32 = 0xFFFF" using that div_range [of "2 ^ 32" ?n "0xFFFF"] by simp
  show ?thesis
    unfolding addr_is_ipv4_def using first_parts(2) [of "a_ip a"] p4 p5 small by auto
qed

lemma network_of_v6_type: "network_of_v6 ip = v6_type (unat ip)"
proof -
  let ?n = "unat ip"
  have b: "?n < 2 ^ 16 * 2 ^ 112" using unsigned_less [of ip] by simp
  have any: "part32 0 ip = 0 \<and> part32 1 ip = 0 \<and> part32 2 ip = 0 \<and> part32 3 ip = 0 \<longleftrightarrow> ?n = 0"
    using first_parts(3) [of ip] unat_part32 [of 3 ip] by (auto simp flip: unat_eq_0)
  have one: "part32 0 ip = 0 \<and> part32 1 ip = 0 \<and> part32 2 ip = 0 \<and> part16 6 ip = 0 \<and> part16 7 ip = 1 \<longleftrightarrow> ?n = 1"
  proof -
    have p6: "part16 6 ip = 0 \<longleftrightarrow> ?n < 2 ^ 16" if "?n < 2 ^ 32"
      unfolding unat_eq_0 [symmetric] unat_part16 using div_mod_bound [of ?n "2 ^ 16" "2 ^ 16"] that by (simp add: div_zero)
    have p7: "part16 7 ip = 1 \<longleftrightarrow> ?n = 1" if "?n < 2 ^ 16"
      unfolding word_unat_eq_iff [of "part16 7 ip"] unat_part16 using that by simp
    show ?thesis using first_parts(3) [of ip] p6 p7 by auto
  qed
  have pre: "unat (part16 0 ip) = ?n div 2 ^ 112" unfolding unat_part16 using div_mod_bound [OF b] by simp
  have prefix1: "?n = 1 \<Longrightarrow> ?n div 2 ^ 112 = 0" by simp
  show ?thesis
    unfolding network_of_v6_def v6_type_def any one v6_masks pre Let_def using prefix1 by auto
qed

definition network_spec :: "nat \<Rightarrow> network_type" where
  "network_spec n = (if n div 2 ^ 32 = 0xFFFF then table_type v4_table (n mod 2 ^ 32) else v6_type n)"

lemma network_of_spec: "network_of a = network_spec (unat (a_ip a))"
  using unat_part32 [of 3 "a_ip a"]
  by (simp add: network_of_def network_spec_def addr_is_ipv4_iff network_of_v4_table network_of_v6_type)

lemma network_of_defined: "network_of a \<noteq> Network_Undefined"
  by (simp add: network_of_def network_of_v4_def network_of_v6_def Let_def)

text \<open>The calls on an object.\<close>

datatype addr_call =
    Set_V4 "32 word" "16 word" | Set_V6 "128 word" "16 word" | Set_Port int | Set_Protocol "string option"
  | Set_Text string string int "string option" | Ask_Network

fun addr_step :: "inet_env \<Rightarrow> addr \<Rightarrow> addr_call \<Rightarrow> addr result" where
  "addr_step env a (Set_V4 v4 port) = Inr (set_ipv4 v4 port a)"
| "addr_step env a (Set_V6 v6 port) = Inr (set_ipv6 v6 port a)"
| "addr_step env a (Set_Port port) = set_port port a"
| "addr_step env a (Set_Protocol p) = set_protocol p a"
| "addr_step env a (Set_Text ap d port p) = set_addr_port env ap d port p a"
| "addr_step env a Ask_Network = Inr (snd (get_network_type a))"

definition cache_ok :: "addr \<Rightarrow> bool" where
  "cache_ok a \<longleftrightarrow> a_network a = Network_Undefined \<or> a_network a = network_of a"

lemma cache_ok_changed [simp]: "cache_ok (address_changed a)"
  by (simp add: cache_ok_def address_changed_def)

lemma network_of_same_ip: "a_ip a = a_ip b \<Longrightarrow> network_of a = network_of b"
  by (simp add: network_of_spec)

lemma cache_ok_address: "set_address g ad port p a = Inr b \<Longrightarrow> cache_ok b"
  by (auto simp: set_address_def result_simps split: option.split_asm prod.split_asm resolved.split_asm)
    (metis cache_ok_changed resolved.exhaust)

lemma cache_ok_step: "cache_ok a \<Longrightarrow> addr_step env a c = Inr b \<Longrightarrow> cache_ok b"
proof (cases c)
  case (Set_Port p)
  assume "cache_ok a" "addr_step env a c = Inr b"
  then show ?thesis using network_of_same_ip [of b a] Set_Port by (auto simp: set_port_def cache_ok_def split: if_splits)
next
  case Ask_Network
  assume "cache_ok a" "addr_step env a c = Inr b"
  then show ?thesis using network_of_same_ip [of "a\<lparr>a_network := network_of a\<rparr>" a] Ask_Network
    by (auto simp: get_network_type_def cache_ok_def split: if_splits)
qed (auto simp: set_ipv4_def set_ipv6_def set_protocol_def set_addr_port_def result_simps
     split: option.splits dest: cache_ok_address)

interpretation addr_machine: inv_machine "addr_step env" cache_ok for env
  by unfold_locales (rule cache_ok_step)

lemma get_network_type_value: "cache_ok a \<Longrightarrow> fst (get_network_type a) = network_spec (unat (a_ip a))"
  by (auto simp: get_network_type_def cache_ok_def network_of_spec)

text \<open>C16.
  Whatever calls were made on an address before, \<open>get_network_type()\<close> gives the type of the current address by the
  table of the reserved ranges, for IPv4 and IPv6: the value kept in the object is never out of date.
\<close>

theorem network_type_current:
  assumes "runE (addr_step env) new_addr calls = Inr a"
  shows "fst (get_network_type a) = network_spec (unat (a_ip a))"
proof -
  have "cache_ok a" by (rule addr_machine.run_inv [OF _ assms]) (simp add: cache_ok_def new_addr_def)
  then show ?thesis by (rule get_network_type_value)
qed

theorem network_type_current_witness:
  "fst (get_network_type (set_ipv4 0xC0A80105 80 (snd (get_network_type new_addr)))) = Network_Private"
proof -
  let ?a = "set_ipv4 0xC0A80105 80 (snd (get_network_type new_addr))"
  have "runE (addr_step env) new_addr [Ask_Network, Set_V4 0xC0A80105 80] = Inr ?a" for env by simp
  then have "fst (get_network_type ?a) = network_spec (unat (a_ip ?a))" by (rule network_type_current)
  also have "a_ip ?a = 0xFFFFC0A80105" by (simp add: set_ipv4_def address_changed_def)
  also have "network_spec (unat (0xFFFFC0A80105 :: 128 word)) = Network_Private"
    by (simp add: network_spec_def table_type_def v4_table_def quad_def)
  finally show ?thesis .
qed

section \<open>Text\<close>

text \<open>
  What the round trip uses of the libraries at one address: its text has no closing bracket, no colon if it is
  an IPv4 address, and both the text and the number of the port are read back.
\<close>

definition text_ok :: "inet_env \<Rightarrow> addr \<Rightarrow> bool" where
  "text_ok env a \<longleftrightarrow>
     (let t = if addr_is_ipv4 a then ntop4 env (part32 3 (a_ip a)) else ntop6 env (a_ip a);
          r = if addr_is_ipv4 a then Resolved_V4 (part32 3 (a_ip a)) else Resolved_V6 (a_ip a) in
      t \<noteq> [] \<and> CHR '']'' \<notin> set t \<and> (addr_is_ipv4 a \<longrightarrow> CHR '':'' \<notin> set t)
      \<and> to_int env (show_nat (unat (a_port a))) = Some (uint (a_port a))
      \<and> getaddrinfo env t (uint (a_port a)) (Some IPPROTO_TCP) = Some (r, IPPROTO_TCP))"

lemma disjoint_parts: "push_bit 32 (m :: 128 word) AND ucast (v :: 32 word) = 0"
  by (rule bit_word_eqI) (auto simp: bit_simps dest: bit_imp_le_length)

lemma mapped_ipv4: "addr_is_ipv4 a \<Longrightarrow> push_bit 32 0xFFFF OR ucast (part32 3 (a_ip a)) = a_ip a"
proof -
  assume "addr_is_ipv4 a"
  then have n: "unat (a_ip a) = 0xFFFF * 2 ^ 32 + unat (a_ip a) mod 2 ^ 32"
    using div_mult_mod_eq [of "unat (a_ip a)" "2 ^ 32"] by (simp add: addr_is_ipv4_iff)
  have u: "unat (ucast (part32 3 (a_ip a)) :: 128 word) = unat (a_ip a) mod 2 ^ 32"
    using unat_part32 [of 3 "a_ip a"] by (simp add: unsigned_ucast_eq take_bit_nat_eq_self)
  have "push_bit 32 (0xFFFF :: 128 word) OR ucast (part32 3 (a_ip a)) = push_bit 32 0xFFFF + ucast (part32 3 (a_ip a))"
    by (rule disjunctive_add_eq_or [symmetric]) (rule disjoint_parts)
  also have "unat \<dots> = unat (a_ip a)"
    by (subst unat_word_ariths, subst u) (use n in simp)
  finally show ?thesis by (simp add: word_unat_eq_iff)
qed

lemma port_not_colon: "CHR '':'' \<notin> set (show_nat n)" "CHR '']'' \<notin> set (show_nat n)"
  by (rule show_nat_no_char, simp add: is_digit_def)+

text \<open>C25.
  The text of an address with its port, as the daemons write it in their messages, is read back as the same address and
  the same port by the constructor, for IPv4 and IPv6, whatever the defaults are.
\<close>

theorem address_roundtrip:
  assumes "text_ok env a" "a_port a \<noteq> 0"
  shows "\<exists>s b. get_ipv4or6_string env True True a = Inr s \<and> addr_default env s d p (Some ''tcp'') = Inr b
    \<and> a_ip b = a_ip a \<and> a_port b = a_port a"
proof -
  define t where "t = (if addr_is_ipv4 a then ntop4 env (part32 3 (a_ip a)) else ntop6 env (a_ip a))"
  define port where "port = show_nat (unat (a_port a))"
  define s where "s = (if addr_is_ipv4 a then t @ CHR '':'' # port else CHR ''['' # t @ CHR '']'' # CHR '':'' # port)"
  note ok = assms(1) [unfolded text_ok_def Let_def t_def [symmetric]]
  have written: "get_ipv4or6_string env True True a = Inr s"
    by (simp add: get_ipv4or6_string_def get_ipv4_string_def get_ipv6_string_def s_def t_def port_def)
  have "split_addr_port s d = Inr (t, port)"
    using ok split_address_port [of port t d] split_bracket_port [of port t d] by (simp add: s_def port_def port_not_colon)
  moreover have "0 < uint (a_port a)" using assms(2) by (simp add: word_neq_0_conv [symmetric] uint_0_iff less_le)
  moreover have "uint (a_port a) \<le> 65535" using unsigned_less [of "a_port a", where 'a = int] by simp
  ultimately have "get_addr_port (to_int env) (getservbyname env) s d p = Inr (t, uint (a_port a))"
    using ok by (simp add: get_addr_port_def port_of_def port_def)
  moreover have "s \<noteq> []" by (simp add: s_def)
  ultimately show ?thesis using written ok mapped_ipv4 [of a]
    by (auto simp: addr_default_def set_addr_port_def set_address_def protocol_of_def set_ipv4_def set_ipv6_def address_changed_def)
qed

text \<open>A small library of names: the address 10.1.2.3 and the loopback address of IPv6.\<close>

definition sample_env :: inet_env where
  "sample_env = \<lparr>
     getaddrinfo = (\<lambda>t port hint. if t = ''::1'' then Some (Resolved_V6 1, IPPROTO_TCP)
       else if t = ''10.1.2.3'' then Some (Resolved_V4 0x0A010203, IPPROTO_TCP) else None),
     getservbyname = (\<lambda>_. None), to_int = (\<lambda>s. if list_all is_digit s then Some (int (dec_value s)) else None),
     ntop4 = (\<lambda>_. ''10.1.2.3''), ntop6 = (\<lambda>_. ''::1'')\<rparr>"

theorem address_roundtrip_witness:
  "\<exists>s b. get_ipv4or6_string sample_env True True (set_ipv6 1 4040 new_addr) = Inr s
     \<and> addr_default sample_env s ''127.0.0.1'' 80 (Some ''tcp'') = Inr b \<and> a_ip b = 1 \<and> a_port b = 4040"
proof -
  let ?a = "set_ipv6 1 4040 new_addr"
  have "\<not> addr_is_ipv4 ?a" "a_ip ?a = 1" "a_port ?a = 4040" by (simp_all add: set_ipv6_def address_changed_def addr_is_ipv4_iff)
  moreover have "text_ok sample_env ?a"
    using show_nat_digits [of 4040] calculation by (simp add: text_ok_def sample_env_def list_all_iff)
  ultimately show ?thesis using address_roundtrip [of sample_env ?a "''127.0.0.1''" 80] by simp
qed
end
