(* ===== verification/Communicator_Server.thy ===== *)
theory Communicator_Server
  imports Communicator_Message Snap_Addr
begin

text \<open>
  \<open>snapcommunicator.cpp\<close>, the state of the daemon and the operations its handlers share: the connections
  (\<open>base_connection\<close>, \<open>service_connection\<close>, \<open>remote_snap_communicator\<close>), the remote communicators
  (\<open>remote_communicator_connections\<close> with its gossip connections), the neighbors, and \<open>broadcast_message()\<close>.
  A connection is an index in a heap of objects; the list \<open>s_conns\<close> is the vector of the event loop.
  What is sent goes at the end of \<open>s_sent\<close>.  The clock, the libraries and the files are in the environment
  \<open>comm_env\<close>; the clock stands still during a handler.
  The theorems: a broadcast message is handled at most once by a daemon, nobody gets it twice or after having been
  informed, and it goes no further after five hops.
\<close>

section \<open>Data\<close>

type_synonym strings = "(string, bool) omap"

text \<open>The classes of connections; \<open>Server\<close> stands for the listeners, the UDP server, the signal handler and the timer.\<close>

datatype conn_kind = Service | Remote | Gossip | Server

datatype connection_type = Type_Down | Type_Local | Type_Remote

record connection =
  c_kind :: conn_kind
  c_name :: string
  c_own_server :: string
  c_named :: bool
  c_addr :: addr
  c_client_addr :: string
  c_messenger :: "nat option"
  c_commands :: strings
  c_started_on :: int
  c_ended_on :: int
  c_type :: connection_type
  c_server_name :: string
  c_my_address :: string
  c_services :: strings
  c_heard_of :: strings
  c_remote :: bool
  c_wants_loadavg :: bool
  c_done :: bool
  c_enabled :: bool
  c_timeout_date :: int
  c_timeout_delay :: int
  c_wait :: int

record message_cache =
  f_timeout_timestamp :: int
  f_message :: message

record server =
  s_name :: string
  s_public_ip :: string
  s_my_address :: addr
  s_conns :: "nat list"
  s_heap :: "connection list"
  s_servers :: "nat list"
  s_local_services :: string
  s_local_services_list :: strings
  s_heard_of :: string
  s_heard_of_list :: "string list"
  s_explicit_neighbors :: string
  s_neighbors_read :: bool
  s_all_neighbors :: strings
  s_neighbors_file :: "string list"
  s_loadavg_neighbors :: strings
  s_all_ips :: "(string, int) omap"
  s_last_start_date :: int
  s_smaller_ips :: "(string, nat) omap"
  s_gossip_ips :: "(string, nat) omap"
  s_max_connections :: nat
  s_shutdown :: bool
  s_force_restart :: bool
  s_loadavg_timer :: bool
  s_loadavg_file :: "(128 word \<times> string \<times> int) list"
  s_cache :: "message_cache list"
  s_received :: "(string, int) omap"
  s_sequence :: int
  s_sent :: "(nat \<times> message) list"

text \<open>
  The environment of a handler: the network library, \<open>time()\<close> in seconds, \<open>get_current_date()\<close> in microseconds, the
  \<open>--debug\<close> option, \<open>QString::toLongLong()\<close>, \<open>QString::toInt()\<close> and a \<open>toFloat()\<close> that is not negative, the output buffers, and the file of the
  neighbors when it can be read and whether it can be written.
\<close>

record comm_env =
  e_inet :: inet_env
  e_time :: int
  e_now :: int
  e_debug :: bool
  e_to_ll :: "string \<Rightarrow> int option"
  e_to_int :: "string \<Rightarrow> int option"
  e_to_avg :: "string \<Rightarrow> string option"
  e_has_output :: "nat \<Rightarrow> bool"
  e_neighbors_file :: "string list option"
  e_file_writable :: bool

abbreviation conn :: "server \<Rightarrow> nat \<Rightarrow> connection" where
  "conn s i \<equiv> s_heap s ! i"

definition on_conn :: "nat \<Rightarrow> (connection \<Rightarrow> connection) \<Rightarrow> server \<Rightarrow> server" where
  "on_conn i f s = s\<lparr>s_heap := (s_heap s)[i := f (s_heap s ! i)]\<rparr>"

definition add_connection :: "connection \<Rightarrow> server \<Rightarrow> server" where
  "add_connection c s = s\<lparr>s_heap := s_heap s @ [c], s_conns := s_conns s @ [length (s_heap s)]\<rparr>"

definition remove_connection :: "nat \<Rightarrow> server \<Rightarrow> server" where
  "remove_connection i s = s\<lparr>s_conns := remove1 i (s_conns s)\<rparr>"

definition send_message :: "nat \<Rightarrow> message \<Rightarrow> server \<Rightarrow> server" where
  "send_message i m s = s\<lparr>s_sent := s_sent s @ [(i, m)]\<rparr>"

definition send_all :: "nat list \<Rightarrow> message \<Rightarrow> server \<Rightarrow> server" where
  "send_all is m s = fold (\<lambda>i. send_message i m) is s"

text \<open>Only a \<open>service_connection\<close> and a \<open>remote_snap_communicator\<close> have a \<open>base_connection\<close> and can send a reply.\<close>

definition has_base :: "connection \<Rightarrow> bool" where
  "has_base c \<longleftrightarrow> c_kind c = Service \<or> c_kind c = Remote"

definition send_reply :: "nat \<Rightarrow> message \<Rightarrow> server \<Rightarrow> server result" where
  "send_reply i m s =
     (if has_base (conn s i) then Inr (send_message i m s) else Inl (Logic_Error ''message sent on a weird connection''))"

section \<open>Messages\<close>

text \<open>
  A new message and one with more parameters.  The commands and the names in the code are literals that
  \<open>verify_name()\<close> accepts; the lemma \<open>make_message_setters\<close> relates them to the setters of the class.
\<close>

definition put_parameter :: "string \<times> string \<Rightarrow> message \<Rightarrow> message" where
  "put_parameter p m = m\<lparr>f_parameters := omap_put (fst p) (snd p) (f_parameters m), f_cached_message := []\<rparr>"

definition with_parameters :: "(string \<times> string) list \<Rightarrow> message \<Rightarrow> message" where
  "with_parameters ps m = fold put_parameter ps m"

definition make_message :: "string \<Rightarrow> (string \<times> string) list \<Rightarrow> message" where
  "make_message command ps = with_parameters ps (empty_message\<lparr>f_command := command\<rparr>)"

abbreviation has_param :: "message \<Rightarrow> string \<Rightarrow> bool" where
  "has_param m name \<equiv> omap_get (f_parameters m) name \<noteq> None"

fun add_parameters :: "(string \<times> string) list \<Rightarrow> message \<Rightarrow> message result" where
  "add_parameters [] m = Inr m"
| "add_parameters ((k, v) # ps) m = bindE (add_parameter k v m) (add_parameters ps)"

lemma with_parameters_setters:
  "list_all (\<lambda>p. verify_name (fst p) False True = Inr ()) ps \<Longrightarrow> add_parameters ps m = Inr (with_parameters ps m)"
proof (induction ps arbitrary: m)
  case (Cons p ps)
  then show ?case by (cases p) (simp add: add_parameter_def with_parameters_def put_parameter_def)
qed (simp add: with_parameters_def)

lemma make_message_setters:
  assumes "verify_name command False False = Inr ()" "command \<noteq> []" "list_all (\<lambda>p. verify_name (fst p) False True = Inr ()) ps"
  shows "bindE (set_command command empty_message) (add_parameters ps) = Inr (make_message command ps)"
  using assms with_parameters_setters [OF assms(3)]
  by (simp add: set_command_def make_message_def empty_message_def)

section \<open>Lists of names\<close>

definition canonicalize_services :: "string \<Rightarrow> strings" where
  "canonicalize_services services =
     fold (\<lambda>s r. if trimmed s = [] then r else omap_put (trimmed s) True r) (split_skip CHR '','' services) []"

definition server_types :: "string list" where
  "server_types = [''apache'', ''frontend'', ''backend'', ''cassandra'']"

definition join_commas :: "string list \<Rightarrow> string" where
  "join_commas ss = (case ss of [] \<Rightarrow> [] | s # rest \<Rightarrow> s @ concat (map (\<lambda>x. CHR '','' # x) rest))"

definition canonicalize_server_types :: "string \<Rightarrow> string" where
  "canonicalize_server_types types =
     join_commas (map fst (fold (\<lambda>t r. if trimmed t \<in> set server_types then omap_put (trimmed t) True r else r)
       (split_skip CHR '','' types) []))"

section \<open>Connections\<close>

definition connection_started :: "comm_env \<Rightarrow> connection \<Rightarrow> connection" where
  "connection_started env c = c\<lparr>c_started_on := e_now env, c_ended_on := - 1\<rparr>"

definition connection_ended :: "comm_env \<Rightarrow> connection \<Rightarrow> connection" where
  "connection_ended env c = (if c_started_on c \<noteq> - 1 \<and> c_ended_on c = - 1 then c\<lparr>c_ended_on := e_now env\<rparr> else c)"

definition put_names :: "string list \<Rightarrow> strings \<Rightarrow> strings" where
  "put_names ns m = fold (\<lambda>n. omap_put n True) ns m"

definition set_services :: "string \<Rightarrow> connection \<Rightarrow> connection" where
  "set_services services c = c\<lparr>c_services := put_names (split_on CHR '','' services) (c_services c)\<rparr>"

definition set_services_heard_of :: "string \<Rightarrow> connection \<Rightarrow> connection" where
  "set_services_heard_of services c = c\<lparr>c_heard_of := put_names (split_on CHR '','' services) (c_heard_of c)\<rparr>"

definition set_commands :: "string \<Rightarrow> connection \<Rightarrow> connection" where
  "set_commands commands c =
     c\<lparr>c_commands := put_names (filter (\<lambda>n. n \<noteq> []) (map trimmed (split_on CHR '','' commands))) (c_commands c)\<rparr>"

definition understand_command :: "connection \<Rightarrow> string \<Rightarrow> bool" where
  "understand_command c command \<longleftrightarrow> omap_get (c_commands c) command \<noteq> None"

definition has_commands :: "connection \<Rightarrow> bool" where
  "has_commands c \<longleftrightarrow> c_commands c \<noteq> []"

definition remove_command :: "string \<Rightarrow> connection \<Rightarrow> connection" where
  "remove_command command c = c\<lparr>c_commands := omap_erase command (c_commands c)\<rparr>"

definition set_timeout_delay :: "int \<Rightarrow> connection \<Rightarrow> connection" where
  "set_timeout_delay d c = c\<lparr>c_timeout_delay := d\<rparr>"

text \<open>
  The connection of a \<open>remote_snap_communicator\<close> is another object, the messenger, while it is up; without it there is no address.
\<close>

definition get_client_addr :: "connection \<Rightarrow> string" where
  "get_client_addr c = (case c_messenger c of None \<Rightarrow> [] | Some _ \<Rightarrow> c_client_addr c)"

definition disconnect :: "nat \<Rightarrow> server \<Rightarrow> server" where
  "disconnect i s =
     (case c_messenger (conn s i) of
        None \<Rightarrow> s
      | Some j \<Rightarrow> on_conn i (\<lambda>c. c\<lparr>c_messenger := None\<rparr>) (remove_connection j s))"

text \<open>With the \<open>--debug\<close> option, a command that the other side did not announce ends the process.\<close>

definition verify_command :: "comm_env \<Rightarrow> nat \<Rightarrow> message \<Rightarrow> server \<Rightarrow> unit result" where
  "verify_command env i m s =
     (if \<not> e_debug env then Inr ()
      else if \<not> has_base (conn s i) then Inl (Logic_Error ''no base connection'')
      else if \<not> has_commands (conn s i) then Inr ()
      else if understand_command (conn s i) (f_command m) then Inr ()
      else Inl (Logic_Error ''Connection does not implement command''))"

text \<open>The text of an address without its port.\<close>

definition addr_string :: "comm_env \<Rightarrow> bool \<Rightarrow> addr \<Rightarrow> string" where
  "addr_string env brackets a =
     (case get_ipv4or6_string (e_inet env) False brackets a of Inr t \<Rightarrow> t | Inl _ \<Rightarrow> [])"

lemma addr_string_returns: "get_ipv4or6_string (e_inet env) False brackets a = Inr (addr_string env brackets a)"
  by (simp add: addr_string_def get_ipv4or6_string_def get_ipv4_string_def get_ipv6_string_def)

section \<open>Broadcasting\<close>

text \<open>
  The start of \<open>broadcast_message()\<close>: \<open>None\<close> when the message is too old or known, otherwise its identifier, the
  neighbors that have it, the number of hops and the timeout.  A message of our own has none of them.
\<close>

definition broadcast_begin ::
  "comm_env \<Rightarrow> message \<Rightarrow> server \<Rightarrow> ((string \<times> string list \<times> int \<times> int) option \<times> server) result" where
  "broadcast_begin env m s =
     (if \<not> has_param m ''broadcast_msgid'' then Inr (Some ([], [], 0, 0), s)
      else
        bindE (get_integer_parameter (e_to_ll env) ''broadcast_timeout'' m) (\<lambda>timeout.
        if timeout < e_time env then Inr (None, s)
        else
          bindE (get_parameter ''broadcast_msgid'' m) (\<lambda>msgid.
          if omap_get (s_received s) msgid \<noteq> None then Inr (None, s)
          else
            let s1 = s\<lparr>s_received := omap_put msgid timeout (filter (\<lambda>p. \<not> snd p < e_time env) (s_received s))\<rparr> in
            bindE (get_parameter ''broadcast_informed_neighbors'' m) (\<lambda>informed.
            bindE (get_integer_parameter (e_to_ll env) ''broadcast_hops'' m) (\<lambda>hops.
            Inr (Some (msgid, split_skip CHR '','' informed, hops, timeout), s1))))))"

text \<open>The connections to which the message goes, each the first one with an address that is not informed yet.\<close>

fun select :: "comm_env \<Rightarrow> server \<Rightarrow> (connection \<Rightarrow> bool) \<Rightarrow> nat list \<Rightarrow> string list \<Rightarrow> string list \<times> nat list" where
  "select env s wanted [] informed = (informed, [])"
| "select env s wanted (i # is) informed =
     (let address = addr_string env False (c_addr (conn s i)) in
      if wanted (conn s i) \<and> address \<notin> set informed then
        (case select env s wanted is (informed @ [address]) of (known, ids) \<Rightarrow> (known, i # ids))
      else select env s wanted is informed)"

definition destination :: "message \<Rightarrow> string" where
  "destination m =
     (if f_service m \<noteq> ''.'' \<and> f_service m \<noteq> ''?'' \<and> f_service m \<noteq> ''*''
      then (if f_server m = [] then ''?'' else f_server m)
      else f_service m)"

text \<open>Whether a connection to another computer is in the reach of the message.\<close>

definition in_reach :: "message \<Rightarrow> int \<Rightarrow> connection \<Rightarrow> bool" where
  "in_reach m hops c \<longleftrightarrow>
     (let all = hops < 5 \<and> destination m = ''*'';
          remote = hops < 5 \<and> (all \<or> destination m = ''?'') in
      has_base c \<and> (network_of (c_addr c) = Network_Private \<and> remote \<or> network_of (c_addr c) = Network_Public \<and> all))"

text \<open>The services of this computer that know the command.\<close>

definition local_listeners :: "message \<Rightarrow> server \<Rightarrow> nat list" where
  "local_listeners m s =
     filter (\<lambda>i. c_kind (conn s i) = Service \<and> network_of (c_addr (conn s i)) = Network_Loopback
       \<and> understand_command (conn s i) (f_command m)) (s_conns s)"

text \<open>The copy that is sent on.\<close>

definition broadcast_copy :: "comm_env \<Rightarrow> message \<Rightarrow> string \<Rightarrow> string list \<Rightarrow> int \<Rightarrow> int \<Rightarrow> server \<Rightarrow> message" where
  "broadcast_copy env m msgid informed hops timeout s =
     (let originator = addr_string env True (s_my_address s);
          informed1 = if originator \<in> set informed then informed else informed @ [originator] in
      with_parameters
        [(''broadcast_msgid'', if msgid = [] then s_name s @ ''-'' @ show_int (s_sequence s) else msgid),
         (''broadcast_hops'', show_int (hops + 1)),
         (''broadcast_originator'', originator),
         (''broadcast_timeout'', show_int (if timeout = 0 then e_time env + 10 else timeout)),
         (''broadcast_informed_neighbors'', join_commas informed1)] m)"

definition broadcast_end ::
  "comm_env \<Rightarrow> message \<Rightarrow> string \<Rightarrow> string list \<Rightarrow> int \<Rightarrow> int \<Rightarrow> nat list \<Rightarrow> server \<Rightarrow> server" where
  "broadcast_end env m msgid informed hops timeout ids s =
     (if ids = [] then s
      else
        let s1 = s\<lparr>s_sequence := s_sequence s + 1\<rparr> in
        send_all ids (broadcast_copy env m msgid informed hops timeout s1) s1)"

definition broadcast_deliver :: "comm_env \<Rightarrow> message \<Rightarrow> nat list \<Rightarrow> string \<times> string list \<times> int \<times> int \<Rightarrow> server \<Rightarrow> server" where
  "broadcast_deliver env m accepting = (\<lambda>(msgid, informed, hops, timeout) s.
     if accepting = [] then
       let chosen = select env s (in_reach m hops) (s_conns s) informed in
       broadcast_end env m msgid (fst chosen) hops timeout (snd chosen) (send_all (local_listeners m s) m s)
     else
       let chosen = select env s has_base accepting informed in
       broadcast_end env m msgid (fst chosen) hops timeout (snd chosen) s)"

definition broadcast_message :: "comm_env \<Rightarrow> message \<Rightarrow> nat list \<Rightarrow> server \<Rightarrow> server result" where
  "broadcast_message env m accepting s =
     bindE (broadcast_begin env m s) (\<lambda>(r, s1).
       Inr (case r of None \<Rightarrow> s1 | Some x \<Rightarrow> broadcast_deliver env m accepting x s1))"

section \<open>Remote communicators\<close>

definition blank_connection :: connection where
  "blank_connection = \<lparr>c_kind = Server, c_name = [], c_own_server = [], c_named = False, c_addr = new_addr, c_client_addr = [], c_messenger = None,
     c_commands = [], c_started_on = - 1, c_ended_on = - 1, c_type = Type_Down, c_server_name = [], c_my_address = [],
     c_services = [], c_heard_of = [], c_remote = False, c_wants_loadavg = False, c_done = False, c_enabled = True,
     c_timeout_date = - 1, c_timeout_delay = - 1, c_wait = 0\<rparr>"

definition DEFAULT_TIMEOUT :: int where "DEFAULT_TIMEOUT = 60 * 1000000"
definition RECONNECT_TIMEOUT :: int where "RECONNECT_TIMEOUT = 5 * 60 * 1000000"
definition TOO_BUSY_TIMEOUT :: int where "TOO_BUSY_TIMEOUT = 24 * 60 * 60 * 1000000"
definition FIRST_TIMEOUT :: int where "FIRST_TIMEOUT = 5 * 1000000"

definition new_remote :: "comm_env \<Rightarrow> string \<Rightarrow> connection result" where
  "new_remote env address =
     bindE (addr_default (e_inet env) address [] 4040 (Some ''tcp'')) (\<lambda>a.
       Inr (blank_connection\<lparr>c_kind := Remote, c_name := ''remote communicator connection: '' @ address, c_addr := a,
         c_client_addr := addr_string env False a, c_timeout_delay := DEFAULT_TIMEOUT\<rparr>))"

definition new_gossip :: "string \<Rightarrow> connection" where
  "new_gossip address =
     blank_connection\<lparr>c_kind := Gossip, c_name := ''gossip to remote snap communicator: '' @ address,
       c_client_addr := address, c_timeout_delay := FIRST_TIMEOUT, c_wait := FIRST_TIMEOUT\<rparr>"

text \<open>An address seen before: only the timer of a connection of ours is moved.\<close>

definition wake_remote :: "comm_env \<Rightarrow> string \<Rightarrow> addr \<Rightarrow> server \<Rightarrow> server" where
  "wake_remote env address a s =
     (if addr_less a (s_my_address s) then
        (case omap_get (s_smaller_ips s) address of
           Some i \<Rightarrow> if c_enabled (conn s i) then on_conn i (\<lambda>c. c\<lparr>c_timeout_date := e_now env\<rparr>) s else s
         | None \<Rightarrow> s)
      else s)"

text \<open>We connect to a smaller address; a larger one is told with a GOSSIP that it has to connect to us.\<close>

definition connect_remote :: "comm_env \<Rightarrow> string \<Rightarrow> server \<Rightarrow> server result" where
  "connect_remote env address s =
     bindE (new_remote env address) (\<lambda>c.
       let start = (if e_now env > s_last_start_date s then e_now env else s_last_start_date s) in
       Inr (add_connection (c\<lparr>c_timeout_date := start\<rparr>)
         (s\<lparr>s_smaller_ips := omap_put address (length (s_heap s)) (s_smaller_ips s), s_last_start_date := start + 1000000\<rparr>)))"

definition gossip_remote :: "string \<Rightarrow> server \<Rightarrow> server" where
  "gossip_remote address s =
     add_connection (new_gossip address) (s\<lparr>s_gossip_ips := omap_put address (length (s_heap s)) (s_gossip_ips s)\<rparr>)"

definition add_remote_communicator :: "comm_env \<Rightarrow> string \<Rightarrow> server \<Rightarrow> server result" where
  "add_remote_communicator env addr_port s =
     bindE (addr_default (e_inet env) addr_port [] 4040 (Some ''tcp'')) (\<lambda>a.
       if addr_eq a (s_my_address s) then Inr s
       else
         let address = addr_string env True a in
         if omap_get (s_all_ips s) address \<noteq> None then Inr (wake_remote env address a s)
         else
           let s1 = s\<lparr>s_all_ips := omap_put address (get_port a) (s_all_ips s)\<rparr> in
           if addr_less a (s_my_address s) then connect_remote env address s1 else Inr (gossip_remote address s1))"

definition stop_gossiping :: "server \<Rightarrow> server" where
  "stop_gossiping s = (fold remove_connection (map snd (s_gossip_ips s)) s)\<lparr>s_gossip_ips := []\<rparr>"

definition on_smaller :: "string \<Rightarrow> int \<Rightarrow> server \<Rightarrow> server" where
  "on_smaller address delay s =
     (case omap_get (s_smaller_ips s) address of None \<Rightarrow> s | Some i \<Rightarrow> on_conn i (set_timeout_delay delay) s)"

definition too_busy :: "string \<Rightarrow> server \<Rightarrow> server" where
  "too_busy address s = on_smaller address TOO_BUSY_TIMEOUT s"

definition shutting_down :: "string \<Rightarrow> server \<Rightarrow> server" where
  "shutting_down address s = on_smaller address RECONNECT_TIMEOUT s"

definition server_unreachable :: "comm_env \<Rightarrow> string \<Rightarrow> server \<Rightarrow> server result" where
  "server_unreachable env address s =
     broadcast_message env ((make_message ''UNREACHABLE'' [(''who'', address)])\<lparr>f_service := ''.''\<rparr>) [] s"

definition gossip_received :: "string \<Rightarrow> server \<Rightarrow> server" where
  "gossip_received address s =
     (case omap_get (s_gossip_ips s) address of
        None \<Rightarrow> s
      | Some i \<Rightarrow> (remove_connection i s)\<lparr>s_gossip_ips := omap_erase address (s_gossip_ips s)\<rparr>)"

definition forget_remote_connection :: "string \<Rightarrow> server \<Rightarrow> server" where
  "forget_remote_connection addr_port s =
     (let pos = index_of CHR '':'' addr_port;
          address = if CHR '':'' \<in> set addr_port \<and> pos > 0 then take pos addr_port else addr_port in
      case omap_get (s_smaller_ips s) address of
        None \<Rightarrow> s
      | Some i \<Rightarrow> (remove_connection i s)\<lparr>s_smaller_ips := omap_erase address (s_smaller_ips s)\<rparr>)"

text \<open>The delay between two attempts of a gossip connection, what it sends once connected, and the answer.\<close>

definition gossip_timeout :: "nat \<Rightarrow> server \<Rightarrow> server" where
  "gossip_timeout i s =
     (if c_wait (conn s i) < 3600 * 1000000
      then on_conn i (\<lambda>c. set_timeout_delay (c_wait c * 2) (c\<lparr>c_wait := c_wait c * 2\<rparr>)) s
      else s)"

definition my_address_text :: "comm_env \<Rightarrow> server \<Rightarrow> string" where
  "my_address_text env s =
     (case get_ipv4or6_string (e_inet env) True True (s_my_address s) of Inr t \<Rightarrow> t | Inl _ \<Rightarrow> [])"

definition gossip_connected :: "comm_env \<Rightarrow> nat \<Rightarrow> server \<Rightarrow> server" where
  "gossip_connected env i s = send_message i (make_message ''GOSSIP'' [(''my_address'', my_address_text env s)]) s"

definition gossip_message :: "nat \<Rightarrow> message \<Rightarrow> server \<Rightarrow> server" where
  "gossip_message i m s = (if f_command m = ''RECEIVED'' then gossip_received (c_client_addr (conn s i)) s else s)"

section \<open>Neighbors\<close>

definition save_neighbors :: "comm_env \<Rightarrow> server \<Rightarrow> server result" where
  "save_neighbors env s =
     (if \<not> s_neighbors_read s then Inl (Logic_Error ''save_neighbors() was called when f_neighbors_cache_filename was not set yet'')
      else if e_file_writable env then Inr (s\<lparr>s_neighbors_file := map fst (s_all_neighbors s)\<rparr>)
      else Inr s)"

fun read_lines :: "comm_env \<Rightarrow> string list \<Rightarrow> server \<Rightarrow> server result" where
  "read_lines env [] s = Inr s"
| "read_lines env (l # ls) s =
     (if l \<noteq> [] \<and> hd l \<noteq> CHR ''#'' then
        bindE (add_remote_communicator env (trimmed l) (s\<lparr>s_all_neighbors := omap_put (trimmed l) True (s_all_neighbors s)\<rparr>))
          (read_lines env ls)
      else read_lines env ls s)"

definition read_neighbors :: "comm_env \<Rightarrow> server \<Rightarrow> server result" where
  "read_neighbors env s =
     (if s_neighbors_read s then Inr s
      else case e_neighbors_file env of
        None \<Rightarrow> Inr (s\<lparr>s_neighbors_read := True\<rparr>)
      | Some ls \<Rightarrow> read_lines env ls (s\<lparr>s_neighbors_read := True\<rparr>))"

fun add_new :: "comm_env \<Rightarrow> string list \<Rightarrow> bool \<Rightarrow> server \<Rightarrow> (bool \<times> server) result" where
  "add_new env [] changed s = Inr (changed, s)"
| "add_new env (n # ns) changed s =
     (if omap_get (s_all_neighbors s) n = None then
        bindE (add_remote_communicator env n (s\<lparr>s_all_neighbors := omap_put n True (s_all_neighbors s)\<rparr>)) (add_new env ns True)
      else add_new env ns changed s)"

definition add_neighbors :: "comm_env \<Rightarrow> string \<Rightarrow> server \<Rightarrow> server result" where
  "add_neighbors env new_neighbors s =
     bindE (read_neighbors env s) (\<lambda>s1.
       if new_neighbors = [] then Inr s1
       else bindE (add_new env (split_skip CHR '','' new_neighbors) False s1) (\<lambda>(changed, s2).
         if changed then save_neighbors env s2 else Inr s2))"

definition remove_neighbor :: "comm_env \<Rightarrow> string \<Rightarrow> server \<Rightarrow> server result" where
  "remove_neighbor env neighbor s =
     bindE (if omap_get (s_all_neighbors s) neighbor \<noteq> None
            then save_neighbors env (s\<lparr>s_all_neighbors := omap_erase neighbor (s_all_neighbors s)\<rparr>)
            else Inr s) (\<lambda>s1.
       Inr (forget_remote_connection neighbor (gossip_received neighbor s1)))"

section \<open>Services heard of\<close>

text \<open>
  \<open>QMap::unite()\<close> keeps a name as often as it occurs, and \<open>remove()\<close> drops all of its occurrences.
\<close>

definition refresh_heard_of :: "server \<Rightarrow> server" where
  "refresh_heard_of s =
     (let names = concat (map (\<lambda>i. map fst (c_services (conn s i)) @ map fst (c_heard_of (conn s i)))
            (filter (\<lambda>i. c_kind (conn s i) = Service) (s_conns s)));
          others = filter (\<lambda>n. omap_get (s_local_services_list s) n = None) (sort names) in
      s\<lparr>s_heard_of_list := others, s_heard_of := join_commas others\<rparr>)"

end
