(* ===== verification/Communicator_Broadcast.thy ===== *)
theory Communicator_Broadcast
  imports Communicator_Server
begin

text \<open>
  What \<open>broadcast_message()\<close> of \<open>snapcommunicator.cpp\<close> does.  The lemmas split the function into the three outcomes of
  its start and the choice of the connections; the theorems say who gets a message, that five hops are the limit, and
  that a daemon handles a message at most once, whatever comes in between.
\<close>

section \<open>Recipients\<close>

abbreviation address_of :: "comm_env \<Rightarrow> server \<Rightarrow> nat \<Rightarrow> string" where
  "address_of env s i \<equiv> addr_string env False (c_addr (conn s i))"

lemma select_spec:
  assumes "select env s wanted is informed = (known, ids)"
  shows "known = informed @ map (address_of env s) ids \<and> distinct (map (address_of env s) ids)
    \<and> (\<forall>i \<in> set ids. i \<in> set is \<and> wanted (conn s i) \<and> address_of env s i \<notin> set informed)
    \<and> (\<forall>i \<in> set is. wanted (conn s i) \<longrightarrow> address_of env s i \<in> set known)"
  using assms
proof (induction "is" arbitrary: informed known ids)
  case (Cons i "is")
  show ?case
  proof (cases "wanted (conn s i) \<and> address_of env s i \<notin> set informed")
    case True
    obtain kn js where r: "select env s wanted is (informed @ [address_of env s i]) = (kn, js)" by (meson surj_pair)
    with True Cons(2) have "known = kn" "ids = i # js" by (simp_all add: Let_def)
    with Cons(1) [OF r] True show ?thesis by auto
  next
    case False
    with Cons(2) have r: "select env s wanted is informed = (known, ids)" by (simp add: Let_def)
    from Cons(1) [OF r] False show ?thesis by auto
  qed
qed simp

lemma send_all_sent: "send_all is m s = s\<lparr>s_sent := s_sent s @ map (\<lambda>i. (i, m)) is\<rparr>"
  by (induction "is" arbitrary: s) (simp_all add: send_all_def send_message_def)

lemma send_all_conn [simp]: "conn (send_all is m s) = conn s" "s_conns (send_all is m s) = s_conns s"
  "s_received (send_all is m s) = s_received s"
  by (simp_all add: send_all_sent)

text \<open>The neighbors the message says are informed.\<close>

definition informed_by :: "message \<Rightarrow> string list" where
  "informed_by m =
     (if has_param m ''broadcast_msgid''
      then split_skip CHR '','' (the (omap_get (f_parameters m) ''broadcast_informed_neighbors'')) else [])"

text \<open>The hops it made.\<close>

definition hops_of :: "comm_env \<Rightarrow> message \<Rightarrow> int" where
  "hops_of env m =
     (if has_param m ''broadcast_msgid''
      then (case get_integer_parameter (e_to_ll env) ''broadcast_hops'' m of Inr h \<Rightarrow> h | Inl _ \<Rightarrow> 0) else 0)"

text \<open>What the start of the function leaves alone.\<close>

definition same_but_received :: "server \<Rightarrow> server \<Rightarrow> bool" where
  "same_but_received s t \<longleftrightarrow> (\<exists>r. t = s\<lparr>s_received := r\<rparr>)"

lemma literal_names [simp]:
  "verify_name ''broadcast_msgid'' False True = Inr ()" "verify_name ''broadcast_timeout'' False True = Inr ()"
  "verify_name ''broadcast_informed_neighbors'' False True = Inr ()" "verify_name ''broadcast_hops'' False True = Inr ()"
  by code_simp+

lemma get_parameter_Inr: "verify_name n False True = Inr () \<Longrightarrow> get_parameter n m = Inr v \<longleftrightarrow> omap_get (f_parameters m) n = Some v"
  by (simp add: get_parameter_def split: option.splits)

lemma get_integer_Inr:
  "verify_name n False True = Inr () \<Longrightarrow>
     get_integer_parameter to_ll n m = Inr v \<longleftrightarrow> (\<exists>t. omap_get (f_parameters m) n = Some t \<and> to_ll t = Some v)"
  by (auto simp: get_integer_parameter_def split: option.splits)

text \<open>The three outcomes of the start of the function.\<close>

lemma broadcast_begin_cases:
  assumes "broadcast_begin env m s = Inr (r, t)"
  obtains (own) "\<not> has_param m ''broadcast_msgid''" "r = Some ([], informed_by m, 0, 0)" "t = s"
  | (ignored) "has_param m ''broadcast_msgid''" "r = None" "t = s"
  | (fresh) msgid timeout hops where "omap_get (f_parameters m) ''broadcast_msgid'' = Some msgid"
      "get_integer_parameter (e_to_ll env) ''broadcast_timeout'' m = Inr timeout" "e_time env \<le> timeout"
      "get_integer_parameter (e_to_ll env) ''broadcast_hops'' m = Inr hops"
      "omap_get (s_received s) msgid = None" "r = Some (msgid, informed_by m, hops, timeout)"
      "t = s\<lparr>s_received := omap_put msgid timeout (filter (\<lambda>p. \<not> snd p < e_time env) (s_received s))\<rparr>"
proof (cases "has_param m ''broadcast_msgid''")
  case False
  with assms own show thesis by (simp add: broadcast_begin_def informed_by_def)
next
  case True
  then obtain msgid where id: "omap_get (f_parameters m) ''broadcast_msgid'' = Some msgid" by blast
  then have gid: "get_parameter ''broadcast_msgid'' m = Inr msgid" by (simp add: get_parameter_Inr)
  from assms True obtain timeout where to: "get_integer_parameter (e_to_ll env) ''broadcast_timeout'' m = Inr timeout"
    by (auto simp: broadcast_begin_def result_simps)
  show thesis
  proof (cases "timeout < e_time env \<or> omap_get (s_received s) msgid \<noteq> None")
    case skip: True
    then show thesis using assms True ignored by (auto simp: broadcast_begin_def to gid split: if_splits)
  next
    case False
    then have "bindE (get_parameter ''broadcast_informed_neighbors'' m) (\<lambda>informed.
        bindE (get_integer_parameter (e_to_ll env) ''broadcast_hops'' m) (\<lambda>hops.
          Inr (Some (msgid, split_skip CHR '','' informed, hops, timeout),
            s\<lparr>s_received := omap_put msgid timeout (filter (\<lambda>p. \<not> snd p < e_time env) (s_received s))\<rparr>))) = Inr (r, t)"
      using assms True by (simp add: broadcast_begin_def to gid Let_def)
    then obtain informed hops where "omap_get (f_parameters m) ''broadcast_informed_neighbors'' = Some informed"
      "get_integer_parameter (e_to_ll env) ''broadcast_hops'' m = Inr hops"
      "r = Some (msgid, split_skip CHR '','' informed, hops, timeout)"
      "t = s\<lparr>s_received := omap_put msgid timeout (filter (\<lambda>p. \<not> snd p < e_time env) (s_received s))\<rparr>"
      by (auto simp: bindE_eq_Inr get_parameter_Inr)
    with False id to True show thesis by (intro fresh) (auto simp: informed_by_def)
  qed
qed

lemma broadcast_begin_same: "broadcast_begin env m s = Inr (r, t) \<Longrightarrow> same_but_received s t"
  by (erule broadcast_begin_cases) (auto simp: same_but_received_def intro: exI [of _ "s_received s"])

lemma broadcast_begin_informed:
  "broadcast_begin env m s = Inr (Some (msgid, informed, hops, timeout), t) \<Longrightarrow> informed = informed_by m \<and> hops = hops_of env m"
  by (erule broadcast_begin_cases) (auto simp: hops_of_def)

lemma same_but_received_conn [simp]: "same_but_received s t \<Longrightarrow> s_heap t = s_heap s"
  "same_but_received s t \<Longrightarrow> s_conns t = s_conns s" "same_but_received s t \<Longrightarrow> s_sent t = s_sent s"
  "same_but_received s t \<Longrightarrow> s_my_address t = s_my_address s" "same_but_received s t \<Longrightarrow> s_name t = s_name s"
  "same_but_received s t \<Longrightarrow> s_sequence t = s_sequence s"
  by (auto simp: same_but_received_def)

lemma select_cong: "s_heap s1 = s_heap s \<Longrightarrow> select env s1 wanted is informed = select env s wanted is informed"
  by (induction "is" arbitrary: informed) (simp_all add: Let_def)

lemma local_listeners_cong: "s_heap s1 = s_heap s \<Longrightarrow> s_conns s1 = s_conns s \<Longrightarrow> local_listeners m s1 = local_listeners m s"
  by (simp add: local_listeners_def)

text \<open>The connections in question: those in reach of the message, or those the caller chose.\<close>

definition candidates :: "message \<Rightarrow> int \<Rightarrow> nat list \<Rightarrow> server \<Rightarrow> nat list" where
  "candidates m hops accepting s =
     (if accepting = [] then filter (\<lambda>i. in_reach m hops (conn s i)) (s_conns s)
      else filter (\<lambda>i. has_base (conn s i)) accepting)"

lemma select_filter:
  "select env s wanted is informed = select env s (\<lambda>_. True) (filter (\<lambda>i. wanted (conn s i)) is) informed"
  by (induction "is" arbitrary: informed) (simp_all add: Let_def)

lemma broadcast_message_cases:
  assumes "broadcast_message env m accepting s = Inr t"
  obtains (ignored) "broadcast_begin env m s = Inr (None, t)" "same_but_received s t"
  | (handled) s1 msgid timeout known ids where
      "broadcast_begin env m s = Inr (Some (msgid, informed_by m, hops_of env m, timeout), s1)" "same_but_received s s1"
      "select env s (\<lambda>_. True) (candidates m (hops_of env m) accepting s) (informed_by m) = (known, ids)"
      "t = broadcast_end env m msgid known (hops_of env m) timeout ids (send_all (if accepting = [] then local_listeners m s else []) m s1)"
proof -
  obtain r s1 where b: "broadcast_begin env m s = Inr (r, s1)"
    and t: "t = (case r of None \<Rightarrow> s1 | Some x \<Rightarrow> broadcast_deliver env m accepting x s1)"
    using assms by (auto simp: broadcast_message_def bindE_eq_Inr)
  note same = broadcast_begin_same [OF b]
  show thesis
  proof (cases r)
    case None
    with t b same show thesis using ignored by simp
  next
    case (Some x)
    then obtain msgid informed hops timeout where x: "r = Some (msgid, informed, hops, timeout)" by (cases x) auto
    have i: "informed = informed_by m" "hops = hops_of env m" using broadcast_begin_informed b x by blast+
    obtain known ids where sel: "select env s (\<lambda>_. True) (candidates m hops accepting s) (informed_by m) = (known, ids)"
      by (meson surj_pair)
    have "select env s1 (in_reach m hops) (s_conns s1) informed = (known, ids)" if "accepting = []"
      using sel that i same by (simp add: select_cong [of s1 s] select_filter [of env s "in_reach m (hops_of env m)"] candidates_def)
    moreover have "select env s1 has_base accepting informed = (known, ids)" if "accepting \<noteq> []"
      using sel that i same by (simp add: select_cong [of s1 s] select_filter [of env s has_base] candidates_def)
    moreover have "local_listeners m s1 = local_listeners m s" using same by (simp add: local_listeners_cong [of s1 s])
    moreover have "send_all [] m s1 = s1" by (simp add: send_all_def)
    ultimately have "t = broadcast_end env m msgid known hops timeout ids (send_all (if accepting = [] then local_listeners m s else []) m s1)"
      using t x by (simp add: broadcast_deliver_def)
    with b x i same sel show thesis using handled by blast
  qed
qed

lemma broadcast_end_sent:
  "s_sent (broadcast_end env m msgid known hops timeout ids s) =
     s_sent s @ map (\<lambda>i. (i, broadcast_copy env m msgid known hops timeout (s\<lparr>s_sequence := s_sequence s + 1\<rparr>))) ids"
  by (simp add: broadcast_end_def send_all_sent Let_def)



section \<open>At most once\<close>

text \<open>
  A message is done with when its timeout is over or its identifier is recorded with that timeout.
\<close>

definition knows :: "string \<Rightarrow> int \<Rightarrow> int \<Rightarrow> server \<Rightarrow> bool" where
  "knows msgid timeout now s \<longleftrightarrow> timeout < now \<or> omap_get (s_received s) msgid = Some timeout"

lemma map_of_filter_kept: "map_of xs k = Some v \<Longrightarrow> P (k, v) \<Longrightarrow> map_of (filter P xs) k = Some v"
  by (induction xs) (auto split: if_splits)

lemma broadcast_end_received [simp]: "s_received (broadcast_end env m msgid known hops timeout ids s) = s_received s"
  by (simp add: broadcast_end_def Let_def)

lemma broadcast_message_received:
  "broadcast_message env m accepting s = Inr t \<Longrightarrow> \<exists>r s1. broadcast_begin env m s = Inr (r, s1) \<and> s_received t = s_received s1"
  by (erule broadcast_message_cases) auto

lemma knows_broadcast:
  assumes "broadcast_message env m accepting s = Inr t" "knows msgid timeout now s" "now \<le> e_time env"
  shows "knows msgid timeout (e_time env) t"
proof -
  obtain r s1 where b: "broadcast_begin env m s = Inr (r, s1)" and t: "s_received t = s_received s1"
    using broadcast_message_received [OF assms(1)] by blast
  from b show ?thesis
  proof (cases rule: broadcast_begin_cases)
    case (fresh id to hops)
    then show ?thesis using assms(2,3) t map_of_filter_kept [of "s_received s" msgid timeout "\<lambda>p. \<not> snd p < e_time env"]
      by (auto simp: knows_def omap_simps)
  qed (use assms(2,3) t in \<open>auto simp: knows_def\<close>)
qed

lemma known_ignored:
  assumes "knows msgid timeout (e_time env) s" "omap_get (f_parameters m) ''broadcast_msgid'' = Some msgid"
    "get_integer_parameter (e_to_ll env) ''broadcast_timeout'' m = Inr timeout"
  shows "broadcast_message env m accepting s = Inr s"
proof -
  have "get_parameter ''broadcast_msgid'' m = Inr msgid" using assms(2) by (simp add: get_parameter_Inr)
  then show ?thesis using assms by (auto simp: broadcast_message_def broadcast_begin_def knows_def)
qed

text \<open>The calls of the function in the life of a daemon, with a clock that does not go back.\<close>

fun broadcast_step :: "server \<times> int \<Rightarrow> comm_env \<times> message \<times> nat list \<Rightarrow> (server \<times> int) result" where
  "broadcast_step (s, now) (env, m, accepting) =
     (if e_time env < now then Inl (Logic_Error ''the clock went back'')
      else bindE (broadcast_message env m accepting s) (\<lambda>t. Inr (t, e_time env)))"

interpretation broadcasts: inv_machine broadcast_step "\<lambda>(s, now). knows msgid timeout now s" for msgid timeout
proof (unfold_locales, clarify)
  fix s now env m accepting t n
  assume "knows msgid timeout now s" "broadcast_step (s, now) (env, m, accepting) = Inr (t, n)"
  then show "knows msgid timeout n t" by (auto simp: bindE_eq_Inr split: if_splits intro: knows_broadcast)
qed

text \<open>C8.
  A daemon handles a broadcast message at most once: after it accepted a message, and after any other calls, the same
  message arriving again changes nothing and is sent to nobody, neither before nor after its timeout.
\<close>

theorem broadcast_at_most_once:
  assumes "broadcast_step (s, now) (env, m, accepting) = Inr (s1, now1)"
    and "omap_get (f_parameters m) ''broadcast_msgid'' = Some msgid"
    and "get_integer_parameter (e_to_ll env) ''broadcast_timeout'' m = Inr timeout"
    and "omap_get (s_received s) msgid = None"
    and "runE broadcast_step (s1, now1) calls = Inr (s2, now2)" "now2 \<le> e_time env2" "e_to_ll env2 = e_to_ll env"
  shows "broadcast_message env2 m accepting2 s2 = Inr s2"
proof -
  have b: "broadcast_message env m accepting s = Inr s1" and n: "now1 = e_time env"
    using assms(1) by (auto simp: bindE_eq_Inr split: if_splits)
  obtain r t where bb: "broadcast_begin env m s = Inr (r, t)" "s_received s1 = s_received t"
    using broadcast_message_received [OF b] by blast
  have "knows msgid timeout now1 s1"
  proof (cases "timeout < e_time env")
    case False
    with bb assms(2,3,4) n show ?thesis
      by (cases rule: broadcast_begin_cases [OF bb(1)])
        (auto simp: knows_def omap_simps broadcast_begin_def get_parameter_Inr Let_def bindE_eq_Inr)
  qed (simp add: knows_def n)
  then have "knows msgid timeout now2 s2" using broadcasts.run_inv [of msgid timeout "(s1, now1)", OF _ assms(5)] by simp
  then have "knows msgid timeout (e_time env2) s2" using assms(6) by (auto simp: knows_def)
  then show ?thesis using assms(2,3,7) by (intro known_ignored) auto
qed

section \<open>A small example\<close>

text \<open>
  A computer with the address 10.1.2.3, a local service that knows \<open>PING\<close>, and two connections from 10.1.2.9.
\<close>

definition blank_server :: server where
  "blank_server = \<lparr>s_name = ''alpha'', s_public_ip = [], s_my_address = new_addr, s_conns = [], s_heap = [], s_servers = [],
     s_local_services = [], s_local_services_list = [], s_heard_of = [], s_heard_of_list = [], s_explicit_neighbors = [],
     s_neighbors_read = False, s_all_neighbors = [], s_neighbors_file = [], s_loadavg_neighbors = [], s_all_ips = [],
     s_last_start_date = 0, s_smaller_ips = [], s_gossip_ips = [], s_max_connections = 100, s_shutdown = False,
     s_force_restart = False, s_loadavg_timer = False, s_loadavg_file = [], s_cache = [], s_received = [], s_sequence = 0, s_sent = []\<rparr>"

definition decimal :: "string \<Rightarrow> int option" where
  "decimal s = (if s \<noteq> [] \<and> list_all is_digit s then Some (int (dec_value s)) else None)"

definition dotted_quad :: "32 word \<Rightarrow> string" where
  "dotted_quad w = show_nat (unat (drop_bit 24 w)) @ ''.'' @ show_nat (unat (drop_bit 16 w) mod 256) @ ''.''
     @ show_nat (unat (drop_bit 8 w) mod 256) @ ''.'' @ show_nat (unat w mod 256)"

definition dotted_env :: inet_env where
  "dotted_env = \<lparr>getaddrinfo = (\<lambda>t port hint. case ipv4_values 0 t of
       Some [a, b, c, d] \<Rightarrow> Some (Resolved_V4 (of_nat (((a * 256 + b) * 256 + c) * 256 + d)), IPPROTO_TCP) | _ \<Rightarrow> None),
     getservbyname = (\<lambda>_. None), to_int = decimal, ntop4 = dotted_quad, ntop6 = (\<lambda>_. ''::'')\<rparr>"

definition sample_comm_env :: comm_env where
  "sample_comm_env = \<lparr>e_inet = dotted_env, e_time = 1000, e_now = 1000000000, e_debug = False, e_to_ll = decimal, e_to_int = decimal, e_to_avg = Some,
     e_has_output = (\<lambda>_. False), e_neighbors_file = None, e_file_writable = True\<rparr>"

definition v4_connection :: "conn_kind \<Rightarrow> 32 word \<Rightarrow> connection" where
  "v4_connection kind ip = blank_connection\<lparr>c_kind := kind, c_addr := set_ipv4 ip 4040 new_addr\<rparr>"

definition sample_server :: server where
  "sample_server = blank_server\<lparr>
     s_my_address := set_ipv4 0x0A010203 4040 new_addr, s_conns := [0, 1, 2],
     s_heap := [(v4_connection Service 0x7F000001)\<lparr>c_commands := [(''PING'', True)]\<rparr>,
       v4_connection Service 0x0A010209, v4_connection Remote 0x0A010209]\<rparr>"

definition sample_ping :: "string \<Rightarrow> message" where
  "sample_ping hops = (make_message ''PING'' [(''broadcast_msgid'', ''beta-7''), (''broadcast_hops'', hops), (''broadcast_timeout'', ''1005''),
     (''broadcast_informed_neighbors'', ''10.1.2.8'')])\<lparr>f_service := ''*''\<rparr>"

definition sent_to :: "server result \<Rightarrow> nat list" where
  "sent_to r = (case r of Inl _ \<Rightarrow> [] | Inr t \<Rightarrow> map fst (s_sent t))"

lemma sample_networks:
  "network_of (set_ipv4 0x7F000001 4040 new_addr) = Network_Loopback"
  "network_of (set_ipv4 0x0A010209 4040 new_addr) = Network_Private"
  by (simp_all add: network_of_spec set_ipv4_def address_changed_def network_spec_def table_type_def v4_table_def quad_def)

lemma sample_is_ipv4: "addr_is_ipv4 (set_ipv4 0x0A010209 4040 new_addr)" "addr_is_ipv4 (set_ipv4 0x0A010203 4040 new_addr)"
  by (simp_all add: addr_is_ipv4_iff set_ipv4_def address_changed_def)

lemma show_nat_small: "show_nat 1 = ''1''" "show_nat (Suc 0) = ''1''" "show_nat 2 = ''2''" "show_nat 3 = ''3''" "show_nat 9 = ''9''"
  by code_simp+

lemma show_nat_10: "show_nat 10 = ''10''"
  by code_simp

lemma sample_texts:
  "addr_string sample_comm_env b (set_ipv4 0x0A010209 4040 new_addr) = ''10.1.2.9''"
  "addr_string sample_comm_env b (set_ipv4 0x0A010203 4040 new_addr) = ''10.1.2.3''"
  using sample_is_ipv4
  by (simp_all add: addr_string_def get_ipv4or6_string_def get_ipv4_string_def sample_comm_env_def dotted_env_def dotted_quad_def
      part32_def set_ipv4_def address_changed_def show_nat_small show_nat_10)

lemma sample_ping_params:
  "f_parameters (sample_ping hops) = [(''broadcast_hops'', hops), (''broadcast_informed_neighbors'', ''10.1.2.8''),
     (''broadcast_msgid'', ''beta-7''), (''broadcast_timeout'', ''1005'')]"
  "f_service (sample_ping hops) = ''*''" "f_command (sample_ping hops) = ''PING''"
  by (simp_all add: sample_ping_def make_message_def with_parameters_def put_parameter_def empty_message_def less_char_def)

lemma sample_integers:
  "get_integer_parameter (e_to_ll sample_comm_env) ''broadcast_timeout'' (sample_ping hops) = Inr 1005"
  "decimal hops = Some n \<Longrightarrow> get_integer_parameter (e_to_ll sample_comm_env) ''broadcast_hops'' (sample_ping hops) = Inr n"
  by (simp_all add: get_integer_Inr sample_ping_params sample_comm_env_def)
    (simp add: decimal_def is_digit_def less_eq_char_def dec_value_def digit_value_def)

lemma sample_begin:
  "decimal hops = Some n \<Longrightarrow> broadcast_begin sample_comm_env (sample_ping hops) sample_server =
     Inr (Some (''beta-7'', [''10.1.2.8''], n, 1005), sample_server\<lparr>s_received := [(''beta-7'', 1005)]\<rparr>)"
  by (simp add: broadcast_begin_def sample_integers get_parameter_def sample_ping_params split_skip_def)
    (simp add: sample_server_def blank_server_def sample_comm_env_def)

lemma sample_select:
  "select sample_comm_env sample_server (in_reach (sample_ping hops) 1) (s_conns sample_server) [''10.1.2.8''] = ([''10.1.2.8'', ''10.1.2.9''], [1])"
  by (simp add: sample_server_def v4_connection_def blank_connection_def sample_networks in_reach_def has_base_def destination_def
      sample_ping_params sample_texts Let_def)

lemma sample_listeners: "local_listeners (sample_ping hops) sample_server = [0]"
  by (simp add: local_listeners_def sample_server_def v4_connection_def blank_connection_def sample_networks understand_command_def sample_ping_params)
    blast

lemma sample_broadcast: "sent_to (broadcast_message sample_comm_env (sample_ping ''1'') [] sample_server) = [0, 1]"
proof -
  let ?s = "sample_server\<lparr>s_received := [(''beta-7'', 1005)]\<rparr>" and ?m = "sample_ping ''1''"
  have "select sample_comm_env ?s (in_reach ?m 1) (s_conns ?s) [''10.1.2.8''] = ([''10.1.2.8'', ''10.1.2.9''], [1])"
    using sample_select by (simp add: select_cong [of ?s sample_server])
  moreover have "local_listeners ?m ?s = [0]" using sample_listeners by (simp add: local_listeners_cong [of ?s sample_server])
  moreover have "s_sent ?s = []" by (simp add: sample_server_def blank_server_def)
  moreover have "decimal ''1'' = Some 1" by code_simp
  ultimately show ?thesis
    by (simp add: broadcast_message_def sample_begin broadcast_deliver_def sent_to_def broadcast_end_sent) (simp add: send_all_sent)
qed

lemma sample_returns: "decimal hops = Some n \<Longrightarrow> \<exists>t. broadcast_message sample_comm_env (sample_ping hops) accepting sample_server = Inr t"
  by (simp add: broadcast_message_def sample_begin)



theorem broadcast_at_most_once_witness:
  "\<exists>t. broadcast_message sample_comm_env (sample_ping ''1'') [] sample_server = Inr t
     \<and> broadcast_message sample_comm_env (sample_ping ''1'') [1] t = Inr t"
proof -
  have "decimal ''1'' = Some 1" by code_simp
  then obtain t where t: "broadcast_message sample_comm_env (sample_ping ''1'') [] sample_server = Inr t" using sample_returns by blast
  then have "broadcast_step (sample_server, 1000) (sample_comm_env, sample_ping ''1'', []) = Inr (t, 1000)"
    by (simp add: sample_comm_env_def)
  then have "broadcast_message sample_comm_env (sample_ping ''1'') [1] t = Inr t"
    by (rule broadcast_at_most_once [where calls = "[]" and msgid = "''beta-7''" and timeout = 1005 and ?now2.0 = 1000])
      (simp_all add: sample_integers, simp_all add: sample_ping_params sample_server_def blank_server_def sample_comm_env_def)
  with t show ?thesis by blast
qed

end
