(* ===== verification/Communicator_Dispatch.thy ===== *)
theory Communicator_Dispatch
  imports Communicator_Broadcast
begin

text \<open>
  \<open>process_message()\<close> of \<open>snapcommunicator.cpp\<close>: the handler of every command, and the routing of the messages for other
  services and computers.  A handler returns \<open>Some\<close> state when the function returns, \<open>None\<close> when the switch ends
  and the sender is told that the command is not known.  Logging has no effect here; an empty command, which no message
  has, counts as unknown.
  The theorems: a well-formed state stays so, messages for a service that is not there yet are kept and delivered
  when it registers, and a daemon that is shutting down accepts nothing more.
\<close>

section \<open>Status and load\<close>

definition status_message :: "connection \<Rightarrow> message" where
  "status_message c =
     make_message ''STATUS'' ([(''cache'', ''no''), (''service'', c_name c)]
       @ (if has_base c then
            [(''status'', if c_type c = Type_Down then ''down'' else ''up'')]
            @ (if c_started_on c \<noteq> - 1 then [(''up_since'', show_int (c_started_on c div 1000000))] else [])
            @ (if c_ended_on c \<noteq> - 1 then [(''down_since'', show_int (c_ended_on c div 1000000))] else [])
          else []))"

definition status_listeners :: "server \<Rightarrow> nat list" where
  "status_listeners s = filter (\<lambda>j. c_kind (conn s j) = Service \<and> understand_command (conn s j) ''STATUS'') (s_conns s)"

definition send_status :: "comm_env \<Rightarrow> connection \<Rightarrow> nat option \<Rightarrow> server \<Rightarrow> server result" where
  "send_status env c answer s =
     (case answer of
        Some j \<Rightarrow>
          if c_kind (conn s j) = Service
          then bindE (verify_command env j (status_message c) s) (\<lambda>_. Inr (send_message j (status_message c) s))
          else Inr s
      | None \<Rightarrow> Inr (send_all (status_listeners s) (status_message c) s))"

definition register_for_loadavg :: "string \<Rightarrow> server \<Rightarrow> server" where
  "register_for_loadavg ip s =
     (case find (\<lambda>j. has_base (conn s j) \<and> c_my_address (conn s j) = ip) (s_conns s) of
        None \<Rightarrow> s
      | Some j \<Rightarrow> send_message j (make_message ''REGISTERFORLOADAVG'' []) s)"

definition listen_loadavg :: "message \<Rightarrow> server \<Rightarrow> server result" where
  "listen_loadavg m s =
     bindE (get_parameter ''ips'' m) (\<lambda>ips.
       Inr (fold (\<lambda>ip s. if omap_get (s_loadavg_neighbors s) ip \<noteq> None then s
            else register_for_loadavg ip (s\<lparr>s_loadavg_neighbors := omap_put ip True (s_loadavg_neighbors s)\<rparr>))
         (split_on CHR '','' ips) s))"

fun loadavg_add :: "128 word \<times> string \<times> int \<Rightarrow> (128 word \<times> string \<times> int) list \<Rightarrow> (128 word \<times> string \<times> int) list" where
  "loadavg_add new [] = [new]"
| "loadavg_add new (old # items) = (if fst old = fst new then new # items else old # loadavg_add new items)"

definition save_loadavg :: "comm_env \<Rightarrow> message \<Rightarrow> server \<Rightarrow> server result" where
  "save_loadavg env m s =
     bindE (get_parameter ''avg'' m) (\<lambda>avg_str.
     bindE (get_parameter ''my_address'' m) (\<lambda>my_address.
     bindE (get_parameter ''timestamp'' m) (\<lambda>timestamp_str.
     bindE (addr_default (e_inet env) my_address ''127.0.0.1'' 4040 (Some ''tcp'')) (\<lambda>a.
       Inr (case (e_to_avg env avg_str, e_to_ll env timestamp_str) of
              (Some avg, Some timestamp) \<Rightarrow>
                if timestamp < 1451606400 then s
                else s\<lparr>s_loadavg_file := loadavg_add (a_ip a, avg, timestamp) (s_loadavg_file s)\<rparr>
            | _ \<Rightarrow> s)))))"

definition loadavg_message :: "comm_env \<Rightarrow> string \<Rightarrow> server \<Rightarrow> message" where
  "loadavg_message env avg s =
     make_message ''LOADAVG'' [(''avg'', avg), (''my_address'', my_address_text env s), (''timestamp'', show_int (e_time env))]"

text \<open>
  \<open>process_load_balancing()\<close>: the average of the system divided by the number of processors, when it can be read and
  is not close to the last one, goes to all who asked for it.
\<close>

definition process_load_balancing :: "comm_env \<Rightarrow> string option \<Rightarrow> server \<Rightarrow> server" where
  "process_load_balancing env avg s =
     (case avg of
        None \<Rightarrow> s
      | Some a \<Rightarrow> send_all (filter (\<lambda>j. has_base (conn s j) \<and> c_wants_loadavg (conn s j)) (s_conns s)) (loadavg_message env a s) s)"

section \<open>Shutting down\<close>

definition mark_done :: "nat \<Rightarrow> server \<Rightarrow> server" where
  "mark_done i s = on_conn i (\<lambda>c. c\<lparr>c_done := True\<rparr>) s"

definition close_connection :: "comm_env \<Rightarrow> bool \<Rightarrow> nat \<Rightarrow> server \<Rightarrow> server result" where
  "close_connection env quitting i s =
     (let c = conn s i; bye = make_message (if quitting then ''SHUTDOWN'' else ''DISCONNECT'') [] in
      if c_kind c = Remote then Inr (mark_done i (send_message i bye s))
      else if c_kind c = Service then
        (if c_type c = Type_Down then Inr (remove_connection i s)
         else if c_type c = Type_Remote then
           bindE (verify_command env i bye s) (\<lambda>_. Inr (mark_done i (send_message i bye s)))
         else if understand_command c ''DISCONNECTING'' then
           Inr (send_message i (make_message ''DISCONNECTING'' []) (mark_done i s))
         else if e_has_output env i then Inr (mark_done i s)
         else Inr (remove_connection i s))
      else Inr s)"

fun close_connections :: "comm_env \<Rightarrow> bool \<Rightarrow> nat list \<Rightarrow> server \<Rightarrow> server result" where
  "close_connections env quitting [] s = Inr s"
| "close_connections env quitting (i # is) s = bindE (close_connection env quitting i s) (close_connections env quitting is)"

definition shutdown :: "comm_env \<Rightarrow> bool \<Rightarrow> server \<Rightarrow> server result" where
  "shutdown env quitting s =
     (let s1 = stop_gossiping (s\<lparr>s_shutdown := True\<rparr>) in
      bindE (close_connections env quitting (s_conns s1) s1) (\<lambda>s2. Inr (fold remove_connection (s_servers s2) s2)))"

section \<open>Commands between communicators\<close>

text \<open>The parameters of a CONNECT or an ACCEPT that describe the services of the other computer.\<close>

definition announced :: "message \<Rightarrow> connection \<Rightarrow> connection" where
  "announced m c =
     (let c1 = (case omap_get (f_parameters m) ''services'' of Some v \<Rightarrow> set_services v c | None \<Rightarrow> c) in
      case omap_get (f_parameters m) ''heard_of'' of Some v \<Rightarrow> set_services_heard_of v c1 | None \<Rightarrow> c1)"

definition announced_neighbors :: "comm_env \<Rightarrow> message \<Rightarrow> server \<Rightarrow> server result" where
  "announced_neighbors env m s =
     (case omap_get (f_parameters m) ''neighbors'' of Some v \<Rightarrow> add_neighbors env v s | None \<Rightarrow> Inr s)"

definition local_event :: "string \<Rightarrow> string \<Rightarrow> message" where
  "local_event command name = (make_message command [(''server_name'', name)])\<lparr>f_service := ''.''\<rparr>"

definition help_message :: message where
  "help_message = make_message ''HELP'' []"

definition on_accept :: "comm_env \<Rightarrow> nat \<Rightarrow> message \<Rightarrow> bool \<Rightarrow> server \<Rightarrow> server option result" where
  "on_accept env i m udp s =
     (if udp then Inr (Some s)
      else if \<not> has_base (conn s i) then Inr None
      else case (omap_get (f_parameters m) ''server_name'', omap_get (f_parameters m) ''my_address'') of
        (Some name, Some his_address) \<Rightarrow>
          bindE (announced_neighbors env m (on_conn i (\<lambda>c. announced m ((connection_started env c)\<lparr>c_type := Type_Remote,
              c_server_name := name, c_my_address := his_address\<rparr>)) s)) (\<lambda>s1.
          bindE (send_reply i help_message (refresh_heard_of s1)) (\<lambda>s2.
          bindE (broadcast_message env (local_event ''NEWREMOTECONNECTION'' name) [] (register_for_loadavg his_address s2)) (\<lambda>s3.
          Inr (Some s3))))
      | _ \<Rightarrow> Inr (Some s))"

text \<open>With \<open>--debug\<close>, the commands that every connection has to know.\<close>

definition required_commands :: "connection \<Rightarrow> string list" where
  "required_commands c =
     [''HELP'', ''QUITTING'', if c_kind c = Remote \<or> c_remote c then ''ACCEPT'' else ''READY'', ''STOP'', ''UNKNOWN'']"

definition on_commands :: "comm_env \<Rightarrow> nat \<Rightarrow> message \<Rightarrow> bool \<Rightarrow> server \<Rightarrow> server option result" where
  "on_commands env i m udp s =
     (if udp then Inr (Some s)
      else if \<not> has_base (conn s i) then Inr None
      else case omap_get (f_parameters m) ''list'' of
        None \<Rightarrow> Inr (Some s)
      | Some l \<Rightarrow>
          let s1 = on_conn i (set_commands l) s in
          if e_debug env \<and> \<not> list_all (understand_command (conn s1 i)) (required_commands (conn s1 i))
          then Inl (Logic_Error ''Connection does not implement some required commands'')
          else Inr (Some s1))"

definition name_taken :: "nat \<Rightarrow> string \<Rightarrow> server \<Rightarrow> bool" where
  "name_taken i name s \<longleftrightarrow> list_ex (\<lambda>j. j \<noteq> i \<and> has_base (conn s j) \<and> c_server_name (conn s j) = name) (s_conns s)"

definition COMMUNICATOR_VERSION :: int where "COMMUNICATOR_VERSION = 1"

text \<open>The end of a CONNECT: the answer, then HELP and the news when it is not a refusal, then the status.\<close>

definition connect_reply :: "comm_env \<Rightarrow> nat \<Rightarrow> message \<Rightarrow> string option \<Rightarrow> server \<Rightarrow> server option result" where
  "connect_reply env i reply accepted s =
     bindE (send_reply i reply s) (\<lambda>s1.
     bindE (case accepted of
              None \<Rightarrow> Inr s1
            | Some name \<Rightarrow> broadcast_message env (local_event ''NEWREMOTECONNECTION'' name) [] (send_message i help_message s1)) (\<lambda>s2.
     bindE (send_status env (conn s2 i) None s2) (\<lambda>s3. Inr (Some s3))))"

definition connect_accept :: "comm_env \<Rightarrow> nat \<Rightarrow> message \<Rightarrow> string \<Rightarrow> string \<Rightarrow> (string \<times> string) list \<Rightarrow> server \<Rightarrow> server option result" where
  "connect_accept env i m name his_address neighbors s =
     bindE (announced_neighbors env m (on_conn i (\<lambda>c. announced m ((connection_started env c)\<lparr>c_type := Type_Remote\<rparr>)) s)) (\<lambda>s1.
       let s2 = refresh_heard_of s1;
           reply = make_message ''ACCEPT'' (neighbors @ [(''server_name'', s_name s2), (''my_address'', my_address_text env s2)]
             @ (if s_local_services s2 \<noteq> [] then [(''services'', s_local_services s2)] else [])
             @ (if s_heard_of s2 \<noteq> [] then [(''heard_of'', s_heard_of s2)] else []));
           s3 = register_for_loadavg his_address (on_conn i (\<lambda>c. c\<lparr>c_my_address := his_address\<rparr>) s2) in
       bindE (add_neighbors env his_address s3) (\<lambda>s4.
       connect_reply env i reply (Some name) (gossip_received his_address s4)))"

definition on_connect :: "comm_env \<Rightarrow> nat \<Rightarrow> message \<Rightarrow> bool \<Rightarrow> server \<Rightarrow> server option result" where
  "on_connect env i m udp s =
     (if udp then Inr (Some s)
      else if \<not> has_base (conn s i) then Inr None
      else case (omap_get (f_parameters m) ''version'', omap_get (f_parameters m) ''my_address'', omap_get (f_parameters m) ''server_name'') of
        (Some _, Some his_address, Some name) \<Rightarrow>
          bindE (get_integer_parameter (e_to_ll env) ''version'' m) (\<lambda>version.
          if version \<noteq> COMMUNICATOR_VERSION then Inr (Some s)
          else if name_taken i name s then
            connect_reply env i (make_message ''REFUSE'' ((''conflict'', ''name'')
              # (if s_shutdown s then [(''shutdown'', ''true'')] else []))) None s
          else
            let s1 = on_conn i (\<lambda>c. c\<lparr>c_server_name := name\<rparr>) s;
                neighbors = (if s_explicit_neighbors s \<noteq> [] then [(''neighbors'', s_explicit_neighbors s)] else []) in
            if s_shutdown s then connect_reply env i (make_message ''REFUSE'' (neighbors @ [(''shutdown'', ''true'')])) None s1
            else if length (s_conns s1) \<ge> s_max_connections s1 then connect_reply env i (make_message ''REFUSE'' neighbors) None s1
            else connect_accept env i m name his_address neighbors s1)
      | _ \<Rightarrow> Inr (Some s))"

text \<open>
  The address for the pause is read after the messenger is gone.
\<close>

definition on_disconnect :: "comm_env \<Rightarrow> nat \<Rightarrow> message \<Rightarrow> bool \<Rightarrow> server \<Rightarrow> server option result" where
  "on_disconnect env i m udp s =
     (if udp then Inr (Some s)
      else if \<not> has_base (conn s i) then Inr None
      else
        let s1 = on_conn i (connection_ended env) s in
        bindE (if c_type (conn s1 i) = Type_Remote then
                 let s2 = on_conn i (\<lambda>c. c\<lparr>c_type := Type_Down\<rparr>) s1;
                     s3 = (if c_kind (conn s2 i) \<noteq> Remote then remove_connection i s2
                           else let s' = disconnect i s2 in shutting_down (get_client_addr (conn s' i)) s');
                     s4 = refresh_heard_of s3 in
                 if c_server_name (conn s4 i) \<noteq> []
                 then broadcast_message env (local_event ''DISCONNECTED'' (c_server_name (conn s4 i))) [] s4
                 else Inr s4
               else Inr s1) (\<lambda>s5.
        bindE (send_status env (conn s5 i) None s5) (\<lambda>s6. Inr (Some s6))))"

definition on_forget :: "comm_env \<Rightarrow> message \<Rightarrow> server \<Rightarrow> server option result" where
  "on_forget env m s =
     bindE (get_parameter ''ip'' m) (\<lambda>ip.
     bindE (remove_neighbor env ip s) (\<lambda>s1.
       if has_param m ''broadcast_hops'' then Inr (Some s1)
       else bindE (broadcast_message env ((make_message ''FORGET'' [(''ip'', ip)])\<lparr>f_server := ''*'', f_service := ''snapcommunicator''\<rparr>) [] s1)
              (\<lambda>s2. Inr (Some s2))))"

definition on_gossip :: "comm_env \<Rightarrow> nat \<Rightarrow> message \<Rightarrow> bool \<Rightarrow> server \<Rightarrow> server option result" where
  "on_gossip env i m udp s =
     (if udp \<or> \<not> has_base (conn s i) then Inr None
      else case omap_get (f_parameters m) ''my_address'' of
        None \<Rightarrow> Inr (Some s)
      | Some address \<Rightarrow>
          bindE (add_neighbors env address s) (\<lambda>s1.
          bindE (add_remote_communicator env address s1) (\<lambda>s2.
          bindE (send_reply i (make_message ''RECEIVED'' []) s2) (\<lambda>s3. Inr (Some s3)))))"

definition on_refuse :: "nat \<Rightarrow> message \<Rightarrow> bool \<Rightarrow> server \<Rightarrow> server option result" where
  "on_refuse i m udp s =
     (if udp then Inr None
      else if c_kind (conn s i) \<noteq> Remote then Inl (Logic_Error ''REFUSE sent on a weird connection'')
      else
        let address = get_client_addr (conn s i) in
        Inr (Some (disconnect i (if has_param m ''shutdown'' then shutting_down address s else too_busy address s))))"

section \<open>Commands of the services\<close>

definition HELP_LIST :: string where
  "HELP_LIST = ''ACCEPT,COMMANDS,CONNECT,DISCONNECT,FORGET,GOSSIP,HELP,LISTENLOADAVG,LOADAVG,LOG,PUBLIC_IP,QUITTING,REFUSE,REGISTER,REGISTERFORLOADAVG,RELOADCONFIG,SERVICES,SHUTDOWN,STOP,UNKNOWN,UNREGISTER,UNREGISTERFORLOADAVG''"

definition on_help :: "nat \<Rightarrow> bool \<Rightarrow> server \<Rightarrow> server option result" where
  "on_help i udp s =
     (if udp \<or> \<not> has_base (conn s i) then Inr None
      else Inr (Some (send_message i (make_message ''COMMANDS'' [(''list'', HELP_LIST)]) s)))"

definition on_public_ip :: "comm_env \<Rightarrow> nat \<Rightarrow> server \<Rightarrow> server option result" where
  "on_public_ip env i s =
     (if c_kind (conn s i) \<noteq> Service then Inl (Logic_Error ''PUBLIC_IP sent on a weird connection'')
      else
        let reply = make_message ''SERVER_PUBLIC_IP'' [(''public_ip'', s_public_ip s)] in
        bindE (verify_command env i reply s) (\<lambda>_. Inr (Some (send_message i reply s))))"

text \<open>The cached messages: those too old go, those of the service are sent.\<close>

definition flush_cache :: "comm_env \<Rightarrow> nat \<Rightarrow> string \<Rightarrow> server \<Rightarrow> server" where
  "flush_cache env i service s =
     (let fresh = filter (\<lambda>c. \<not> e_time env > f_timeout_timestamp c) (s_cache s);
          mine = filter (\<lambda>c. f_service (f_message c) = service) fresh in
      fold (\<lambda>c. send_message i (f_message c)) mine
        (s\<lparr>s_cache := filter (\<lambda>c. f_service (f_message c) \<noteq> service) fresh\<rparr>))"

definition on_register :: "comm_env \<Rightarrow> nat \<Rightarrow> message \<Rightarrow> bool \<Rightarrow> server \<Rightarrow> server option result" where
  "on_register env i m udp s =
     (if udp \<or> \<not> has_base (conn s i) then Inr None
      else case (omap_get (f_parameters m) ''service'', omap_get (f_parameters m) ''version'') of
        (Some service, Some _) \<Rightarrow>
          bindE (get_integer_parameter (e_to_ll env) ''version'' m) (\<lambda>version.
          if version \<noteq> COMMUNICATOR_VERSION then Inr (Some s)
          else
            let s1 = on_conn i (\<lambda>c. (connection_started env c)\<lparr>c_name := service, c_type := Type_Local,
                  c_named := (if c_kind c = Service then True else c_named c)\<rparr>) s;
                s2 = send_message i help_message (send_message i (make_message ''READY'' []) s1) in
            bindE (send_status env (conn s2 i) None s2) (\<lambda>s3. Inr (Some (flush_cache env i service s3))))
      | _ \<Rightarrow> Inr (Some s))"

definition on_register_loadavg :: "nat \<Rightarrow> bool \<Rightarrow> server \<Rightarrow> server option result" where
  "on_register_loadavg i udp s =
     (if udp then Inr (Some s)
      else if \<not> has_base (conn s i) then Inr None
      else Inr (Some ((on_conn i (\<lambda>c. c\<lparr>c_wants_loadavg := True\<rparr>) s)\<lparr>s_loadavg_timer := True\<rparr>)))"

definition on_service_status :: "comm_env \<Rightarrow> nat \<Rightarrow> message \<Rightarrow> server \<Rightarrow> server option result" where
  "on_service_status env i m s =
     bindE (get_parameter ''service'' m) (\<lambda>service.
       if service = [] then Inr (Some s)
       else
         let c = (case find (\<lambda>j. c_name (conn s j) = service) (s_conns s) of
                Some j \<Rightarrow> conn s j | None \<Rightarrow> blank_connection\<lparr>c_name := service\<rparr>) in
         bindE (send_status env c (Some i) s) (\<lambda>s1. Inr (Some s1)))"

definition on_unregister :: "comm_env \<Rightarrow> nat \<Rightarrow> message \<Rightarrow> bool \<Rightarrow> server \<Rightarrow> server option result" where
  "on_unregister env i m udp s =
     (if udp then Inr (Some s)
      else if \<not> has_base (conn s i) then Inr None
      else if \<not> has_param m ''service'' then Inr (Some s)
      else
        let s1 = on_conn i (\<lambda>c. connection_ended env (c\<lparr>c_type := Type_Down\<rparr>)) s in
        bindE (send_status env (conn s1 i) None s1) (\<lambda>s2.
        Inr (Some (remove_connection i (on_conn i (\<lambda>c. c\<lparr>c_name := []\<rparr>) s2)))))"

text \<open>The search casts every connection and uses the result without a test.\<close>

fun any_wants :: "server \<Rightarrow> nat list \<Rightarrow> bool result" where
  "any_wants s [] = Inr False"
| "any_wants s (j # js) =
     (if \<not> has_base (conn s j) then Inl (Logic_Error ''null pointer'')
      else if c_wants_loadavg (conn s j) then Inr True
      else any_wants s js)"

definition on_unregister_loadavg :: "nat \<Rightarrow> bool \<Rightarrow> server \<Rightarrow> server option result" where
  "on_unregister_loadavg i udp s =
     (if udp \<or> \<not> has_base (conn s i) then Inr None
      else
        let s1 = on_conn i (\<lambda>c. c\<lparr>c_wants_loadavg := False\<rparr>) s in
        bindE (any_wants s1 (s_conns s1)) (\<lambda>w.
          Inr (Some (if w then s1 else s1\<lparr>s_loadavg_timer := False\<rparr>))))"

section \<open>The dispatcher\<close>

definition command_handler :: "comm_env \<Rightarrow> nat \<Rightarrow> message \<Rightarrow> bool \<Rightarrow> server \<Rightarrow> server option result" where
  "command_handler env i m udp s =
     (let command = f_command m in
      if command = ''ACCEPT'' then on_accept env i m udp s
      else if command = ''COMMANDS'' then on_commands env i m udp s
      else if command = ''CONNECT'' then on_connect env i m udp s
      else if command = ''DISCONNECT'' then on_disconnect env i m udp s
      else if command = ''FORGET'' then on_forget env m s
      else if command = ''GOSSIP'' then on_gossip env i m udp s
      else if command = ''HELP'' then on_help i udp s
      else if command = ''LOADAVG'' then bindE (save_loadavg env m s) (\<lambda>s1. Inr (Some s1))
      else if command = ''LISTENLOADAVG'' then bindE (listen_loadavg m s) (\<lambda>s1. Inr (Some s1))
      else if command = ''LOG'' then Inr (Some s)
      else if command = ''LISTSERVICES'' then Inr (Some s)
      else if command = ''PUBLIC_IP'' then on_public_ip env i s
      else if command = ''QUITTING'' then Inr (Some s)
      else if command = ''REFUSE'' then on_refuse i m udp s
      else if command = ''REGISTER'' then on_register env i m udp s
      else if command = ''REGISTERFORLOADAVG'' then on_register_loadavg i udp s
      else if command = ''RELOADCONFIG'' then bindE (shutdown env False (s\<lparr>s_force_restart := True\<rparr>)) (\<lambda>s1. Inr (Some s1))
      else if command = ''SHUTDOWN'' then bindE (shutdown env True s) (\<lambda>s1. Inr (Some s1))
      else if command = ''STOP'' then bindE (shutdown env False s) (\<lambda>s1. Inr (Some s1))
      else if command = ''SERVICESTATUS'' then on_service_status env i m s
      else if command = ''UNKNOWN'' then bindE (get_parameter ''command'' m) (\<lambda>_. Inr (Some s))
      else if command = ''UNREGISTER'' then on_unregister env i m udp s
      else if command = ''UNREGISTERFORLOADAVG'' then on_unregister_loadavg i udp s
      else Inr None)"

text \<open>While shutting down, every TCP connection that talks to us is told so and removed.\<close>

definition refuse_quitting :: "comm_env \<Rightarrow> nat \<Rightarrow> message \<Rightarrow> bool \<Rightarrow> server \<Rightarrow> server result" where
  "refuse_quitting env i m udp s =
     (if udp then Inr s
      else
        let reply = make_message ''QUITTING'' [] in
        bindE (if f_command m \<noteq> ''UNREGISTER'' then bindE (verify_command env i reply s) (\<lambda>_. send_reply i reply s) else Inr s) (\<lambda>s1.
        Inr (remove_connection i s1)))"

definition for_us :: "comm_env \<Rightarrow> nat \<Rightarrow> message \<Rightarrow> bool \<Rightarrow> server \<Rightarrow> server result" where
  "for_us env i m udp s =
     (if s_shutdown s then refuse_quitting env i m udp s
      else
        bindE (command_handler env i m udp s) (\<lambda>r.
          case r of
            Some s1 \<Rightarrow> Inr s1
          | None \<Rightarrow>
              if udp then Inr s
              else
                let reply = make_message ''UNKNOWN'' [(''command'', f_command m)] in
                bindE (verify_command env i reply s) (\<lambda>_. send_reply i reply s)))"

section \<open>Routing\<close>

text \<open>The name of the server in the message, where a period stands for this computer.\<close>

definition target_server :: "message \<Rightarrow> server \<Rightarrow> string" where
  "target_server m s = (if f_server m = ''.'' then s_name s else f_server m)"

definition all_servers :: "message \<Rightarrow> server \<Rightarrow> bool" where
  "all_servers m s \<longleftrightarrow> target_server m s = [] \<or> target_server m s = ''*''"

text \<open>
  The loop over the connections: the service that is asked for, or the connections to other computers.  With the
  \<open>--debug\<close> option a connection without the name of its server ends the process, unless it is not up yet.
\<close>

fun find_service :: "comm_env \<Rightarrow> message \<Rightarrow> server \<Rightarrow> nat list \<Rightarrow> nat list \<Rightarrow> (nat option \<times> nat list) result" where
  "find_service env m s [] remotes = Inr (None, remotes)"
| "find_service env m s (j # js) remotes =
     (let c = conn s j in
      if \<not> has_base c then find_service env m s js remotes
      else if c_server_name c = [] \<and> \<not> e_debug env then find_service env m s js remotes
      else if c_server_name c = [] \<and> (c_kind c = Service \<or> c_type c \<noteq> Type_Down)
        then Inl (Logic_Error ''server name missing in connection'')
      else if c_server_name c = [] then find_service env m s js remotes
      else if all_servers m s \<or> target_server m s = c_server_name c then
        (if c_kind c = Service then
           (if c_name c = f_service m then Inr (Some j, remotes)
            else find_service env m s js (if c_type c = Type_Remote then remotes @ [j] else remotes))
         else find_service env m s js (remotes @ [j]))
      else find_service env m s js remotes)"

text \<open>The sender may have asked to be told that its message was not delivered.\<close>

definition transmission_report :: "nat \<Rightarrow> message \<Rightarrow> server \<Rightarrow> server result" where
  "transmission_report i m s =
     (if omap_get (f_parameters m) ''transmission_report'' = Some ''failure''
      then send_reply i (make_message ''TRANSMISSIONREPORT'' [(''status'', ''failed'')]) s
      else Inr s)"

text \<open>The parameter \<open>cache\<close>: \<open>no\<close>, or settings such as \<open>ttl=30\<close> between semicolons.\<close>

definition cache_setting :: "string \<Rightarrow> string \<Rightarrow> string option" where
  "cache_setting name text =
     map_of (rev (concat (map (\<lambda>p. case split_on CHR ''='' p of [k, v] \<Rightarrow> [(k, v)] | _ \<Rightarrow> []) (split_on CHR '';'' text)))) name"

definition cache_ttl :: "comm_env \<Rightarrow> string \<Rightarrow> int" where
  "cache_ttl env text =
     (case cache_setting ''ttl'' text of
        None \<Rightarrow> 60
      | Some v \<Rightarrow> (case e_to_int env v of None \<Rightarrow> 60 | Some ttl \<Rightarrow> if ttl < 10 \<or> ttl > 86400 then 60 else ttl))"

definition cache_message :: "comm_env \<Rightarrow> message \<Rightarrow> server \<Rightarrow> server" where
  "cache_message env m s =
     (let text = (case omap_get (f_parameters m) ''cache'' of Some v \<Rightarrow> v | None \<Rightarrow> []) in
      if text = ''no'' then s
      else s\<lparr>s_cache := s_cache s @ [\<lparr>f_timeout_timestamp = e_time env + cache_ttl env text, f_message = m\<rparr>]\<rparr>)"

definition to_service :: "comm_env \<Rightarrow> nat \<Rightarrow> message \<Rightarrow> server \<Rightarrow> server result" where
  "to_service env i m s =
     bindE (find_service env m s (s_conns s) []) (\<lambda>(found, remotes).
       case found of
         Some j \<Rightarrow> (case verify_command env j m s of Inl _ \<Rightarrow> Inr s | Inr _ \<Rightarrow> Inr (send_message j m s))
       | None \<Rightarrow>
           if (all_servers m s \<or> target_server m s = s_name s) \<and> omap_get (s_local_services_list s) (f_service m) \<noteq> None
           then transmission_report i m (cache_message env m s)
           else if target_server m s = s_name s then transmission_report i m s
           else if remotes \<noteq> [] then broadcast_message env m remotes s
           else Inr s)"

definition route :: "comm_env \<Rightarrow> nat \<Rightarrow> message \<Rightarrow> server \<Rightarrow> server result" where
  "route env i m s =
     (if f_service m = ''*'' \<or> f_service m = ''?'' \<or> f_service m = ''.'' then
        (if target_server m s \<noteq> [] \<and> target_server m s \<noteq> ''*'' \<and> (f_service m = ''*'' \<or> f_service m = ''?'') then Inr s
         else broadcast_message env m [] s)
      else to_service env i m s)"

section \<open>All messages\<close>

text \<open>A broadcast message that is too old or was seen before.\<close>

definition seen_before :: "comm_env \<Rightarrow> message \<Rightarrow> server \<Rightarrow> bool result" where
  "seen_before env m s =
     (if \<not> has_param m ''broadcast_msgid'' then Inr False
      else
        bindE (get_integer_parameter (e_to_ll env) ''broadcast_timeout'' m) (\<lambda>timeout.
        if timeout < e_time env then Inr True
        else bindE (get_parameter ''broadcast_msgid'' m) (\<lambda>msgid. Inr (omap_get (s_received s) msgid \<noteq> None))))"

definition is_for_us :: "message \<Rightarrow> server \<Rightarrow> bool" where
  "is_for_us m s \<longleftrightarrow>
     (target_server m s = [] \<or> target_server m s = s_name s \<or> target_server m s = ''*'')
     \<and> (f_service m = [] \<or> f_service m = ''snapcommunicator'')"

definition process_message :: "comm_env \<Rightarrow> nat \<Rightarrow> message \<Rightarrow> bool \<Rightarrow> server \<Rightarrow> server result" where
  "process_message env i m udp s =
     bindE (seen_before env m s) (\<lambda>seen.
       if seen then Inr s
       else if is_for_us m s then for_us env i m udp s
       else route env i m s)"

text \<open>
  The callbacks of a \<open>service_connection\<close>: a message, which gets the name of its sender once the service registered; the
  end of the connection; and the first message of a connection of ours.
\<close>

definition service_message :: "comm_env \<Rightarrow> nat \<Rightarrow> message \<Rightarrow> server \<Rightarrow> server result" where
  "service_message env i m s =
     (if c_named (conn s i) then
        bindE (set_sent_from_server (c_own_server (conn s i)) m) (\<lambda>m1.
        bindE (set_sent_from_service (c_name (conn s i)) m1) (\<lambda>m2. process_message env i m2 False s))
      else process_message env i m False s)"

definition service_down :: "comm_env \<Rightarrow> nat \<Rightarrow> server \<Rightarrow> server result" where
  "service_down env i s =
     (let s1 = on_conn i (\<lambda>c. c\<lparr>c_type := Type_Down\<rparr>) s in send_status env (conn s1 i) None s1)"

definition service_timeout :: "comm_env \<Rightarrow> nat \<Rightarrow> server \<Rightarrow> server result" where
  "service_timeout env i s = service_down env i (remove_connection i s)"

definition service_hup :: "comm_env \<Rightarrow> nat \<Rightarrow> server \<Rightarrow> server result" where
  "service_hup env i s =
     (let s1 = remove_connection i s in
      bindE (if c_remote (conn s1 i) \<and> c_server_name (conn s1 i) \<noteq> []
             then broadcast_message env (local_event ''HANGUP'' (c_server_name (conn s1 i))) [] s1 else Inr s1)
        (service_down env i))"

definition process_connected :: "comm_env \<Rightarrow> nat \<Rightarrow> server \<Rightarrow> server result" where
  "process_connected env i s =
     (let hello = make_message ''CONNECT'' ([(''version'', show_int COMMUNICATOR_VERSION), (''my_address'', my_address_text env s),
            (''server_name'', s_name s)]
            @ (if s_explicit_neighbors s \<noteq> [] then [(''neighbors'', s_explicit_neighbors s)] else [])
            @ (if s_local_services s \<noteq> [] then [(''services'', s_local_services s)] else [])
            @ (if s_heard_of s \<noteq> [] then [(''heard_of'', s_heard_of s)] else []));
          s1 = (if has_base (conn s i) then send_message i hello s else s) in
      send_status env (conn s1 i) None s1)"

definition remote_connected :: "comm_env \<Rightarrow> nat \<Rightarrow> server \<Rightarrow> server result" where
  "remote_connected env i s =
     bindE (process_connected env i s) (\<lambda>s1. Inr (on_conn i (set_timeout_delay DEFAULT_TIMEOUT) s1))"

text \<open>A new connection on one of the two listeners; the remote one refuses this computer.\<close>

definition process_accept :: "bool \<Rightarrow> string \<Rightarrow> string \<Rightarrow> addr \<Rightarrow> server \<Rightarrow> server" where
  "process_accept local_side server_name client a s =
     (let c = blank_connection\<lparr>c_kind := Service, c_own_server := server_name, c_addr := a, c_client_addr := client\<rparr> in
      if local_side then add_connection (c\<lparr>c_name := ''client connection'', c_server_name := server_name\<rparr>) s
      else if client = ''127.0.0.1'' then s
      else add_connection (c\<lparr>c_name := ''remote connection from: '' @ client, c_remote := True\<rparr>) s)"

end
