(* ===== verification/Communicator_Invariant.thy ===== *)
theory Communicator_Invariant
  imports Communicator_Dispatch "HOL-Library.Sublist"
begin

text \<open>
  What every operation of \<open>snapcommunicator.cpp\<close> keeps.  The relation \<open>good\<close> between the states before and after
  collects it: the well-formedness of the state, the classes of the connections, the identifiers of the broadcast messages
  that are not too old, and that neither a message that was sent nor a shutdown is taken back.  It is a preorder, so that
  the lemma of a handler follows from those of the operations it is made of.
\<close>

section \<open>The invariant\<close>

definition conns_of :: "conn_kind \<Rightarrow> server \<Rightarrow> (string, nat) omap \<Rightarrow> bool" where
  "conns_of kind s m \<longleftrightarrow> (\<forall>i \<in> snd ` set m. i < length (s_heap s) \<and> c_kind (conn s i) = kind)"

definition server_wf :: "server \<Rightarrow> bool" where
  "server_wf s \<longleftrightarrow>
     distinct (s_conns s) \<and> (\<forall>i \<in> set (s_conns s). i < length (s_heap s))
     \<and> omap_ok (s_all_ips s) \<and> omap_ok (s_smaller_ips s) \<and> omap_ok (s_gossip_ips s)
     \<and> omap_ok (s_all_neighbors s) \<and> omap_ok (s_received s)
     \<and> conns_of Remote s (s_smaller_ips s) \<and> conns_of Gossip s (s_gossip_ips s)
     \<and> fst ` set (s_smaller_ips s) \<subseteq> fst ` set (s_all_ips s) \<and> fst ` set (s_gossip_ips s) \<subseteq> fst ` set (s_all_ips s)"

definition kinds_kept :: "server \<Rightarrow> server \<Rightarrow> bool" where
  "kinds_kept s t \<longleftrightarrow> length (s_heap s) \<le> length (s_heap t) \<and> (\<forall>i < length (s_heap s). c_kind (conn t i) = c_kind (conn s i))"

definition received_kept :: "int \<Rightarrow> server \<Rightarrow> server \<Rightarrow> bool" where
  "received_kept now s t \<longleftrightarrow> (\<forall>msgid timeout. omap_get (s_received s) msgid = Some timeout \<longrightarrow> now \<le> timeout
     \<longrightarrow> omap_get (s_received t) msgid = Some timeout)"

text \<open>A message that waits for its service is not dropped before its time: it waits on or has been sent.\<close>

definition cache_kept :: "int \<Rightarrow> server \<Rightarrow> server \<Rightarrow> bool" where
  "cache_kept now s t \<longleftrightarrow> (\<forall>c \<in> set (s_cache s). now \<le> f_timeout_timestamp c \<longrightarrow>
     c \<in> set (s_cache t) \<or> f_message c \<in> snd ` set (drop (length (s_sent s)) (s_sent t)))"

definition good :: "int \<Rightarrow> server \<Rightarrow> server \<Rightarrow> bool" where
  "good now s t \<longleftrightarrow> (server_wf s \<longrightarrow> server_wf t) \<and> kinds_kept s t \<and> received_kept now s t \<and> cache_kept now s t
     \<and> (s_shutdown s \<longrightarrow> s_shutdown t) \<and> prefix (s_sent s) (s_sent t) \<and> s_name t = s_name s \<and> s_my_address t = s_my_address s"

lemma cache_kept_same: "set (s_cache s) \<subseteq> set (s_cache t) \<Longrightarrow> cache_kept now s t"
  by (auto simp: cache_kept_def)

lemma cache_kept_trans:
  assumes "cache_kept now s t" "cache_kept now t u" and p: "prefix (s_sent s) (s_sent t)" "prefix (s_sent t) (s_sent u)"
  shows "cache_kept now s u"
  unfolding cache_kept_def
proof (intro ballI impI)
  fix c assume c: "c \<in> set (s_cache s)" "now \<le> f_timeout_timestamp c"
  obtain a where a: "s_sent t = s_sent s @ a" using p(1) by (auto elim: prefixE)
  obtain b where b: "s_sent u = s_sent t @ b" using p(2) by (auto elim: prefixE)
  from assms(1) c have "c \<in> set (s_cache t) \<or> f_message c \<in> snd ` set a" by (auto simp: cache_kept_def a)
  with assms(2) c have "c \<in> set (s_cache u) \<or> f_message c \<in> snd ` set a \<union> snd ` set b" by (auto simp: cache_kept_def b)
  then show "c \<in> set (s_cache u) \<or> f_message c \<in> snd ` set (drop (length (s_sent s)) (s_sent u))" by (auto simp: a b)
qed

lemma good_refl [simp, intro]: "good now s s"
  by (simp add: good_def kinds_kept_def received_kept_def cache_kept_same)

lemma kinds_kept_trans: "kinds_kept s t \<Longrightarrow> kinds_kept t u \<Longrightarrow> kinds_kept s u"
  by (simp add: kinds_kept_def)

lemma received_kept_trans: "received_kept now s t \<Longrightarrow> received_kept now t u \<Longrightarrow> received_kept now s u"
  by (simp add: received_kept_def)

lemma good_trans [trans]: "good now s t \<Longrightarrow> good now t u \<Longrightarrow> good now s u"
  by (simp add: good_def kinds_kept_trans [of s t] received_kept_trans [of now s t] cache_kept_trans [of now s t])
    (metis prefix_order.trans)

lemma good_later: "good now s t \<Longrightarrow> now \<le> now' \<Longrightarrow> good now' s t"
  by (simp add: good_def received_kept_def cache_kept_def)

text \<open>A change that touches none of what the invariant is about.\<close>

definition same_core :: "server \<Rightarrow> server \<Rightarrow> bool" where
  "same_core s t \<longleftrightarrow> s_conns t = s_conns s \<and> map c_kind (s_heap t) = map c_kind (s_heap s) \<and> s_all_ips t = s_all_ips s
     \<and> s_smaller_ips t = s_smaller_ips s \<and> s_gossip_ips t = s_gossip_ips s \<and> s_all_neighbors t = s_all_neighbors s
     \<and> s_received t = s_received s \<and> set (s_cache s) \<subseteq> set (s_cache t) \<and> (s_shutdown s \<longrightarrow> s_shutdown t) \<and> prefix (s_sent s) (s_sent t)
     \<and> s_name t = s_name s \<and> s_my_address t = s_my_address s"

lemma map_kind_nth: "map c_kind h' = map c_kind h \<Longrightarrow> length h' = length h \<and> (\<forall>i < length h. c_kind (h' ! i) = c_kind (h ! i))"
  by (metis length_map nth_map)

lemma same_core_good: "same_core s t \<Longrightarrow> good now s t"
proof -
  assume c: "same_core s t"
  then have k: "length (s_heap t) = length (s_heap s)" "\<forall>i < length (s_heap s). c_kind (conn t i) = c_kind (conn s i)"
    using map_kind_nth [of "s_heap t" "s_heap s"] by (auto simp: same_core_def)
  then have "conns_of kind s m \<Longrightarrow> conns_of kind t m" for kind m by (auto simp: conns_of_def)
  with c k show ?thesis by (simp add: good_def server_wf_def same_core_def kinds_kept_def received_kept_def cache_kept_same)
qed

text \<open>The steps of a handler one after the other.\<close>

lemma good_bind: "bindE r f = Inr u \<Longrightarrow> (\<And>t. r = Inr t \<Longrightarrow> good now s t) \<Longrightarrow> (\<And>t. r = Inr t \<Longrightarrow> f t = Inr u \<Longrightarrow> good now t u)
  \<Longrightarrow> good now s u"
  by (auto simp: bindE_eq_Inr intro: good_trans)

section \<open>Small operations\<close>

lemma map_kind_update: "(\<And>c. c_kind (f c) = c_kind c) \<Longrightarrow> map c_kind (h[i := f (h ! i)]) = map c_kind h"
  by (metis list_update_id list_update_beyond map_update nth_map not_le)

lemma on_conn_core: "(\<And>c. c_kind (f c) = c_kind c) \<Longrightarrow> same_core s (on_conn i f s)"
  by (simp add: same_core_def on_conn_def map_kind_update)

lemma send_message_core: "same_core s (send_message i m s)"
  by (simp add: same_core_def send_message_def)

lemma send_all_core: "same_core s (send_all is m s)"
  by (simp add: same_core_def send_all_sent)

lemmas core_good = on_conn_core [THEN same_core_good] send_message_core [THEN same_core_good] send_all_core [THEN same_core_good]

lemma kind_updates [simp]:
  "c_kind (connection_started env c) = c_kind c" "c_kind (connection_ended env c) = c_kind c" "c_kind (set_services v c) = c_kind c"
  "c_kind (set_services_heard_of v c) = c_kind c" "c_kind (set_commands v c) = c_kind c" "c_kind (announced m c) = c_kind c"
  "c_kind (set_timeout_delay d c) = c_kind c"
  by (simp_all add: connection_started_def connection_ended_def set_services_def set_services_heard_of_def set_commands_def
      announced_def set_timeout_delay_def Let_def split: option.splits)

lemma good_remove: "good now s (remove_connection i s)"
proof -
  have "set (remove1 i (s_conns s)) \<subseteq> set (s_conns s)" by (rule set_remove1_subset)
  then show ?thesis
    by (auto simp: good_def remove_connection_def server_wf_def conns_of_def kinds_kept_def received_kept_def cache_kept_same)
qed

lemma good_fold_remove: "good now s (fold remove_connection is s)"
proof (induction "is" arbitrary: s)
  case (Cons i "is")
  have "good now s (remove_connection i s)" by (rule good_remove)
  also have "good now (remove_connection i s) (fold remove_connection is (remove_connection i s))" by (rule Cons)
  finally show ?case by simp
qed simp

lemma nth_append_old: "i < length h \<Longrightarrow> (h @ [c]) ! i = h ! i"
  by (simp add: nth_append)

lemma conns_of_add: "conns_of kind s m \<Longrightarrow> conns_of kind (add_connection c s) m"
  by (auto simp: conns_of_def add_connection_def nth_append_old)

lemma add_connection_fields [simp]:
  "s_all_ips (add_connection c s) = s_all_ips s" "s_smaller_ips (add_connection c s) = s_smaller_ips s"
  "s_gossip_ips (add_connection c s) = s_gossip_ips s" "s_all_neighbors (add_connection c s) = s_all_neighbors s"
  "s_received (add_connection c s) = s_received s" "s_shutdown (add_connection c s) = s_shutdown s"
  "s_sent (add_connection c s) = s_sent s" "s_name (add_connection c s) = s_name s"
  "s_my_address (add_connection c s) = s_my_address s" "s_cache (add_connection c s) = s_cache s"
  by (simp_all add: add_connection_def)

lemma add_connection_conns:
  assumes "distinct (s_conns s)" "\<forall>i \<in> set (s_conns s). i < length (s_heap s)"
  shows "distinct (s_conns (add_connection c s))" "\<forall>i \<in> set (s_conns (add_connection c s)). i < length (s_heap (add_connection c s))"
  using assms by (auto simp: add_connection_def less_Suc_eq)

lemma add_connection_kinds: "kinds_kept s (add_connection c s)"
  by (simp add: add_connection_def kinds_kept_def nth_append_old)

lemma good_add_connection: "good now s (add_connection c s)"
proof -
  have "server_wf (add_connection c s)" if "server_wf s"
    using that add_connection_conns [of s c] by (simp add: server_wf_def conns_of_add)
  then show ?thesis by (simp add: good_def add_connection_kinds received_kept_def cache_kept_same)
qed

text \<open>The maps of the addresses.\<close>

lemma conns_of_erase: "conns_of kind s m \<Longrightarrow> conns_of kind s (omap_erase a m)"
  using omap_erase_set [of a m] by (auto simp: conns_of_def)

lemma keys_erase: "fst ` set m \<subseteq> A \<Longrightarrow> fst ` set (omap_erase a m) \<subseteq> A"
  using omap_erase_set [of a m] by auto

lemma conns_of_cong: "s_heap t = s_heap s \<Longrightarrow> conns_of kind t m = conns_of kind s m"
  by (simp add: conns_of_def)

lemma good_erase_smaller: "good now s (s\<lparr>s_smaller_ips := omap_erase a (s_smaller_ips s)\<rparr>)" (is "good now s ?t")
proof -
  have "conns_of kind ?t m = conns_of kind s m" for kind m by (rule conns_of_cong) simp
  then show ?thesis by (simp add: good_def server_wf_def conns_of_erase keys_erase kinds_kept_def received_kept_def cache_kept_same)
qed

lemma good_erase_gossip: "good now s (s\<lparr>s_gossip_ips := omap_erase a (s_gossip_ips s)\<rparr>)" (is "good now s ?t")
proof -
  have "conns_of kind ?t m = conns_of kind s m" for kind m by (rule conns_of_cong) simp
  then show ?thesis by (simp add: good_def server_wf_def conns_of_erase keys_erase kinds_kept_def received_kept_def cache_kept_same)
qed

section \<open>Broadcasting\<close>

lemma good_send_all: "good now s (send_all is m s)"
  by (rule core_good)

lemma good_broadcast_end: "good now s (broadcast_end env m msgid known hops timeout ids s)"
proof (cases "ids = []")
  case False
  have "same_core s (broadcast_end env m msgid known hops timeout ids s)"
    using False by (simp add: broadcast_end_def Let_def same_core_def send_all_sent)
  then show ?thesis by (rule same_core_good)
qed (simp add: broadcast_end_def)

lemma good_deliver: "good now s (broadcast_deliver env m accepting x s)"
proof -
  have "good now s (broadcast_end env m msgid known hops timeout ids (send_all locals m s))" for msgid known hops timeout ids locals
    using good_send_all good_broadcast_end good_trans by blast
  then show ?thesis by (cases x) (auto simp: broadcast_deliver_def Let_def good_broadcast_end)
qed

lemma good_begin: "broadcast_begin env m s = Inr (r, t) \<Longrightarrow> good (e_time env) s t"
proof (erule broadcast_begin_cases)
  fix msgid timeout
  assume n: "omap_get (s_received s) msgid = None"
    and t: "t = s\<lparr>s_received := omap_put msgid timeout (filter (\<lambda>p. \<not> snd p < e_time env) (s_received s))\<rparr>"
  have "received_kept (e_time env) s t"
    using n map_of_filter_kept [of "s_received s" _ _ "\<lambda>p. \<not> snd p < e_time env"] by (auto simp: received_kept_def t omap_simps)
  then show "good (e_time env) s t" by (simp add: good_def) (simp add: t server_wf_def conns_of_def kinds_kept_def cache_kept_same)
qed simp_all

lemma good_broadcast: "broadcast_message env m accepting s = Inr t \<Longrightarrow> good (e_time env) s t"
proof -
  assume "broadcast_message env m accepting s = Inr t"
  then obtain r s1 where b: "broadcast_begin env m s = Inr (r, s1)"
    and t: "t = (case r of None \<Rightarrow> s1 | Some x \<Rightarrow> broadcast_deliver env m accepting x s1)"
    by (auto simp: broadcast_message_def bindE_eq_Inr)
  have "good (e_time env) s1 t" by (simp add: t good_deliver split: option.split)
  with good_begin [OF b] show ?thesis by (rule good_trans)
qed

section \<open>Remote communicators and neighbors\<close>

text \<open>An address that is recorded together with the connection made for it.\<close>

lemma good_new_address: "good now s (s\<lparr>s_all_ips := omap_put a p (s_all_ips s)\<rparr>)"
  by (auto simp: good_def server_wf_def conns_of_def kinds_kept_def received_kept_def cache_kept_same)

lemma conns_of_put_new:
  "conns_of kind s m \<Longrightarrow> c_kind c = kind \<Longrightarrow> conns_of kind (add_connection c s) (omap_put a (length (s_heap s)) m)"
proof -
  assume m: "conns_of kind s m" and c: "c_kind c = kind"
  show ?thesis unfolding conns_of_def
  proof
    fix i assume "i \<in> snd ` set (omap_put a (length (s_heap s)) m)"
    then have "i = length (s_heap s) \<or> i \<in> snd ` set m" using omap_put_set [of a "length (s_heap s)" m] by force
    with m c show "i < length (s_heap (add_connection c s)) \<and> c_kind (conn (add_connection c s) i) = kind"
      by (auto simp: conns_of_def add_connection_def nth_append_old)
  qed
qed

lemma good_wake: "good now s (wake_remote env address a s)"
proof -
  have "good now s (on_conn i (\<lambda>c. c\<lparr>c_timeout_date := e_now env\<rparr>) s)" for i by (rule core_good) simp
  then show ?thesis by (simp add: wake_remote_def split: option.split)
qed

lemma good_connect_new: 
  assumes "c_kind c = Remote"
  shows "good now s (add_connection c (s\<lparr>s_all_ips := omap_put a p (s_all_ips s),
     s_smaller_ips := omap_put a (length (s_heap s)) (s_smaller_ips s), s_last_start_date := d\<rparr>))" (is "good now s (add_connection c ?s1)")
proof -
  have "server_wf (add_connection c ?s1)" if wf: "server_wf s"
    using wf add_connection_conns [of ?s1 c] assms conns_of_put_new [of Remote ?s1 "s_smaller_ips s" c a]
      conns_of_add [of Gossip ?s1 "s_gossip_ips s" c]
    by (simp add: server_wf_def conns_of_def) (meson insert_mono subset_insertI2)
  then show ?thesis
    using add_connection_kinds [of ?s1 c] by (simp add: good_def received_kept_def kinds_kept_def cache_kept_same)
qed

lemma good_gossip_new:
  "good now s (add_connection (new_gossip a) (s\<lparr>s_all_ips := omap_put a p (s_all_ips s),
     s_gossip_ips := omap_put a (length (s_heap s)) (s_gossip_ips s)\<rparr>))" (is "good now s (add_connection ?c ?s1)")
proof -
  have c: "c_kind ?c = Gossip" by (simp add: new_gossip_def)
  have "server_wf (add_connection ?c ?s1)" if wf: "server_wf s"
    using wf add_connection_conns [of ?s1 ?c] conns_of_put_new [OF _ c, of ?s1 "s_gossip_ips s" a]
      conns_of_add [of Remote ?s1 "s_smaller_ips s" ?c]
    by (simp add: server_wf_def conns_of_def) (meson insert_mono subset_insertI2)
  then show ?thesis
    using add_connection_kinds [of ?s1 ?c] by (simp add: good_def received_kept_def kinds_kept_def cache_kept_same)
qed

lemma good_add_remote: "add_remote_communicator env addr_port s = Inr t \<Longrightarrow> good now s t"
proof -
  assume "add_remote_communicator env addr_port s = Inr t"
  then obtain a where t: "(if addr_eq a (s_my_address s) then Inr s
       else if omap_get (s_all_ips s) (addr_string env True a) \<noteq> None then Inr (wake_remote env (addr_string env True a) a s)
       else if addr_less a (s_my_address s)
         then connect_remote env (addr_string env True a) (s\<lparr>s_all_ips := omap_put (addr_string env True a) (get_port a) (s_all_ips s)\<rparr>)
         else Inr (gossip_remote (addr_string env True a) (s\<lparr>s_all_ips := omap_put (addr_string env True a) (get_port a) (s_all_ips s)\<rparr>))) = Inr t"
    unfolding add_remote_communicator_def bindE_eq_Inr Let_def by blast
  have kind: "c_kind (c\<lparr>c_timeout_date := d\<rparr>) = Remote" if "new_remote env (addr_string env True a) = Inr c" for c d
    using that by (auto simp: new_remote_def bindE_eq_Inr)
  show ?thesis
    using t good_wake good_gossip_new good_connect_new [OF kind]
    by (auto simp: connect_remote_def gossip_remote_def bindE_eq_Inr Let_def split: if_splits)
qed

text \<open>
  A fallible operation keeps the invariant when the state it returns does; an exception ends the process.  The handlers
  return the state as an option.
\<close>

definition keeps :: "int \<Rightarrow> server \<Rightarrow> server result \<Rightarrow> bool" where
  "keeps now s r \<longleftrightarrow> (\<forall>t. r = Inr t \<longrightarrow> good now s t)"

definition keeps_opt :: "int \<Rightarrow> server \<Rightarrow> server option result \<Rightarrow> bool" where
  "keeps_opt now s r \<longleftrightarrow> (\<forall>t. r = Inr (Some t) \<longrightarrow> good now s t)"

lemma keeps_simps [simp]:
  "keeps now s (Inl e)" "keeps_opt now s (Inl e)" "keeps_opt now s (Inr None)"
  "keeps now s (Inr t) = good now s t" "keeps_opt now s (Inr (Some t)) = good now s t"
  by (simp_all add: keeps_def keeps_opt_def)

lemma keeps_bind: "keeps now s r \<Longrightarrow> (\<And>t. keeps now t (f t)) \<Longrightarrow> keeps now s (bindE r f)"
  by (auto simp: keeps_def bindE_eq_Inr intro: good_trans)

lemma keeps_opt_bind: "keeps now s r \<Longrightarrow> (\<And>t. keeps_opt now t (f t)) \<Longrightarrow> keeps_opt now s (bindE r f)"
  by (auto simp: keeps_def keeps_opt_def bindE_eq_Inr intro: good_trans)

lemma keeps_value: "(\<And>v. keeps now s (f v)) \<Longrightarrow> keeps now s (bindE r f)"
  by (auto simp: keeps_def bindE_eq_Inr)

lemma keeps_opt_value: "(\<And>v. keeps_opt now s (f v)) \<Longrightarrow> keeps_opt now s (bindE r f)"
  by (auto simp: keeps_opt_def bindE_eq_Inr)

lemma keeps_after: "good now s t \<Longrightarrow> keeps now t r \<Longrightarrow> keeps now s r"
  by (auto simp: keeps_def intro: good_trans)

lemma keeps_opt_after: "good now s t \<Longrightarrow> keeps_opt now t r \<Longrightarrow> keeps_opt now s r"
  by (auto simp: keeps_opt_def intro: good_trans)

lemma keeps_some: "keeps now s r \<Longrightarrow> keeps_opt now s (bindE r (\<lambda>t. Inr (Some t)))"
  by (auto simp: keeps_def keeps_opt_def bindE_eq_Inr)

lemma keeps_broadcast: "keeps (e_time env) s (broadcast_message env m accepting s)"
  by (simp add: keeps_def good_broadcast)

lemma keeps_add_remote: "keeps now s (add_remote_communicator env addr_port s)"
  by (simp add: keeps_def good_add_remote)

lemma good_put_neighbor: "good now s (s\<lparr>s_all_neighbors := omap_put n True (s_all_neighbors s)\<rparr>)" (is "good now s ?t")
proof -
  have "conns_of kind ?t m = conns_of kind s m" for kind m by (rule conns_of_cong) simp
  then show ?thesis by (simp add: good_def server_wf_def kinds_kept_def received_kept_def cache_kept_same)
qed

lemma good_erase_neighbor: "good now s (s\<lparr>s_all_neighbors := omap_erase n (s_all_neighbors s)\<rparr>)" (is "good now s ?t")
proof -
  have "conns_of kind ?t m = conns_of kind s m" for kind m by (rule conns_of_cong) simp
  then show ?thesis by (simp add: good_def server_wf_def kinds_kept_def received_kept_def cache_kept_same)
qed

text \<open>Fields that the invariant is not about.\<close>

lemma good_fields:
  "good now s (s\<lparr>s_neighbors_file := f\<rparr>)" "good now s (s\<lparr>s_neighbors_read := r\<rparr>)" "good now s (s\<lparr>s_loadavg_neighbors := l\<rparr>)"
  "good now s (s\<lparr>s_loadavg_file := lf\<rparr>)" "good now s (s\<lparr>s_loadavg_timer := lt\<rparr>)" "good now s (s\<lparr>s_force_restart := fr\<rparr>)"
  "set (s_cache s) \<subseteq> set c \<Longrightarrow> good now s (s\<lparr>s_cache := c\<rparr>)" "good now s (s\<lparr>s_shutdown := True\<rparr>)"
  "good now s (s\<lparr>s_heard_of_list := hl, s_heard_of := h\<rparr>)"
  by (rule same_core_good, simp add: same_core_def)+

lemma keeps_save_neighbors: "keeps now s (save_neighbors env s)"
  by (simp add: save_neighbors_def good_fields)

lemma keeps_read_lines: "keeps now s (read_lines env ls s)"
proof (induction ls arbitrary: s)
  case (Cons l ls)
  show ?case
  proof (cases "l \<noteq> [] \<and> hd l \<noteq> CHR ''#''")
    case True
    have "keeps now s (bindE (add_remote_communicator env (trimmed l) (s\<lparr>s_all_neighbors := omap_put (trimmed l) True (s_all_neighbors s)\<rparr>))
        (read_lines env ls))"
      by (rule keeps_after [OF good_put_neighbor]) (rule keeps_bind [OF keeps_add_remote Cons])
    with True show ?thesis by simp
  next
    case False
    with Cons show ?thesis by (simp only: read_lines.simps if_False)
  qed
qed simp

lemma keeps_read_neighbors: "keeps now s (read_neighbors env s)"
  by (auto simp: read_neighbors_def good_fields split: option.split intro: keeps_after [OF _ keeps_read_lines])

lemma keeps_add_new: "add_new env ns changed s = Inr (c, t) \<Longrightarrow> good now s t"
proof (induction ns arbitrary: changed s)
  case (Cons n ns)
  show ?case
  proof (cases "omap_get (s_all_neighbors s) n")
    case None
    let ?s1 = "s\<lparr>s_all_neighbors := omap_put n True (s_all_neighbors s)\<rparr>"
    from Cons.prems None obtain u where u: "add_remote_communicator env n ?s1 = Inr u" "add_new env ns True u = Inr (c, t)"
      by (auto simp: bindE_eq_Inr)
    have "good now s ?s1" by (rule good_put_neighbor)
    also have "good now ?s1 u" by (rule good_add_remote [OF u(1)])
    also have "good now u t" by (rule Cons.IH [OF u(2)])
    finally show ?thesis .
  next
    case Some
    with Cons show ?thesis by simp
  qed
qed simp

lemma keeps_add_neighbors: "keeps now s (add_neighbors env new_neighbors s)"
  unfolding add_neighbors_def
proof (rule keeps_bind [OF keeps_read_neighbors])
  fix t
  show "keeps now t (if new_neighbors = [] then Inr t
     else bindE (add_new env (split_skip CHR '','' new_neighbors) False t) (\<lambda>(changed, s2). if changed then save_neighbors env s2 else Inr s2))"
    using keeps_add_new keeps_after [OF _ keeps_save_neighbors]
    by (auto simp: keeps_def bindE_eq_Inr split: if_splits) blast
qed

lemma good_gossip_received: "good now s (gossip_received address s)"
proof -
  have "good now s ((remove_connection i s)\<lparr>s_gossip_ips := omap_erase address (s_gossip_ips s)\<rparr>)" for i
    using good_trans [OF good_remove [of now s i] good_erase_gossip [of now _ address]] by (simp add: remove_connection_def)
  then show ?thesis by (simp add: gossip_received_def split: option.split)
qed

lemma good_forget: "good now s (forget_remote_connection addr_port s)"
proof -
  have "good now s ((remove_connection i s)\<lparr>s_smaller_ips := omap_erase address (s_smaller_ips s)\<rparr>)" for i address
    using good_trans [OF good_remove [of now s i] good_erase_smaller [of now _ address]] by (simp add: remove_connection_def)
  then show ?thesis by (simp add: forget_remote_connection_def Let_def split: option.split)
qed

lemma keeps_remove_neighbor: "keeps now s (remove_neighbor env n s)"
  unfolding remove_neighbor_def
proof (rule keeps_bind)
  show "keeps now s (if omap_get (s_all_neighbors s) n \<noteq> None
    then save_neighbors env (s\<lparr>s_all_neighbors := omap_erase n (s_all_neighbors s)\<rparr>) else Inr s)"
    by (simp add: keeps_after [OF good_erase_neighbor keeps_save_neighbors])
  show "keeps now t (Inr (forget_remote_connection n (gossip_received n t)))" for t
    using good_trans [OF good_gossip_received good_forget] by simp
qed

lemma good_refresh: "good now s (refresh_heard_of s)"
  by (simp add: refresh_heard_of_def Let_def good_fields)

section \<open>Status, load and shutdown\<close>

lemma keeps_send_status: "keeps now s (send_status env c answer s)"
  by (auto simp: send_status_def core_good split: option.split intro: keeps_value)

lemma good_register_loadavg: "good now s (register_for_loadavg ip s)"
  by (simp add: register_for_loadavg_def core_good split: option.split)

lemma good_fold: "(\<And>x t. good now t (f x t)) \<Longrightarrow> good now s (fold f xs s)"
  by (induction xs arbitrary: s) (auto intro: good_trans)

lemma keeps_listen_loadavg: "keeps now s (listen_loadavg m s)"
  unfolding listen_loadavg_def
  by (rule keeps_value) (auto intro!: good_fold intro: good_trans [OF good_fields(3) good_register_loadavg])

lemma keeps_save_loadavg: "keeps now s (save_loadavg env m s)"
  unfolding save_loadavg_def by (intro keeps_value) (auto simp: good_fields split: option.split)

lemma good_mark_done: "good now s (mark_done i s)"
  unfolding mark_done_def by (rule core_good) simp

lemma keeps_send_reply: "keeps now s (send_reply i m s)"
  by (simp add: send_reply_def core_good)

lemma keeps_close_connection: "keeps now s (close_connection env quitting i s)"
proof -
  have "good now s (mark_done i (send_message i m s))" "good now s (send_message i m (mark_done i s))" for m
    by (rule good_trans [OF core_good(2) good_mark_done], rule good_trans [OF good_mark_done core_good(2)])
  then show ?thesis
    by (auto simp: close_connection_def Let_def good_remove good_mark_done intro!: keeps_value)
qed

lemma keeps_close_connections: "keeps now s (close_connections env quitting is s)"
  by (induction "is" arbitrary: s) (auto intro: keeps_bind keeps_close_connection)

lemma good_stop_gossiping: "good now s (stop_gossiping s)"
proof -
  have "good now t (t\<lparr>s_gossip_ips := []\<rparr>)" for t
  proof -
    have "conns_of kind (t\<lparr>s_gossip_ips := []\<rparr>) m = conns_of kind t m" for kind m by (rule conns_of_cong) simp
    then show ?thesis by (simp add: good_def server_wf_def kinds_kept_def received_kept_def cache_kept_same) (simp add: conns_of_def)
  qed
  then show ?thesis unfolding stop_gossiping_def by (rule good_trans [OF good_fold_remove])
qed

lemma keeps_shutdown: "keeps now s (shutdown env quitting s)"
  unfolding shutdown_def Let_def
proof (rule keeps_after [OF good_trans [OF good_fields(8) good_stop_gossiping]], rule keeps_bind [OF keeps_close_connections])
  show "keeps now t (Inr (fold remove_connection (s_servers t) t))" for t by (simp add: good_fold_remove)
qed

section \<open>The handlers\<close>

lemma keeps_announced_neighbors: "keeps now s (announced_neighbors env m s)"
  by (simp add: announced_neighbors_def keeps_add_neighbors split: option.split)

lemma keeps_on_accept: "keeps_opt (e_time env) s (on_accept env i m udp s)"
proof -
  let ?f = "\<lambda>name his c. announced m ((connection_started env c)\<lparr>c_type := Type_Remote, c_server_name := name, c_my_address := his\<rparr>)"
  have "keeps_opt (e_time env) s (bindE (announced_neighbors env m (on_conn i (?f name his) s)) (\<lambda>s1.
          bindE (send_reply i help_message (refresh_heard_of s1)) (\<lambda>s2.
          bindE (broadcast_message env (local_event ''NEWREMOTECONNECTION'' name) [] (register_for_loadavg his s2)) (\<lambda>s3.
          Inr (Some s3)))))" for name his
  proof (rule keeps_opt_after [where t = "on_conn i (?f name his) s"], rule core_good, simp,
      rule keeps_opt_bind [OF keeps_announced_neighbors], rule keeps_opt_bind)
    show "keeps (e_time env) t (send_reply i help_message (refresh_heard_of t))" for t
      by (rule keeps_after [OF good_refresh keeps_send_reply])
    show "keeps_opt (e_time env) t (bindE (broadcast_message env (local_event ''NEWREMOTECONNECTION'' name) [] (register_for_loadavg his t)) (\<lambda>s3.
          Inr (Some s3)))" for t
      by (rule keeps_some) (rule keeps_after [OF good_register_loadavg keeps_broadcast])
  qed
  then show ?thesis by (simp add: on_accept_def split: option.split)
qed

lemma keeps_on_commands: "keeps_opt now s (on_commands env i m udp s)"
  by (simp add: on_commands_def Let_def core_good split: option.split)

lemma keeps_connect_reply: "keeps_opt (e_time env) s (connect_reply env i reply accepted s)"
  unfolding connect_reply_def
proof (rule keeps_opt_bind [OF keeps_send_reply], rule keeps_opt_bind)
  show "keeps (e_time env) t (case accepted of None \<Rightarrow> Inr t
     | Some name \<Rightarrow> broadcast_message env (local_event ''NEWREMOTECONNECTION'' name) [] (send_message i help_message t))" for t
    by (auto split: option.split intro: keeps_after [OF core_good(2) keeps_broadcast])
  show "keeps_opt (e_time env) t (bindE (send_status env (conn t i) None t) (\<lambda>s3. Inr (Some s3)))" for t
    by (rule keeps_some [OF keeps_send_status])
qed

lemma keeps_connect_accept: "keeps_opt (e_time env) s (connect_accept env i m name his neighbors s)"
proof -
  let ?f = "\<lambda>c. announced m ((connection_started env c)\<lparr>c_type := Type_Remote\<rparr>)"
  have "good now t (register_for_loadavg his (on_conn i (\<lambda>c. c\<lparr>c_my_address := his\<rparr>) (refresh_heard_of t)))" for now t
    by (rule good_trans [OF good_refresh], rule good_trans [OF core_good(1) good_register_loadavg]) simp
  note g = this
  show ?thesis unfolding connect_accept_def Let_def
    by (rule keeps_opt_after [where t = "on_conn i ?f s"], rule core_good, simp, rule keeps_opt_bind [OF keeps_announced_neighbors],
        rule keeps_opt_bind [OF keeps_after [OF g keeps_add_neighbors]], rule keeps_opt_after [OF good_gossip_received keeps_connect_reply])
qed

lemma keeps_on_connect: "keeps_opt (e_time env) s (on_connect env i m udp s)"
proof -
  have "good (e_time env) s (on_conn i (\<lambda>c. c\<lparr>c_server_name := name\<rparr>) s)" for name by (rule core_good) simp
  note k = keeps_opt_after [OF this keeps_connect_reply] keeps_opt_after [OF this keeps_connect_accept]
  show ?thesis
    by (auto simp: on_connect_def Let_def k keeps_connect_reply split: option.split intro!: keeps_opt_value)
qed

lemma good_disconnect: "good now s (disconnect i s)"
proof -
  have "good now s (on_conn i (\<lambda>c. c\<lparr>c_messenger := None\<rparr>) (remove_connection j s))" for j
    by (rule good_trans [OF good_remove core_good(1)]) simp
  then show ?thesis by (simp add: disconnect_def split: option.split)
qed

lemma good_on_smaller: "good now s (on_smaller address delay s)"
  by (simp add: on_smaller_def core_good split: option.split)

lemmas good_delays = good_on_smaller [of _ _ _ TOO_BUSY_TIMEOUT, folded too_busy_def] good_on_smaller [of _ _ _ RECONNECT_TIMEOUT, folded shutting_down_def]

lemma keeps_on_disconnect: "keeps_opt (e_time env) s (on_disconnect env i m udp s)"
proof -
  define s1 where "s1 = on_conn i (connection_ended env) s"
  define s2 where "s2 = on_conn i (\<lambda>c. c\<lparr>c_type := Type_Down\<rparr>) s1"
  define s4 where "s4 = refresh_heard_of (if c_kind (conn s2 i) \<noteq> Remote then remove_connection i s2
    else shutting_down (get_client_addr (conn (disconnect i s2) i)) (disconnect i s2))"
  have g1: "good (e_time env) s s1" unfolding s1_def by (rule core_good) simp
  have g2: "good (e_time env) s1 s2" unfolding s2_def by (rule core_good) simp
  have g4: "good (e_time env) s2 s4" unfolding s4_def
    by (rule good_trans [OF _ good_refresh]) (auto intro: good_remove good_trans [OF good_disconnect good_delays(2)])
  have "keeps (e_time env) s1 (if c_type (conn s1 i) = Type_Remote then
      (if c_server_name (conn s4 i) \<noteq> [] then broadcast_message env (local_event ''DISCONNECTED'' (c_server_name (conn s4 i))) [] s4 else Inr s4)
      else Inr s1)" (is "keeps _ _ ?r")
    using good_trans [OF g2 g4] by (auto intro: keeps_after [OF _ keeps_broadcast])
  then have "keeps_opt (e_time env) s (bindE ?r (\<lambda>s5. bindE (send_status env (conn s5 i) None s5) (\<lambda>s6. Inr (Some s6))))" (is "keeps_opt _ _ ?b")
    by (rule keeps_opt_bind [OF keeps_after [OF g1]]) (rule keeps_some [OF keeps_send_status])
  then have "keeps_opt (e_time env) s (if udp then Inr (Some s) else if \<not> has_base (conn s i) then Inr None else ?b)" by simp
  then show ?thesis by (simp only: on_disconnect_def Let_def s1_def s2_def s4_def)
qed

lemma keeps_on_forget: "keeps_opt (e_time env) s (on_forget env m s)"
  unfolding on_forget_def
proof (rule keeps_opt_value, rule keeps_opt_bind [OF keeps_remove_neighbor])
  show "keeps_opt (e_time env) t (if has_param m ''broadcast_hops'' then Inr (Some t)
     else bindE (broadcast_message env ((make_message ''FORGET'' [(''ip'', ip)])\<lparr>f_server := ''*'', f_service := ''snapcommunicator''\<rparr>) [] t)
       (\<lambda>s2. Inr (Some s2)))" for ip t
    using keeps_some [OF keeps_broadcast] by (simp only: if_split keeps_simps) simp
qed

lemma keeps_on_gossip: "keeps_opt now s (on_gossip env i m udp s)"
  by (auto simp: on_gossip_def split: option.split
      intro!: keeps_opt_bind [OF keeps_add_neighbors] keeps_opt_bind [OF keeps_add_remote] keeps_some [OF keeps_send_reply])

lemma keeps_on_refuse: "keeps_opt now s (on_refuse i m udp s)"
  by (auto simp: on_refuse_def Let_def intro: good_trans [OF good_delays(1) good_disconnect] good_trans [OF good_delays(2) good_disconnect])

lemma flush_cache_sent:
  "flush_cache env i service s = s\<lparr>s_cache := filter (\<lambda>c. f_service (f_message c) \<noteq> service \<and> e_time env \<le> f_timeout_timestamp c) (s_cache s),
     s_sent := s_sent s @ map (\<lambda>c. (i, f_message c))
       (filter (\<lambda>c. f_service (f_message c) = service \<and> e_time env \<le> f_timeout_timestamp c) (s_cache s))\<rparr>"
proof -
  have "fold (\<lambda>c. send_message i (f_message c)) cs t = t\<lparr>s_sent := s_sent t @ map (\<lambda>c. (i, f_message c)) cs\<rparr>" for cs :: "message_cache list" and t
    by (induction cs arbitrary: t) (simp_all add: send_message_def)
  then show ?thesis by (simp add: flush_cache_def Let_def not_less conj_commute)
qed

lemma good_flush_cache: "good (e_time env) s (flush_cache env i service s)" (is "good _ s ?t")
proof -
  have "cache_kept (e_time env) s ?t" by (auto simp: cache_kept_def flush_cache_sent image_iff)
  moreover have "conns_of kind ?t m = conns_of kind s m" for kind m by (rule conns_of_cong) (simp add: flush_cache_sent)
  moreover have "kinds_kept s ?t" "received_kept (e_time env) s ?t" "prefix (s_sent s) (s_sent ?t)"
    by (simp_all add: flush_cache_sent kinds_kept_def received_kept_def)
  ultimately show ?thesis by (simp add: good_def server_wf_def) (simp add: flush_cache_sent)
qed

lemma keeps_on_register: "keeps_opt (e_time env) s (on_register env i m udp s)"
proof -
  let ?s1 = "\<lambda>service. on_conn i (\<lambda>c. (connection_started env c)\<lparr>c_name := service, c_type := Type_Local,
                  c_named := (if c_kind c = Service then True else c_named c)\<rparr>) s"
  have "good (e_time env) s (send_message i help_message (send_message i r (?s1 service)))" for r service
    by (rule good_trans [OF _ core_good(2)], rule good_trans [OF _ core_good(2)], rule core_good) simp
  then have "keeps_opt (e_time env) s (bindE (send_status env c None (send_message i help_message (send_message i r (?s1 service))))
      (\<lambda>s3. Inr (Some (flush_cache env i service s3))))" for c r service
    by (rule keeps_opt_after) (rule keeps_opt_bind [OF keeps_send_status], simp add: good_flush_cache)
  then show ?thesis
    by (auto simp: on_register_def Let_def split: option.split intro!: keeps_opt_value)
qed

lemma keeps_small_handlers:
  "keeps_opt now s (on_help i udp s)" "keeps_opt now s (on_public_ip env i s)" "keeps_opt now s (on_service_status env i m s)"
  by (auto simp: on_help_def on_public_ip_def on_service_status_def Let_def core_good keeps_send_status intro!: keeps_opt_value keeps_some)

lemma keeps_on_unregister: "keeps_opt now s (on_unregister env i m udp s)"
proof -
  let ?s1 = "on_conn i (\<lambda>c. connection_ended env (c\<lparr>c_type := Type_Down\<rparr>)) s"
  have "keeps_opt now s (bindE (send_status env c None ?s1) (\<lambda>s2. Inr (Some (remove_connection i (on_conn i (\<lambda>c. c\<lparr>c_name := []\<rparr>) s2)))))" for c
    by (rule keeps_opt_after [where t = ?s1], rule core_good, simp, rule keeps_opt_bind [OF keeps_send_status])
      (simp add: good_trans [OF core_good(1) good_remove])
  then show ?thesis by (simp add: on_unregister_def Let_def)
qed

lemma keeps_loadavg_handlers: "keeps_opt now s (on_register_loadavg i udp s)" "keeps_opt now s (on_unregister_loadavg i udp s)"
proof -
  have c: "good now s (on_conn i (\<lambda>c. c\<lparr>c_wants_loadavg := b\<rparr>) s)" for b by (rule core_good) simp
  note t = good_trans [OF this good_fields(5)]
  show "keeps_opt now s (on_register_loadavg i udp s)" by (simp add: on_register_loadavg_def t)
  show "keeps_opt now s (on_unregister_loadavg i udp s)"
    by (auto simp: on_unregister_loadavg_def Let_def c t intro!: keeps_opt_value)
qed

lemmas keeps_handlers = keeps_on_accept keeps_on_commands keeps_on_connect keeps_on_disconnect keeps_on_forget keeps_on_gossip
  keeps_on_refuse keeps_on_register keeps_small_handlers keeps_on_unregister keeps_loadavg_handlers
  keeps_some [OF keeps_save_loadavg] keeps_some [OF keeps_listen_loadavg] keeps_some [OF keeps_shutdown]

lemma keeps_opt_if: "keeps_opt now s a \<Longrightarrow> keeps_opt now s b \<Longrightarrow> keeps_opt now s (if c then a else b)"
  by simp

lemma keeps_opt_same: "keeps_opt now s (Inr (Some s))"
  by simp

lemma keeps_command_handler: "keeps_opt (e_time env) s (command_handler env i m udp s)"
proof -
  have "keeps_opt (e_time env) s (bindE (shutdown env False (s\<lparr>s_force_restart := True\<rparr>)) (\<lambda>s1. Inr (Some s1)))"
    by (rule keeps_some) (rule keeps_after [OF good_fields(6) keeps_shutdown])
  moreover have "keeps_opt (e_time env) s (bindE (get_parameter ''command'' m) (\<lambda>_. Inr (Some s)))" by (rule keeps_opt_value) simp
  ultimately show ?thesis unfolding command_handler_def Let_def by (intro keeps_opt_if keeps_handlers keeps_opt_same keeps_simps(3))
qed

section \<open>The dispatcher\<close>

lemma keeps_refuse_quitting: "keeps now s (refuse_quitting env i m udp s)"
proof -
  have "keeps now s (if f_command m \<noteq> ''UNREGISTER'' then bindE (verify_command env i r s) (\<lambda>_. send_reply i r s) else Inr s)" for r
    using keeps_value [of now s "\<lambda>_. send_reply i r s" "verify_command env i r s"] keeps_send_reply by simp
  then show ?thesis unfolding refuse_quitting_def Let_def by (simp add: keeps_bind good_remove)
qed

lemma keeps_for_us: "keeps (e_time env) s (for_us env i m udp s)"
proof -
  have u: "keeps now s (bindE (verify_command env i reply s) (\<lambda>_. send_reply i reply s))" for now reply
    by (rule keeps_value) (rule keeps_send_reply)
  show ?thesis using keeps_command_handler [of env s i m udp] u keeps_refuse_quitting
    by (auto simp: for_us_def Let_def keeps_def keeps_opt_def bindE_eq_Inr split: if_splits option.splits)
qed

lemma keeps_transmission_report: "keeps now s (transmission_report i m s)"
  by (simp add: transmission_report_def keeps_send_reply)

lemma good_cache_message: "good now s (cache_message env m s)"
  by (auto simp: cache_message_def Let_def intro!: good_fields)

lemma keeps_to_service: "keeps (e_time env) s (to_service env i m s)"
  unfolding to_service_def
  by (rule keeps_value)
    (auto simp: core_good keeps_transmission_report keeps_broadcast
      intro: keeps_after [OF good_cache_message keeps_transmission_report] split: option.split sum.split)

lemma keeps_route: "keeps (e_time env) s (route env i m s)"
  by (simp add: route_def keeps_broadcast keeps_to_service)

lemma keeps_process_message: "keeps (e_time env) s (process_message env i m udp s)"
  unfolding process_message_def
  by (rule keeps_value) (simp add: keeps_for_us keeps_route)

text \<open>The callbacks of the connections.\<close>

lemma keeps_service_message: "keeps (e_time env) s (service_message env i m s)"
  by (auto simp: service_message_def keeps_process_message intro!: keeps_value)

lemma keeps_service_down: "keeps now s (service_down env i s)"
  unfolding service_down_def Let_def
  by (rule keeps_after [where t = "on_conn i (\<lambda>c. c\<lparr>c_type := Type_Down\<rparr>) s", OF _ keeps_send_status], rule core_good) simp

lemma keeps_service_ends:
  "keeps now s (service_timeout env i s)" "keeps (e_time env) s (service_hup env i s)"
proof -
  show "keeps now s (service_timeout env i s)"
    unfolding service_timeout_def by (rule keeps_after [OF good_remove keeps_service_down])
  show "keeps (e_time env) s (service_hup env i s)"
    unfolding service_hup_def Let_def
    by (rule keeps_after [OF good_remove [of _ _ i]], rule keeps_bind [OF _ keeps_service_down]) (simp add: keeps_broadcast)
qed

lemma keeps_process_connected: "keeps now s (process_connected env i s)"
  unfolding process_connected_def Let_def
  by (rule keeps_after [OF _ keeps_send_status]) (simp add: core_good)

lemma keeps_remote_connected: "keeps now s (remote_connected env i s)"
  unfolding remote_connected_def by (rule keeps_bind [OF keeps_process_connected]) (simp add: core_good)

lemma good_process_accept: "good now s (process_accept local_side name client a s)"
  by (simp add: process_accept_def Let_def good_add_connection)

lemma good_gossip_steps:
  "good now s (gossip_timeout i s)" "good now s (gossip_connected env i s)" "good now s (gossip_message i m s)"
  by (simp_all add: gossip_timeout_def gossip_connected_def gossip_message_def core_good good_gossip_received)

lemma good_load_balancing: "good now s (process_load_balancing env avg s)"
  by (simp add: process_load_balancing_def core_good split: option.split)
end
