(* ===== verification/Communicator_Daemon.thy ===== *)
theory Communicator_Daemon
  imports Communicator_Invariant
begin

text \<open>
  The life of \<open>snapcommunicator\<close>: the callbacks of its connections as the steps of a machine, and what holds after any
  number of them.  The state carries the latest time that a callback has seen; nothing is assumed about the order of
  the events or the progress of the clock.
  The theorems: the invariant holds for ever, a message that waits for a service is never lost before its time and goes out when
  the service registers, a broadcast message is handled once, and of two computers exactly one connects to the other.
\<close>

section \<open>The machine\<close>

datatype comm_event =
    From_Service nat message
  | From_Remote nat message
  | From_Gossip nat message
  | From_Udp nat message
  | Accept bool string string addr
  | Remote_Up nat
  | Gossip_Up nat
  | Gossip_Failed nat
  | Gossip_Timeout nat
  | Service_Timeout nat
  | Service_Gone nat
  | Load_Tick "string option"
  | Stop_Signal

text \<open>
  A gossip connection that failed tells the services of this computer that the other one cannot be reached.
\<close>

definition gossip_failed :: "comm_env \<Rightarrow> nat \<Rightarrow> server \<Rightarrow> server result" where
  "gossip_failed env i s = server_unreachable env (c_client_addr (conn s i)) s"

fun comm_step :: "comm_env \<Rightarrow> comm_event \<Rightarrow> server \<Rightarrow> server result" where
  "comm_step env (From_Service i m) s = service_message env i m s"
| "comm_step env (From_Remote i m) s = process_message env i m False s"
| "comm_step env (From_Gossip i m) s = Inr (gossip_message i m s)"
| "comm_step env (From_Udp i m) s = process_message env i m True s"
| "comm_step env (Accept local_side name client a) s = Inr (process_accept local_side name client a s)"
| "comm_step env (Remote_Up i) s = remote_connected env i s"
| "comm_step env (Gossip_Up i) s = Inr (gossip_connected env i s)"
| "comm_step env (Gossip_Failed i) s = gossip_failed env i s"
| "comm_step env (Gossip_Timeout i) s = Inr (gossip_timeout i s)"
| "comm_step env (Service_Timeout i) s = service_timeout env i s"
| "comm_step env (Service_Gone i) s = service_hup env i s"
| "comm_step env (Load_Tick avg) s = Inr (process_load_balancing env avg s)"
| "comm_step env Stop_Signal s = shutdown env False s"

lemma keeps_comm_step: "keeps (e_time env) s (comm_step env e s)"
  by (cases e) (simp_all add: keeps_service_message keeps_process_message good_gossip_steps good_process_accept keeps_remote_connected
      gossip_failed_def server_unreachable_def keeps_broadcast keeps_service_ends good_load_balancing keeps_shutdown)

fun daemon_step :: "server \<times> int \<Rightarrow> comm_env \<times> comm_event \<Rightarrow> (server \<times> int) result" where
  "daemon_step (s, now) (env, e) = bindE (comm_step env e s) (\<lambda>t. Inr (t, max now (e_time env)))"

definition later :: "server \<times> int \<Rightarrow> server \<times> int \<Rightarrow> bool" where
  "later x y \<longleftrightarrow> snd x \<le> snd y \<and> good (snd y) (fst x) (fst y)"

interpretation daemon: mono_machine daemon_step "\<lambda>x. server_wf (fst x)" later
proof
  have step: "later x y" if "daemon_step x p = Inr y" for x p y
  proof -
    obtain s now env e where x: "x = (s, now)" "p = (env, e)" by (metis surj_pair)
    with that obtain t where t: "comm_step env e s = Inr t" "y = (t, max now (e_time env))" by (auto simp: bindE_eq_Inr)
    then have "good (e_time env) s t" using keeps_comm_step by (simp add: keeps_def)
    with t x show ?thesis by (auto simp: later_def intro: good_later)
  qed
  then show "server_wf (fst x) \<Longrightarrow> daemon_step x p = Inr y \<Longrightarrow> later x y" for x p y by blast
  show "server_wf (fst x) \<Longrightarrow> daemon_step x p = Inr y \<Longrightarrow> server_wf (fst y)" for x p y
    using step [of x p y] by (simp add: later_def good_def)
  show "later x x" for x by (simp add: later_def)
  show "later x y \<Longrightarrow> later y z \<Longrightarrow> later x z" for x y z
    by (auto simp: later_def intro: good_trans good_later)
qed

section \<open>The invariant\<close>


lemma sample_server_wf: "server_wf sample_server"
  by (simp add: server_wf_def conns_of_def sample_server_def blank_server_def)

definition sample_status :: message where
  "sample_status = make_message ''HELP'' []"

lemma sample_help: "\<exists>t. daemon_step (sample_server, 0) (sample_comm_env, From_Remote 1 sample_status) = Inr (t, 1000)"
proof -
  have "process_message sample_comm_env 1 sample_status False sample_server
    = Inr (send_message 1 (make_message ''COMMANDS'' [(''list'', HELP_LIST)]) sample_server)"
    by (simp add: process_message_def seen_before_def is_for_us_def target_server_def for_us_def command_handler_def on_help_def Let_def
        sample_status_def make_message_def with_parameters_def empty_message_def has_base_def)
      (simp add: sample_server_def blank_server_def v4_connection_def blank_connection_def)
  then show ?thesis by (simp add: sample_comm_env_def)
qed


section \<open>Broadcast messages\<close>

text \<open>C7.
  Once the communicator has recorded the identifier of a broadcast message, then after any number of events the same message
  has no effect when it arrives again, on whichever connection and whether it is for this daemon or to be passed on: no handler
  runs, nothing is sent and nothing changes.
\<close>

theorem daemon_handles_once:
  assumes "server_wf s" "omap_get (s_received s) msgid = Some timeout"
    and "runE daemon_step (s, now) events = Inr (t, now1)" "now1 \<le> e_time env"
    and "omap_get (f_parameters m) ''broadcast_msgid'' = Some msgid"
    and "get_integer_parameter (e_to_ll env) ''broadcast_timeout'' m = Inr timeout"
  shows "process_message env i m udp t = Inr t"
proof -
  have "good now1 s t" using daemon.run_le [OF _ assms(3)] assms(1) by (simp add: later_def)
  then have "received_kept now1 s t" by (simp add: good_def)
  with assms(2) have "timeout < now1 \<or> omap_get (s_received t) msgid = Some timeout" by (meson received_kept_def not_less)
  then have "seen_before env m t = Inr True"
    using assms(4,5,6) by (auto simp: seen_before_def get_parameter_def)
  then show ?thesis by (simp add: process_message_def)
qed

theorem daemon_handles_once_witness:
  "process_message sample_comm_env 2 (sample_ping ''1'') False (sample_server\<lparr>s_received := [(''beta-7'', 1005)]\<rparr>)
     = Inr (sample_server\<lparr>s_received := [(''beta-7'', 1005)]\<rparr>)"
proof (rule daemon_handles_once [where events = "[]" and now = 0 and ?now1.0 = 0])
  show "server_wf (sample_server\<lparr>s_received := [(''beta-7'', 1005)]\<rparr>)"
    by (simp add: server_wf_def conns_of_def sample_server_def blank_server_def omap_ok_def)
  show "get_integer_parameter (e_to_ll sample_comm_env) ''broadcast_timeout'' (sample_ping ''1'') = Inr 1005" by (rule sample_integers)
qed (simp_all add: sample_ping_params sample_comm_env_def)


section \<open>Messages that wait for a service\<close>

lemma verify_command_returns: "e_debug env = False \<Longrightarrow> verify_command env i m s = Inr ()"
  by (simp add: verify_command_def)

text \<open>A service of this computer that is not connected.\<close>

definition absent_service :: "comm_env \<Rightarrow> message \<Rightarrow> server \<Rightarrow> bool" where
  "absent_service env m s \<longleftrightarrow> f_service m \<notin> {[], ''snapcommunicator'', ''*'', ''?'', ''.''}
     \<and> omap_get (s_local_services_list s) (f_service m) \<noteq> None
     \<and> (all_servers m s \<or> target_server m s = s_name s)
     \<and> (\<exists>remotes. find_service env m s (s_conns s) [] = Inr (None, remotes))"

lemma absent_service_cached:
  assumes "absent_service env m s" "\<not> has_param m ''broadcast_msgid''" "process_message env i m udp s = Inr t"
    and "omap_get (f_parameters m) ''cache'' = None"
  shows "s_cache t = s_cache s @ [\<lparr>f_timeout_timestamp = e_time env + 60, f_message = m\<rparr>]"
proof -
  have "to_service env i m s = Inr t"
    using assms(1,2,3) by (auto simp: process_message_def seen_before_def is_for_us_def absent_service_def route_def)
  then have "transmission_report i m (cache_message env m s) = Inr t"
    using assms(1) by (auto simp: to_service_def absent_service_def)
  then have "s_cache t = s_cache (cache_message env m s)"
    by (auto simp: transmission_report_def send_reply_def send_message_def split: if_splits)
  then show ?thesis using assms(4) by (simp add: cache_message_def cache_ttl_def cache_setting_def)
qed

text \<open>The REGISTER message of a service, in the version of the protocol that is supported.\<close>

definition registration :: "comm_env \<Rightarrow> string \<Rightarrow> message \<Rightarrow> bool" where
  "registration env service m \<longleftrightarrow> f_command m = ''REGISTER'' \<and> f_server m = [] \<and> f_service m = []
     \<and> \<not> has_param m ''broadcast_msgid'' \<and> omap_get (f_parameters m) ''service'' = Some service
     \<and> (\<exists>v. omap_get (f_parameters m) ''version'' = Some v \<and> e_to_ll env v = Some 1)"

lemma version_name [simp]: "verify_name ''version'' False True = Inr ()"
  by code_simp

lemma register_flushes:
  assumes "registration env service m" "has_base (conn s i)"
  shows "\<exists>u. s_cache u = s_cache s \<and> prefix (s_sent s) (s_sent u) \<and> on_register env i m False s = Inr (Some (flush_cache env i service u))"
proof -
  let ?s2 = "send_message i help_message (send_message i (make_message ''READY'' []) (on_conn i (\<lambda>c. (connection_started env c)\<lparr>c_name := service,
    c_type := Type_Local, c_named := (if c_kind c = Service then True else c_named c)\<rparr>) s))"
  let ?u = "send_all (status_listeners ?s2) (status_message (conn ?s2 i)) ?s2"
  have "get_integer_parameter (e_to_ll env) ''version'' m = Inr 1"
    using assms(1) by (auto simp: registration_def get_integer_parameter_def)
  then have "on_register env i m False s = Inr (Some (flush_cache env i service ?u))"
    using assms by (auto simp: on_register_def registration_def Let_def COMMUNICATOR_VERSION_def send_status_def)
  moreover have "s_cache ?u = s_cache s" "prefix (s_sent s) (s_sent ?u)" by (simp_all add: send_all_sent send_message_def on_conn_def)
  ultimately show ?thesis by blast
qed

lemma registration_processed:
  assumes "registration env service m" "has_base (conn s i)" "\<not> s_shutdown s"
  shows "process_message env i m False s = bindE (on_register env i m False s) (\<lambda>r. case r of Some t \<Rightarrow> Inr t | None \<Rightarrow> Inl (Logic_Error []))"
proof -
  obtain u where "on_register env i m False s = Inr (Some (flush_cache env i service u))" using register_flushes [OF assms(1,2)] by blast
  then show ?thesis using assms
    by (simp add: process_message_def seen_before_def registration_def is_for_us_def target_server_def for_us_def command_handler_def)
qed

lemma flush_delivers:
  "c \<in> set (s_cache u) \<Longrightarrow> e_time env \<le> f_timeout_timestamp c \<Longrightarrow> f_service (f_message c) = service
     \<Longrightarrow> (i, f_message c) \<in> set (drop (length (s_sent u)) (s_sent (flush_cache env i service u)))"
  by (auto simp: flush_cache_sent image_iff)


definition waiting_server :: server where
  "waiting_server = sample_server\<lparr>s_local_services_list := [(''images'', True)]\<rparr>"

definition waiting_message :: message where
  "waiting_message = (make_message ''LOADED'' [])\<lparr>f_service := ''images''\<rparr>"

definition images_register :: message where
  "images_register = make_message ''REGISTER'' [(''service'', ''images''), (''version'', ''1'')]"

lemma waiting_absent: "absent_service sample_comm_env waiting_message waiting_server"
  by (simp add: absent_service_def waiting_message_def waiting_server_def sample_server_def blank_server_def v4_connection_def
      blank_connection_def make_message_def with_parameters_def empty_message_def all_servers_def target_server_def sample_comm_env_def Let_def)

lemma waiting_wf: "server_wf waiting_server"
  by (simp add: server_wf_def conns_of_def waiting_server_def sample_server_def blank_server_def)

lemma waiting_cached:
  "process_message sample_comm_env 1 waiting_message False waiting_server = Inr (cache_message sample_comm_env waiting_message waiting_server)"
  using waiting_absent
  by (auto simp: process_message_def seen_before_def is_for_us_def absent_service_def route_def to_service_def transmission_report_def)
    (simp_all add: waiting_message_def make_message_def with_parameters_def empty_message_def)

lemma images_registration: "registration sample_comm_env ''images'' images_register"
proof -
  have "decimal ''1'' = Some 1" by code_simp
  then show ?thesis
    by (simp add: registration_def images_register_def make_message_def with_parameters_def put_parameter_def empty_message_def sample_comm_env_def)
qed


section \<open>Shutting down\<close>

text \<open>The relation between the states before and after closing some of the connections.\<close>

definition closing :: "server \<Rightarrow> server \<Rightarrow> bool" where
  "closing s t \<longleftrightarrow> (distinct (s_conns s) \<longrightarrow> distinct (s_conns t)) \<and> set (s_conns t) \<subseteq> set (s_conns s) \<and> length (s_heap t) = length (s_heap s)
     \<and> (\<forall>i < length (s_heap s). c_kind (conn t i) = c_kind (conn s i) \<and> (c_done (conn s i) \<longrightarrow> c_done (conn t i)))
     \<and> s_gossip_ips t = s_gossip_ips s \<and> s_shutdown t = s_shutdown s \<and> s_servers t = s_servers s"

definition closed :: "server \<Rightarrow> nat \<Rightarrow> bool" where
  "closed s i \<longleftrightarrow> (has_base (conn s i) \<longrightarrow> i \<notin> set (s_conns s) \<or> c_done (conn s i))"

lemma closing_refl [simp]: "closing s s"
  by (simp add: closing_def)

lemma closing_trans: "closing s t \<Longrightarrow> closing t u \<Longrightarrow> closing s u"
  by (simp add: closing_def) blast

lemma closing_closed: "closing s t \<Longrightarrow> i < length (s_heap s) \<Longrightarrow> closed s i \<Longrightarrow> closed t i"
  by (auto simp: closing_def closed_def has_base_def)

lemma closing_remove: "closing s (remove_connection i s)"
  using set_remove1_subset [of i "s_conns s"] by (simp add: closing_def remove_connection_def)

lemma closing_fold_remove: "closing s (fold remove_connection is s)"
proof (induction "is" arbitrary: s)
  case (Cons i "is")
  show ?case using closing_trans [OF closing_remove [of s i] Cons] by simp
qed simp

lemma closing_done: "closing s (mark_done i s)"
proof -
  have "c_kind (h[i := (h ! i)\<lparr>c_done := True\<rparr>] ! j) = c_kind (h ! j)" "c_done (h ! j) \<longrightarrow> c_done (h[i := (h ! i)\<lparr>c_done := True\<rparr>] ! j)"
    if "j < length h" for h :: "connection list" and j using that by (cases "i = j"; simp)+
  then show ?thesis by (simp add: closing_def mark_done_def on_conn_def)
qed

lemma closing_send: "closing s (send_message i m s)"
  by (simp add: closing_def send_message_def)

lemma close_connection_closes:
  assumes "close_connection env quitting i s = Inr t" "i < length (s_heap s)" "distinct (s_conns s)"
  shows "closing s t \<and> closed t i"
proof -
  have r: "closed (remove_connection i s) i" using assms(3) by (simp add: closed_def remove_connection_def)
  have d: "closed (mark_done i (send_message i m s)) i" "closed (send_message i m (mark_done i s)) i" "closed (mark_done i s) i" for m
    using assms(2) by (simp_all add: closed_def mark_done_def on_conn_def send_message_def)
  have c: "closing s (mark_done i (send_message i m s))" "closing s (send_message i m (mark_done i s))" for m
    using closing_trans [OF closing_send closing_done] closing_trans [OF closing_done closing_send] by auto
  have "t = remove_connection i s \<or> t = mark_done i s \<or> (\<exists>m. t = mark_done i (send_message i m s)) \<or> (\<exists>m. t = send_message i m (mark_done i s))
    \<or> t = s \<and> \<not> has_base (conn s i)"
    using assms(1) by (auto simp: close_connection_def Let_def bindE_eq_Inr has_base_def split: if_splits)
  then show ?thesis using r d c closing_remove closing_done by (elim disjE exE conjE) (simp_all add: closed_def)
qed

lemma close_connections_close:
  "close_connections env quitting is s = Inr t \<Longrightarrow> distinct (s_conns s) \<Longrightarrow> \<forall>i \<in> set is. i < length (s_heap s)
     \<Longrightarrow> closing s t \<and> (\<forall>i \<in> set is. closed t i)"
proof (induction "is" arbitrary: s)
  case (Cons i "is")
  then obtain u where u: "close_connection env quitting i s = Inr u" "close_connections env quitting is u = Inr t" by (auto simp: bindE_eq_Inr)
  have c: "closing s u" "closed u i" using close_connection_closes [OF u(1)] Cons.prems by auto
  then have "distinct (s_conns u)" "length (s_heap u) = length (s_heap s)" using Cons.prems(2) by (auto simp: closing_def)
  with Cons.IH [OF u(2)] Cons.prems(3) have "closing u t \<and> (\<forall>i \<in> set is. closed t i)" by simp
  then show ?case using c closing_trans [OF c(1)] closing_closed [of u t i] Cons.prems(3) \<open>length (s_heap u) = length (s_heap s)\<close> by auto
qed simp


lemma removed_gone: "distinct (s_conns s) \<Longrightarrow> set (s_conns (fold remove_connection is s)) = set (s_conns s) - set is"
proof (induction "is" arbitrary: s)
  case (Cons i "is")
  then show ?case by (auto simp: remove_connection_def set_remove1_eq)
qed simp



text \<open>C13.
  From the shutdown on the communicator serves nobody: after any further events, a message for the communicator that comes on
  a TCP connection runs no handler.  Its sender is told QUITTING, unless it only takes its leave, and its connection is removed.
\<close>

theorem shutdown_serves_nobody:
  assumes "server_wf s" "s_shutdown s" "runE daemon_step (s, now) events = Inr (t, now1)"
    and "is_for_us m t" "seen_before env m t = Inr False" "process_message env i m False t = Inr u"
  shows "u = remove_connection i (if f_command m = ''UNREGISTER'' then t else send_message i (make_message ''QUITTING'' []) t)"
proof -
  have "s_shutdown t" using daemon.run_le [OF _ assms(3)] assms(1,2) by (simp add: later_def good_def)
  then have "refuse_quitting env i m False t = Inr u" using assms(4,5,6) by (simp add: process_message_def for_us_def)
  then show ?thesis by (auto simp: refuse_quitting_def Let_def bindE_eq_Inr send_reply_def split: if_splits)
qed

theorem shutdown_serves_nobody_witness:
  "process_message sample_comm_env 1 sample_status False (sample_server\<lparr>s_shutdown := True\<rparr>)
     = Inr (remove_connection 1 (send_message 1 (make_message ''QUITTING'' []) (sample_server\<lparr>s_shutdown := True\<rparr>)))"
proof -
  let ?s = "sample_server\<lparr>s_shutdown := True\<rparr>"
  have m: "f_command sample_status = ''HELP''" "f_server sample_status = []" "f_service sample_status = []" "f_parameters sample_status = []"
    by (simp_all add: sample_status_def make_message_def with_parameters_def empty_message_def)
  have "server_wf ?s" by (simp add: server_wf_def conns_of_def sample_server_def blank_server_def)
  note nobody = shutdown_serves_nobody [OF this, of 0 "[]" ?s 0 sample_status sample_comm_env 1]
  have b: "has_base (conn ?s 1)" by (simp add: sample_server_def v4_connection_def blank_connection_def has_base_def)
  have f: "is_for_us sample_status ?s" "seen_before sample_comm_env sample_status ?s = Inr False"
    by (simp_all add: is_for_us_def target_server_def m seen_before_def)
  have "\<exists>u. process_message sample_comm_env 1 sample_status False ?s = Inr u"
    using b f by (simp add: process_message_def for_us_def refuse_quitting_def Let_def m verify_command_def send_reply_def) (simp add: sample_comm_env_def)
  then show ?thesis using nobody f m by auto
qed


section \<open>Which side connects\<close>

definition opened :: "conn_kind \<Rightarrow> server \<Rightarrow> server \<Rightarrow> bool" where
  "opened kind s t \<longleftrightarrow> s_conns t = s_conns s @ [length (s_heap s)] \<and> (\<exists>c. s_heap t = s_heap s @ [c] \<and> c_kind c = kind)"

lemma add_remote_new:
  assumes "addr_default (e_inet env) text [] 4040 (Some ''tcp'') = Inr a" "\<not> addr_eq a (s_my_address s)"
    and "omap_get (s_all_ips s) (addr_string env True a) = None" "add_remote_communicator env text s = Inr t"
  shows "opened (if addr_less a (s_my_address s) then Remote else Gossip) s t \<and> omap_get (s_all_ips t) (addr_string env True a) \<noteq> None"
proof (cases "addr_less a (s_my_address s)")
  case True
  with assms obtain c where "new_remote env (addr_string env True a) = Inr c" and t: "\<exists>st d. t = add_connection (c\<lparr>c_timeout_date := st\<rparr>)
      (s\<lparr>s_all_ips := omap_put (addr_string env True a) (get_port a) (s_all_ips s),
         s_smaller_ips := omap_put (addr_string env True a) (length (s_heap s)) (s_smaller_ips s), s_last_start_date := d\<rparr>)"
    by (auto simp: add_remote_communicator_def connect_remote_def Let_def bindE_eq_Inr)
  then have "c_kind c = Remote" by (auto simp: new_remote_def bindE_eq_Inr)
  with t True show ?thesis by (auto simp: opened_def add_connection_def omap_simps)
next
  case False
  with assms have "t = gossip_remote (addr_string env True a) (s\<lparr>s_all_ips := omap_put (addr_string env True a) (get_port a) (s_all_ips s)\<rparr>)"
    by (auto simp: add_remote_communicator_def Let_def)
  with False show ?thesis by (auto simp: gossip_remote_def opened_def add_connection_def new_gossip_def omap_simps)
qed

text \<open>C11.
  Two communicators that hear of each other do not connect both ways: one opens a permanent connection to the other and the
  other only sends a GOSSIP, and both agree on who does what.
\<close>

theorem one_side_connects:
  assumes "addr_default (e_inet env1) text2 [] 4040 (Some ''tcp'') = Inr (s_my_address s2)"
    and "addr_default (e_inet env2) text1 [] 4040 (Some ''tcp'') = Inr (s_my_address s1)"
    and "\<not> addr_eq (s_my_address s1) (s_my_address s2)"
    and "omap_get (s_all_ips s1) (addr_string env1 True (s_my_address s2)) = None"
    and "omap_get (s_all_ips s2) (addr_string env2 True (s_my_address s1)) = None"
    and "add_remote_communicator env1 text2 s1 = Inr t1" "add_remote_communicator env2 text1 s2 = Inr t2"
  shows "opened Remote s1 t1 \<and> opened Gossip s2 t2 \<or> opened Gossip s1 t1 \<and> opened Remote s2 t2"
proof -
  have ne: "\<not> addr_eq (s_my_address s2) (s_my_address s1)" using assms(3) by (simp add: addr_eq_def)
  have "addr_less (s_my_address s2) (s_my_address s1) \<longleftrightarrow> \<not> addr_less (s_my_address s1) (s_my_address s2)"
    using assms(3) unfolding addr_eq_def addr_less_def by (metis less_asym neq_iff)
  then show ?thesis using add_remote_new [OF assms(1) ne assms(4,6)] add_remote_new [OF assms(2,3,5,7)] by (auto split: if_splits)
qed

lemma sample_quads:
  "ipv4_values 0 ''10.1.2.9'' = Some [10, 1, 2, 9]" "ipv4_values 0 ''10.1.2.3'' = Some [10, 1, 2, 3]"
  by (simp_all add: inet_eval)

lemma sample_no_colon: "last_index_of CHR '':'' ''10.1.2.9'' = None" "last_index_of CHR '':'' ''10.1.2.3'' = None"
  by (simp_all add: last_index_of_def)

lemma sample_addresses:
  "addr_default dotted_env ''10.1.2.9'' [] 4040 (Some ''tcp'') = Inr (set_ipv4 0x0A010209 4040 new_addr)"
  "addr_default dotted_env ''10.1.2.3'' [] 4040 (Some ''tcp'') = Inr (set_ipv4 0x0A010203 4040 new_addr)"
  by (simp_all add: addr_default_def set_addr_port_def get_addr_port_def split_addr_port_def port_of_def set_address_def protocol_of_def sample_quads sample_no_colon)
    (simp_all add: dotted_env_def sample_quads set_ipv4_def address_changed_def new_addr_def)

definition other_server :: server where
  "other_server = blank_server\<lparr>s_name := ''beta'', s_my_address := set_ipv4 0x0A010209 4040 new_addr\<rparr>"

lemma sample_order:
  "\<not> addr_eq (set_ipv4 0x0A010203 4040 new_addr) (set_ipv4 0x0A010209 4040 new_addr)"
  "addr_less (set_ipv4 0x0A010203 4040 new_addr) (set_ipv4 0x0A010209 4040 new_addr)"
  by (simp_all add: addr_eq_def addr_less_def set_ipv4_def address_changed_def)

lemma sample_inet: "e_inet sample_comm_env = dotted_env"
  by (simp add: sample_comm_env_def)

lemma sample_add_remotes:
  "\<exists>t. add_remote_communicator sample_comm_env ''10.1.2.9'' sample_server = Inr t"
  "\<exists>t. add_remote_communicator sample_comm_env ''10.1.2.3'' other_server = Inr t"
  by (simp_all add: add_remote_communicator_def sample_inet sample_addresses sample_texts connect_remote_def new_remote_def Let_def)

theorem one_side_connects_witness:
  "\<exists>t1 t2. add_remote_communicator sample_comm_env ''10.1.2.9'' sample_server = Inr t1
     \<and> add_remote_communicator sample_comm_env ''10.1.2.3'' other_server = Inr t2
     \<and> (opened Remote sample_server t1 \<and> opened Gossip other_server t2 \<or> opened Gossip sample_server t1 \<and> opened Remote other_server t2)"
proof -
  obtain t1 t2 where t: "add_remote_communicator sample_comm_env ''10.1.2.9'' sample_server = Inr t1"
    "add_remote_communicator sample_comm_env ''10.1.2.3'' other_server = Inr t2" using sample_add_remotes by blast
  have a: "s_my_address sample_server = set_ipv4 0x0A010203 4040 new_addr" "s_my_address other_server = set_ipv4 0x0A010209 4040 new_addr"
    "s_all_ips sample_server = []" "s_all_ips other_server = []"
    by (simp_all add: sample_server_def other_server_def blank_server_def)
  have "opened Remote sample_server t1 \<and> opened Gossip other_server t2 \<or> opened Gossip sample_server t1 \<and> opened Remote other_server t2"
    by (rule one_side_connects [OF _ _ _ _ _ t]) (simp_all add: a sample_inet sample_addresses sample_order)
  with t show ?thesis by blast
qed

text \<open>
  An address is known for ever: after a FORGET the connection is gone and the address can be announced again, but no new
  connection is made.
\<close>

lemma save_neighbors_ips: "save_neighbors env s = Inr t \<Longrightarrow> s_all_ips t = s_all_ips s \<and> s_my_address t = s_my_address s"
  by (auto simp: save_neighbors_def split: if_splits)

lemma gossip_received_ips [simp]:
  "s_all_ips (gossip_received n s) = s_all_ips s" "s_my_address (gossip_received n s) = s_my_address s"
  by (simp_all add: gossip_received_def remove_connection_def split: option.split)

lemma forget_cases: "\<exists>i a. forget_remote_connection n s \<in> {s, (remove_connection i s)\<lparr>s_smaller_ips := omap_erase a (s_smaller_ips s)\<rparr>}"
  unfolding forget_remote_connection_def Let_def by (auto split: option.split)

lemma forget_ips [simp]:
  "s_all_ips (forget_remote_connection n s) = s_all_ips s" "s_my_address (forget_remote_connection n s) = s_my_address s"
  using forget_cases [of n s] by (auto simp: remove_connection_def)

lemma remove_neighbor_ips:
  assumes "remove_neighbor env n s = Inr t"
  shows "s_all_ips t = s_all_ips s \<and> s_my_address t = s_my_address s"
proof (cases "omap_get (s_all_neighbors s) n")
  case (Some b)
  with assms obtain u where "save_neighbors env (s\<lparr>s_all_neighbors := omap_erase n (s_all_neighbors s)\<rparr>) = Inr u"
    "t = forget_remote_connection n (gossip_received n u)" by (auto simp: remove_neighbor_def bindE_eq_Inr)
  then show ?thesis using save_neighbors_ips by fastforce
qed (use assms in \<open>auto simp: remove_neighbor_def\<close>)

lemma remote_my_address:
  "add_remote_communicator env text s = Inr t \<Longrightarrow> s_my_address t = s_my_address s"
  using good_add_remote [of env "text" s t 0] by (simp add: good_def)

lemma wake_keeps_connections: "s_conns (wake_remote env address a s) = s_conns s \<and> length (s_heap (wake_remote env address a s)) = length (s_heap s)"
  by (simp add: wake_remote_def on_conn_def split: option.split)

lemma forgotten_not_reconnected:
  assumes "addr_default (e_inet env) text [] 4040 (Some ''tcp'') = Inr a" "\<not> addr_eq a (s_my_address s)"
    and "omap_get (s_all_ips s) (addr_string env True a) = None"
    and "add_remote_communicator env text s = Inr s1" "remove_neighbor env n s1 = Inr s2" "add_remote_communicator env text s2 = Inr s3"
  shows "s_conns s3 = s_conns s2"
proof -
  have "omap_get (s_all_ips s2) (addr_string env True a) \<noteq> None" "s_my_address s2 = s_my_address s"
    using add_remote_new [OF assms(1,2,3,4)] remove_neighbor_ips [OF assms(5)] remote_my_address [OF assms(4)] by auto
  then have "s3 = wake_remote env (addr_string env True a) a s2"
    using assms(1,2,6) by (auto simp: add_remote_communicator_def Let_def)
  then show ?thesis by (simp add: wake_keeps_connections)
qed

text \<open>The pause after a DISCONNECT is set for the empty address, which no connection has.\<close>

lemma disconnect_without_pause:
  "i < length (s_heap s) \<Longrightarrow> omap_get (s_smaller_ips s) [] = None
     \<Longrightarrow> shutting_down (get_client_addr (conn (disconnect i s) i)) (disconnect i s) = disconnect i s"
  by (simp add: disconnect_def get_client_addr_def shutting_down_def on_smaller_def remove_connection_def on_conn_def split: option.split)

text \<open>UNREGISTERFORLOADAVG ends the process when a listener comes before a connection that wants the averages.\<close>

lemma unregister_loadavg_crash:
  "has_base (conn s i) \<Longrightarrow> s_conns s = j # js \<Longrightarrow> j \<noteq> i \<Longrightarrow> \<not> has_base (conn s j)
     \<Longrightarrow> \<exists>e. on_unregister_loadavg i False s = Inl e"
  by (simp add: on_unregister_loadavg_def Let_def on_conn_def)

text \<open>A gossip is recorded under an address without its port; the answer to a CONNECT looks for the address with it.\<close>

lemma connect_keeps_gossip: "omap_get (s_gossip_ips s) his_address = None \<Longrightarrow> gossip_received his_address s = s"
  by (simp add: gossip_received_def)

end
