(* ===== verification/Tld.thy ===== *)
theory Tld
  imports Snap_Prelude
begin

text \<open>
  \<open>libtld/src/tld.c\<close>: the search of the top level domain of a host name in the table that is generated from
  \<open>tld_data.xml\<close>.  The table is a parameter; what the code relies on is in
  \<open>table_ok\<close>: every level is sorted, with a wildcard at its beginning at most, and an exception names one of its ancestors.
  The theorems: the binary search finds exactly what a linear one does, a result names a suffix of labels that is in
  the table and cannot be extended, and the errors are exactly those documented.
\<close>

section \<open>Data\<close>

datatype tld_category = Category_International | Category_Professionals | Category_Language | Category_Groups | Category_Region
  | Category_Technical | Category_Country | Category_Entrepreneurial | Category_Brand | Category_Undefined

datatype tld_status = Status_Valid | Status_Proposed | Status_Deprecated | Status_Unused | Status_Reserved
  | Status_Infrastructure | Status_Undefined | Status_Exception

datatype tld_result = Result_Success | Result_Invalid | Result_Null | Result_No_Tld | Result_Bad_Uri | Result_Not_Found

record tld_description =
  d_category :: tld_category
  d_status :: tld_status
  d_start_offset :: nat
  d_end_offset :: nat
  d_exception_apply_to :: nat
  d_exception_level :: nat
  d_tld :: string
  d_country :: "string option"

record tld_table =
  tld_descriptions :: "tld_description list"
  tld_start_offset :: nat
  tld_end_offset :: nat
  tld_max_level :: nat

text \<open>A null pointer is \<open>None\<close>; \<open>i_tld\<close> points into the name, so it is the rest of it.\<close>

record tld_info =
  i_category :: tld_category
  i_status :: tld_status
  i_country :: "string option"
  i_tld :: "string option"
  i_offset :: int

definition USHRT_MAX :: nat where "USHRT_MAX = 65535"

definition tld_clear_info :: tld_info where
  "tld_clear_info = \<lparr>i_category = Category_Undefined, i_status = Status_Undefined, i_country = None, i_tld = None, i_offset = - 1\<rparr>"

section \<open>The search\<close>

text \<open>The type \<open>char\<close> is signed.\<close>

definition signed_char :: "char \<Rightarrow> int" where
  "signed_char c = (let n = of_char c :: nat in if n < 128 then int n else int n - 256)"

fun cmp_chars :: "string \<Rightarrow> string \<Rightarrow> int" where
  "cmp_chars [] [] = 0"
| "cmp_chars [] (b # bs) = - 1"
| "cmp_chars (a # as) [] = 1"
| "cmp_chars (a # as) (b # bs) =
     (if signed_char a < signed_char b then - 1 else if signed_char a > signed_char b then 1 else cmp_chars as bs)"

definition cmp :: "string \<Rightarrow> string \<Rightarrow> int" where
  "cmp a b = (if a = ''*'' then 0 else cmp_chars a b)"

function search :: "tld_description list \<Rightarrow> nat \<Rightarrow> nat \<Rightarrow> string \<Rightarrow> nat option" where
  "search ds i j domain =
     (if i < j then
        let p = (j - i) div 2 + i; r = cmp (d_tld (ds ! p)) domain in
        if r < 0 then search ds (p + 1) j domain
        else if r > 0 then search ds i p domain
        else Some p
      else None)"
  by pat_completeness auto

termination
  by (relation "measure (\<lambda>(ds, i, j, domain). j - i)") auto

declare search.simps [simp del]

section \<open>The top level domain of a name\<close>

text \<open>
  The positions of the last \<open>tld_max_level\<close> periods; \<open>None\<close> for two periods one after another.
\<close>

definition push_level :: "nat \<Rightarrow> nat \<Rightarrow> nat list \<Rightarrow> nat list" where
  "push_level limit e levels = (if length levels \<ge> limit then tl levels @ [e] else levels @ [e])"

fun scan_levels :: "nat \<Rightarrow> nat \<Rightarrow> string \<Rightarrow> nat list \<Rightarrow> nat list option" where
  "scan_levels limit e [] levels = Some levels"
| "scan_levels limit e (c # s) levels =
     (if c = CHR ''.'' then
        let levels1 = push_level limit e levels; n = length levels1 in
        if n \<ge> 2 \<and> levels1 ! (n - 2) + 1 = levels1 ! (n - 1) then None
        else scan_levels limit (e + 1) s levels1
      else scan_levels limit (e + 1) s levels)"

definition label_between :: "string \<Rightarrow> nat \<Rightarrow> nat \<Rightarrow> string" where
  "label_between uri a b = take (b - a - 1) (drop (a + 1) uri)"

text \<open>The loop over the lower levels, from the level and the entry found so far.\<close>

fun next_levels :: "tld_description list \<Rightarrow> string \<Rightarrow> nat list \<Rightarrow> nat \<Rightarrow> nat \<Rightarrow> nat \<times> nat" where
  "next_levels ds uri levels 0 p = (0, p)"
| "next_levels ds uri levels (Suc level) p =
     (if d_start_offset (ds ! p) = USHRT_MAX then (Suc level, p)
      else case search ds (d_start_offset (ds ! p)) (d_end_offset (ds ! p))
          (label_between uri (levels ! level) (levels ! Suc level)) of
        None \<Rightarrow> (Suc level, p)
      | Some r \<Rightarrow> next_levels ds uri levels level r)"

text \<open>The entry for the whole name, when all of its levels were found.\<close>

definition exception_entry :: "tld_description list \<Rightarrow> string \<Rightarrow> nat list \<Rightarrow> nat \<Rightarrow> nat \<Rightarrow> nat" where
  "exception_entry ds uri levels level p =
     (if level = 0 then
        case search ds (d_start_offset (ds ! p)) (d_end_offset (ds ! p)) (take (levels ! 0) uri) of
          None \<Rightarrow> p | Some r \<Rightarrow> r
      else p)"

definition found_info :: "tld_description list \<Rightarrow> string \<Rightarrow> nat list \<Rightarrow> nat \<Rightarrow> nat \<Rightarrow> tld_status \<Rightarrow> tld_info" where
  "found_info ds uri levels level p status =
     \<lparr>i_category = d_category (ds ! p), i_status = status, i_country = d_country (ds ! p),
      i_tld = Some (drop (levels ! level) uri), i_offset = int (levels ! level)\<rparr>"

definition found_result :: "tld_description list \<Rightarrow> string \<Rightarrow> nat list \<Rightarrow> nat \<Rightarrow> nat \<Rightarrow> tld_result \<times> tld_info" where
  "found_result ds uri levels level p =
     (if d_status (ds ! p) = Status_Exception then
        let q = d_exception_apply_to (ds ! p) in
        (Result_Success, found_info ds uri levels (length levels - d_exception_level (ds ! q)) q Status_Valid)
      else
        (if d_status (ds ! p) = Status_Valid then Result_Success else Result_Invalid,
         found_info ds uri levels level p (d_status (ds ! p))))"

text \<open>A null pointer counts as the empty name.\<close>

definition tld :: "tld_table \<Rightarrow> string \<Rightarrow> tld_result \<times> tld_info" where
  "tld t uri =
     (if uri = [] then (Result_Null, tld_clear_info)
      else case scan_levels (tld_max_level t) 0 uri [] of
        None \<Rightarrow> (Result_Bad_Uri, tld_clear_info)
      | Some levels \<Rightarrow>
          if levels = [] then (Result_No_Tld, tld_clear_info)
          else
            let ds = tld_descriptions t; level = length levels - 1 in
            case search ds (tld_start_offset t) (tld_end_offset t) (label_between uri (levels ! level) (length uri)) of
              None \<Rightarrow> (Result_Not_Found, tld_clear_info)
            | Some r \<Rightarrow>
                (case next_levels ds uri levels level r of
                   (level', p) \<Rightarrow> found_result ds uri levels level' (exception_entry ds uri levels level' p)))"

section \<open>The order of the labels\<close>

lemma signed_char_inject: "signed_char a = signed_char b \<longleftrightarrow> a = b"
proof -
  have "signed_char a = signed_char b \<longleftrightarrow> (of_char a :: nat) = of_char b"
    using of_char_less_256 [of a] of_char_less_256 [of b] unfolding signed_char_def Let_def by presburger
  then show ?thesis by simp
qed

lemma cmp_chars_less: "cmp_chars a b < 0 \<longleftrightarrow> map signed_char a < map signed_char b"
  by (induction a b rule: cmp_chars.induct) auto

lemma cmp_chars_greater: "cmp_chars a b > 0 \<longleftrightarrow> map signed_char b < map signed_char a"
  by (induction a b rule: cmp_chars.induct) auto

lemma cmp_chars_zero: "cmp_chars a b = 0 \<longleftrightarrow> a = b"
proof -
  have "cmp_chars a b = 0 \<longleftrightarrow> map signed_char a = map signed_char b"
    by (metis cmp_chars_less cmp_chars_greater linorder_neq_iff)
  then show ?thesis using inj_map_eq_map [of signed_char] signed_char_inject by (auto simp: inj_def)
qed

section \<open>The binary search\<close>

text \<open>
  The entry of a label in a part of the table, by going through it: the entry with this label, otherwise the wildcard at the
  beginning of the part.  The wildcard only counts for a label that comes before its neighbor.
\<close>

definition wildcard :: "tld_description list \<Rightarrow> nat \<Rightarrow> nat \<Rightarrow> string \<Rightarrow> bool" where
  "wildcard ds i j domain \<longleftrightarrow> i < j \<and> d_tld (ds ! i) = ''*''
     \<and> (Suc i < j \<longrightarrow> map signed_char domain < map signed_char (d_tld (ds ! Suc i)))"

definition find_label :: "tld_description list \<Rightarrow> nat \<Rightarrow> nat \<Rightarrow> string \<Rightarrow> nat option" where
  "find_label ds i j domain =
     (case find (\<lambda>p. d_tld (ds ! p) = domain) [i..<j] of
        Some p \<Rightarrow> Some p
      | None \<Rightarrow> if wildcard ds i j domain then Some i else None)"

lemma find_label_Some: "find_label ds i j domain = Some p \<Longrightarrow> i \<le> p \<and> p < j"
  by (auto simp: find_label_def find_Some_iff wildcard_def split: option.splits if_splits)

definition sorted_part :: "tld_description list \<Rightarrow> nat \<Rightarrow> nat \<Rightarrow> bool" where
  "sorted_part ds i j \<longleftrightarrow> (\<forall>p \<in> {i<..<j}. d_tld (ds ! p) \<noteq> ''*'')
     \<and> (\<forall>q \<in> {i..<j}. \<forall>p \<in> {i..<q}. map signed_char (d_tld (ds ! p)) < map signed_char (d_tld (ds ! q)))"

lemma sorted_part_sub: "sorted_part ds i j \<Longrightarrow> i \<le> i' \<Longrightarrow> j' \<le> j \<Longrightarrow> sorted_part ds i' j'"
  by (auto simp: sorted_part_def)

lemma sorted_part_distinct:
  assumes "sorted_part ds i j" "i \<le> p" "p < q" "q < j"
  shows "d_tld (ds ! p) \<noteq> d_tld (ds ! q)"
proof -
  have "map signed_char (d_tld (ds ! p)) < map signed_char (d_tld (ds ! q))" using assms by (simp add: sorted_part_def)
  then show ?thesis by auto
qed

lemma search_step:
  assumes "i < j"
  obtains m where "i \<le> m" "m < j" "m = i \<longrightarrow> j = Suc i"
    "search ds i j domain = (if cmp (d_tld (ds ! m)) domain < 0 then search ds (m + 1) j domain
       else if cmp (d_tld (ds ! m)) domain > 0 then search ds i m domain else Some m)"
proof
  show "i \<le> (j - i) div 2 + i" "(j - i) div 2 + i < j" using assms by auto
  show "(j - i) div 2 + i = i \<longrightarrow> j = Suc i" using assms by auto
qed (subst search.simps, simp add: Let_def assms)

text \<open>What a result of the search says about the part.\<close>

definition search_says :: "tld_description list \<Rightarrow> nat \<Rightarrow> nat \<Rightarrow> string \<Rightarrow> nat option \<Rightarrow> bool" where
  "search_says ds i j domain r \<longleftrightarrow>
     (case r of
        Some p \<Rightarrow> i \<le> p \<and> p < j \<and> (d_tld (ds ! p) = domain \<or> p = i \<and> wildcard ds i j domain \<and> (\<forall>q \<in> {i..<j}. d_tld (ds ! q) \<noteq> domain))
      | None \<Rightarrow> (\<forall>p \<in> {i..<j}. d_tld (ds ! p) \<noteq> domain) \<and> \<not> wildcard ds i j domain)"

lemma search_right:
  assumes s: "sorted_part ds i j" and m: "i \<le> m" "m < j" "d_tld (ds ! m) \<noteq> ''*''"
    and less: "map signed_char (d_tld (ds ! m)) < map signed_char domain" and r: "search_says ds (m + 1) j domain r"
  shows "search_says ds i j domain r"
proof -
  let ?l = "\<lambda>p. map signed_char (d_tld (ds ! p))"
  have order: "?l p \<le> ?l m" if "i \<le> p" "p \<le> m" for p using s that m by (cases "p = m") (auto simp: sorted_part_def intro: less_imp_le)
  have low: "d_tld (ds ! p) \<noteq> domain" if "i \<le> p" "p \<le> m" for p using order [OF that] less by auto
  have "\<not> wildcard ds i j domain"
  proof
    assume w: "wildcard ds i j domain"
    then have "Suc i \<le> m" using m by (cases "m = i") (auto simp: wildcard_def)
    then have "?l (Suc i) < map signed_char domain" using order [of "Suc i"] less by auto
    then show False using w \<open>Suc i \<le> m\<close> m(2) by (auto simp: wildcard_def)
  qed
  moreover have "\<not> wildcard ds (m + 1) j domain" using s m by (auto simp: wildcard_def sorted_part_def)
  moreover have parts: "{i..<j} = {i..m} \<union> {m + 1..<j}" using m by auto
  moreover have "\<forall>p \<in> {i..m}. d_tld (ds ! p) \<noteq> domain" using low by simp
  ultimately show ?thesis using r m(1) unfolding search_says_def parts ball_Un by (auto split: option.splits)
qed

lemma search_left:
  assumes s: "sorted_part ds i j" and m: "i \<le> m" "m < j" "d_tld (ds ! m) \<noteq> ''*''"
    and less: "map signed_char domain < map signed_char (d_tld (ds ! m))" and r: "search_says ds i m domain r"
  shows "search_says ds i j domain r"
proof -
  let ?l = "\<lambda>p. map signed_char (d_tld (ds ! p))"
  have high: "d_tld (ds ! p) \<noteq> domain" if "m \<le> p" "p < j" for p
  proof -
    have "?l m \<le> ?l p" using s that m by (cases "p = m") (auto simp: sorted_part_def intro: less_imp_le)
    then show ?thesis using less by auto
  qed
  have w: "wildcard ds i j domain = wildcard ds i m domain"
  proof (cases "d_tld (ds ! i) = ''*''")
    case True
    then have "i < m" using m by (cases "m = i") auto
    then show ?thesis using m less by (cases "m = Suc i") (auto simp: wildcard_def)
  qed (simp add: wildcard_def)
  have parts: "{i..<j} = {i..<m} \<union> {m..<j}" using m by auto
  have "\<forall>p \<in> {m..<j}. d_tld (ds ! p) \<noteq> domain" using high by simp
  then show ?thesis using r m(2) unfolding search_says_def parts ball_Un w by (auto split: option.splits)
qed

lemma search_label: "sorted_part ds i j \<Longrightarrow> search_says ds i j domain (search ds i j domain)"
proof (induction "j - i" arbitrary: i j rule: less_induct)
  case less
  show ?case
  proof (cases "i < j")
    case True
    then obtain m where m: "i \<le> m" "m < j" "m = i \<longrightarrow> j = Suc i"
      and s: "search ds i j domain = (if cmp (d_tld (ds ! m)) domain < 0 then search ds (m + 1) j domain
       else if cmp (d_tld (ds ! m)) domain > 0 then search ds i m domain else Some m)" by (rule search_step)
    show ?thesis
    proof (cases "d_tld (ds ! m) = ''*''")
      case star: True
      then have "m = i" using less.prems m by (cases "m = i") (auto simp: sorted_part_def)
      then show ?thesis using star s m by (auto simp: cmp_def search_says_def wildcard_def)
    next
      case False
      then have c: "cmp (d_tld (ds ! m)) domain = cmp_chars (d_tld (ds ! m)) domain" by (simp add: cmp_def)
      consider "cmp_chars (d_tld (ds ! m)) domain < 0" | "cmp_chars (d_tld (ds ! m)) domain > 0" | "d_tld (ds ! m) = domain"
        using cmp_chars_zero [of "d_tld (ds ! m)" domain] by linarith
      then show ?thesis
      proof cases
        case 1
        have "search_says ds (m + 1) j domain (search ds (m + 1) j domain)"
          using m sorted_part_sub [OF less.prems, of "m + 1" j] by (intro less.hyps) auto
        with search_right [OF less.prems m(1,2) False] 1 show ?thesis by (simp add: s c cmp_chars_less)
      next
        case 2
        then have "search ds i j domain = search ds i m domain" by (simp add: s c)
        moreover have "search_says ds i m domain (search ds i m domain)"
          using m sorted_part_sub [OF less.prems, of i m] by (intro less.hyps) auto
        ultimately show ?thesis using search_left [OF less.prems m(1,2) False] 2 by (simp add: cmp_chars_greater)
      next
        case 3
        then have "search ds i j domain = Some m" using c cmp_chars_zero [of "d_tld (ds ! m)" domain] by (simp add: s)
        with m 3 show ?thesis by (simp add: search_says_def)
      qed
    qed
  qed (subst search.simps, simp add: search_says_def wildcard_def)
qed

lemma search_find:
  assumes "sorted_part ds i j"
  shows "search ds i j domain = find_label ds i j domain"
proof (cases "find (\<lambda>p. d_tld (ds ! p) = domain) [i..<j]")
  case None
  then have "\<forall>p \<in> {i..<j}. d_tld (ds ! p) \<noteq> domain" by (simp add: find_None_iff)
  then show ?thesis using search_label [OF assms, of domain] None
    by (auto simp: find_label_def search_says_def split: option.splits)
next
  case (Some p)
  then have p: "i \<le> p" "p < j" "d_tld (ds ! p) = domain" by (auto simp: find_Some_iff)
  have u: "q = p" if "i \<le> q" "q < j" "d_tld (ds ! q) = domain" for q
    using sorted_part_distinct [OF assms, of p q] sorted_part_distinct [OF assms, of q p] that p by (cases q p rule: linorder_cases) auto
  show ?thesis
  proof (cases "search ds i j domain")
    case None
    then show ?thesis using search_label [OF assms, of domain] p by (auto simp: search_says_def)
  next
    case s: (Some q)
    then have "i \<le> q \<and> q < j \<and> (d_tld (ds ! q) = domain \<or> (\<forall>q \<in> {i..<j}. d_tld (ds ! q) \<noteq> domain))"
      using search_label [OF assms, of domain] by (auto simp: search_says_def)
    then have "q = p" using p u [of q] by (metis atLeastLessThan_iff)
    then show ?thesis using s Some by (simp add: find_label_def)
  qed
qed

lemma search_empty: "search ds i i domain = None"
  by (simp add: search.simps)

section \<open>The labels of a name\<close>

definition dotted :: "string list \<Rightarrow> string" where
  "dotted labels = concat (map (\<lambda>l. CHR ''.'' # l) labels)"

lemma dotted_simps [simp]: "dotted [] = []" "dotted (l # ls) = CHR ''.'' # l @ dotted ls" "dotted (ls @ ms) = dotted ls @ dotted ms"
  by (simp_all add: dotted_def)

text \<open>The levels are the positions of the periods before the labels.\<close>

definition pieces :: "string \<Rightarrow> string list \<Rightarrow> nat list \<Rightarrow> string \<Rightarrow> bool" where
  "pieces pre labels levels uri \<longleftrightarrow> uri = pre @ dotted labels \<and> (\<forall>l \<in> set labels. CHR ''.'' \<notin> set l)
     \<and> levels = map (\<lambda>k. length pre + length (dotted (take k labels))) [0..<length labels]"

lemma pieces_Nil: "pieces uri [] [] uri"
  by (simp add: pieces_def)

lemma pieces_length: "pieces pre labels levels uri \<Longrightarrow> length levels = length labels"
  by (simp add: pieces_def)

lemma pieces_nth: "pieces pre labels levels uri \<Longrightarrow> k < length labels \<Longrightarrow> levels ! k = length pre + length (dotted (take k labels))"
  by (simp add: pieces_def)

lemma pieces_snoc: "pieces pre labels levels uri \<Longrightarrow> pieces pre (labels @ [[]]) (levels @ [length uri]) (uri @ ''.'')"
  by (auto simp: pieces_def)

lemma pieces_char_label:
  assumes "pieces pre labels levels uri" "labels \<noteq> []" "c \<noteq> CHR ''.''"
  shows "pieces pre (butlast labels @ [last labels @ [c]]) levels (uri @ [c])"
proof -
  obtain ls l where l: "labels = ls @ [l]" using assms(2) by (metis append_butlast_last_id)
  then show ?thesis using assms by (auto simp: pieces_def)
qed

lemma pieces_char_prefix: "pieces pre [] levels uri \<Longrightarrow> pieces (pre @ [c]) [] levels (uri @ [c])"
  by (simp add: pieces_def)

lemma pieces_tl:
  assumes "pieces pre (l # labels) levels uri"
  shows "pieces (pre @ CHR ''.'' # l) labels (tl levels) uri"
proof -
  have "tl levels = map (\<lambda>k. length pre + length (dotted (take k (l # labels)))) [1..<Suc (length labels)]"
    using assms by (auto simp: pieces_def map_tl [symmetric] upt_conv_Cons simp del: upt_Suc)
  also have "\<dots> = map (\<lambda>k. length pre + length (dotted (take (Suc k) (l # labels)))) [0..<length labels]"
    by (simp add: map_Suc_upt [symmetric] del: upt_Suc)
  finally show ?thesis using assms by (simp add: pieces_def)
qed

text \<open>No period is left before the labels, unless there are as many of them as the table has levels.\<close>

definition all_pieces :: "nat \<Rightarrow> string \<Rightarrow> string list \<Rightarrow> nat list \<Rightarrow> string \<Rightarrow> bool" where
  "all_pieces limit pre labels levels uri \<longleftrightarrow> pieces pre labels levels uri \<and> length labels \<le> limit
     \<and> (length labels < limit \<longrightarrow> CHR ''.'' \<notin> set pre)"

lemma pieces_push:
  assumes "all_pieces limit pre labels levels uri" "0 < limit"
  shows "\<exists>pre' labels'. all_pieces limit pre' labels' (push_level limit (length uri) levels) (uri @ ''.'')"
proof (cases "length labels < limit")
  case True
  then show ?thesis using assms pieces_snoc [of pre labels levels uri] pieces_length [of pre labels levels uri]
    by (fastforce simp: all_pieces_def push_level_def)
next
  case False
  then obtain l ls where l: "labels = l # ls" using assms(2) by (cases labels) auto
  with assms(1) have p: "pieces pre (l # ls) levels uri" by (simp add: all_pieces_def)
  show ?thesis
    using pieces_snoc [OF pieces_tl [OF p]] pieces_length [OF p] assms(1) False l
    by (fastforce simp: all_pieces_def push_level_def)
qed

lemma pieces_char:
  assumes "all_pieces limit pre labels levels uri" "c \<noteq> CHR ''.''"
  shows "\<exists>pre' labels'. all_pieces limit pre' labels' levels (uri @ [c])"
proof (cases "labels = []")
  case True
  then have "all_pieces limit (pre @ [c]) [] levels (uri @ [c])"
    using assms pieces_char_prefix [of pre levels uri c] by (simp add: all_pieces_def)
  then show ?thesis by blast
next
  case False
  then have "length (butlast labels @ [last labels @ [c]]) = length labels" by simp
  then have "all_pieces limit pre (butlast labels @ [last labels @ [c]]) levels (uri @ [c])"
    using assms pieces_char_label [of pre labels levels uri c] False by (simp add: all_pieces_def)
  then show ?thesis by blast
qed

lemma scan_levels_pieces:
  assumes "scan_levels limit e s levels = Some levels'" "all_pieces limit pre labels levels uri" "e = length uri" "0 < limit"
  shows "\<exists>pre' labels'. all_pieces limit pre' labels' levels' (uri @ s)"
  using assms
proof (induction s arbitrary: e levels pre labels uri)
  case (Cons c s)
  show ?case
  proof (cases "c = CHR ''.''")
    case True
    obtain pre' labels' where p: "all_pieces limit pre' labels' (push_level limit e levels) (uri @ ''.'')"
      using pieces_push [OF Cons.prems(2,4)] Cons.prems(3) by blast
    have "scan_levels limit (Suc e) s (push_level limit e levels) = Some levels'"
      using Cons.prems(1) True by (auto simp: Let_def split: if_splits)
    from Cons.IH [OF this p _ Cons.prems(4)] Cons.prems(3) True show ?thesis by simp
  next
    case False
    then have s: "scan_levels limit (Suc e) s levels = Some levels'" using Cons.prems(1) by simp
    obtain pre' labels' where "all_pieces limit pre' labels' levels (uri @ [c])" using pieces_char [OF Cons.prems(2) False] by blast
    from Cons.IH [OF s this _ Cons.prems(4)] Cons.prems(3) show ?thesis by simp
  qed
qed auto

lemma label_at:
  assumes "pieces pre labels levels uri" "k < length labels" "e = length (pre @ dotted (take (Suc k) labels))"
  shows "label_between uri (levels ! k) e = labels ! k"
proof -
  have d: "dotted labels = dotted (take k labels) @ CHR ''.'' # labels ! k @ dotted (drop (Suc k) labels)"
    using assms(2) by (metis dotted_simps(2) dotted_simps(3) id_take_nth_drop)
  have l: "levels ! k = length (pre @ dotted (take k labels))" using pieces_nth [OF assms(1,2)] by simp
  have e: "e = levels ! k + 1 + length (labels ! k)" using assms(2,3) l by (simp add: take_Suc_conv_app_nth)
  have "drop (levels ! k + 1) uri = labels ! k @ dotted (drop (Suc k) labels)"
    using assms(1) d l by (simp add: pieces_def)
  with e show ?thesis by (simp add: label_between_def)
qed

section \<open>The table as a tree\<close>

text \<open>The entry of a domain, by its labels from the last to the first.\<close>

fun tld_path :: "tld_description list \<Rightarrow> nat \<Rightarrow> nat \<Rightarrow> string list \<Rightarrow> nat option" where
  "tld_path ds i j [] = None"
| "tld_path ds i j (l # ls) =
     (case find_label ds i j l of
        None \<Rightarrow> None
      | Some p \<Rightarrow>
          if ls = [] then Some p
          else if d_start_offset (ds ! p) = USHRT_MAX then None
          else tld_path ds (d_start_offset (ds ! p)) (d_end_offset (ds ! p)) ls)"

definition tld_entry :: "tld_table \<Rightarrow> string list \<Rightarrow> nat option" where
  "tld_entry t labels = tld_path (tld_descriptions t) (tld_start_offset t) (tld_end_offset t) (rev labels)"

text \<open>What the generated table promises: sorted levels inside of the table, and no offset without the other.\<close>

definition table_ok :: "tld_table \<Rightarrow> bool" where
  "table_ok t \<longleftrightarrow> 2 \<le> tld_max_level t \<and> tld_end_offset t \<le> length (tld_descriptions t)
     \<and> sorted_part (tld_descriptions t) (tld_start_offset t) (tld_end_offset t)
     \<and> (\<forall>d \<in> set (tld_descriptions t).
          if d_start_offset d = USHRT_MAX then d_end_offset d = USHRT_MAX
          else d_end_offset d \<le> length (tld_descriptions t) \<and> sorted_part (tld_descriptions t) (d_start_offset d) (d_end_offset d))"

text \<open>An exception applies to a domain that it is part of, with the number of labels of that domain as its level.\<close>

definition exceptions_ok :: "tld_table \<Rightarrow> bool" where
  "exceptions_ok t \<longleftrightarrow> (\<forall>labels p. tld_entry t labels = Some p \<longrightarrow> d_status (tld_descriptions t ! p) = Status_Exception \<longrightarrow>
     (let q = d_exception_apply_to (tld_descriptions t ! p); k = d_exception_level (tld_descriptions t ! q) in
      0 < k \<and> k < length labels \<and> tld_entry t (drop (length labels - k) labels) = Some q))"

lemma tld_path_snoc:
  "tld_path ds i j (ls @ [l]) =
     (if ls = [] then find_label ds i j l
      else case tld_path ds i j ls of
        None \<Rightarrow> None
      | Some p \<Rightarrow> if d_start_offset (ds ! p) = USHRT_MAX then None
          else find_label ds (d_start_offset (ds ! p)) (d_end_offset (ds ! p)) l)"
  by (induction ls arbitrary: i j) (auto split: option.splits)

lemma tld_entry_Cons:
  "labels \<noteq> [] \<Longrightarrow> tld_entry t (l # labels) =
     (case tld_entry t labels of
        None \<Rightarrow> None
      | Some p \<Rightarrow> if d_start_offset (tld_descriptions t ! p) = USHRT_MAX then None
          else find_label (tld_descriptions t) (d_start_offset (tld_descriptions t ! p)) (d_end_offset (tld_descriptions t ! p)) l)"
  by (simp add: tld_entry_def tld_path_snoc)

lemma tld_entry_single: "tld_entry t [l] = find_label (tld_descriptions t) (tld_start_offset t) (tld_end_offset t) l"
  by (simp add: tld_entry_def split: option.splits)

lemma tld_entry_less:
  assumes "table_ok t" "tld_entry t labels = Some p"
  shows "p < length (tld_descriptions t)"
  using assms(2)
proof (induction labels arbitrary: p)
  case (Cons l labels)
  show ?case
  proof (cases "labels = []")
    case True
    with Cons.prems assms(1) show ?thesis by (auto simp: tld_entry_single table_ok_def dest: find_label_Some)
  next
    case False
    then obtain q where q: "tld_entry t labels = Some q" "d_start_offset (tld_descriptions t ! q) \<noteq> USHRT_MAX"
      "find_label (tld_descriptions t) (d_start_offset (tld_descriptions t ! q)) (d_end_offset (tld_descriptions t ! q)) l = Some p"
      using Cons.prems by (auto simp: tld_entry_Cons split: option.splits if_splits)
    have "tld_descriptions t ! q \<in> set (tld_descriptions t)" using Cons.IH [OF q(1)] by simp
    with assms(1) q(2) have "d_end_offset (tld_descriptions t ! q) \<le> length (tld_descriptions t)" by (auto simp: table_ok_def)
    with find_label_Some [OF q(3)] show ?thesis by simp
  qed
qed (simp add: tld_entry_def)

lemma search_children:
  assumes "table_ok t" "tld_entry t labels = Some p" "labels \<noteq> []"
  shows "(if d_start_offset (tld_descriptions t ! p) = USHRT_MAX then None
      else search (tld_descriptions t) (d_start_offset (tld_descriptions t ! p)) (d_end_offset (tld_descriptions t ! p)) l) = tld_entry t (l # labels)"
    "search (tld_descriptions t) (d_start_offset (tld_descriptions t ! p)) (d_end_offset (tld_descriptions t ! p)) l = tld_entry t (l # labels)"
proof -
  let ?ds = "tld_descriptions t"
  have "?ds ! p \<in> set ?ds" using tld_entry_less [OF assms(1,2)] by simp
  then have d: "if d_start_offset (?ds ! p) = USHRT_MAX then d_end_offset (?ds ! p) = USHRT_MAX
      else sorted_part ?ds (d_start_offset (?ds ! p)) (d_end_offset (?ds ! p))"
    using assms(1) by (auto simp: table_ok_def)
  then show "search ?ds (d_start_offset (?ds ! p)) (d_end_offset (?ds ! p)) l = tld_entry t (l # labels)"
    using assms(2,3) by (auto simp: tld_entry_Cons search_find search_empty split: if_splits)
  then show "(if d_start_offset (?ds ! p) = USHRT_MAX then None
      else search ?ds (d_start_offset (?ds ! p)) (d_end_offset (?ds ! p)) l) = tld_entry t (l # labels)"
    using assms(2,3) by (simp add: tld_entry_Cons)
qed

lemma next_levels_longest:
  assumes "table_ok t" "pieces pre labels levels uri" "level < length labels" "tld_entry t (drop level labels) = Some p"
    and "next_levels (tld_descriptions t) uri levels level p = (level', p')"
  shows "level' \<le> level \<and> tld_entry t (drop level' labels) = Some p' \<and> (level' = 0 \<or> tld_entry t (drop (level' - 1) labels) = None)"
  using assms(3-5)
proof (induction level arbitrary: p)
  case (Suc level)
  let ?ds = "tld_descriptions t"
  have l: "label_between uri (levels ! level) (levels ! Suc level) = labels ! level"
    by (rule label_at [OF assms(2)]) (use Suc.prems(1) pieces_nth [OF assms(2), of "Suc level"] in simp_all)
  have d: "drop level labels = labels ! level # drop (Suc level) labels" using Suc.prems(1) by (simp add: Cons_nth_drop_Suc)
  have ne: "drop (Suc level) labels \<noteq> []" using Suc.prems(1) by simp
  have s: "(if d_start_offset (?ds ! p) = USHRT_MAX then None
      else search ?ds (d_start_offset (?ds ! p)) (d_end_offset (?ds ! p)) (labels ! level)) = tld_entry t (drop level labels)"
    unfolding d by (rule search_children [OF assms(1) Suc.prems(2) ne])
  show ?case
  proof (cases "tld_entry t (drop level labels)")
    case None
    then have "(level', p') = (Suc level, p)" using s Suc.prems(3) l by (auto split: if_splits)
    then show ?thesis using None Suc.prems(2) by simp
  next
    case (Some r)
    then have "next_levels ?ds uri levels level r = (level', p')" using s Suc.prems(3) l by (auto split: if_splits)
    from Suc.IH [OF _ Some this] Suc.prems(1) show ?thesis by simp
  qed
qed simp


section \<open>What is found\<close>

lemma scan_uri:
  assumes "table_ok t" "scan_levels (tld_max_level t) 0 uri [] = Some levels"
  obtains pre labels where "all_pieces (tld_max_level t) pre labels levels uri"
proof -
  have "all_pieces (tld_max_level t) [] [] [] []" by (simp add: all_pieces_def pieces_Nil)
  from scan_levels_pieces [OF assms(2) this] assms(1) that show thesis by (auto simp: table_ok_def)
qed

lemma last_label:
  assumes "pieces pre labels levels uri" "labels \<noteq> []"
  shows "label_between uri (levels ! (length levels - 1)) (length uri) = last labels"
proof -
  have "label_between uri (levels ! (length labels - 1)) (length uri) = labels ! (length labels - 1)"
    by (rule label_at [OF assms(1)]) (use assms in \<open>auto simp: pieces_def\<close>)
  then show ?thesis using assms pieces_length [OF assms(1)] by (simp add: last_conv_nth)
qed

lemma levels_suffix:
  assumes "pieces pre labels levels uri" "k < length labels"
  shows "uri = (pre @ dotted (take k labels)) @ dotted (drop k labels)" "levels ! k = length (pre @ dotted (take k labels))"
proof -
  show "uri = (pre @ dotted (take k labels)) @ dotted (drop k labels)"
    using assms(1) dotted_simps(3) [of "take k labels" "drop k labels"] by (simp add: pieces_def)
qed (use pieces_nth [OF assms] in simp)

lemma tld_found_cases:
  assumes "table_ok t" "tld t uri = (r, info)" "i_tld info \<noteq> None"
  obtains pre labels levels level p where "all_pieces (tld_max_level t) pre labels levels uri" "level < length labels"
    "tld_entry t (drop level labels) = Some p" "level = 0 \<or> tld_entry t (drop (level - 1) labels) = None"
    "(r, info) = found_result (tld_descriptions t) uri levels level (exception_entry (tld_descriptions t) uri levels level p)"
proof -
  let ?ds = "tld_descriptions t"
  obtain levels where l: "scan_levels (tld_max_level t) 0 uri [] = Some levels" and ne: "levels \<noteq> []"
    using assms(2,3) by (auto simp: tld_def tld_clear_info_def split: if_splits option.splits)
  obtain pre labels where ap: "all_pieces (tld_max_level t) pre labels levels uri" using scan_uri [OF assms(1) l] .
  then have p: "pieces pre labels levels uri" by (simp add: all_pieces_def)
  then have ln: "labels \<noteq> []" using ne pieces_length by fastforce
  have s: "search ?ds (tld_start_offset t) (tld_end_offset t) (last labels) = tld_entry t [last labels]"
    using assms(1) by (simp add: tld_entry_single table_ok_def search_find)
  obtain q level p' where q: "tld_entry t [last labels] = Some q" "next_levels ?ds uri levels (length levels - 1) q = (level, p')"
    "(r, info) = found_result ?ds uri levels level (exception_entry ?ds uri levels level p')"
    using assms(2,3) l ne s last_label [OF p ln]
    by (auto simp: tld_def tld_clear_info_def Let_def split: if_splits option.splits prod.splits)
  have d: "drop (length levels - 1) labels = [last labels]"
    using ln pieces_length [OF p] by (cases labels rule: rev_cases) auto
  have "length levels - 1 < length labels" using ln pieces_length [OF p] by (cases labels) auto
  from next_levels_longest [OF assms(1) p this _ q(2)] q(1) d this show thesis by (intro that [OF ap _ _ _ q(3)]) auto
qed

text \<open>
  The information names the domain with these labels after a prefix; its category and country are those of an entry.
\<close>

definition names_tld :: "tld_table \<Rightarrow> string \<Rightarrow> tld_info \<Rightarrow> string \<Rightarrow> string list \<Rightarrow> nat \<Rightarrow> bool" where
  "names_tld t uri info pre labels q \<longleftrightarrow> uri = pre @ dotted labels \<and> labels \<noteq> [] \<and> tld_entry t labels \<noteq> None
     \<and> i_tld info = Some (dotted labels) \<and> i_offset info = int (length pre)
     \<and> i_category info = d_category (tld_descriptions t ! q) \<and> i_country info = d_country (tld_descriptions t ! q)"

lemma found_names:
  assumes "pieces pre labels levels uri" "k < length labels" "tld_entry t (drop k labels) \<noteq> None"
  shows "names_tld t uri (found_info (tld_descriptions t) uri levels k q st) (pre @ dotted (take k labels)) (drop k labels) q"
proof -
  have "drop (levels ! k) uri = dotted (drop k labels)" by (metis append_eq_conv_conj levels_suffix [OF assms(1,2)])
  then show ?thesis using assms(2,3) levels_suffix [OF assms(1,2)] by (simp add: names_tld_def found_info_def)
qed

lemma exception_entry_cases:
  assumes "table_ok t" "pieces pre labels levels uri" "level < length labels" "tld_entry t (drop level labels) = Some p"
  shows "exception_entry (tld_descriptions t) uri levels level p = p
     \<or> level = 0 \<and> tld_entry t (pre # labels) = Some (exception_entry (tld_descriptions t) uri levels level p)"
proof (cases "level = 0")
  case True
  have "labels \<noteq> []" using assms(3) by auto
  moreover have "take (levels ! 0) uri = pre" using assms(2,3) True pieces_nth [OF assms(2), of 0] by (simp add: pieces_def)
  ultimately have "search (tld_descriptions t) (d_start_offset (tld_descriptions t ! p)) (d_end_offset (tld_descriptions t ! p)) (take (levels ! 0) uri)
      = tld_entry t (pre # labels)" using search_children(2) [OF assms(1), of labels p pre] assms(4) True by simp
  then show ?thesis using True by (auto simp: exception_entry_def split: option.splits)
qed (simp add: exception_entry_def)

lemma exception_names:
  assumes "exceptions_ok t" "pieces pre labels levels uri" "tld_entry t xs = Some x" "d_status (tld_descriptions t ! x) = Status_Exception"
    and "xs = drop level labels \<or> xs = pre # labels" "labels \<noteq> []"
  defines "q \<equiv> d_exception_apply_to (tld_descriptions t ! x)"
  defines "n \<equiv> length levels - d_exception_level (tld_descriptions t ! q)"
  shows "names_tld t uri (found_info (tld_descriptions t) uri levels n q st) (pre @ dotted (take n labels)) (drop n labels) q
    \<and> tld_entry t (drop n labels) = Some q"
proof -
  define k where "k = d_exception_level (tld_descriptions t ! q)"
  have k: "0 < k" "k < length xs" "tld_entry t (drop (length xs - k) xs) = Some q"
    using assms(1,3,4) by (auto simp: exceptions_ok_def Let_def q_def k_def)
  have n: "n = length labels - k" using pieces_length [OF assms(2)] by (simp add: n_def k_def)
  have "drop (length xs - k) xs = drop n labels"
    using assms(5) k(2) by (auto simp: n drop_Cons' Suc_diff_le less_Suc_eq_le)
  then have e: "tld_entry t (drop n labels) = Some q" using k(3) by simp
  moreover have "n < length labels" using k(1) assms(6) by (simp add: n)
  ultimately show ?thesis using found_names [OF assms(2), of n t q st] by simp
qed

text \<open>C37.
  When the library names a top level domain, it is a suffix of the host name that begins with a period, and its labels lead
  to an entry of the table.  The category and the country are those of this entry, or those of the entry of the whole
  host name when the table has one that is not an exception.
\<close>

theorem tld_in_table:
  assumes "table_ok t" "exceptions_ok t" "tld t uri = (r, info)" "i_tld info \<noteq> None"
  shows "\<exists>pre labels q. names_tld t uri info pre labels q \<and> (tld_entry t labels = Some q \<or> tld_entry t (pre # labels) = Some q)"
proof -
  let ?ds = "tld_descriptions t"
  obtain pre labels levels level p where ap: "all_pieces (tld_max_level t) pre labels levels uri"
    and lv: "level < length labels" and e: "tld_entry t (drop level labels) = Some p"
    and "level = 0 \<or> tld_entry t (drop (level - 1) labels) = None"
    and f: "(r, info) = found_result ?ds uri levels level (exception_entry ?ds uri levels level p)"
    by (rule tld_found_cases [OF assms(1,3,4)])
  have pc: "pieces pre labels levels uri" using ap by (simp add: all_pieces_def)
  define x where "x = exception_entry ?ds uri levels level p"
  have x: "x = p \<or> level = 0 \<and> tld_entry t (pre # labels) = Some x" using exception_entry_cases [OF assms(1) pc lv e] by (simp add: x_def)
  show ?thesis
  proof (cases "d_status (?ds ! x) = Status_Exception")
    case False
    then have "info = found_info ?ds uri levels level x (d_status (?ds ! x))" using f by (simp add: found_result_def x_def)
    then have "names_tld t uri info (pre @ dotted (take level labels)) (drop level labels) x" using found_names [OF pc lv] e by simp
    moreover have "tld_entry t (drop level labels) = Some x \<or> tld_entry t ((pre @ dotted (take level labels)) # drop level labels) = Some x"
      using x e by auto
    ultimately show ?thesis by blast
  next
    case True
    have ln: "labels \<noteq> []" using lv by auto
    obtain xs where "tld_entry t xs = Some x" "xs = drop level labels \<or> xs = pre # labels" using x e by blast
    note names = exception_names [OF assms(2) pc this(1) True this(2) ln]
    from f True have "info = found_info ?ds uri levels (length levels - d_exception_level (?ds ! d_exception_apply_to (?ds ! x)))
        (d_exception_apply_to (?ds ! x)) Status_Valid" by (simp add: found_result_def x_def Let_def)
    then show ?thesis using names by blast
  qed
qed


lemma last_dot_unique: "a @ c # x = b @ c # y \<Longrightarrow> c \<notin> set x \<Longrightarrow> c \<notin> set y \<Longrightarrow> x = y"
proof -
  assume a: "a @ c # x = b @ c # y" "c \<notin> set x" "c \<notin> set y"
  then have "rev x @ c # rev a = rev y @ c # rev b" by (metis append.assoc append_Cons append_Nil rev.simps(2) rev_append)
  then have "takeWhile (\<lambda>z. z \<noteq> c) (rev x @ c # rev a) = takeWhile (\<lambda>z. z \<noteq> c) (rev y @ c # rev b)" by simp
  moreover have "takeWhile (\<lambda>z. z \<noteq> c) (rev u @ c # v) = rev u" if "c \<notin> set u" for u v
    using that by (subst takeWhile_append2) auto
  ultimately show ?thesis using a(2,3) by simp
qed

lemma dotted_inject:
  "dotted as = dotted bs \<Longrightarrow> \<forall>l \<in> set as. CHR ''.'' \<notin> set l \<Longrightarrow> \<forall>l \<in> set bs. CHR ''.'' \<notin> set l \<Longrightarrow> as = bs"
proof (induction as arbitrary: bs rule: rev_induct)
  case Nil
  then show ?case by (cases bs) auto
next
  case (snoc a as)
  show ?case
  proof (cases bs rule: rev_cases)
    case (snoc bs' b)
    with snoc.prems have "dotted as @ CHR ''.'' # a = dotted bs' @ CHR ''.'' # b" by simp
    moreover from this have "a = b" using last_dot_unique snoc snoc.prems(2,3) by (metis in_set_conv_decomp)
    ultimately show ?thesis using snoc snoc.IH [of bs'] snoc.prems(2,3) by simp
  qed (use snoc.prems in simp)
qed

text \<open>
  The top level domain is the longest one that the table has: the labels that are left, when there are any and when the table
  is deep enough for one more, do not lead to an entry.  This holds for a table without exceptions.
\<close>

theorem tld_longest:
  assumes "table_ok t" "\<forall>d \<in> set (tld_descriptions t). d_status d \<noteq> Status_Exception" "tld t uri = (r, info)"
    and "i_tld info = Some (dotted labels)" "uri = pre @ CHR ''.'' # l @ dotted labels" "CHR ''.'' \<notin> set l"
    and "\<forall>l \<in> set labels. CHR ''.'' \<notin> set l" "length labels < tld_max_level t"
  shows "tld_entry t (l # labels) = None"
proof -
  let ?ds = "tld_descriptions t"
  have some: "i_tld info \<noteq> None" using assms(4) by simp
  obtain pre' labels' levels level p where ap: "all_pieces (tld_max_level t) pre' labels' levels uri"
    and lv: "level < length labels'" and e: "tld_entry t (drop level labels') = Some p"
    and long: "level = 0 \<or> tld_entry t (drop (level - 1) labels') = None"
    and f: "(r, info) = found_result ?ds uri levels level (exception_entry ?ds uri levels level p)"
    by (rule tld_found_cases [OF assms(1,3) some])
  have pc: "pieces pre' labels' levels uri" using ap by (simp add: all_pieces_def)
  define x where "x = exception_entry ?ds uri levels level p"
  have "\<exists>ls. tld_entry t ls = Some x" using exception_entry_cases [OF assms(1) pc lv e] e by (auto simp: x_def)
  then have "d_status (?ds ! x) \<noteq> Status_Exception" using assms(2) tld_entry_less [OF assms(1)] by auto
  then have "i_tld info = Some (drop (levels ! level) uri)" using f by (simp add: found_result_def found_info_def x_def)
  then have d: "dotted labels = dotted (drop level labels')"
    using assms(4) levels_suffix [OF pc lv] by (metis append_eq_conv_conj option.inject)
  have nodot: "\<forall>l \<in> set labels'. CHR ''.'' \<notin> set l" using pc by (simp add: pieces_def)
  then have ls: "labels = drop level labels'" using dotted_inject [OF d assms(7)] by (meson in_set_dropD)
  have eq: "pre @ CHR ''.'' # l = pre' @ dotted (take level labels')"
    using levels_suffix(1) [OF pc lv] assms(5) ls by simp
  show ?thesis
  proof (cases level)
    case 0
    then have "CHR ''.'' \<notin> set pre'" using ap assms(8) ls by (simp add: all_pieces_def)
    with eq 0 have False by (metis append_Nil2 dotted_simps(1) in_set_conv_decomp take_0)
    then show ?thesis ..
  next
    case (Suc k)
    have "pre @ CHR ''.'' # l = (pre' @ dotted (take k labels')) @ CHR ''.'' # labels' ! k"
      using eq lv Suc by (simp add: take_Suc_conv_app_nth)
    then have "l = labels' ! k" using last_dot_unique assms(6) nodot lv Suc by (metis Suc_lessD nth_mem)
    then have "l # labels = drop k labels'" using ls lv Suc by (simp add: Cons_nth_drop_Suc)
    then show ?thesis using long Suc by simp
  qed
qed


section \<open>Errors\<close>

fun two_periods :: "string \<Rightarrow> bool" where
  "two_periods (c # d # s) \<longleftrightarrow> c = CHR ''.'' \<and> d = CHR ''.'' \<or> two_periods (d # s)"
| "two_periods _ \<longleftrightarrow> False"

definition last_part :: "string \<Rightarrow> string" where
  "last_part uri = rev (takeWhile (\<lambda>c. c \<noteq> CHR ''.'') (rev uri))"

lemma push_level_facts:
  assumes "2 \<le> limit" "length levels \<le> limit"
  shows "length (push_level limit e levels) \<le> limit" "last (push_level limit e levels) = e" "push_level limit e levels \<noteq> []"
    "length (push_level limit e levels) \<ge> 2 \<longleftrightarrow> levels \<noteq> []"
    "levels \<noteq> [] \<Longrightarrow> push_level limit e levels ! (length (push_level limit e levels) - 2) = last levels"
proof -
  show "length (push_level limit e levels) \<ge> 2 \<longleftrightarrow> levels \<noteq> []" using assms by (cases levels) (auto simp: push_level_def)
  show "push_level limit e levels ! (length (push_level limit e levels) - 2) = last levels" if "levels \<noteq> []"
    using assms that by (cases levels rule: rev_cases) (auto simp: push_level_def nth_append nth_tl)
qed (use assms in \<open>auto simp: push_level_def\<close>)

lemma scan_levels_None:
  assumes "2 \<le> limit" "length levels \<le> limit" "levels \<noteq> [] \<longrightarrow> last levels < e"
  shows "scan_levels limit e s levels = None \<longleftrightarrow> two_periods (if levels \<noteq> [] \<and> Suc (last levels) = e then CHR ''.'' # s else s)"
  using assms(2,3)
proof (induction s arbitrary: e levels)
  case (Cons c s)
  note push = push_level_facts [OF assms(1) Cons.prems(1), of e]
  show ?case
  proof (cases "c = CHR ''.''")
    case True
    have "scan_levels limit (Suc e) s (push_level limit e levels) = None \<longleftrightarrow> two_periods (CHR ''.'' # s)"
      using Cons.IH [of "push_level limit e levels" "Suc e"] push by simp
    moreover have "length (push_level limit e levels) \<ge> 2
        \<and> push_level limit e levels ! (length (push_level limit e levels) - 2) + 1 = push_level limit e levels ! (length (push_level limit e levels) - 1)
      \<longleftrightarrow> levels \<noteq> [] \<and> Suc (last levels) = e"
      using push by (metis One_nat_def Suc_eq_plus1 last_conv_nth)
    ultimately show ?thesis using True by (auto simp: Let_def)
  next
    case False
    have "scan_levels limit (Suc e) s levels = None \<longleftrightarrow> two_periods s"
      using Cons.IH [of levels "Suc e"] Cons.prems by auto
    moreover have "two_periods (c # s) = two_periods s" "two_periods (CHR ''.'' # c # s) = two_periods s" using False by (cases s; simp)+
    ultimately show ?thesis using False by simp
  qed
qed simp

lemma pieces_no_dot: "all_pieces limit pre labels levels uri \<Longrightarrow> 0 < limit \<Longrightarrow> labels = [] \<longleftrightarrow> CHR ''.'' \<notin> set uri"
  by (cases labels) (auto simp: all_pieces_def pieces_def)

lemma pieces_last_part:
  assumes "pieces pre labels levels uri" "labels \<noteq> []"
  shows "last labels = last_part uri"
proof -
  obtain ls l where l: "labels = ls @ [l]" using assms(2) by (metis append_butlast_last_id)
  have "CHR ''.'' \<notin> set (rev l)" using assms(1) l by (simp add: pieces_def)
  then have "takeWhile (\<lambda>c. c \<noteq> CHR ''.'') (rev l @ CHR ''.'' # rev (pre @ dotted ls)) = rev l" by (subst takeWhile_append2) auto
  then show ?thesis using assms(1) l by (simp add: last_part_def pieces_def)
qed



section \<open>A small table\<close>

text \<open>The domains com, uk, co.uk and an exception, library.uk, that applies to uk.\<close>

definition sample_entry :: "tld_status \<Rightarrow> string \<Rightarrow> tld_description" where
  "sample_entry status name = \<lparr>d_category = Category_Country, d_status = status, d_start_offset = USHRT_MAX, d_end_offset = USHRT_MAX,
     d_exception_apply_to = USHRT_MAX, d_exception_level = 0, d_tld = name, d_country = Some ''United Kingdom''\<rparr>"

definition library_table :: "tld_status \<Rightarrow> tld_table" where
  "library_table status = \<lparr>tld_descriptions =
     [sample_entry Status_Valid ''co'', (sample_entry status ''library'')\<lparr>d_exception_apply_to := 3\<rparr>,
      (sample_entry Status_Valid ''com'')\<lparr>d_category := Category_International, d_country := None\<rparr>,
      (sample_entry Status_Unused ''uk'')\<lparr>d_start_offset := 0, d_end_offset := 2, d_exception_level := 1\<rparr>],
     tld_start_offset = 2, tld_end_offset = 4, tld_max_level = 2\<rparr>"

abbreviation sample_table :: tld_table where
  "sample_table \<equiv> library_table Status_Exception"

lemma sample_descriptions:
  "d_tld (tld_descriptions (library_table status) ! 0) = ''co''" "d_tld (tld_descriptions (library_table status) ! Suc 0) = ''library''"
  "d_tld (tld_descriptions (library_table status) ! 2) = ''com''" "d_tld (tld_descriptions (library_table status) ! 3) = ''uk''"
  "d_start_offset (tld_descriptions (library_table status) ! 0) = USHRT_MAX" "d_start_offset (tld_descriptions (library_table status) ! Suc 0) = USHRT_MAX"
  "d_start_offset (tld_descriptions (library_table status) ! 2) = USHRT_MAX" "d_start_offset (tld_descriptions (library_table status) ! 3) = 0"
  "d_end_offset (tld_descriptions (library_table status) ! 3) = 2"
  "tld_start_offset (library_table status) = 2" "tld_end_offset (library_table status) = 4" "tld_max_level (library_table status) = 2"
  "length (tld_descriptions (library_table status)) = 4"
  by (simp_all add: library_table_def sample_entry_def)

lemma small_ranges: "{2..<4::nat} = {2, 3}" "{0..<2::nat} = {0, Suc 0}" "{2..<3::nat} = {2}" "{2..<2::nat} = {}" "{0..<Suc 0} = {0}"
    "{2<..<4::nat} = {3}" "{0<..<2::nat} = {Suc 0}"
  by auto

lemma sample_parts: "sorted_part (tld_descriptions (library_table status)) 2 4" "sorted_part (tld_descriptions (library_table status)) 0 2"
  by (simp_all add: sorted_part_def small_ranges sample_descriptions) (simp_all add: signed_char_def Let_def)

lemma sample_table_ok: "table_ok (library_table status)"
  using sample_parts [of status]
  by (simp add: table_ok_def sample_descriptions) (simp add: library_table_def sample_entry_def USHRT_MAX_def)

lemma sample_find:
  "find_label (tld_descriptions (library_table status)) 2 4 l = (if l = ''com'' then Some 2 else if l = ''uk'' then Some 3 else None)"
  "find_label (tld_descriptions (library_table status)) 0 2 l = (if l = ''co'' then Some 0 else if l = ''library'' then Some 1 else None)"
  by (auto simp: find_label_def wildcard_def library_table_def sample_entry_def upt_conv_Cons numeral_eq_Suc)

lemma sample_path:
  "tld_entry (library_table status) labels = Some p \<longleftrightarrow>
     (labels, p) \<in> {([''com''], 2), ([''uk''], 3), ([''co'', ''uk''], 0), ([''library'', ''uk''], 1)}"
proof -
  let ?ds = "tld_descriptions (library_table status)"
  have u: "0 \<noteq> USHRT_MAX" by (simp add: USHRT_MAX_def)
  have low: "tld_path ?ds 0 2 as = Some p \<longleftrightarrow> (as, p) \<in> {([''co''], 0), ([''library''], 1)}" for as
    by (cases as) (auto simp: sample_find sample_descriptions split: if_splits)
  have "tld_path ?ds 2 4 ls = Some p \<longleftrightarrow>
    (ls, p) \<in> {([''com''], 2), ([''uk''], 3), ([''uk'', ''co''], 0), ([''uk'', ''library''], 1)}" for ls
  proof (cases ls)
    case (Cons a as)
    then show ?thesis using low [of as] u by (auto simp: sample_find sample_descriptions split: if_splits)
  qed simp
  note this [of "rev labels"]
  then show ?thesis by (simp add: tld_entry_def sample_descriptions rev_swap)
qed

lemma sample_exceptions_ok: "exceptions_ok sample_table"
  by (auto simp: exceptions_ok_def sample_path) (simp_all add: library_table_def sample_entry_def)



lemma sample_search:
  "search (tld_descriptions (library_table status)) 2 4 = find_label (tld_descriptions (library_table status)) 2 4"
  "search (tld_descriptions (library_table status)) 0 2 = find_label (tld_descriptions (library_table status)) 0 2"
  by (simp_all add: fun_eq_iff search_find sample_parts)

lemmas sample_eval = tld_def sample_descriptions push_level_def Let_def label_between_def sample_search sample_find exception_entry_def
  found_result_def found_info_def search_empty

lemma sample_exception: "i_tld (snd (tld sample_table ''library.uk'')) = Some ''.uk''"
  by (simp add: sample_eval) (simp add: library_table_def sample_entry_def)

lemma sample_www: "i_tld (snd (tld (library_table Status_Valid) ''www.a.co.uk'')) = Some ''.co.uk''"
  by (simp add: sample_eval) (simp add: library_table_def sample_entry_def USHRT_MAX_def search_empty)

theorem tld_in_table_witness:
  "\<exists>pre labels q. names_tld sample_table ''library.uk'' (snd (tld sample_table ''library.uk'')) pre labels q"
proof -
  obtain r info where "tld sample_table ''library.uk'' = (r, info)" by (cases "tld sample_table ''library.uk''") auto
  then show ?thesis using tld_in_table [OF sample_table_ok sample_exceptions_ok] sample_exception by fastforce
qed


theorem tld_longest_witness: "tld_entry (library_table Status_Valid) [''example'', ''uk''] = None"
proof -
  let ?t = "library_table Status_Valid" and ?u = "''www.example.uk''"
  have no: "\<forall>d \<in> set (tld_descriptions ?t). d_status d \<noteq> Status_Exception" by (simp add: library_table_def sample_entry_def)
  have "i_tld (snd (tld ?t ?u)) = Some (dotted [''uk''])"
    by (simp add: sample_eval) (simp add: library_table_def sample_entry_def USHRT_MAX_def)
  then obtain r info where r: "tld ?t ?u = (r, info)" "i_tld info = Some (dotted [''uk''])" by (metis prod.collapse)
  show ?thesis
    by (rule tld_longest [OF sample_table_ok no r, where pre = "''www''"]) (simp_all add: sample_descriptions)
qed

text \<open>With a neighbor the wildcard does not match every label, as it does alone.\<close>

lemma wildcard_missed:
  "search [sample_entry Status_Valid ''*'', sample_entry Status_Valid ''us-gov-west-1''] 0 2 ''z1'' = None"
  "search [sample_entry Status_Valid ''*'', sample_entry Status_Valid ''us-gov-west-1''] 0 2 ''a1'' = Some 0"
  by (simp_all add: search.simps sample_entry_def cmp_def signed_char_def)

text \<open>A name that is itself an entry: the domain that is returned is only the last part of it.\<close>

lemma whole_name_cut: "i_tld (snd (tld sample_table ''co.uk'')) = Some ''.uk''"
  by (simp add: sample_eval) (simp add: library_table_def sample_entry_def USHRT_MAX_def)

end
