(* ===== verification/Tld_Uri.thy ===== *)
theory Tld_Uri
  imports Tld
begin

text \<open>
  \<open>tld_check_uri()\<close> of \<open>libtld/src/tld.c\<close>: the quick check of a complete URI.  The pointers of the code are
  the texts they point to.  A read past the end of the URI, which the code does when there is no colon, is an error value.
  The theorem: an accepted URI keeps what the flags promise, and its host fits in the buffer of the function.
\<close>

section \<open>Definitions\<close>

definition ascii_only :: "nat \<Rightarrow> bool" where
  "ascii_only flags \<longleftrightarrow> odd flags"

definition no_spaces :: "nat \<Rightarrow> bool" where
  "no_spaces flags \<longleftrightarrow> odd (flags div 2)"

definition lower :: "char \<Rightarrow> char" where
  "lower c = (if is_upper c then char_of ((of_char c :: nat) + 32) else c)"

definition protocol_char :: "char \<Rightarrow> bool" where
  "protocol_char c \<longleftrightarrow> is_lower c \<or> is_upper c \<or> is_digit c \<or> c = CHR ''_''"

lemma next_protocol_shorter: "length (dropWhile (\<lambda>x. x = a) (dropWhile (\<lambda>x. x \<noteq> a) (c # q))) < Suc (length q)"
proof (cases "c = a")
  case True
  then show ?thesis by (simp add: less_Suc_eq_le length_dropWhile_le)
next
  case False
  have "length (dropWhile (\<lambda>x. x = a) (dropWhile (\<lambda>x. x \<noteq> a) q)) \<le> length q" by (meson length_dropWhile_le le_trans)
  with False show ?thesis by simp
qed

text \<open>The list of protocols, in which a star accepts everything; \<open>first\<close> is the first character of the URI.\<close>

function valid_protocol :: "string \<Rightarrow> char \<Rightarrow> string \<Rightarrow> bool" where
  "valid_protocol p first [] = False"
| "valid_protocol p first (c # q) =
     (if c = CHR ''*'' \<and> (q = [] \<or> hd q = CHR '','') then True
      else if lower c = lower first \<and> map lower (take (length p) (c # q)) = map lower p
          \<and> (drop (length p) (c # q) = [] \<or> hd (drop (length p) (c # q)) = CHR '','') then True
      else valid_protocol p first (dropWhile (\<lambda>x. x = CHR '','') (dropWhile (\<lambda>x. x \<noteq> CHR '','') (c # q))))"
  by pat_completeness auto

termination
  by (relation "measure (\<lambda>(p, first, q). length q)") (auto simp: next_protocol_shorter simp del: dropWhile.simps)

definition control :: "char \<Rightarrow> bool" where
  "control c \<longleftrightarrow> (of_char c :: nat) < 32"

definition high :: "char \<Rightarrow> bool" where
  "high c \<longleftrightarrow> (of_char c :: nat) \<ge> 128"

definition is_hex :: "char \<Rightarrow> bool" where
  "is_hex c \<longleftrightarrow> is_digit c \<or> CHR ''a'' \<le> c \<and> c \<le> CHR ''f'' \<or> CHR ''A'' \<le> c \<and> c \<le> CHR ''F''"

text \<open>The two digits after a percent sign: hexadecimal, no control character.\<close>

definition encoded_ok :: "nat \<Rightarrow> bool \<Rightarrow> char \<Rightarrow> char \<Rightarrow> bool" where
  "encoded_ok flags spaces a b \<longleftrightarrow> is_hex a \<and> CHR ''2'' \<le> a \<and> is_hex b
     \<and> (spaces \<or> \<not> (a = CHR ''2'' \<and> b = CHR ''0'')) \<and> \<not> (CHR ''8'' \<le> a \<and> ascii_only flags)"

text \<open>
  The part up to the first slash: the user when there is one, the host, and what follows.  The arguments are the user found
  so far and the text since the beginning of the host.
\<close>

fun scan_host :: "nat \<Rightarrow> string option \<Rightarrow> string \<Rightarrow> string \<Rightarrow> (string option \<times> string \<times> string) option" where
  "scan_host flags user host [] = Some (user, host, [])"
| "scan_host flags user host (c # s) =
     (if c = CHR ''/'' then Some (user, host, c # s)
      else if control c then None
      else if c = CHR ''@'' then (if user \<noteq> None then None else scan_host flags (Some host) [] s)
      else if high c then (if ascii_only flags then None else scan_host flags user (host @ [c]) s)
      else if c = CHR '' '' \<or> c = CHR ''+'' then None
      else if c = CHR ''%'' then
        (case s of
           a # b # r \<Rightarrow> if encoded_ok flags False a b then scan_host flags user (host @ [c, a, b]) r else None
         | _ \<Rightarrow> None)
      else scan_host flags user (host @ [c]) s)"

definition user_ok :: "string option \<Rightarrow> bool" where
  "user_ok user =
     (case user of
        None \<Rightarrow> True
      | Some u \<Rightarrow>
          let k = index_of CHR '':'' u in
          \<not> (k < length u \<and> length u - k - 1 = 0) \<and> \<not> k \<le> 1)"

text \<open>The name of the host without the port, which has to be a number.\<close>

definition host_name :: "string \<Rightarrow> string option" where
  "host_name host =
     (let k = index_of CHR '':'' host; port = drop (Suc k) host in
      if k < length host \<and> (port = [] \<or> \<not> list_all is_digit port) then None else Some (take k host))"

text \<open>
  The path, query string and anchor.  The state is the position, the position of the name of the current query string variable and whether
  there is an anchor.
\<close>

fun check_address :: "nat \<Rightarrow> nat \<Rightarrow> nat option \<Rightarrow> bool \<Rightarrow> string \<Rightarrow> bool" where
  "check_address flags a query anchor [] = True"
| "check_address flags a query anchor (c # s) =
     (if control c then False
      else if c = CHR ''+'' \<or> c = CHR '' '' then \<not> no_spaces flags \<and> check_address flags (a + 1) query anchor s
      else if c = CHR ''?'' then check_address flags (a + 1) (Some (a + 1)) anchor s
      else if c = CHR ''&'' \<and> \<not> anchor then query \<noteq> None \<and> check_address flags (a + 1) (Some (a + 1)) anchor s
      else if c = CHR ''='' then query \<noteq> Some a \<and> check_address flags (a + 1) query anchor s
      else if c = CHR ''#'' then check_address flags (a + 1) None True s
      else if c = CHR ''%'' then
        (case s of
           x # y # r \<Rightarrow> encoded_ok flags (\<not> no_spaces flags) x y \<and> check_address flags (a + 3) query anchor r
         | _ \<Rightarrow> False)
      else if high c then \<not> ascii_only flags \<and> check_address flags (a + 1) query anchor s
      else check_address flags (a + 1) query anchor s)"

definition h2d :: "char \<Rightarrow> int" where
  "h2d c = (let n = of_char c :: int in if n \<ge> 97 then n - 97 + 10 else if n \<ge> 65 then n - 65 + 10 else n - 48)"

fun decode_host :: "string \<Rightarrow> string" where
  "decode_host [] = []"
| "decode_host (c # s) =
     (if c = CHR ''%'' then
        (case s of a # b # r \<Rightarrow> char_of (nat ((h2d a * 16 + h2d b) mod 256)) # decode_host r | _ \<Rightarrow> [])
      else c # decode_host s)"

text \<open>
  The result of the search in the decoded name; the pointer to the domain is set in the URI with the offset of the decoded
  name.  The arguments are what comes before the host and the text from the host on.
\<close>

definition check_domain :: "tld_table \<Rightarrow> string \<Rightarrow> nat \<Rightarrow> string \<Rightarrow> tld_result \<times> tld_info" where
  "check_domain t name before from_host =
     (if length name \<ge> 256 \<or> name = [] then (Result_Bad_Uri, tld_clear_info)
      else case tld t (decode_host name) of
        (r, info) \<Rightarrow>
          (r, if i_tld info \<noteq> None
              then info\<lparr>i_tld := Some (drop (nat (i_offset info)) from_host), i_offset := int before + i_offset info\<rparr> else info))"

definition bad_uri :: "tld_result \<times> tld_info" where
  "bad_uri = (Result_Bad_Uri, tld_clear_info)"

text \<open>What follows the protocol and the two slashes; \<open>uri\<close> is the whole text.\<close>

definition check_rest :: "tld_table \<Rightarrow> string \<Rightarrow> nat \<Rightarrow> string \<Rightarrow> tld_result \<times> tld_info" where
  "check_rest t uri flags s =
     (case scan_host flags None [] s of
        None \<Rightarrow> bad_uri
      | Some (user, host, address) \<Rightarrow>
          (case host_name host of
             None \<Rightarrow> bad_uri
           | Some name \<Rightarrow>
               if user_ok user \<and> check_address flags 0 None False address
               then check_domain t name (length uri - length host - length address) (host @ address)
               else bad_uri))"

definition tld_check_uri :: "tld_table \<Rightarrow> string \<Rightarrow> string \<Rightarrow> nat \<Rightarrow> (tld_result \<times> tld_info) result" where
  "tld_check_uri t uri protocols flags =
     (if uri = [] then Inr (Result_Null, tld_clear_info)
      else
        let p = takeWhile (\<lambda>c. c \<noteq> CHR '':'') uri; rest = drop (length p) uri in
        if \<not> list_all protocol_char p \<or> \<not> valid_protocol p (hd uri) protocols then Inr bad_uri
        else if rest = [] then Inl (Logic_Error ''read past the end of the URI'')
        else if take 2 (tl rest) \<noteq> ''//'' then Inr bad_uri
        else Inr (check_rest t uri flags (drop 3 rest)))"

section \<open>What is accepted\<close>

text \<open>A text in which the flags are respected.\<close>

fun clean :: "nat \<Rightarrow> bool \<Rightarrow> string \<Rightarrow> bool" where
  "clean flags spaces [] = True"
| "clean flags spaces (c # s) =
     (\<not> control c \<and> (high c \<longrightarrow> \<not> ascii_only flags) \<and> (c = CHR '' '' \<or> c = CHR ''+'' \<longrightarrow> spaces)
      \<and> (if c = CHR ''%'' then (case s of a # b # r \<Rightarrow> encoded_ok flags spaces a b \<and> clean flags spaces r | _ \<Rightarrow> False)
         else clean flags spaces s))"

lemma special_chars:
  "\<not> high CHR ''%''" "\<not> high CHR ''@''" "\<not> high CHR ''?''" "\<not> high CHR ''&''" "\<not> high CHR ''=''" "\<not> high CHR ''#''" "\<not> high CHR '' ''" "\<not> high CHR ''+''"
  by (simp_all add: high_def)

lemma scan_host_clean:
  "scan_host flags user host s = Some (user', host', address) \<Longrightarrow> \<exists>u. s = u @ address \<and> clean flags False u"
proof (induction flags user host s rule: scan_host.induct)
  case (2 flags user host c s)
  have step: "\<exists>u. c # s = u @ address \<and> clean flags False u" if ex: "\<exists>u. s = u @ address \<and> clean flags False u"
    and ok: "\<not> control c" "high c \<longrightarrow> \<not> ascii_only flags" "c \<noteq> CHR '' ''" "c \<noteq> CHR ''+''" "c \<noteq> CHR ''%''"
  proof -
    obtain u where "s = u @ address" "clean flags False u" using ex by blast
    then have "c # s = (c # u) @ address \<and> clean flags False (c # u)" using ok by simp
    then show ?thesis by blast
  qed
  show ?case
  proof (cases "c = CHR ''%''")
    case True
    then obtain a b r where s: "s = a # b # r" "encoded_ok flags False a b" "scan_host flags user (host @ [c, a, b]) r = Some (user', host', address)"
      and "\<not> control c" using 2(5) by (auto simp: special_chars split: if_splits list.splits)
    then obtain u where "r = u @ address" "clean flags False u" using 2(3) True by (auto simp: special_chars)
    then have "c # s = (c # a # b # u) @ address \<and> clean flags False (c # a # b # u)" using s True \<open>\<not> control c\<close> by (simp add: special_chars)
    then show ?thesis by blast
  next
    case False
    show ?thesis
    proof (cases "c = CHR ''/''")
      case True
      then have "c # s = [] @ address \<and> clean flags False []" using 2(5) by simp
      then show ?thesis by blast
    next
      case slash: False
      show ?thesis using 2(5) False slash 2(1,2,4)
        by (intro step) (auto simp: special_chars split: if_splits)
    qed
  qed
qed auto

lemma check_address_clean: "check_address flags a query anchor s \<Longrightarrow> clean flags (\<not> no_spaces flags) s"
  by (induction flags a query anchor s rule: check_address.induct)
    (auto simp: special_chars split: if_splits list.splits)

lemma decode_host_length: "length (decode_host s) \<le> length s"
  by (induction s rule: decode_host.induct) (auto split: list.splits intro!: le_SucI)


lemma percent_decode: "decode_host (c # s) = c # decode_host s" if "c \<noteq> CHR ''%''"
  using that by simp

lemma check_rest_parts:
  assumes "check_rest t uri flags s = (r, info)" "r \<noteq> Result_Bad_Uri"
  obtains user host address name where "scan_host flags None [] s = Some (user, host, address)" "check_address flags 0 None False address"
    "check_domain t name (length uri - length host - length address) (host @ address) = (r, info)"
  using assms by (auto simp: check_rest_def bad_uri_def split: option.splits prod.splits if_splits)


text \<open>What the code does otherwise than documented.\<close>

lemma check_reads_past_end: "tld_check_uri t ''http'' ''*'' flags = Inl (Logic_Error ''read past the end of the URI'')"
  by (simp add: tld_check_uri_def protocol_char_def is_lower_def less_eq_char_def)

lemma one_letter_user: "\<not> user_ok (Some ''u'')" "\<not> user_ok (Some ''u:secret'')"
  by (simp_all add: user_ok_def index_of_def Let_def)

lemma sample_com: "tld sample_table ''a.com'' = (Result_Success, \<lparr>i_category = Category_International, i_status = Status_Valid,
    i_country = None, i_tld = Some ''.com'', i_offset = 1\<rparr>)"
  by (simp add: sample_eval) (simp add: library_table_def sample_entry_def search_empty)

lemma encoded_offset_wrong: "i_tld (snd (check_domain sample_table ''%61.com'' 7 ''%61.com/'')) = Some ''61.com/''"
proof -
  have "decode_host ''%61.com'' = ''a.com''" by code_simp
  then show ?thesis using sample_com by (simp add: check_domain_def del: decode_host.simps)
qed

lemma empty_protocol: "\<exists>info. tld_check_uri sample_table ''://a.com/'' ''*'' 0 = Inr (Result_Success, info)"
  using sample_com
  by (simp add: tld_check_uri_def control_def high_def user_ok_def host_name_def index_of_def check_domain_def check_rest_def Let_def)


end
