(* ===== verification/Snap_Uri.thy ===== *)
theory Snap_Uri
  imports Tld Utf8 String_Utils
begin

text \<open>
  \<open>snap_uri.cpp\<close>, the class \<open>snap_uri\<close>: a URI taken apart by \<open>set_uri()\<close> or by the setters, and put together again by
  \<open>get_uri()\<close>.  A text is the list of the bytes of its UTF-8 form, which is the form that the code encodes and decodes; the maps are in
  the order of these bytes.  \<open>QString::fromUtf8()\<close>, \<open>QString::toInt()\<close>, \<open>getservbyname()\<close> and the table of the top level
  domains are in the record \<open>uri_env\<close>.  An exception is an error value, beside the object as the exception leaves it.
\<close>

section \<open>Data\<close>

record uri_env =
  u_from_utf8 :: "string \<Rightarrow> string"
  u_to_int :: "string \<Rightarrow> int option"
  u_service :: "string \<Rightarrow> string \<Rightarrow> int option"
  u_tlds :: tld_table

record snap_uri =
  f_original :: string
  f_protocol :: string
  f_username :: string
  f_password :: string
  f_port :: int
  f_domain :: string
  f_top_level_domain :: string
  f_sub_domains :: "string list"
  f_path :: "string list"
  f_options :: "(string, string) omap"
  f_query_strings :: "(string, string) omap"
  f_anchor :: string

definition new_uri :: snap_uri where
  "new_uri = \<lparr>f_original = [], f_protocol = ''http'', f_username = [], f_password = [], f_port = 80, f_domain = [],
     f_top_level_domain = [], f_sub_domains = [], f_path = [], f_options = [], f_query_strings = [], f_anchor = []\<rparr>"

abbreviation invalid_uri :: snap_error where
  "invalid_uri \<equiv> Invalid_Parameter ''snap_uri_exception_invalid_uri''"

abbreviation invalid_parameter :: snap_error where
  "invalid_parameter \<equiv> Invalid_Parameter ''snap_uri_exception_invalid_parameter''"

abbreviation invalid_path :: snap_error where
  "invalid_path \<equiv> Invalid_Parameter ''snap_uri_exception_invalid_path''"

abbreviation out_of_bounds :: snap_error where
  "out_of_bounds \<equiv> Invalid_Parameter ''snap_uri_exception_out_of_bounds''"

abbreviation exclusive_parameters :: snap_error where
  "exclusive_parameters \<equiv> Invalid_Parameter ''snap_uri_exception_exclusive_parameters''"

section \<open>Encoding\<close>

text \<open>The part before a NUL, where the loops over C strings stop.\<close>

definition cstr :: "string \<Rightarrow> string" where
  "cstr s = takeWhile (\<lambda>c. c \<noteq> CHR 0x00) s"

definition plain_char :: "char \<Rightarrow> bool" where
  "plain_char c \<longleftrightarrow> is_upper c \<or> is_lower c \<or> is_digit c \<or> c = CHR ''.'' \<or> c = CHR ''-'' \<or> c = CHR ''_''"

definition encode_char :: "string \<Rightarrow> char \<Rightarrow> string" where
  "encode_char accepted c =
     (if plain_char c \<or> c \<in> set accepted then [c]
      else [CHR ''%'', to_hex (of_char c div 16), to_hex (of_char c mod 16)])"

definition urlencode :: "string \<Rightarrow> string \<Rightarrow> string" where
  "urlencode accepted uri = concat (map (encode_char accepted) (cstr uri))"

definition hex_at :: "string \<Rightarrow> nat option" where
  "hex_at s = (case s of [] \<Rightarrow> None | c # _ \<Rightarrow> hex_digit_value c)"

definition decoded_char :: "char \<Rightarrow> bool" where
  "decoded_char c \<longleftrightarrow> plain_char c \<or> c \<in> set ''/~!@,;:()''"

definition consE :: "'a \<Rightarrow> 'a list result \<Rightarrow> 'a list result" where
  "consE c r = bindE r (\<lambda>s. Inr (c # s))"

text \<open>
  With \<open>relax\<close>, a percent sign without a first digit stands for itself; without a second digit the value of the first one is
  added and the digit is read again.
\<close>

function decode_loop :: "bool \<Rightarrow> string \<Rightarrow> string result" where
  "decode_loop relax [] = Inr []"
| "decode_loop relax (c # s) =
     (if c = CHR ''+'' then consE CHR '' '' (decode_loop relax s)
      else if c = CHR ''%'' then
        (case hex_at s of
           None \<Rightarrow> if relax then consE CHR ''%'' (decode_loop relax s) else Inl invalid_uri
         | Some h \<Rightarrow>
             (case hex_at (tl s) of
                None \<Rightarrow> if relax then consE (char_of (16 * h)) (decode_loop relax s) else Inl invalid_uri
              | Some l \<Rightarrow> consE (char_of (16 * h + l)) (decode_loop relax (drop 2 s))))
      else if relax \<or> decoded_char c then consE c (decode_loop relax s)
      else Inl invalid_uri)"
  by pat_completeness auto

termination
  by (relation "measure (\<lambda>(relax, s). length s)") auto

definition urldecode :: "uri_env \<Rightarrow> bool \<Rightarrow> string \<Rightarrow> string result" where
  "urldecode env relax uri = bindE (decode_loop relax (cstr uri)) (\<lambda>utf8. Inr (u_from_utf8 env (cstr utf8)))"

fun decode_all :: "uri_env \<Rightarrow> string list \<Rightarrow> string list result" where
  "decode_all env [] = Inr []"
| "decode_all env (s # ss) = bindE (urldecode env False s) (\<lambda>d. consE d (decode_all env ss))"

definition protocol_to_port :: "uri_env \<Rightarrow> string \<Rightarrow> int" where
  "protocol_to_port env protocol =
     (if protocol = ''http'' then 80
      else if protocol = ''https'' then 443
      else if protocol = ''ftp'' then 21
      else if protocol = ''ssh'' then 22
      else if protocol = ''telnet'' then 23
      else if protocol = ''smtp'' then 25
      else if protocol = ''gopher'' then 70
      else case u_service env protocol ''tcp'' of
        Some p \<Rightarrow> p
      | None \<Rightarrow> (case u_service env protocol ''udp'' of Some p \<Rightarrow> p | None \<Rightarrow> - 1))"

section \<open>The domain\<close>

text \<open>The beginning of the domain name: after the last period before the top level domain.\<close>

definition domain_start :: "string \<Rightarrow> nat \<Rightarrow> nat" where
  "domain_start fd offset = offset - length (takeWhile (\<lambda>c. c \<noteq> CHR ''.'') (rev (take offset fd)))"

definition sub_domains_of :: "uri_env \<Rightarrow> string \<Rightarrow> string list option result" where
  "sub_domains_of env all =
     (let names = split_on CHR ''.'' all in
      if all = [] then Inr (Some names)
      else if [] \<in> set names then Inr None
      else bindE (decode_all env names) (\<lambda>ds. Inr (Some ds)))"

text \<open>The sub-domains, the domain and the top level domain; \<open>None\<close> when the function returns false.\<close>

definition process_domain :: "uri_env \<Rightarrow> string \<Rightarrow> (string list \<times> string \<times> string) option result" where
  "process_domain env full_domain_name =
     (let fd = cstr full_domain_name in
      case Tld.tld (u_tlds env) fd of
        (r, info) \<Rightarrow>
          if r \<noteq> Result_Success then Inr None
          else
            let offset = nat (i_offset info); start = domain_start fd offset in
            bindE (urldecode env False (drop offset fd)) (\<lambda>ext.
            bindE (urldecode env False (take (offset - start) (drop start fd))) (\<lambda>domain.
            bindE (sub_domains_of env (take (start - 1) fd)) (\<lambda>subs.
              Inr (map_option (\<lambda>names. (names, domain, ext)) subs)))))"

fun join_text :: "string \<Rightarrow> string list \<Rightarrow> string" where
  "join_text sep [] = []"
| "join_text sep [s] = s"
| "join_text sep (s # t # ss) = s @ sep @ join_text sep (t # ss)"

definition full_domain :: "snap_uri \<Rightarrow> string" where
  "full_domain u =
     (let subs = join_text ''.'' (f_sub_domains u) in
      (if subs = [] then [] else subs @ ''.'') @ f_domain u @ f_top_level_domain u)"

definition set_domain :: "uri_env \<Rightarrow> string \<Rightarrow> snap_uri \<Rightarrow> snap_uri result" where
  "set_domain env full_domain_name u =
     bindE (process_domain env full_domain_name) (\<lambda>r.
       case r of
         None \<Rightarrow> Inl invalid_uri
       | Some (subs, domain, ext) \<Rightarrow> Inr (u\<lparr>f_domain := domain, f_top_level_domain := ext, f_sub_domains := subs\<rparr>))"

section \<open>Reading a URI\<close>

text \<open>The positions of the first colon, of the second one and of the at sign; \<open>None\<close> when the function returns false.\<close>

fun scan_authority :: "nat \<Rightarrow> string \<Rightarrow> nat option \<Rightarrow> nat option \<Rightarrow> nat option \<Rightarrow> (nat option \<times> nat option \<times> nat option) option" where
  "scan_authority i [] colon1 colon2 at = Some (colon1, colon2, at)"
| "scan_authority i (c # s) colon1 colon2 at =
     (if c = CHR '':'' then
        (if colon1 = None then scan_authority (Suc i) s (Some i) colon2 at
         else if at \<noteq> None \<and> colon2 = None then scan_authority (Suc i) s colon1 (Some i) at
         else None)
      else if c = CHR ''@'' then
        (if at \<noteq> None then None else scan_authority (Suc i) s colon1 colon2 (Some i))
      else scan_authority (Suc i) s colon1 colon2 at)"

fun port_loop :: "nat \<Rightarrow> string \<Rightarrow> nat option" where
  "port_loop port [] = Some port"
| "port_loop port (c # s) =
     (if \<not> is_digit c then None
      else let port1 = port * 10 + digit_value c in
        if port1 > 65535 then None else port_loop port1 s)"

text \<open>A piece of the text between two positions, nothing when they are the wrong way round.\<close>

definition piece :: "nat \<Rightarrow> nat \<Rightarrow> string \<Rightarrow> string" where
  "piece a b s = take (b - a) (drop a s)"

text \<open>The user name, password, domain and port; the port is the default one when there is none.\<close>

definition read_port :: "int \<Rightarrow> nat option \<Rightarrow> string \<Rightarrow> int option" where
  "read_port standard colon2 a =
     (case colon2 of
        None \<Rightarrow> Some standard
      | Some k \<Rightarrow> (if drop (k + 1) a = [] then None else map_option int (port_loop 0 (drop (k + 1) a))))"

definition authority_parts :: "nat option \<Rightarrow> nat option \<Rightarrow> nat option \<Rightarrow> string \<Rightarrow> string \<times> string \<times> string" where
  "authority_parts colon1 colon2 at a =
     (let s1 = (case colon1 of None \<Rightarrow> 0 | Some k \<Rightarrow> k + 1);
          s2 = (case at of None \<Rightarrow> s1 | Some k \<Rightarrow> k + 1) in
      (case colon1 of None \<Rightarrow> [] | Some k \<Rightarrow> piece 0 k a,
       case at of None \<Rightarrow> [] | Some k \<Rightarrow> piece s1 k a,
       piece s2 (case colon2 of None \<Rightarrow> length a | Some k \<Rightarrow> k) a))"

definition read_authority :: "int \<Rightarrow> string \<Rightarrow> (string \<times> string \<times> string \<times> int) option" where
  "read_authority standard a =
     (case scan_authority 0 a None None None of
        None \<Rightarrow> None
      | Some (c1, c2, at) \<Rightarrow>
          (let colon1 = (if at = None then None else c1); colon2 = (if at = None \<and> c1 \<noteq> None then c1 else c2) in
           case authority_parts colon1 colon2 at a of
             (username, password, domain) \<Rightarrow>
               (case read_port standard colon2 a of
                  None \<Rightarrow> None
                | Some n \<Rightarrow>
                    if domain = [] \<or> (username = []) \<noteq> (password = []) then None else Some (username, password, domain, n))))"

text \<open>The query string; \<open>None\<close> for a name that is there twice.\<close>

definition query_entry :: "uri_env \<Rightarrow> string \<Rightarrow> (string \<times> string) result" where
  "query_entry env p =
     (let name = takeWhile (\<lambda>c. c \<noteq> CHR ''='') p in
      bindE (urldecode env False (if name = [] then ''*'' else name)) (\<lambda>n.
      bindE (urldecode env False (drop (Suc (length name)) p)) (\<lambda>v. Inr (n, v))))"

lemma next_parameter_shorter:
  assumes "dropWhile (\<lambda>c. c = a) (dropWhile (\<lambda>c. c \<noteq> a) q) \<noteq> []"
  shows "length (dropWhile (\<lambda>c. c = a) (dropWhile (\<lambda>c. c \<noteq> a) q)) < length q"
proof (cases q)
  case (Cons x xs)
  have "length (dropWhile (\<lambda>c. c = a) (dropWhile (\<lambda>c. c \<noteq> a) q)) \<le> length xs"
  proof (cases "x = a")
    case True
    then show ?thesis using Cons by (simp add: length_dropWhile_le)
  next
    case False
    then have "dropWhile (\<lambda>c. c \<noteq> a) q = dropWhile (\<lambda>c. c \<noteq> a) xs" using Cons by simp
    then show ?thesis by (metis length_dropWhile_le le_trans)
  qed
  then show ?thesis using Cons by simp
qed (use assms in simp)

function read_query :: "uri_env \<Rightarrow> (string, string) omap \<Rightarrow> string \<Rightarrow> (string, string) omap option result" where
  "read_query env m q =
     bindE (query_entry env (takeWhile (\<lambda>c. c \<noteq> CHR ''&'') q)) (\<lambda>(n, v).
       if omap_get m n \<noteq> None then Inr None
       else
         let rest = dropWhile (\<lambda>c. c = CHR ''&'') (dropWhile (\<lambda>c. c \<noteq> CHR ''&'') q) in
         if rest = [] then Inr (Some (omap_put n v m)) else read_query env (omap_put n v m) rest)"
  by pat_completeness auto

termination
  by (relation "measure (\<lambda>(env, m, q). length q)") (auto simp: next_parameter_shorter)

declare read_query.simps [simp del]

text \<open>The segments of a path, the anchor and the ``hash bang''.\<close>

definition read_path :: "uri_env \<Rightarrow> string \<Rightarrow> string list result" where
  "read_path env s = decode_all env (split_skip CHR ''/'' s)"

definition read_anchor :: "uri_env \<Rightarrow> string \<Rightarrow> (string list \<times> string) result" where
  "read_anchor env s =
     bindE (urldecode env False s) (\<lambda>p.
       if p \<noteq> [] \<and> hd p = CHR ''!'' then bindE (read_path env (cstr p)) (\<lambda>segs. Inr (segs, []))
       else Inr ([], p))"

definition remove_at :: "nat \<Rightarrow> 'a list \<Rightarrow> 'a list" where
  "remove_at i xs = take i xs @ drop (Suc i) xs"

lemma length_remove_at [simp]: "i < length xs \<Longrightarrow> length (remove_at i xs) = length xs - 1"
  by (simp add: remove_at_def)

function remove_dotdot :: "nat \<Rightarrow> string list \<Rightarrow> string list option" where
  "remove_dotdot i p =
     (if i < length p then
        if p ! i = ''..'' then
          (if i = 0 \<or> length p < 2 then None else remove_dotdot (i - 1) (remove_at (i - 1) (remove_at i p)))
        else remove_dotdot (i + 1) p
      else Some p)"
  by pat_completeness auto

termination
  by (relation "measure (\<lambda>(i, p). length p - i)") auto

declare remove_dotdot.simps [simp del]

record uri_parts =
  p_protocol :: string
  p_username :: string
  p_password :: string
  p_port :: int
  p_domain :: "string list \<times> string \<times> string"
  p_path :: "string list"
  p_query :: "(string, string) omap"
  p_anchor :: string

text \<open>
  What follows the authority, from the first slash on: the path, the query string when there is a question mark, and the anchor when
  there is a hash sign.
\<close>

definition split_tail :: "string \<Rightarrow> string \<times> string option \<times> string option" where
  "split_tail s =
     (let path = takeWhile (\<lambda>c. c \<noteq> CHR ''?'' \<and> c \<noteq> CHR ''#'') (drop 1 s);
          r1 = drop (Suc (length path)) s;
          r2 = dropWhile (\<lambda>c. c \<noteq> CHR ''#'') r1
      in (path,
          if r1 \<noteq> [] \<and> hd r1 = CHR ''?'' then Some (takeWhile (\<lambda>c. c \<noteq> CHR ''#'') (dropWhile (\<lambda>c. c = CHR ''&'') (tl r1))) else None,
          if r2 = [] then None else Some (tl r2)))"

definition read_segments :: "uri_env \<Rightarrow> string list \<Rightarrow> string option \<Rightarrow> (string list option \<times> string) result" where
  "read_segments env segs anchor =
     bindE (case anchor of None \<Rightarrow> Inr ([], []) | Some s \<Rightarrow> read_anchor env s) (\<lambda>(more, text).
       Inr (remove_dotdot 0 (segs @ more), text))"

definition read_tail :: "uri_env \<Rightarrow> string \<Rightarrow> (string list \<times> (string, string) omap \<times> string) option result" where
  "read_tail env s =
     (case split_tail s of
        (path, query, anchor) \<Rightarrow>
          bindE (read_path env path) (\<lambda>segs.
          bindE (case query of None \<Rightarrow> Inr (Some []) | Some q \<Rightarrow> read_query env [] q) (\<lambda>m.
            case m of
              None \<Rightarrow> Inr None
            | Some m \<Rightarrow>
                bindE (read_segments env segs anchor) (\<lambda>(p, text). Inr (map_option (\<lambda>p. (p, m, text)) p)))))"

definition read_uri :: "uri_env \<Rightarrow> string \<Rightarrow> uri_parts option result" where
  "read_uri env uri =
     (let u = cstr uri; protocol = takeWhile (\<lambda>c. c \<noteq> CHR '':'') u; r = drop (length protocol) u; authority = takeWhile (\<lambda>c. c \<noteq> CHR ''/'') (drop 3 r) in
      if protocol = [] \<or> take 3 r \<noteq> ''://'' then Inr None
      else case read_authority (protocol_to_port env protocol) authority of
        None \<Rightarrow> Inr None
      | Some (username, password, domain, port) \<Rightarrow>
          bindE (process_domain env domain) (\<lambda>d.
            case d of
              None \<Rightarrow> Inr None
            | Some d \<Rightarrow>
                bindE (read_tail env (drop (3 + length authority) r)) (\<lambda>t.
                  Inr (map_option (\<lambda>(path, query, anchor).
                    \<lparr>p_protocol = protocol, p_username = username, p_password = password, p_port = port, p_domain = d,
                     p_path = path, p_query = query, p_anchor = anchor\<rparr>) t))))"

text \<open>The assignments at the end.  The user name and password are decoded here, after two members were changed.\<close>

definition assign_uri :: "uri_env \<Rightarrow> string \<Rightarrow> uri_parts \<Rightarrow> snap_uri \<Rightarrow> snap_uri \<times> bool result" where
  "assign_uri env uri p u =
     (let u1 = u\<lparr>f_original := uri, f_protocol := p_protocol p\<rparr> in
      case urldecode env False (p_username p) of
        Inl e \<Rightarrow> (u1, Inl e)
      | Inr username \<Rightarrow>
          let u2 = u1\<lparr>f_username := username\<rparr> in
          (case urldecode env False (p_password p) of
             Inl e \<Rightarrow> (u2, Inl e)
           | Inr password \<Rightarrow>
               (u2\<lparr>f_password := password, f_port := if p_port p \<noteq> - 1 then p_port p else f_port u,
                   f_domain := fst (snd (p_domain p)), f_top_level_domain := snd (snd (p_domain p)), f_sub_domains := fst (p_domain p),
                   f_path := p_path p, f_options := [], f_query_strings := p_query p, f_anchor := p_anchor p\<rparr>, Inr True)))"

definition set_uri :: "uri_env \<Rightarrow> string \<Rightarrow> snap_uri \<Rightarrow> snap_uri \<times> bool result" where
  "set_uri env uri u =
     (case read_uri env uri of
        Inl e \<Rightarrow> (u, Inl e)
      | Inr None \<Rightarrow> (u, Inr False)
      | Inr (Some p) \<Rightarrow> assign_uri env uri p u)"

section \<open>Writing a URI\<close>

definition path :: "bool \<Rightarrow> snap_uri \<Rightarrow> string" where
  "path encoded u = join_text ''/'' (if encoded then map (urlencode ''~'') (f_path u) else f_path u)"

fun query_text :: "string \<Rightarrow> (string, string) omap \<Rightarrow> string" where
  "query_text result [] = result"
| "query_text result ((name, value) # m) =
     query_text (result @ (if result = [] then [] else ''&'') @ urlencode [] name
       @ (if value = [] then [] else CHR ''='' # urlencode '','' value)) m"

definition query_string :: "snap_uri \<Rightarrow> string" where
  "query_string u = query_text [] (f_query_strings u)"

definition port_text :: "uri_env \<Rightarrow> snap_uri \<Rightarrow> string" where
  "port_text env u = (if f_port u \<noteq> protocol_to_port env (f_protocol u) then CHR '':'' # show_int (f_port u) else [])"

definition user_text :: "snap_uri \<Rightarrow> string" where
  "user_text u =
     (if f_username u = [] then []
      else urlencode [] (f_username u) @ (if f_password u = [] then [] else CHR '':'' # urlencode [] (f_password u)) @ ''@'')"

definition path_text :: "snap_uri \<Rightarrow> string" where
  "path_text u = (let p = path True u in if p \<noteq> [] \<and> hd p = CHR ''/'' then tl p else p)"

definition get_uri :: "uri_env \<Rightarrow> bool \<Rightarrow> snap_uri \<Rightarrow> string result" where
  "get_uri env use_hash_bang u =
     (let uri = f_protocol u @ ''://'' @ user_text u @ urlencode [] (full_domain u) @ port_text env u @ ''/''
            @ (if use_hash_bang then [] else path_text u)
            @ (let q = query_string u in if q = [] then [] else CHR ''?'' # q) in
      if f_anchor u \<noteq> [] then
        if use_hash_bang then Inl exclusive_parameters else Inr (uri @ CHR ''#'' # urlencode ''!/~'' (f_anchor u))
      else if use_hash_bang \<and> path True u \<noteq> [] then Inr (uri @ ''#!/'' @ path True u)
      else Inr uri)"

definition get_website_uri :: "uri_env \<Rightarrow> bool \<Rightarrow> snap_uri \<Rightarrow> string" where
  "get_website_uri env include_port u =
     f_protocol u @ ''://'' @ full_domain u @ (if include_port then port_text env u else []) @ ''/''"

section \<open>The other members\<close>

definition part_at :: "'a list \<Rightarrow> int \<Rightarrow> 'a result" where
  "part_at xs part = (if part < 0 \<or> part \<ge> int (length xs) then Inl out_of_bounds else Inr (xs ! nat part))"

definition part_value :: "('k, 'v) omap \<Rightarrow> int \<Rightarrow> 'v result" where
  "part_value m part = bindE (part_at m part) (\<lambda>(k, v). Inr v)"

definition get_part :: "uri_env \<Rightarrow> string \<Rightarrow> int \<Rightarrow> snap_uri \<Rightarrow> string result" where
  "get_part env name part u =
     (if name = ''anchor'' then Inr (f_anchor u)
      else if name = ''domain'' then Inr (f_domain u)
      else if name = ''full-domain'' then Inr (full_domain u)
      else if name = ''option'' then part_value (f_options u) part
      else if name = ''option-count'' then Inr (show_nat (length (f_options u)))
      else if name = ''original'' then Inr (f_original u)
      else if name = ''password'' then Inr (f_password u)
      else if name = ''path'' then part_at (f_path u) part
      else if name = ''path-count'' then Inr (show_nat (length (f_path u)))
      else if name = ''port'' then Inr (show_int (f_port u))
      else if name = ''protocol'' then Inr (f_protocol u)
      else if name = ''query-string'' then part_value (f_query_strings u) part
      else if name = ''query-string-count'' then Inr (show_nat (length (f_query_strings u)))
      else if name = ''sub-domain'' then part_at (f_sub_domains u) part
      else if name = ''sub-domain-count'' then Inr (show_nat (length (f_sub_domains u)))
      else if name = ''tld'' \<or> name = ''top-level-domain'' then Inr (f_top_level_domain u)
      else if name = ''uri'' then get_uri env False u
      else if name = ''username'' then Inr (f_username u)
      else Inr [])"

definition set_protocol :: "string \<Rightarrow> snap_uri \<Rightarrow> snap_uri result" where
  "set_protocol uri_protocol u = (if uri_protocol = [] then Inl invalid_parameter else Inr (u\<lparr>f_protocol := uri_protocol\<rparr>))"

definition sub_domains :: "snap_uri \<Rightarrow> string" where
  "sub_domains u = join_text ''.'' (f_sub_domains u)"

definition sub_domain :: "int \<Rightarrow> snap_uri \<Rightarrow> string result" where
  "sub_domain part u = part_at (f_sub_domains u) part"

definition set_port :: "int \<Rightarrow> snap_uri \<Rightarrow> snap_uri result" where
  "set_port port u = (if port < 0 \<or> port > 65535 then Inl invalid_parameter else Inr (u\<lparr>f_port := port\<rparr>))"

definition set_port_string :: "uri_env \<Rightarrow> string \<Rightarrow> snap_uri \<Rightarrow> snap_uri result" where
  "set_port_string env port u = (case u_to_int env port of None \<Rightarrow> Inl invalid_parameter | Some p \<Rightarrow> set_port p u)"

function remove_dots :: "nat \<Rightarrow> string list \<Rightarrow> string list option" where
  "remove_dots i p =
     (if i < length p then
        if p ! i = ''.'' then remove_dots i (remove_at i p)
        else if p ! i = ''..'' then
          (if i = 0 \<or> length p < 2 then None else remove_dots (i - 1) (remove_at (i - 1) (remove_at i p)))
        else remove_dots (i + 1) p
      else Some p)"
  by pat_completeness auto

termination
  by (relation "measure (\<lambda>(i, p). length p - i)") auto

declare remove_dots.simps [simp del]

definition set_path :: "string \<Rightarrow> snap_uri \<Rightarrow> snap_uri result" where
  "set_path uri_path u =
     (let full = (if (uri_path = [] \<or> hd uri_path \<noteq> CHR ''/'') \<and> f_path u \<noteq> []
                  then join_text ''/'' (f_path u) @ ''/'' @ uri_path else uri_path) in
      case remove_dots 0 (split_skip CHR ''/'' full) of
        None \<Rightarrow> Inl invalid_path
      | Some p \<Rightarrow> Inr (u\<lparr>f_path := p\<rparr>))"

definition path_folder_name :: "int \<Rightarrow> snap_uri \<Rightarrow> string result" where
  "path_folder_name part u = part_at (f_path u) part"

definition put_or_remove :: "string \<Rightarrow> string \<Rightarrow> (string, string) omap \<Rightarrow> (string, string) omap" where
  "put_or_remove name value m = (if value = [] then omap_erase name m else omap_put name value m)"

definition set_option :: "string \<Rightarrow> string \<Rightarrow> snap_uri \<Rightarrow> snap_uri" where
  "set_option name value u = u\<lparr>f_options := put_or_remove name value (f_options u)\<rparr>"

definition unset_option :: "string \<Rightarrow> snap_uri \<Rightarrow> snap_uri" where
  "unset_option name u = u\<lparr>f_options := omap_erase name (f_options u)\<rparr>"

definition get_option :: "string \<Rightarrow> snap_uri \<Rightarrow> string" where
  "get_option name u = (case omap_get (f_options u) name of None \<Rightarrow> [] | Some v \<Rightarrow> v)"

definition option_at :: "int \<Rightarrow> snap_uri \<Rightarrow> (string \<times> string) result" where
  "option_at part u = part_at (f_options u) part"

definition set_query_option :: "string \<Rightarrow> string \<Rightarrow> snap_uri \<Rightarrow> snap_uri" where
  "set_query_option name value u = (if name = [] then u else u\<lparr>f_query_strings := put_or_remove name value (f_query_strings u)\<rparr>)"

definition unset_query_option :: "string \<Rightarrow> snap_uri \<Rightarrow> snap_uri" where
  "unset_query_option name u = (if name = [] then u else u\<lparr>f_query_strings := omap_erase name (f_query_strings u)\<rparr>)"

text \<open>
  The entries before the one that throws stay.  In the assignment to the map the value is evaluated before the entry.
\<close>

definition pair_entry :: "uri_env \<Rightarrow> string \<Rightarrow> (string \<times> string) result" where
  "pair_entry env it =
     (let pos = index_of CHR ''='' it in
      if pos = length it then bindE (urldecode env False it) (\<lambda>n. Inr (n, []))
      else if pos = 0 then bindE (urldecode env False it) (\<lambda>v. Inr (''*'', v))
      else bindE (urldecode env False (drop (pos + 1) it)) (\<lambda>v.
           bindE (urldecode env False (take pos it)) (\<lambda>n. Inr (n, v))))"

fun put_pairs :: "uri_env \<Rightarrow> string list \<Rightarrow> (string, string) omap \<Rightarrow> (string, string) omap \<times> unit result" where
  "put_pairs env [] m = (m, Inr ())"
| "put_pairs env (it # its) m =
     (case pair_entry env it of Inl e \<Rightarrow> (m, Inl e) | Inr (n, v) \<Rightarrow> put_pairs env its (omap_put n v m))"

definition set_query_string :: "uri_env \<Rightarrow> string \<Rightarrow> snap_uri \<Rightarrow> snap_uri \<times> unit result" where
  "set_query_string env s u =
     (case put_pairs env (split_skip CHR ''&'' s) (f_query_strings u) of (m, r) \<Rightarrow> (u\<lparr>f_query_strings := m\<rparr>, r))"

definition clear_query_options :: "snap_uri \<Rightarrow> snap_uri" where
  "clear_query_options u = u\<lparr>f_query_strings := []\<rparr>"

definition has_query_option :: "string \<Rightarrow> snap_uri \<Rightarrow> bool" where
  "has_query_option name u \<longleftrightarrow> name \<noteq> [] \<and> omap_get (f_query_strings u) name \<noteq> None"

definition query_option :: "string \<Rightarrow> snap_uri \<Rightarrow> string" where
  "query_option name u = (if name = [] then [] else case omap_get (f_query_strings u) name of None \<Rightarrow> [] | Some v \<Rightarrow> v)"

definition query_option_at :: "int \<Rightarrow> snap_uri \<Rightarrow> (string \<times> string) result" where
  "query_option_at part u = part_at (f_query_strings u) part"

definition set_anchor :: "string \<Rightarrow> snap_uri \<Rightarrow> snap_uri result" where
  "set_anchor uri_anchor u = (if CHR ''#'' \<in> set uri_anchor then Inl invalid_parameter else Inr (u\<lparr>f_anchor := uri_anchor\<rparr>))"

definition uri_eq :: "uri_env \<Rightarrow> snap_uri \<Rightarrow> snap_uri \<Rightarrow> bool" where
  "uri_eq env u v \<longleftrightarrow> get_uri env False u = get_uri env False v"

definition uri_less :: "uri_env \<Rightarrow> snap_uri \<Rightarrow> snap_uri \<Rightarrow> bool result" where
  "uri_less env u v = bindE (get_uri env False u) (\<lambda>a. bindE (get_uri env False v) (\<lambda>b. Inr (a < b)))"

definition uri_less_eq :: "uri_env \<Rightarrow> snap_uri \<Rightarrow> snap_uri \<Rightarrow> bool result" where
  "uri_less_eq env u v = bindE (get_uri env False u) (\<lambda>a. bindE (get_uri env False v) (\<lambda>b. Inr (a \<le> b)))"

end
