(* ===== verification/Snap_Uri_Laws.thy ===== *)
theory Snap_Uri_Laws
  imports Snap_Uri
begin

text \<open>
  What the class \<open>snap_uri\<close> promises: the encoding of a text is read back; the removal of the periods in a path is the
  usual one with a stack; the members stay in their ranges whatever is called; and \<open>set_uri()\<close> reads back what
  \<open>get_uri()\<close> writes.
\<close>

section \<open>Encoding\<close>

text \<open>What Qt documents of \<open>fromUtf8()\<close>: valid UTF-8 is read as it is.\<close>

definition reads_utf8 :: "uri_env \<Rightarrow> bool" where
  "reads_utf8 env \<longleftrightarrow> (\<forall>s. utf8_text s \<longrightarrow> u_from_utf8 env s = s)"

lemma of_char_pos: "c \<noteq> CHR 0x00 \<Longrightarrow> (of_char c :: nat) > 0"
  using of_char_eq_0 by blast

lemma encode_no_NUL:
  assumes "scalar n"
  shows "CHR 0x00 \<notin> set (encode n)"
proof -
  have "b mod 256 \<noteq> 0" if "b \<in> set (utf8_bytes n)" for b
    using assms that by (auto simp: utf8_bytes_def scalar_def split: if_splits)
  moreover have "b mod 256 = 0" if "char_of b = CHR 0x00" for b :: nat
    using arg_cong [OF that, of "of_char :: char \<Rightarrow> nat"] by simp
  ultimately show ?thesis by (force simp: encode_def)
qed

lemma utf8_text_no_NUL: "utf8_text s \<Longrightarrow> CHR 0x00 \<notin> set s"
  using encode_no_NUL by (fastforce simp: utf8_text_def list_all_iff)

lemma cstr_id: "CHR 0x00 \<notin> set s \<Longrightarrow> cstr s = s"
  by (simp add: cstr_def takeWhile_not_in)

lemma cstr_utf8 [simp]: "utf8_text s \<Longrightarrow> cstr s = s"
  by (simp add: cstr_id utf8_text_no_NUL)

lemma plain_char_not [simp]: "\<not> plain_char CHR ''+''" "\<not> plain_char CHR ''%''" "\<not> plain_char CHR '':''" "\<not> plain_char CHR ''@''"
  "\<not> plain_char CHR ''/''" "\<not> plain_char CHR ''?''" "\<not> plain_char CHR ''#''" "\<not> plain_char CHR ''&''" "\<not> plain_char CHR ''=''"
  "\<not> plain_char CHR ''!''" "\<not> plain_char CHR 0x00"
  by (simp_all add: plain_char_def char_class_defs)

lemma to_hex_plain [simp]: "d < 16 \<Longrightarrow> plain_char (to_hex d)"
  by (auto simp: to_hex_def plain_char_def char_class_defs char_le_of_char)

lemma high_nibble [simp]: "(of_char c :: nat) div 16 < 16"
  using of_char_less_256 [of c] by linarith

lemma encode_char_coded: "x \<in> set (encode_char accepted c) \<Longrightarrow> plain_char x \<or> x = CHR ''%'' \<or> x \<in> set accepted"
  by (auto simp: encode_char_def split: if_splits)

lemma urlencode_coded: "x \<in> set (urlencode accepted s) \<Longrightarrow> plain_char x \<or> x = CHR ''%'' \<or> x \<in> set accepted"
  by (auto simp: urlencode_def dest: encode_char_coded)

lemma urlencode_empty [simp]: "urlencode accepted [] = []"
  by (simp add: urlencode_def cstr_def)

lemma urlencode_Nil [simp]: "urlencode accepted s = [] \<longleftrightarrow> cstr s = []"
  by (cases "cstr s") (simp_all add: urlencode_def encode_char_def)

definition safe :: "string \<Rightarrow> bool" where
  "safe accepted \<longleftrightarrow> (\<forall>c \<in> set accepted. decoded_char c \<and> c \<noteq> CHR ''+'' \<and> c \<noteq> CHR ''%'' \<and> c \<noteq> CHR 0x00)"

lemma safe_used [simp]: "safe []" "safe ''~''" "safe '',''" "safe ''!/~''"
  by (simp_all add: safe_def decoded_char_def)

lemma hex_of_char: "char_of (16 * ((of_char c :: nat) div 16) + of_char c mod 16) = c"
  by simp

lemma decode_encode_char:
  assumes "safe accepted"
  shows "decode_loop relax (encode_char accepted c @ s) = consE c (decode_loop relax s)"
proof (cases "plain_char c \<or> c \<in> set accepted")
  case True
  have "plain_char c \<Longrightarrow> decoded_char c \<and> c \<noteq> CHR ''+'' \<and> c \<noteq> CHR ''%''" by (metis decoded_char_def plain_char_not(1,2))
  then have "decoded_char c" "c \<noteq> CHR ''+''" "c \<noteq> CHR ''%''" using assms True unfolding safe_def by blast+
  then show ?thesis using True by (simp add: encode_char_def)
next
  case False
  then have e: "encode_char accepted c @ s = CHR ''%'' # to_hex (of_char c div 16) # to_hex (of_char c mod 16) # s" by (simp add: encode_char_def)
  have "hex_at (to_hex (of_char c div 16) # to_hex (of_char c mod 16) # s) = Some (of_char c div 16)"
    "hex_at (tl (to_hex (of_char c div 16) # to_hex (of_char c mod 16) # s)) = Some (of_char c mod 16)" by (simp_all add: hex_at_def)
  then show ?thesis unfolding e by (subst decode_loop.simps) (simp add: hex_of_char)
qed

lemma decode_encoded: "safe accepted \<Longrightarrow> decode_loop relax (concat (map (encode_char accepted) s)) = Inr s"
  by (induction s) (simp_all add: decode_encode_char consE_def)

lemma encoded_no_NUL: "safe accepted \<Longrightarrow> CHR 0x00 \<notin> set (urlencode accepted s)"
  using urlencode_coded [of "CHR 0x00" accepted s] by (auto simp: safe_def)

lemma decode_urlencode:
  assumes "reads_utf8 env" "utf8_text s" "safe accepted"
  shows "urldecode env relax (urlencode accepted s) = Inr s"
proof -
  have "cstr (urlencode accepted s) = concat (map (encode_char accepted) s)"
    using assms(2) cstr_id [OF encoded_no_NUL [OF assms(3), of s]] by (simp add: urlencode_def)
  then show ?thesis using assms by (simp add: urldecode_def decode_encoded reads_utf8_def)
qed

lemma urldecode_Nil [simp]: "reads_utf8 env \<Longrightarrow> urldecode env relax [] = Inr []"
  by (simp add: urldecode_def cstr_def reads_utf8_def)

lemma urlencode_plain: "list_all plain_char s \<Longrightarrow> urlencode accepted s = s"
proof -
  assume a: "list_all plain_char s"
  then have "CHR 0x00 \<notin> set s" by (auto simp: list_all_iff)
  then have "urlencode accepted s = concat (map (encode_char accepted) s)" by (simp add: urlencode_def cstr_id)
  also have "\<dots> = s" using a by (induction s) (simp_all add: encode_char_def)
  finally show ?thesis .
qed

section \<open>Periods in a path\<close>

text \<open>The reference: the segments so far are a stack, the last one on top, and two periods take the top away.\<close>

fun resolve :: "string list \<Rightarrow> string list \<Rightarrow> string list option" where
  "resolve st [] = Some (rev st)"
| "resolve st (s # ss) =
     (if s = ''..'' then (case st of [] \<Rightarrow> None | _ # st' \<Rightarrow> resolve st' ss) else resolve (s # st) ss)"

lemma remove_at_append [simp]: "remove_at (length as) (as @ b # bs) = as @ bs"
  by (simp add: remove_at_def)

lemma remove_pair: "remove_at (length as) (remove_at (Suc (length as)) (as @ b # c # bs)) = as @ bs"
  using remove_at_append [of "as @ [b]" c bs] by simp

lemma remove_dotdot_resolve: "remove_dotdot (length st) (rev st @ ss) = resolve st ss"
proof (induction ss arbitrary: st)
  case (Cons s ss)
  show ?case
  proof (cases "s = ''..''")
    case True
    show ?thesis
    proof (cases st)
      case Nil
      then show ?thesis using True by (subst remove_dotdot.simps) simp
    next
      case st: (Cons a as)
      have "remove_dotdot (length st) (rev st @ s # ss) = remove_dotdot (length as) (rev as @ ss)"
        using True st remove_pair [of "rev as" a s ss] by (subst remove_dotdot.simps) (simp add: nth_append)
      then show ?thesis using Cons.IH [of as] True st by simp
    qed
  next
    case False
    have "remove_dotdot (length st) (rev st @ s # ss) = remove_dotdot (length (s # st)) (rev (s # st) @ ss)"
      using False by (subst remove_dotdot.simps) (simp add: nth_append)
    then show ?thesis using Cons.IH [of "s # st"] False by simp
  qed
qed (subst remove_dotdot.simps, simp)

lemma remove_dots_resolve: "remove_dots (length st) (rev st @ ss) = resolve st (filter (\<lambda>s. s \<noteq> ''.'') ss)"
proof (induction ss arbitrary: st)
  case (Cons s ss)
  consider "s = ''.''" | "s = ''..''" | "s \<noteq> ''.''" "s \<noteq> ''..''" by blast
  then show ?case
  proof cases
    case 1
    have "remove_dots (length st) (rev st @ s # ss) = remove_dots (length st) (rev st @ ss)"
      using 1 remove_at_append [of "rev st" s ss] by (subst remove_dots.simps) (simp add: nth_append)
    then show ?thesis using Cons.IH [of st] 1 by simp
  next
    case 2
    show ?thesis
    proof (cases st)
      case Nil
      then show ?thesis using 2 by (subst remove_dots.simps) simp
    next
      case st: (Cons a as)
      have "remove_dots (length st) (rev st @ s # ss) = remove_dots (length as) (rev as @ ss)"
        using 2 st remove_pair [of "rev as" a s ss] by (subst remove_dots.simps) (simp add: nth_append)
      then show ?thesis using Cons.IH [of as] 2 st by simp
    qed
  next
    case 3
    have "remove_dots (length st) (rev st @ s # ss) = remove_dots (length (s # st)) (rev (s # st) @ ss)"
      using 3 by (subst remove_dots.simps) (simp add: nth_append)
    then show ?thesis using Cons.IH [of "s # st"] 3 by simp
  qed
qed (subst remove_dots.simps, simp)

lemmas remove_dotdot_0 = remove_dotdot_resolve [of "[]", simplified]
lemmas remove_dots_0 = remove_dots_resolve [of "[]", simplified]

lemma resolve_subset: "resolve st ss = Some p \<Longrightarrow> set p \<subseteq> set st \<union> (set ss - {''..''})"
  by (induction st ss rule: resolve.induct) (fastforce split: if_splits list.splits)+

lemma resolve_none_left: "list_all (\<lambda>s. s \<noteq> ''..'') ss \<Longrightarrow> resolve st ss = Some (rev st @ ss)"
  by (induction ss arbitrary: st) auto

text \<open>What \<open>set_path()\<close> adds to: nothing for an absolute path.\<close>

definition base_path :: "string \<Rightarrow> snap_uri \<Rightarrow> string list" where
  "base_path p u = (if p \<noteq> [] \<and> hd p = CHR ''/'' then [] else f_path u)"

lemma split_on_join:
  assumes "list_all (\<lambda>s. c \<notin> set s) ss" "ss \<noteq> []"
  shows "split_on c (join_text [c] ss) = ss"
  using assms by (induction "[c]" ss rule: join_text.induct) (simp_all add: split_on_append)

lemma split_on_app: "split_on c (a @ c # b) = split_on c a @ split_on c b"
proof (induction a)
  case (Cons x a)
  obtain p ps where "split_on c a = p # ps" by (cases "split_on c a") simp_all
  with Cons show ?case by auto
qed simp

lemma split_skip_join:
  assumes "list_all (\<lambda>s. c \<notin> set s \<and> s \<noteq> []) ss"
  shows "split_skip c (join_text [c] ss) = ss"
proof (cases "ss = []")
  case False
  have "split_on c (join_text [c] ss) = ss" using assms False by (intro split_on_join) (auto simp: list_all_iff)
  then show ?thesis using assms by (simp add: split_skip_def list_all_iff)
qed (simp add: split_skip_def)

lemma split_skip_app: "split_skip c (a @ [c] @ b) = split_skip c a @ split_skip c b"
  by (simp add: split_skip_def split_on_app)

text \<open>C19.
  \<open>set_path()\<close> resolves the periods as a walk with a stack does: from the folders of the current path, or from the root for a path that
  begins with a slash, each segment is a step down, one period no step, and two periods a step up.  It throws exactly when a step goes
  above the root, and then the object is not changed.
\<close>

theorem set_path_resolves:
  assumes "list_all (\<lambda>s. CHR ''/'' \<notin> set s \<and> s \<noteq> []) (f_path u)"
  shows "set_path p u =
    (case resolve [] (filter (\<lambda>s. s \<noteq> ''.'') (base_path p u @ split_skip CHR ''/'' p)) of
       None \<Rightarrow> Inl invalid_path
     | Some q \<Rightarrow> Inr (u\<lparr>f_path := q\<rparr>))"
proof -
  have j: "split_skip CHR ''/'' (join_text ''/'' (f_path u) @ ''/'' @ p) = f_path u @ split_skip CHR ''/'' p"
    using split_skip_app [of "CHR ''/''" "join_text ''/'' (f_path u)" p] split_skip_join [OF assms] by simp
  have "split_skip CHR ''/'' (if (p = [] \<or> hd p \<noteq> CHR ''/'') \<and> f_path u \<noteq> [] then join_text ''/'' (f_path u) @ ''/'' @ p else p)
      = base_path p u @ split_skip CHR ''/'' p"
    using j by (auto simp: base_path_def)
  then show ?thesis unfolding set_path_def Let_def by (simp add: remove_dots_0 split: option.splits)
qed

theorem set_path_resolves_witness:
  "set_path ''../c/./d'' (new_uri\<lparr>f_path := [''a'', ''b'']\<rparr>) = Inr (new_uri\<lparr>f_path := [''a'', ''c'', ''d'']\<rparr>)"
proof -
  have "split_skip CHR ''/'' ''../c/./d'' = [''..'', ''c'', ''.'', ''d'']" by (simp add: split_skip_def)
  then show ?thesis using set_path_resolves [of "new_uri\<lparr>f_path := [''a'', ''b'']\<rparr>" "''../c/./d''"] by (simp add: base_path_def)
qed

section \<open>The invariant\<close>

definition no_empty :: "(string, string) omap \<Rightarrow> bool" where
  "no_empty m \<longleftrightarrow> list_all (\<lambda>p. snd p \<noteq> []) m"

definition uri_inv :: "snap_uri \<Rightarrow> bool" where
  "uri_inv u \<longleftrightarrow> f_protocol u \<noteq> [] \<and> 0 \<le> f_port u \<and> f_port u \<le> 65535 \<and> ''..'' \<notin> set (f_path u)
     \<and> omap_ok (f_options u) \<and> no_empty (f_options u) \<and> omap_ok (f_query_strings u)"

text \<open>The port of a service has sixteen bits.\<close>

definition services_ok :: "uri_env \<Rightarrow> bool" where
  "services_ok env \<longleftrightarrow> (\<forall>name proto p. u_service env name proto = Some p \<longrightarrow> 0 \<le> p \<and> p \<le> 65535)"

lemma protocol_port_range: "services_ok env \<Longrightarrow> - 1 \<le> protocol_to_port env s \<and> protocol_to_port env s \<le> 65535"
  by (auto simp: services_ok_def protocol_to_port_def split: option.splits) force+

lemma port_loop_bound: "port_loop n s = Some m \<Longrightarrow> n \<le> 65535 \<Longrightarrow> m \<le> 65535"
  by (induction n s rule: port_loop.induct) (auto simp: Let_def split: if_splits)

lemma read_port_range:
  "read_port standard k a = Some n \<Longrightarrow> - 1 \<le> standard \<and> standard \<le> 65535 \<Longrightarrow> - 1 \<le> n \<and> n \<le> 65535"
  by (auto simp: read_port_def dest!: port_loop_bound split: option.splits if_splits)

lemma read_authority_port: "read_authority standard a = Some (us, pw, d, n) \<Longrightarrow> \<exists>k. read_port standard k a = Some n"
  by (auto simp: read_authority_def Let_def split: option.splits prod.splits if_splits)

lemma read_query_ok: "read_query env m q = Inr (Some m') \<Longrightarrow> omap_ok m \<Longrightarrow> omap_ok m'"
proof (induction env m q rule: read_query.induct)
  case (1 env m q)
  obtain e where e: "query_entry env (takeWhile (\<lambda>c. c \<noteq> CHR ''&'') q) = Inr e"
    using 1(2) by (subst (asm) read_query.simps) (auto simp: result_simps)
  define rest where "rest = dropWhile (\<lambda>c. c = CHR ''&'') (dropWhile (\<lambda>c. c \<noteq> CHR ''&'') q)"
  define n where "n = omap_put (fst e) (snd e) m"
  have step: "read_query env m q = (if omap_get m (fst e) \<noteq> None then Inr None
      else if rest = [] then Inr (Some n) else read_query env n rest)"
    by (subst read_query.simps) (simp only: e bindE.simps case_prod_unfold Let_def n_def rest_def)
  have ok: "omap_ok n" using 1(3) by (simp add: n_def)
  have new: "\<not> omap_get m (fst e) \<noteq> None" using step 1(2) by (cases "omap_get m (fst e) \<noteq> None") simp_all
  show ?case
  proof (cases "rest = []")
    case True
    then have "n = m'" using step new 1(2) by simp
    then show ?thesis using ok by simp
  next
    case False
    then have "read_query env n rest = Inr (Some m')" using step new 1(2) by simp
    then show ?thesis using 1(1) [OF e prod.collapse [of e] new rest_def False] ok unfolding n_def by blast
  qed
qed

lemma read_tail_ok: "read_tail env s = Inr (Some (p, m, a)) \<Longrightarrow> ''..'' \<notin> set p \<and> omap_ok m"
proof -
  assume "read_tail env s = Inr (Some (p, m, a))"
  then have "(\<exists>segs. remove_dotdot 0 segs = Some p) \<and> (m = [] \<or> (\<exists>q. read_query env [] q = Inr (Some m)))"
    by (auto simp: read_tail_def read_segments_def result_simps split: option.splits prod.splits)
  then show ?thesis using read_query_ok [of env "[]" _ m] resolve_subset [of "[]" _ p] by (auto simp: remove_dotdot_0)
qed

lemma read_uri_ok:
  assumes "services_ok env" "read_uri env uri = Inr (Some p)"
  shows "p_protocol p \<noteq> []" "- 1 \<le> p_port p" "p_port p \<le> 65535" "''..'' \<notin> set (p_path p)" "omap_ok (p_query p)"
proof -
  obtain pr us pw d n t where a: "pr \<noteq> []" "p_protocol p = pr" "p_port p = n" "(p_path p, p_query p, p_anchor p) = t"
    "\<exists>a. read_authority (protocol_to_port env pr) a = Some (us, pw, d, n)" "\<exists>s. read_tail env s = Inr (Some t)"
    using assms(2) by (auto simp: read_uri_def Let_def result_simps split: if_splits option.splits prod.splits) blast
  then show "p_protocol p \<noteq> []" "''..'' \<notin> set (p_path p)" "omap_ok (p_query p)" using read_tail_ok by (auto; blast)+
  from a(5) obtain a' k where "read_port (protocol_to_port env pr) k a' = Some n" using read_authority_port by blast
  then show "- 1 \<le> p_port p" "p_port p \<le> 65535" using read_port_range protocol_port_range [OF assms(1), of pr] a(3) by blast+
qed

datatype uri_op =
    Set_Uri string | Set_Protocol string | Set_Domain string | Set_Port int | Set_Port_String string | Set_Path string
  | Set_Option string string | Unset_Option string | Set_Query_Option string string | Unset_Query_Option string
  | Set_Query_String string | Clear_Query_Options | Set_Anchor string

definition or_keep :: "snap_uri \<Rightarrow> snap_uri result \<Rightarrow> snap_uri" where
  "or_keep u r = (case r of Inl _ \<Rightarrow> u | Inr v \<Rightarrow> v)"

fun uri_step :: "uri_env \<Rightarrow> snap_uri \<Rightarrow> uri_op \<Rightarrow> snap_uri" where
  "uri_step env u (Set_Uri s) = fst (set_uri env s u)"
| "uri_step env u (Set_Protocol s) = or_keep u (set_protocol s u)"
| "uri_step env u (Set_Domain s) = or_keep u (set_domain env s u)"
| "uri_step env u (Set_Port n) = or_keep u (set_port n u)"
| "uri_step env u (Set_Port_String s) = or_keep u (set_port_string env s u)"
| "uri_step env u (Set_Path s) = or_keep u (set_path s u)"
| "uri_step env u (Set_Option n v) = set_option n v u"
| "uri_step env u (Unset_Option n) = unset_option n u"
| "uri_step env u (Set_Query_Option n v) = set_query_option n v u"
| "uri_step env u (Unset_Query_Option n) = unset_query_option n u"
| "uri_step env u (Set_Query_String s) = fst (set_query_string env s u)"
| "uri_step env u Clear_Query_Options = clear_query_options u"
| "uri_step env u (Set_Anchor s) = or_keep u (set_anchor s u)"

lemma assign_uri_inv:
  assumes "uri_inv u" "p_protocol p \<noteq> []" "- 1 \<le> p_port p" "p_port p \<le> 65535" "''..'' \<notin> set (p_path p)" "omap_ok (p_query p)"
  shows "uri_inv (fst (assign_uri env uri p u))"
  using assms by (auto simp: assign_uri_def uri_inv_def no_empty_def Let_def split: sum.splits)

lemma set_uri_inv: "services_ok env \<Longrightarrow> uri_inv u \<Longrightarrow> uri_inv (fst (set_uri env s u))"
  using read_uri_ok [of env s] assign_uri_inv [of u] by (auto simp: set_uri_def split: sum.splits option.splits)

lemma put_pairs_ok: "omap_ok m \<Longrightarrow> omap_ok (fst (put_pairs env its m))"
  by (induction env its m rule: put_pairs.induct) (auto split: sum.splits)

lemma put_or_remove_ok: "omap_ok m \<Longrightarrow> omap_ok (put_or_remove n v m)"
  by (simp add: put_or_remove_def)

lemma no_empty_simps [simp]: "no_empty []" "no_empty m \<Longrightarrow> no_empty (put_or_remove n w m)" "no_empty m \<Longrightarrow> no_empty (omap_erase n m)"
  using omap_put_set [of n w m] by (auto simp: no_empty_def put_or_remove_def omap_erase_def list_all_iff)

lemma set_path_inv: "uri_inv u \<Longrightarrow> set_path s u = Inr v \<Longrightarrow> uri_inv v"
  using resolve_subset [of "[]"] by (fastforce simp: set_path_def uri_inv_def Let_def remove_dots_0 split: option.splits)

lemma set_domain_inv: "uri_inv u \<Longrightarrow> set_domain env s u = Inr v \<Longrightarrow> uri_inv v"
  by (auto simp: set_domain_def uri_inv_def result_simps split: option.splits)

lemma simple_setters_inv:
  assumes "uri_inv u"
  shows "set_protocol s u = Inr v \<Longrightarrow> uri_inv v" "set_port n u = Inr v \<Longrightarrow> uri_inv v" "set_port_string env s u = Inr v \<Longrightarrow> uri_inv v"
    "set_anchor s u = Inr v \<Longrightarrow> uri_inv v" "uri_inv (set_option s w u)" "uri_inv (unset_option s u)" "uri_inv (set_query_option s w u)"
    "uri_inv (unset_query_option s u)" "uri_inv (clear_query_options u)" "uri_inv (fst (set_query_string env s u))"
proof -
  show "uri_inv v" if "set_protocol s u = Inr v" using that assms by (auto simp: set_protocol_def uri_inv_def split: if_splits)
  show port: "uri_inv v" if "set_port n u = Inr v" for n using that assms by (auto simp: set_port_def uri_inv_def split: if_splits)
  show "uri_inv v" if "set_port_string env s u = Inr v" using that port by (auto simp: set_port_string_def split: option.splits)
  show "uri_inv v" if "set_anchor s u = Inr v" using that assms by (auto simp: set_anchor_def uri_inv_def split: if_splits)
  show "uri_inv (set_option s w u)" "uri_inv (unset_option s u)" using assms by (simp_all add: set_option_def unset_option_def uri_inv_def put_or_remove_ok)
  show "uri_inv (set_query_option s w u)" "uri_inv (unset_query_option s u)" "uri_inv (clear_query_options u)"
    using assms by (simp_all add: set_query_option_def unset_query_option_def clear_query_options_def uri_inv_def put_or_remove_ok)
  show "uri_inv (fst (set_query_string env s u))"
    using assms put_pairs_ok [of "f_query_strings u" env "split_skip CHR ''&'' s"] by (simp add: set_query_string_def uri_inv_def case_prod_unfold)
qed

lemma or_keep_inv: "uri_inv u \<Longrightarrow> (\<And>v. r = Inr v \<Longrightarrow> uri_inv v) \<Longrightarrow> uri_inv (or_keep u r)"
  by (cases r) (simp_all add: or_keep_def)

lemma uri_step_inv: "services_ok env \<Longrightarrow> uri_inv u \<Longrightarrow> uri_inv (uri_step env u op)"
  by (cases op) (auto intro!: or_keep_inv set_uri_inv simple_setters_inv(5-10) intro: simple_setters_inv(1-4) set_path_inv set_domain_inv)

interpretation uri_machine: inv_machine "\<lambda>u op. Inr (uri_step env u op)" "\<lambda>u. services_ok env \<longrightarrow> uri_inv u" for env
  by unfold_locales (auto intro: uri_step_inv)

lemma uri_run: "runE (\<lambda>u op. Inr (uri_step env u op)) u ops = Inr (foldl (uri_step env) u ops)"
  by (induction ops arbitrary: u) simp_all

text \<open>C18.
  Whatever is called on a URI object, and whichever of these calls throw or return false, its protocol is not empty, its port is a port number, no folder of
  its path is two periods, its two maps are sorted without a name twice, and no option has an empty value.
\<close>

theorem uri_invariant:
  assumes "services_ok env"
  shows "uri_inv (foldl (uri_step env) new_uri ops)"
  using uri_machine.run_inv [OF _ uri_run, of env new_uri ops] assms by (auto simp: uri_inv_def new_uri_def)

definition sample_env :: uri_env where
  "sample_env = \<lparr>u_from_utf8 = (\<lambda>s. s), u_to_int = (\<lambda>_. None), u_service = (\<lambda>n p. if n = ''nntp'' then Some 119 else None),
     u_tlds = sample_table\<rparr>"

theorem uri_invariant_witness:
  "uri_inv (foldl (uri_step sample_env) new_uri [Set_Path ''a/../b'', Set_Port 70000, Set_Option ''a'' ''b''])
     \<and> f_path (foldl (uri_step sample_env) new_uri [Set_Path ''a/../b'', Set_Port 70000, Set_Option ''a'' ''b'']) = [''b'']"
proof -
  have "services_ok sample_env" by (simp add: services_ok_def sample_env_def)
  moreover have "set_path ''a/../b'' new_uri = Inr (new_uri\<lparr>f_path := [''b'']\<rparr>)"
    by (simp add: set_path_def split_skip_def remove_dots_0 new_uri_def)
  ultimately show ?thesis using uri_invariant [of sample_env "[Set_Path ''a/../b'', Set_Port 70000, Set_Option ''a'' ''b'']"]
    by (simp add: or_keep_def set_port_def set_option_def)
qed

section \<open>The domain\<close>

lemma ascii_utf8: "\<forall>c \<in> set s. 0 < (of_char c :: nat) \<and> (of_char c :: nat) < 128 \<Longrightarrow> utf8_text s"
proof -
  assume a: "\<forall>c \<in> set s. 0 < (of_char c :: nat) \<and> (of_char c :: nat) < 128"
  have "encode (of_char c) = [c]" if "c \<in> set s" for c using a that by (simp add: encode_def utf8_bytes_def)
  then have "map encode (map of_char s) = map (\<lambda>c. [c]) s" by simp
  moreover have "concat (map (\<lambda>c. [c]) s) = s" by (induction s) simp_all
  ultimately have "concat (map encode (map of_char s)) = s" by metis
  moreover have "list_all scalar (map of_char s)" using a by (auto simp: list_all_iff scalar_def)
  ultimately show ?thesis unfolding utf8_text_def by metis
qed

lemma plain_char_ascii: "plain_char c \<Longrightarrow> 0 < (of_char c :: nat) \<and> (of_char c :: nat) < 128"
  by (auto simp: plain_char_def char_class_defs char_le_of_char)

lemma decode_plain: "reads_utf8 env \<Longrightarrow> list_all plain_char s \<Longrightarrow> urldecode env relax s = Inr s"
  using decode_urlencode [of env s "[]" relax] ascii_utf8 [of s] plain_char_ascii by (simp add: urlencode_plain list_all_iff)

lemma decode_all_plain: "reads_utf8 env \<Longrightarrow> list_all (list_all plain_char) ss \<Longrightarrow> decode_all env ss = Inr ss"
  by (induction ss) (simp_all add: decode_plain consE_def)

text \<open>The parts of a domain, written with plain characters only, that the library of top level domains cuts at this place.\<close>

definition domain_ok :: "uri_env \<Rightarrow> snap_uri \<Rightarrow> bool" where
  "domain_ok env u \<longleftrightarrow> list_all plain_char (full_domain u) \<and> CHR ''.'' \<notin> set (f_domain u)
     \<and> (f_sub_domains u = [[]] \<or> f_sub_domains u \<noteq> [] \<and> list_all (\<lambda>s. s \<noteq> [] \<and> CHR ''.'' \<notin> set s) (f_sub_domains u))
     \<and> (\<exists>info. tld (u_tlds env) (full_domain u) = (Result_Success, info)
          \<and> i_offset info = int (length (full_domain u)) - int (length (f_top_level_domain u)))"

lemma domain_ok_not_Nil: "domain_ok env u \<Longrightarrow> full_domain u \<noteq> []"
  by (auto simp: domain_ok_def tld_def)

lemma join_text_Nil: "list_all (\<lambda>s. s \<noteq> []) ss \<Longrightarrow> join_text sep ss = [] \<longleftrightarrow> ss = []"
  by (induction sep ss rule: join_text.induct) auto

lemma join_text_set: "x \<in> set (join_text sep ss) \<Longrightarrow> x \<in> set sep \<or> (\<exists>s \<in> set ss. x \<in> set s)"
  by (induction sep ss rule: join_text.induct) auto

lemma set_join_text: "s \<in> set ss \<Longrightarrow> set s \<subseteq> set (join_text sep ss)"
  by (induction sep ss rule: join_text.induct) auto

lemma domain_start_last:
  assumes "CHR ''.'' \<notin> set d" "a = [] \<or> last a = CHR ''.''"
  shows "domain_start (a @ d @ t) (length (a @ d)) = length a"
proof -
  have "takeWhile (\<lambda>c. c \<noteq> CHR ''.'') (rev d @ rev a) = rev d"
  proof (cases a rule: rev_cases)
    case (snoc b x)
    have "takeWhile (\<lambda>c. c \<noteq> CHR ''.'') (rev d @ CHR ''.'' # rev b) = rev d" by (subst takeWhile_append2) (use assms(1) in auto)
    then show ?thesis using assms(2) snoc by simp
  qed (use assms(1) in \<open>simp add: takeWhile_not_in\<close>)
  then show ?thesis by (simp add: domain_start_def)
qed

lemma process_domain_reads:
  assumes "reads_utf8 env" "domain_ok env u"
  shows "process_domain env (full_domain u) = Inr (Some (f_sub_domains u, f_domain u, f_top_level_domain u))"
proof -
  define j where "j = join_text ''.'' (f_sub_domains u)"
  define a where "a = (if j = [] then [] else j @ ''.'')"
  let ?fd = "full_domain u" and ?d = "f_domain u" and ?t = "f_top_level_domain u"
  have fd: "?fd = a @ ?d @ ?t" by (simp add: full_domain_def a_def j_def Let_def)
  have plain: "list_all plain_char a" "list_all plain_char ?d" "list_all plain_char ?t" using assms(2) fd by (auto simp: domain_ok_def)
  have c: "cstr ?fd = ?fd" using assms(2) by (intro cstr_id) (auto simp: domain_ok_def list_all_iff)
  obtain info where info: "tld (u_tlds env) ?fd = (Result_Success, info)" "nat (i_offset info) = length (a @ ?d)"
    using assms(2) fd by (auto simp: domain_ok_def)
  have start: "domain_start ?fd (length (a @ ?d)) = length a"
    unfolding fd by (rule domain_start_last) (use assms(2) in \<open>auto simp: domain_ok_def a_def\<close>)
  have subs: "sub_domains_of env (take (length a - 1) ?fd) = Inr (Some (f_sub_domains u))"
  proof (cases "f_sub_domains u = [[]]")
    case True
    then show ?thesis by (simp add: a_def j_def sub_domains_of_def)
  next
    case False
    then have l: "f_sub_domains u \<noteq> []" "list_all (\<lambda>s. s \<noteq> [] \<and> CHR ''.'' \<notin> set s) (f_sub_domains u)" using assms(2) by (auto simp: domain_ok_def)
    then have j: "j \<noteq> []" unfolding j_def by (subst join_text_Nil) (auto simp: list_all_iff)
    have "split_on CHR ''.'' j = f_sub_domains u" unfolding j_def using l by (intro split_on_join) (auto simp: list_all_iff)
    moreover have "[] \<notin> set (f_sub_domains u)" using l(2) by (auto simp: list_all_iff)
    moreover have "list_all (list_all plain_char) (f_sub_domains u)"
      using plain(1) j set_join_text [of _ "f_sub_domains u" "''.''"] by (auto simp: a_def j_def list_all_iff)
    moreover have "take (length a - 1) ?fd = j" using j by (simp add: fd a_def)
    ultimately show ?thesis using j decode_all_plain [OF assms(1)] by (simp add: sub_domains_of_def Let_def)
  qed
  have "take (length (a @ ?d) - length a) (drop (length a) ?fd) = ?d" "drop (length (a @ ?d)) ?fd = ?t" by (simp_all add: fd)
  then show ?thesis using subs decode_plain [OF assms(1)] plain
    unfolding process_domain_def Let_def c info(1) by (simp only: prod.case info(2) start bindE.simps) simp
qed

section \<open>The authority\<close>

lemma scan_skip:
  "CHR '':'' \<notin> set s \<Longrightarrow> CHR ''@'' \<notin> set s \<Longrightarrow> scan_authority i (s @ t) c1 c2 at = scan_authority (i + length s) t c1 c2 at"
  by (induction s arbitrary: i) auto

lemma port_loop_value:
  "\<forall>c \<in> set s. is_digit c \<Longrightarrow> foldl (\<lambda>v c. v * 10 + digit_value c) n s \<le> 65535
     \<Longrightarrow> port_loop n s = Some (foldl (\<lambda>v c. v * 10 + digit_value c) n s)"
proof (induction s arbitrary: n)
  case (Cons c s)
  have mono: "k \<le> foldl (\<lambda>v c. v * 10 + digit_value c) k s" for k
  proof (induction s arbitrary: k)
    case (Cons a s)
    from Cons.IH [of "k * 10 + digit_value a"] show ?case by simp
  qed simp
  have "n * 10 + digit_value c \<le> 65535" using Cons.prems(2) mono [of "n * 10 + digit_value c"] by simp
  then show ?case using Cons by (simp add: Let_def)
qed simp

lemma port_loop_show: "n \<le> 65535 \<Longrightarrow> port_loop 0 (show_nat n) = Some n"
  using port_loop_value [of "show_nat n" 0] show_nat_digits [of n] dec_value_show_nat [of n] by (simp add: dec_value_def)

text \<open>A domain with a port, when it is not the standard one.\<close>

definition port_suffix :: "int \<Rightarrow> int \<Rightarrow> string" where
  "port_suffix standard port = (if port \<noteq> standard then CHR '':'' # show_int port else [])"

definition coded :: "string \<Rightarrow> bool" where
  "coded s \<longleftrightarrow> (\<forall>x \<in> set s. plain_char x \<or> x = CHR ''%'')"

lemma coded_not:
  assumes "coded s"
  shows "CHR '':'' \<notin> set s" "CHR ''@'' \<notin> set s" "CHR ''/'' \<notin> set s" "CHR ''?'' \<notin> set s" "CHR ''#'' \<notin> set s" "CHR ''&'' \<notin> set s"
    "CHR ''='' \<notin> set s" "CHR 0x00 \<notin> set s"
  using assms plain_char_not unfolding coded_def by force+

lemma coded_urlencode [simp]: "coded (urlencode [] s)"
  unfolding coded_def using urlencode_coded [of _ "[]" s] by simp

lemma coded_plain: "list_all plain_char s \<Longrightarrow> coded s"
  by (simp add: coded_def list_all_iff)

lemma show_int_port: "0 \<le> port \<Longrightarrow> show_int port = show_nat (nat port)"
  by (simp add: show_int_def)

lemma show_nat_not_colon: "CHR '':'' \<notin> set (show_nat n)" "CHR ''@'' \<notin> set (show_nat n)" "CHR ''/'' \<notin> set (show_nat n)" "CHR 0x00 \<notin> set (show_nat n)"
  by (simp_all add: is_digit_def)

lemma read_port_suffix:
  assumes "0 \<le> port" "port \<le> 65535" "port \<noteq> standard"
  shows "read_port standard (Some (length a)) (a @ CHR '':'' # show_int port) = Some port"
  using assms port_loop_show [of "nat port"] by (simp add: read_port_def show_int_port)

lemma read_authority_domain:
  assumes "coded fd" "fd \<noteq> []" "0 \<le> port" "port \<le> 65535"
  shows "read_authority standard (fd @ port_suffix standard port) = Some ([], [], fd, port)"
proof (cases "port = standard")
  case True
  have "scan_authority 0 fd None None None = Some (None, None, None)"
    using scan_skip [of fd 0 "[]" None None None] coded_not [OF assms(1)] by simp
  then show ?thesis using True assms(2)
    by (simp add: port_suffix_def read_authority_def authority_parts_def piece_def read_port_def)
next
  case False
  have "scan_authority 0 (fd @ CHR '':'' # show_nat (nat port)) None None None = Some (Some (length fd), None, None)"
    using scan_skip [of fd 0 "CHR '':'' # show_nat (nat port)" None None None] coded_not [OF assms(1)]
      scan_skip [of "show_nat (nat port)" "Suc (length fd)" "[]" "Some (length fd)" None None] show_nat_not_colon by simp
  then show ?thesis using False assms read_port_suffix [OF assms(3,4) False, of fd]
    by (simp add: port_suffix_def read_authority_def authority_parts_def piece_def show_int_port)
qed

lemma read_authority_user:
  assumes "coded us" "coded pw" "coded fd" "us \<noteq> []" "pw \<noteq> []" "fd \<noteq> []" "0 \<le> port" "port \<le> 65535"
  shows "read_authority standard (us @ CHR '':'' # pw @ CHR ''@'' # fd @ port_suffix standard port) = Some (us, pw, fd, port)"
proof -
  let ?k = "length us" and ?a = "Suc (length us + length pw)"
  have scan: "scan_authority 0 (us @ CHR '':'' # pw @ CHR ''@'' # fd @ t) None None None
      = scan_authority (Suc (?a + length fd)) t (Some ?k) None (Some ?a)" for t
    using scan_skip [of us 0 "CHR '':'' # pw @ CHR ''@'' # fd @ t" None None None] coded_not [OF assms(1)]
      scan_skip [of pw "Suc ?k" "CHR ''@'' # fd @ t" "Some ?k" None None] coded_not [OF assms(2)]
      scan_skip [of fd "Suc ?a" t "Some ?k" None "Some ?a"] coded_not [OF assms(3)] by simp
  have parts: "authority_parts (Some ?k) c2 (Some ?a) (us @ CHR '':'' # pw @ CHR ''@'' # fd @ t) = (us, pw, fd)"
    if "c2 = None \<and> t = [] \<or> c2 = Some (Suc (?a + length fd))" for t c2
    using that by (auto simp: authority_parts_def piece_def)
  show ?thesis
  proof (cases "port = standard")
    case True
    then show ?thesis using scan [of "[]"] parts [of None "[]"] assms(4-6)
      by (simp add: port_suffix_def read_authority_def read_port_def)
  next
    case False
    have "scan_authority (Suc (?a + length fd)) (CHR '':'' # show_nat (nat port)) (Some ?k) None (Some ?a) = Some (Some ?k, Some (Suc (?a + length fd)), Some ?a)"
      using scan_skip [of "show_nat (nat port)" "Suc (Suc (?a + length fd))" "[]" "Some ?k" "Some (Suc (?a + length fd))" "Some ?a"] show_nat_not_colon by simp
    then show ?thesis using False scan [of "CHR '':'' # show_nat (nat port)"] parts [of "Some (Suc (?a + length fd))" "CHR '':'' # show_nat (nat port)"]
        assms(4-8) read_port_suffix [OF assms(7,8) False, of "us @ CHR '':'' # pw @ CHR ''@'' # fd"]
      by (simp add: port_suffix_def read_authority_def show_int_port add.assoc)
  qed
qed

section \<open>The path, the query string and the anchor\<close>

lemma decode_all_encoded:
  assumes "reads_utf8 env" "list_all utf8_text ss"
  shows "decode_all env (map (urlencode ''~'') ss) = Inr ss"
  using assms(2) by (induction ss) (simp_all add: decode_urlencode [OF assms(1)] consE_def)

lemma coded_path:
  assumes "x \<in> set (path True u)"
  shows "plain_char x \<or> x = CHR ''%'' \<or> x = CHR ''~'' \<or> x = CHR ''/''"
  using assms join_text_set [of x "''/''" "map (urlencode ''~'') (f_path u)"] urlencode_coded [of x "''~''"] by (auto simp: path_def)

lemma path_segments:
  assumes "list_all (\<lambda>s. utf8_text s \<and> s \<noteq> []) (f_path u)"
  shows "split_skip CHR ''/'' (path True u) = map (urlencode ''~'') (f_path u)" "path_text u = path True u"
proof -
  have e: "urlencode ''~'' s \<noteq> []" "CHR ''/'' \<notin> set (urlencode ''~'' s)" if "s \<in> set (f_path u)" for s
    using assms that urlencode_coded [of "CHR ''/''" "''~''" s] by (auto simp: list_all_iff)
  then show "split_skip CHR ''/'' (path True u) = map (urlencode ''~'') (f_path u)"
    unfolding path_def by (simp only: if_True) (rule split_skip_join, auto simp: list_all_iff)
  show "path_text u = path True u"
  proof (cases "f_path u")
    case (Cons s ss)
    have "hd (path True u) = hd (urlencode ''~'' s)" using e(1) [of s] Cons by (cases ss) (simp_all add: path_def)
    moreover have "hd (urlencode ''~'' s) \<noteq> CHR ''/''" using e [of s] Cons hd_in_set by (metis list.set_intros(1))
    ultimately show ?thesis by (simp add: path_text_def Let_def)
  qed (simp add: path_text_def path_def)
qed

definition entry_text :: "string \<times> string \<Rightarrow> string" where
  "entry_text p = urlencode [] (fst p) @ (if snd p = [] then [] else CHR ''='' # urlencode '','' (snd p))"

definition entry_ok :: "string \<times> string \<Rightarrow> bool" where
  "entry_ok p \<longleftrightarrow> fst p \<noteq> [] \<and> utf8_text (fst p) \<and> utf8_text (snd p)"

lemma entry_text_facts:
  assumes "entry_ok p"
  shows "entry_text p \<noteq> []" "CHR ''&'' \<notin> set (entry_text p)" "CHR ''#'' \<notin> set (entry_text p)" "CHR 0x00 \<notin> set (entry_text p)"
proof -
  show "entry_text p \<noteq> []" using assms by (simp add: entry_text_def entry_ok_def)
  have "plain_char x \<or> x = CHR ''%'' \<or> x = CHR ''='' \<or> x = CHR '',''" if "x \<in> set (entry_text p)" for x
    using that urlencode_coded [of x] by (auto simp: entry_text_def split: if_splits dest!: urlencode_coded)
  note this [of "CHR ''&''"] this [of "CHR ''#''"] this [of "CHR 0x00"]
  then show "CHR ''&'' \<notin> set (entry_text p)" "CHR ''#'' \<notin> set (entry_text p)" "CHR 0x00 \<notin> set (entry_text p)" by auto
qed

lemma query_text_joined: "list_all entry_ok m \<Longrightarrow> r \<noteq> [] \<Longrightarrow> query_text r m = r @ concat (map (\<lambda>p. CHR ''&'' # entry_text p) m)"
  by (induction r m rule: query_text.induct) (simp_all add: entry_text_def)

lemma query_text_first:
  "list_all entry_ok (p # m) \<Longrightarrow> query_text [] (p # m) = entry_text p @ concat (map (\<lambda>p. CHR ''&'' # entry_text p) m)"
proof -
  assume ok: "list_all entry_ok (p # m)"
  have "query_text [] (p # m) = query_text (entry_text p) m" by (cases p) (simp add: entry_text_def)
  then show ?thesis using ok query_text_joined [of m "entry_text p"] entry_text_facts(1) [of p] by simp
qed

lemma read_entry:
  assumes "reads_utf8 env" "entry_ok p"
  shows "query_entry env (entry_text p) = Inr p"
proof -
  let ?n = "urlencode [] (fst p)"
  have "takeWhile (\<lambda>c. c \<noteq> CHR ''='') (entry_text p) = ?n"
  proof (cases "snd p = []")
    case False
    then show ?thesis unfolding entry_text_def using coded_not(7) [OF coded_urlencode, of "fst p"] by (simp add: takeWhile_stop)
  qed (use coded_not(7) [OF coded_urlencode, of "fst p"] in \<open>simp add: entry_text_def takeWhile_not_in\<close>)
  moreover have "drop (Suc (length ?n)) (entry_text p) = (if snd p = [] then [] else urlencode '','' (snd p))" by (simp add: entry_text_def)
  moreover have "?n \<noteq> []" using assms(2) by (simp add: entry_ok_def)
  ultimately show ?thesis using assms decode_urlencode [OF assms(1)] by (cases p) (simp add: query_entry_def Let_def entry_ok_def)
qed

lemma read_query_entries:
  assumes "reads_utf8 env"
  shows "list_all entry_ok (p # m) \<Longrightarrow> omap_ok (m0 @ p # m)
    \<Longrightarrow> read_query env m0 (entry_text p @ concat (map (\<lambda>p. CHR ''&'' # entry_text p) m)) = Inr (Some (m0 @ p # m))"
proof (induction m arbitrary: m0 p)
  case (Cons q m)
  define t where "t = entry_text q @ concat (map (\<lambda>p. CHR ''&'' # entry_text p) m)"
  have ok: "entry_ok p" "entry_ok q" using Cons.prems(1) by simp_all
  note f = entry_text_facts [OF ok(1)] and g = entry_text_facts [OF ok(2)]
  have tw: "takeWhile (\<lambda>c. c \<noteq> CHR ''&'') (entry_text p @ CHR ''&'' # t) = entry_text p" using f(2) by (rule takeWhile_stop)
  have dw: "dropWhile (\<lambda>c. c \<noteq> CHR ''&'') (entry_text p @ CHR ''&'' # t) = CHR ''&'' # t" using f(2) by (rule dropWhile_stop)
  have "t \<noteq> [] \<and> hd t \<noteq> CHR ''&''" using g(1,2) by (cases "entry_text q") (auto simp: t_def)
  then have dt: "dropWhile (\<lambda>c. c = CHR ''&'') (CHR ''&'' # t) = t" "t \<noteq> []" by (simp_all add: dropWhile_hd)
  have keys: "\<forall>k \<in> fst ` set m0. k < fst p" using Cons.prems(2) by (auto simp: omap_ok_def sorted_wrt_append)
  have get: "\<not> omap_get m0 (fst p) \<noteq> None" using keys by (auto simp: map_of_eq_None_iff)
  have put: "omap_put (fst p) (snd p) m0 = m0 @ [p]" using omap_put_last [OF keys, of "snd p"] by simp
  have "read_query env m0 (entry_text p @ CHR ''&'' # t) = read_query env (m0 @ [p]) t"
    by (subst read_query.simps) (simp only: tw dw dt read_entry [OF assms ok(1)] bindE.simps case_prod_unfold Let_def get put if_False)
  also have "\<dots> = Inr (Some ((m0 @ [p]) @ q # m))" unfolding t_def using Cons.IH [of q "m0 @ [p]"] Cons.prems by simp
  finally show ?case by (simp add: t_def)
next
  case Nil
  have ok: "entry_ok p" using Nil.prems(1) by simp
  note f = entry_text_facts [OF ok]
  have keys: "\<forall>k \<in> fst ` set m0. k < fst p" using Nil.prems(2) by (auto simp: omap_ok_def sorted_wrt_append)
  have get: "\<not> omap_get m0 (fst p) \<noteq> None" using keys by (auto simp: map_of_eq_None_iff)
  have put: "omap_put (fst p) (snd p) m0 = m0 @ [p]" using omap_put_last [OF keys, of "snd p"] by simp
  have tw: "takeWhile (\<lambda>c. c \<noteq> CHR ''&'') (entry_text p) = entry_text p" using f(2) by (rule takeWhile_not_in)
  have dw: "dropWhile (\<lambda>c. c = CHR ''&'') (dropWhile (\<lambda>c. c \<noteq> CHR ''&'') (entry_text p)) = []"
    unfolding dropWhile_none [OF f(2)] by simp
  have "read_query env m0 (entry_text p) = Inr (Some (m0 @ [p]))"
    by (subst read_query.simps) (simp only: tw dw read_entry [OF assms ok] bindE.simps case_prod_unfold Let_def get put if_False if_True simp_thms)
  then show ?case by simp
qed

lemma split_tail_parts:
  assumes "CHR ''?'' \<notin> set p" "CHR ''#'' \<notin> set p" "CHR ''#'' \<notin> set q" "q = [] \<or> hd q \<noteq> CHR ''&''"
  shows "split_tail (CHR ''/'' # p @ (if q = [] then [] else CHR ''?'' # q) @ (if h = [] then [] else CHR ''#'' # h))
    = (p, if q = [] then None else Some q, if h = [] then None else Some h)"
proof -
  let ?P = "\<lambda>c. c \<noteq> CHR ''?'' \<and> c \<noteq> CHR ''#''"
  define r where "r = (if q = [] then [] else CHR ''?'' # q) @ (if h = [] then [] else CHR ''#'' # h)"
  have "takeWhile ?P (p @ r) = p" using assms(1,2) by (induction p) (auto simp: r_def)
  moreover have "dropWhile (\<lambda>c. c \<noteq> CHR ''#'') r = (if h = [] then [] else CHR ''#'' # h)"
    using assms(3) by (auto simp: r_def dropWhile_none dropWhile_stop)
  moreover have "takeWhile (\<lambda>c. c \<noteq> CHR ''#'') (dropWhile (\<lambda>c. c = CHR ''&'') (tl r)) = q" if "q \<noteq> []"
  proof -
    have "dropWhile (\<lambda>c. c = CHR ''&'') (tl r) = q @ (if h = [] then [] else CHR ''#'' # h)"
      using assms(4) that by (cases q) (simp_all add: r_def)
    then show ?thesis using assms(3) by (simp add: takeWhile_not_in takeWhile_stop)
  qed
  ultimately show ?thesis using assms(3) by (simp add: split_tail_def Let_def r_def [symmetric]) (simp add: r_def)
qed

text \<open>A URI object that \<open>get_uri()\<close> can put in one line.\<close>

definition canonical :: "uri_env \<Rightarrow> snap_uri \<Rightarrow> bool" where
  "canonical env u \<longleftrightarrow> f_protocol u \<noteq> [] \<and> CHR '':'' \<notin> set (f_protocol u) \<and> CHR 0x00 \<notin> set (f_protocol u)
     \<and> utf8_text (f_username u) \<and> utf8_text (f_password u) \<and> (f_username u = [] \<longleftrightarrow> f_password u = [])
     \<and> 0 \<le> f_port u \<and> f_port u \<le> 65535 \<and> domain_ok env u
     \<and> list_all (\<lambda>s. utf8_text s \<and> s \<noteq> [] \<and> s \<noteq> ''..'') (f_path u)
     \<and> omap_ok (f_query_strings u) \<and> list_all entry_ok (f_query_strings u)
     \<and> utf8_text (f_anchor u) \<and> (f_anchor u = [] \<or> hd (f_anchor u) \<noteq> CHR ''!'')"

definition tail_text :: "snap_uri \<Rightarrow> string" where
  "tail_text u = CHR ''/'' # path True u @ (if query_string u = [] then [] else CHR ''?'' # query_string u)
     @ (if urlencode ''!/~'' (f_anchor u) = [] then [] else CHR ''#'' # urlencode ''!/~'' (f_anchor u))"

lemma query_string_facts:
  assumes "list_all entry_ok (f_query_strings u)"
  shows "query_string u = [] \<longleftrightarrow> f_query_strings u = []" "CHR ''#'' \<notin> set (query_string u)" "CHR 0x00 \<notin> set (query_string u)"
    "query_string u = [] \<or> hd (query_string u) \<noteq> CHR ''&''"
proof -
  have "((query_string u = []) = (f_query_strings u = [])) \<and> CHR ''#'' \<notin> set (query_string u) \<and> CHR 0x00 \<notin> set (query_string u)
      \<and> (query_string u = [] \<or> hd (query_string u) \<noteq> CHR ''&'')"
  proof (cases "f_query_strings u")
    case (Cons p m)
    note ok = assms [unfolded Cons]
    have q: "query_string u = entry_text p @ concat (map (\<lambda>p. CHR ''&'' # entry_text p) m)" using query_text_first [OF ok] by (simp add: query_string_def Cons)
    have p: "entry_text p \<noteq> []" "CHR ''&'' \<notin> set (entry_text p)" using ok entry_text_facts by auto
    have "\<forall>x \<in> set (p # m). CHR ''#'' \<notin> set (entry_text x) \<and> CHR 0x00 \<notin> set (entry_text x)"
      using ok entry_text_facts(3,4) unfolding list_all_iff by blast
    then show ?thesis using p Cons unfolding q by (cases "entry_text p") auto
  qed (simp add: query_string_def)
  then show "query_string u = [] \<longleftrightarrow> f_query_strings u = []" "CHR ''#'' \<notin> set (query_string u)" "CHR 0x00 \<notin> set (query_string u)"
    "query_string u = [] \<or> hd (query_string u) \<noteq> CHR ''&''" by blast+
qed

lemma read_tail_text:
  assumes "reads_utf8 env" "canonical env u"
  shows "read_tail env (tail_text u) = Inr (Some (f_path u, f_query_strings u, f_anchor u))"
proof -
  have ok: "list_all entry_ok (f_query_strings u)" using assms(2) by (simp add: canonical_def)
  note q = query_string_facts [OF ok]
  have p: "CHR ''?'' \<notin> set (path True u)" "CHR ''#'' \<notin> set (path True u)" using coded_path by force+
  have path: "list_all (\<lambda>s. utf8_text s \<and> s \<noteq> []) (f_path u)" "list_all utf8_text (f_path u)" "list_all (\<lambda>s. s \<noteq> ''..'') (f_path u)"
    using assms(2) by (auto simp: canonical_def list_all_iff)
  have segs: "read_path env (path True u) = Inr (f_path u)"
    unfolding read_path_def path_segments(1) [OF path(1)] by (rule decode_all_encoded [OF assms(1) path(2)])
  have query: "(case (if query_string u = [] then None else Some (query_string u)) of None \<Rightarrow> Inr (Some []) | Some q \<Rightarrow> read_query env [] q)
      = Inr (Some (f_query_strings u))"
  proof (cases "f_query_strings u")
    case (Cons e m)
    then have "query_string u = entry_text e @ concat (map (\<lambda>p. CHR ''&'' # entry_text p) m)" using ok query_text_first by (simp add: query_string_def)
    then show ?thesis using read_query_entries [OF assms(1), of e m "[]"] ok Cons assms(2) q(1) by (simp add: canonical_def)
  qed (use q(1) in simp)
  let ?h = "urlencode ''!/~'' (f_anchor u)"
  have anchor: "utf8_text (f_anchor u)" "f_anchor u = [] \<or> hd (f_anchor u) \<noteq> CHR ''!''" using assms(2) by (simp_all add: canonical_def)
  have "read_segments env (f_path u) (if ?h = [] then None else Some ?h) = Inr (Some (f_path u), f_anchor u)"
    using decode_urlencode [OF assms(1) anchor(1)] anchor resolve_none_left [OF path(3), of "[]"]
    by (auto simp: read_segments_def read_anchor_def remove_dotdot_0)
  then show ?thesis unfolding read_tail_def tail_text_def split_tail_parts [OF p q(2,4)] by (simp only: prod.case segs query bindE.simps option.case) simp
qed

definition authority_text :: "uri_env \<Rightarrow> snap_uri \<Rightarrow> string" where
  "authority_text env u = user_text u @ full_domain u @ port_text env u"

lemma get_uri_text:
  assumes "canonical env u"
  shows "get_uri env False u = Inr (f_protocol u @ ''://'' @ authority_text env u @ tail_text u)"
proof -
  have p: "path_text u = path True u" using assms by (intro path_segments) (auto simp: canonical_def list_all_iff)
  have "urlencode [] (full_domain u) = full_domain u" using assms by (simp add: canonical_def domain_ok_def urlencode_plain)
  moreover have "cstr (f_anchor u) = f_anchor u" using assms by (simp add: canonical_def)
  ultimately show ?thesis by (simp add: get_uri_def Let_def authority_text_def tail_text_def p)
qed

lemma read_authority_text:
  assumes "canonical env u"
  shows "read_authority (protocol_to_port env (f_protocol u)) (authority_text env u)
    = Some (urlencode [] (f_username u), urlencode [] (f_password u), full_domain u, f_port u)"
proof -
  have c: "coded (full_domain u)" "full_domain u \<noteq> []" "0 \<le> f_port u" "f_port u \<le> 65535" "utf8_text (f_username u)" "utf8_text (f_password u)"
    "f_username u = [] \<longleftrightarrow> f_password u = []"
    using assms domain_ok_not_Nil [of env u] by (auto simp: canonical_def domain_ok_def coded_plain)
  have port: "port_text env u = port_suffix (protocol_to_port env (f_protocol u)) (f_port u)" by (simp add: port_text_def port_suffix_def)
  show ?thesis
  proof (cases "f_username u = []")
    case True
    then show ?thesis using c read_authority_domain [OF c(1-4)] by (simp add: authority_text_def user_text_def port)
  next
    case False
    then show ?thesis
      using c read_authority_user [OF coded_urlencode coded_urlencode c(1) _ _ c(2-4), of "f_username u" "f_password u"]
      by (simp add: authority_text_def user_text_def port)
  qed
qed

lemma canonical_no_special:
  assumes "canonical env u"
  shows "CHR ''/'' \<notin> set (authority_text env u)" "CHR 0x00 \<notin> set (authority_text env u)" "CHR 0x00 \<notin> set (tail_text u)"
proof -
  have u: "coded (full_domain u)" "0 \<le> f_port u" using assms by (auto simp: canonical_def domain_ok_def coded_plain)
  show "CHR ''/'' \<notin> set (authority_text env u)" "CHR 0x00 \<notin> set (authority_text env u)"
    using coded_not [OF u(1)] coded_not [OF coded_urlencode] show_nat_not_colon u(2)
    by (simp_all add: authority_text_def user_text_def port_text_def show_int_port)
  have "CHR 0x00 \<notin> set (query_string u)" using assms by (intro query_string_facts) (simp add: canonical_def)
  moreover have "CHR 0x00 \<notin> set (path True u)" using coded_path by force
  ultimately show "CHR 0x00 \<notin> set (tail_text u)" using encoded_no_NUL [of "''!/~''" "f_anchor u"] by (simp add: tail_text_def)
qed

definition parts_of :: "snap_uri \<Rightarrow> uri_parts" where
  "parts_of u = \<lparr>p_protocol = f_protocol u, p_username = urlencode [] (f_username u), p_password = urlencode [] (f_password u),
     p_port = f_port u, p_domain = (f_sub_domains u, f_domain u, f_top_level_domain u), p_path = f_path u,
     p_query = f_query_strings u, p_anchor = f_anchor u\<rparr>"

lemma read_canonical:
  assumes "reads_utf8 env" "canonical env u"
  shows "read_uri env (f_protocol u @ ''://'' @ authority_text env u @ tail_text u) = Inr (Some (parts_of u))"
proof -
  let ?p = "f_protocol u" and ?a = "authority_text env u" and ?t = "tail_text u"
  have c: "?p \<noteq> []" "CHR '':'' \<notin> set ?p" "CHR 0x00 \<notin> set ?p" "domain_ok env u" using assms(2) by (simp_all add: canonical_def)
  note n = canonical_no_special [OF assms(2)]
  have cs: "cstr (?p @ ''://'' @ ?a @ ?t) = ?p @ ''://'' @ ?a @ ?t" by (rule cstr_id) (use c(3) n in simp)
  have p: "takeWhile (\<lambda>c. c \<noteq> CHR '':'') (?p @ ''://'' @ ?a @ ?t) = ?p" using takeWhile_stop [OF c(2)] by simp
  have d: "drop (length ?p) (?p @ ''://'' @ ?a @ ?t) = ''://'' @ ?a @ ?t" by simp
  have a: "takeWhile (\<lambda>c. c \<noteq> CHR ''/'') (drop 3 (''://'' @ ?a @ ?t)) = ?a"
    using takeWhile_stop [OF n(1)] by (simp add: tail_text_def)
  have t: "drop (3 + length ?a) (''://'' @ ?a @ ?t) = ?t" by (simp add: numeral_eq_Suc)
  show ?thesis
    unfolding read_uri_def Let_def cs p d a t read_authority_text [OF assms(2)] process_domain_reads [OF assms(1) c(4)]
      option.case prod.case bindE.simps read_tail_text [OF assms] using c(1) by (simp add: parts_of_def)
qed

lemma uri_read_back:
  assumes "reads_utf8 env" "canonical env u"
  obtains s where "get_uri env False u = Inr s" "set_uri env s v = (u\<lparr>f_original := s, f_options := []\<rparr>, Inr True)"
proof
  let ?s = "f_protocol u @ ''://'' @ authority_text env u @ tail_text u"
  show "get_uri env False u = Inr ?s" by (rule get_uri_text [OF assms(2)])
  have "urldecode env False (urlencode [] (f_username u)) = Inr (f_username u)" "urldecode env False (urlencode [] (f_password u)) = Inr (f_password u)"
    "f_port u \<noteq> - 1"
    using assms(2) decode_urlencode [OF assms(1)] by (auto simp: canonical_def)
  then show "set_uri env ?s v = (u\<lparr>f_original := ?s, f_options := []\<rparr>, Inr True)"
    unfolding set_uri_def read_canonical [OF assms] by (simp add: assign_uri_def parts_of_def)
qed


interpretation url_codec: codec "urlencode accepted" "urldecode env relax" Inr "\<lambda>s. reads_utf8 env \<and> safe accepted \<and> utf8_text s" for accepted env relax
  by unfold_locales (auto intro: decode_urlencode)

text \<open>The object without what is not part of the text.\<close>

definition bare :: "snap_uri \<Rightarrow> snap_uri" where
  "bare u = u\<lparr>f_original := [], f_options := []\<rparr>"

definition reread :: "uri_env \<Rightarrow> string result \<Rightarrow> snap_uri" where
  "reread env r = (case r of Inl _ \<Rightarrow> new_uri | Inr s \<Rightarrow> bare (fst (set_uri env s new_uri)))"

lemma bare_fields [simp]: "f_protocol (bare u) = f_protocol u" "f_username (bare u) = f_username u" "f_password (bare u) = f_password u"
  "f_port (bare u) = f_port u" "f_domain (bare u) = f_domain u" "f_top_level_domain (bare u) = f_top_level_domain u"
  "f_sub_domains (bare u) = f_sub_domains u" "f_path (bare u) = f_path u" "f_query_strings (bare u) = f_query_strings u"
  "f_anchor (bare u) = f_anchor u" "bare (bare u) = bare u"
  by (simp_all add: bare_def)

lemma bare_texts [simp]: "full_domain (bare u) = full_domain u" "user_text (bare u) = user_text u" "port_text env (bare u) = port_text env u"
  "path b (bare u) = path b u" "path_text (bare u) = path_text u" "query_string (bare u) = query_string u"
  by (simp_all add: full_domain_def user_text_def port_text_def path_text_def path_def query_string_def)

lemma bare_simps [simp]: "canonical env (bare u) = canonical env u" "get_uri env b (bare u) = get_uri env b u"
  by (simp_all add: canonical_def domain_ok_def get_uri_def Let_def)

interpretation uri_codec: codec "get_uri env False" "reread env" "\<lambda>u. u" "\<lambda>u. reads_utf8 env \<and> canonical env u \<and> u = bare u" for env
proof unfold_locales
  fix u assume u: "reads_utf8 env \<and> canonical env u \<and> u = bare u"
  then obtain s where "get_uri env False u = Inr s" "set_uri env s new_uri = (u\<lparr>f_original := s, f_options := []\<rparr>, Inr True)"
    using uri_read_back [of env u new_uri] by blast
  moreover have "bare (u\<lparr>f_original := s, f_options := []\<rparr>) = bare u" by (simp add: bare_def)
  ultimately show "reread env (get_uri env False u) = u" using u by (simp add: reread_def)
qed

text \<open>
  The comparison of two URIs, which compares the texts, is true exactly when all of the parts that are in the text are the same.
\<close>

theorem uri_equality:
  assumes "reads_utf8 env" "canonical env u" "canonical env v"
  shows "uri_eq env u v \<longleftrightarrow> bare u = bare v"
  using uri_codec.enc_inject [of env "bare u" "bare v"] assms by (simp add: uri_eq_def)

section \<open>Samples\<close>

lemma sample_reads: "reads_utf8 sample_env"
  by (simp add: reads_utf8_def sample_env_def)

definition sample_uri :: snap_uri where
  "sample_uri = new_uri\<lparr>f_username := ''u'', f_password := ''p'', f_port := 8080, f_domain := ''a'', f_top_level_domain := ''.com'',
     f_sub_domains := [''www''], f_path := [''x y'', ''z''], f_query_strings := [(''k'', ''1''), (''l'', [])], f_anchor := ''end''\<rparr>"

lemma sample_ascii: "utf8_text ''u''" "utf8_text ''p''" "utf8_text ''x y''" "utf8_text ''z''" "utf8_text ''k''" "utf8_text ''l''" "utf8_text ''1''" "utf8_text ''end''"
  by (rule ascii_utf8, simp)+

lemma sample_domain: "tld sample_table ''www.a.com'' = (Result_Success, \<lparr>i_category = Category_International, i_status = Status_Valid,
    i_country = None, i_tld = Some ''.com'', i_offset = 5\<rparr>)"
  by (simp add: sample_eval) (simp add: library_table_def sample_entry_def search_empty)

lemma sample_canonical: "canonical sample_env sample_uri"
proof -
  have "full_domain sample_uri = ''www.a.com''" by (simp add: full_domain_def sample_uri_def new_uri_def)
  then have "domain_ok sample_env sample_uri" using sample_domain
    by (simp add: domain_ok_def sample_env_def sample_uri_def new_uri_def plain_char_def char_class_defs)
  then show ?thesis using sample_ascii
    by (simp add: canonical_def entry_ok_def omap_ok_def) (simp add: sample_uri_def new_uri_def entry_ok_def omap_ok_def)
qed


theorem uri_equality_witness: "\<not> uri_eq sample_env sample_uri (sample_uri\<lparr>f_port := 80\<rparr>)"
proof -
  have "canonical sample_env (sample_uri\<lparr>f_port := 80\<rparr>)" using sample_canonical by (simp add: canonical_def domain_ok_def full_domain_def)
  then show ?thesis using uri_equality [OF sample_reads sample_canonical] by (simp add: bare_def sample_uri_def new_uri_def)
qed

text \<open>
  Decoding gives back every text that was encoded, in the strict and in the relaxed mode, whichever of the characters that the
  decoder accepts were left as they are.
\<close>

theorem urlencode_roundtrip:
  assumes "reads_utf8 env" "utf8_text s" "safe accepted"
  shows "urldecode env relax (urlencode accepted s) = Inr s"
  using assms by (rule decode_urlencode)

theorem urlencode_roundtrip_witness: "urldecode sample_env False (urlencode ''~'' ''x y'') = Inr ''x y''"
  by (rule urlencode_roundtrip) (simp_all add: sample_reads sample_ascii)

text \<open>What the code does otherwise than documented.\<close>

lemma plain_com: "process_domain sample_env ''a.com'' = Inr (Some ([[]], ''a'', ''.com''))"
proof -
  have "tld sample_table ''a.com'' = (Result_Success, \<lparr>i_category = Category_International, i_status = Status_Valid,
      i_country = None, i_tld = Some ''.com'', i_offset = 1\<rparr>)"
    by (simp add: sample_eval) (simp add: library_table_def sample_entry_def search_empty)
  then have "domain_ok sample_env (new_uri\<lparr>f_domain := ''a'', f_top_level_domain := ''.com'', f_sub_domains := [[]]\<rparr>)"
    by (simp add: domain_ok_def full_domain_def sample_env_def plain_char_def char_class_defs)
  from process_domain_reads [OF sample_reads this] show ?thesis by (simp add: full_domain_def)
qed

lemma read_plain_com:
  "read_uri sample_env (''http://a.com'' @ t) = bindE (read_tail sample_env t) (\<lambda>r. Inr (map_option (\<lambda>(path, query, anchor).
     \<lparr>p_protocol = ''http'', p_username = [], p_password = [], p_port = 80, p_domain = ([[]], ''a'', ''.com''),
      p_path = path, p_query = query, p_anchor = anchor\<rparr>) r))" if "t = CHR ''/'' # t'" "CHR 0x00 \<notin> set t'"
proof -
  have "cstr (''http://a.com'' @ t) = ''http://a.com'' @ t" by (rule cstr_id) (use that in simp)
  moreover have "read_authority 80 ''a.com'' = Some ([], [], ''a.com'', 80)" by code_simp
  ultimately show ?thesis using that plain_com by (simp add: read_uri_def protocol_to_port_def Let_def)
qed

lemmas tail_eval = read_tail_def split_tail_def read_path_def split_skip_def urldecode_def cstr_def hex_at_def hex_digit_value_def decoded_char_def
  plain_char_def char_class_defs consE_def remove_dotdot_0 read_segments_def read_anchor_def read_query.simps query_entry_def Let_def

lemma sample_from_utf8: "u_from_utf8 sample_env = (\<lambda>s. s)"
  by (simp add: sample_env_def)

lemma char_of_slash: "char_of (47 :: nat) = CHR ''/''"
  by code_simp

lemma no_sub_domain_counts_one:
  "get_part env ''sub-domain-count'' part (or_keep new_uri (set_domain sample_env ''a.com'' new_uri)) = Inr (show_nat 1)"
  using plain_com by (simp add: set_domain_def or_keep_def get_part_def)

lemma bad_encoding_throws: "set_uri sample_env ''http://a.com/%zz'' new_uri = (new_uri, Inl invalid_uri)"
proof -
  have "read_tail sample_env ''/%zz'' = Inl invalid_uri" by (simp add: tail_eval sample_from_utf8)
  then show ?thesis using read_plain_com [of "''/%zz''" "''%zz''"] by (simp add: set_uri_def)
qed

lemma encoded_slash_hides_periods: "f_path (fst (set_uri sample_env ''http://a.com/b/c%2f..%2f..'' new_uri)) = [''b'', ''c/../..'']"
proof -
  have "read_tail sample_env ''/b/c%2f..%2f..'' = Inr (Some ([''b'', ''c/../..''], [], []))" by (simp add: tail_eval sample_from_utf8 char_of_slash)
  moreover have "urldecode sample_env False [] = Inr []" using sample_reads by simp
  ultimately show ?thesis using read_plain_com [of "''/b/c%2f..%2f..''" "''b/c%2f..%2f..''"] by (simp add: set_uri_def assign_uri_def)
qed

lemma hash_bang_kept: "f_path (fst (set_uri sample_env ''http://a.com/#!/b'' new_uri)) = [''!'', ''b'']"
proof -
  have "read_tail sample_env ''/#!/b'' = Inr (Some ([''!'', ''b''], [], []))" by (simp add: tail_eval sample_from_utf8)
  moreover have "urldecode sample_env False [] = Inr []" using sample_reads by simp
  ultimately show ?thesis using read_plain_com [of "''/#!/b''" "''#!/b''"] by (simp add: set_uri_def assign_uri_def)
qed

lemma empty_query_throws: "set_uri sample_env ''http://a.com/?'' new_uri = (new_uri, Inl invalid_uri)"
proof -
  have "read_tail sample_env ''/?'' = Inl invalid_uri" by (simp add: tail_eval sample_from_utf8)
  then show ?thesis using read_plain_com [of "''/?''" "''?''"] by (simp add: set_uri_def)
qed

lemma nameless_value_throws: "set_query_string env ''=x'' u = (u, Inl invalid_uri)"
  by (simp add: set_query_string_def split_skip_def pair_entry_def index_of_def urldecode_def cstr_def decoded_char_def plain_char_def char_class_defs)

lemma user_without_password: "read_authority 80 ''me@a.com'' = None"
  by code_simp

lemma half_changed_object:
  assumes "p_username p = ''%zz''"
  shows "assign_uri env uri p u = (u\<lparr>f_original := uri, f_protocol := p_protocol p\<rparr>, Inl invalid_uri)"
  using assms by (simp add: assign_uri_def urldecode_def cstr_def hex_at_def hex_digit_value_def)

end
