(* ===== verification/Cass_Value.thy ===== *)
theory Cass_Value
  imports Snap_Prelude
begin

text \<open>
  \<open>libcassvalue\<close> (\<open>encoder.h\<close>, \<open>value.cpp\<close>) and \<open>QCassandraValue\<close>: the bytes of a cell of the database.  A \<open>QByteArray\<close> is the list
  of its bytes, an integer is a word, a floating point number is the word of its bits, as the unions of the code see it.  An index
  is the C++ \<open>int\<close>, and the tests of the code are made on its conversion to \<open>unsigned int\<close>.  A read outside of the array is an error value.
  The theorems: a decoder gives back what an encoder wrote, and the comparison of two cells is the one of their unsigned numbers.
\<close>

section \<open>Bytes\<close>

fun be_bytes :: "nat \<Rightarrow> nat \<Rightarrow> string" where
  "be_bytes 0 v = []"
| "be_bytes (Suc n) v = be_bytes n (v div 256) @ [char_of v]"

definition be_value :: "string \<Rightarrow> nat" where
  "be_value s = foldl (\<lambda>v c. v * 256 + of_char c) 0 s"

definition BUFFER_MAX_SIZE :: nat where
  "BUFFER_MAX_SIZE = 64 * 1024 * 1024"

definition checkBufferSize :: "nat \<Rightarrow> unit result" where
  "checkBufferSize new_size = requireE (new_size \<le> BUFFER_MAX_SIZE) (Invalid_Parameter ''resulting value is too large'')"

abbreviation too_small :: snap_error where
  "too_small \<equiv> Invalid_Parameter ''buffer too small''"

abbreviation read_outside :: snap_error where
  "read_outside \<equiv> Logic_Error ''QByteArray::at() out of range''"

text \<open>The conversion to \<open>unsigned int\<close>.\<close>

definition u32 :: "int \<Rightarrow> nat" where
  "u32 x = nat (x mod 2 ^ 32)"

definition read_be :: "nat \<Rightarrow> string \<Rightarrow> int \<Rightarrow> nat result" where
  "read_be n array index =
     (if 0 \<le> index \<and> index + int n \<le> int (length array) then Inr (be_value (take n (drop (nat index) array))) else Inl read_outside)"

section \<open>Reading\<close>

text \<open>The three ways to read a number of several bytes, the same for every size.\<close>

definition value_at :: "nat \<Rightarrow> string \<Rightarrow> int \<Rightarrow> nat result" where
  "value_at n array index =
     (if u32 index > length array \<or> u32 (index + int n) > length array then Inl too_small else read_be n array index)"

definition value_or_null :: "nat \<Rightarrow> string \<Rightarrow> int \<Rightarrow> nat \<Rightarrow> nat result" where
  "value_or_null n array index default_value =
     (if u32 (index + int n) \<le> length array then read_be n array index
      else if u32 index \<le> length array then Inr default_value
      else Inl too_small)"

definition safe_value :: "nat \<Rightarrow> string \<Rightarrow> int \<Rightarrow> nat \<Rightarrow> nat result" where
  "safe_value n array index default_value =
     (if u32 (index + int n) \<le> length array then read_be n array index else Inr default_value)"

definition mapE :: "('a \<Rightarrow> 'b) \<Rightarrow> 'e + 'a \<Rightarrow> 'e + 'b" where
  "mapE f r = bindE r (\<lambda>x. Inr (f x))"

text \<open>One byte: the index itself is tested.\<close>

definition byte_value :: "string \<Rightarrow> int \<Rightarrow> nat result" where
  "byte_value array index = (if u32 index \<ge> length array then Inl too_small else read_be 1 array index)"

definition byte_or :: "string \<Rightarrow> int \<Rightarrow> nat \<Rightarrow> nat result" where
  "byte_or array index default_value = (if u32 index \<ge> length array then Inr default_value else read_be 1 array index)"

definition boolValue :: "string \<Rightarrow> int \<Rightarrow> bool result" where
  "boolValue array index = mapE (\<lambda>v. v \<noteq> 0) (byte_value array index)"

definition boolValueOrNull :: "string \<Rightarrow> int \<Rightarrow> bool \<Rightarrow> bool result" where
  "boolValueOrNull array index default_value = mapE (\<lambda>v. v \<noteq> 0) (byte_or array index (of_bool default_value))"

definition charValue :: "string \<Rightarrow> int \<Rightarrow> 8 word result" where
  "charValue array index = mapE word_of_nat (byte_value array index)"

definition charValueOrNull :: "string \<Rightarrow> int \<Rightarrow> 8 word \<Rightarrow> 8 word result" where
  "charValueOrNull array index default_value = mapE word_of_nat (byte_or array index (unat default_value))"

definition int16Value :: "string \<Rightarrow> int \<Rightarrow> 16 word result" where
  "int16Value array index = mapE word_of_nat (value_at 2 array index)"

definition int16ValueOrNull :: "string \<Rightarrow> int \<Rightarrow> 16 word \<Rightarrow> 16 word result" where
  "int16ValueOrNull array index default_value = mapE word_of_nat (value_or_null 2 array index (unat default_value))"

definition safeInt16Value :: "string \<Rightarrow> int \<Rightarrow> 16 word \<Rightarrow> 16 word result" where
  "safeInt16Value array index default_value = mapE word_of_nat (safe_value 2 array index (unat default_value))"

definition int32Value :: "string \<Rightarrow> int \<Rightarrow> 32 word result" where
  "int32Value array index = mapE word_of_nat (value_at 4 array index)"

definition int32ValueOrNull :: "string \<Rightarrow> int \<Rightarrow> 32 word \<Rightarrow> 32 word result" where
  "int32ValueOrNull array index default_value = mapE word_of_nat (value_or_null 4 array index (unat default_value))"

definition safeInt32Value :: "string \<Rightarrow> int \<Rightarrow> 32 word \<Rightarrow> 32 word result" where
  "safeInt32Value array index default_value = mapE word_of_nat (safe_value 4 array index (unat default_value))"

definition int64Value :: "string \<Rightarrow> int \<Rightarrow> 64 word result" where
  "int64Value array index = mapE word_of_nat (value_at 8 array index)"

definition int64ValueOrNull :: "string \<Rightarrow> int \<Rightarrow> 64 word \<Rightarrow> 64 word result" where
  "int64ValueOrNull array index default_value = mapE word_of_nat (value_or_null 8 array index (unat default_value))"

definition safeInt64Value :: "string \<Rightarrow> int \<Rightarrow> 64 word \<Rightarrow> 64 word result" where
  "safeInt64Value array index default_value = mapE word_of_nat (safe_value 8 array index (unat default_value))"

text \<open>The bits of the floating point numbers.\<close>

definition floatValue :: "string \<Rightarrow> int \<Rightarrow> 32 word result" where
  "floatValue array index = mapE word_of_nat (value_at 4 array index)"

definition safeFloatValue :: "string \<Rightarrow> int \<Rightarrow> 32 word \<Rightarrow> 32 word result" where
  "safeFloatValue array index default_value = mapE word_of_nat (safe_value 4 array index (unat default_value))"

definition doubleValue :: "string \<Rightarrow> int \<Rightarrow> 64 word result" where
  "doubleValue array index = mapE word_of_nat (value_at 8 array index)"

definition safeDoubleValue :: "string \<Rightarrow> int \<Rightarrow> 64 word \<Rightarrow> 64 word result" where
  "safeDoubleValue array index default_value = mapE word_of_nat (safe_value 8 array index (unat default_value))"

text \<open>A part of the array, to the end of it for the size -1; what is passed for the size is an \<open>int\<close>.\<close>

definition binaryValue :: "string \<Rightarrow> int \<Rightarrow> int \<Rightarrow> string result" where
  "binaryValue array index amount =
     (let n = (if amount = - 1 then int (length array) - index else amount) in
      if u32 index > length array \<or> u32 n > length array \<or> u32 (index + n) > length array then Inl too_small
      else if 0 \<le> index \<and> 0 \<le> n \<and> index + n \<le> int (length array) then Inr (take (nat n) (drop (nat index) array))
      else Inl read_outside)"

definition stringValue :: "(string \<Rightarrow> 'a) \<Rightarrow> string \<Rightarrow> int \<Rightarrow> int \<Rightarrow> 'a result" where
  "stringValue from_utf8 array index amount = mapE from_utf8 (binaryValue array index amount)"

section \<open>Writing\<close>

definition append_value :: "string \<Rightarrow> string \<Rightarrow> string result" where
  "append_value array bytes = bindE (checkBufferSize (length array + length bytes)) (\<lambda>_. Inr (array @ bytes))"

definition appendBoolValue :: "string \<Rightarrow> bool \<Rightarrow> string result" where
  "appendBoolValue array value = append_value array (be_bytes 1 (of_bool value))"

definition appendCharValue :: "string \<Rightarrow> 8 word \<Rightarrow> string result" where
  "appendCharValue array value = append_value array (be_bytes 1 (unat value))"

definition appendInt16Value :: "string \<Rightarrow> 16 word \<Rightarrow> string result" where
  "appendInt16Value array value = append_value array (be_bytes 2 (unat value))"

definition appendInt32Value :: "string \<Rightarrow> 32 word \<Rightarrow> string result" where
  "appendInt32Value array value = append_value array (be_bytes 4 (unat value))"

definition appendInt64Value :: "string \<Rightarrow> 64 word \<Rightarrow> string result" where
  "appendInt64Value array value = append_value array (be_bytes 8 (unat value))"

definition appendDoubleValue :: "string \<Rightarrow> 64 word \<Rightarrow> string result" where
  "appendDoubleValue array value = appendInt64Value array value"

definition appendFloatValue :: "string \<Rightarrow> 32 word \<Rightarrow> string result" where
  "appendFloatValue array value = appendInt32Value array value"

definition appendBinaryValue :: "string \<Rightarrow> string \<Rightarrow> string result" where
  "appendBinaryValue array value = append_value array value"

definition setBoolValue :: "bool \<Rightarrow> string" where
  "setBoolValue value = be_bytes 1 (of_bool value)"

definition setCharValue :: "8 word \<Rightarrow> string" where
  "setCharValue value = be_bytes 1 (unat value)"

definition setInt16Value :: "16 word \<Rightarrow> string" where
  "setInt16Value value = be_bytes 2 (unat value)"

definition setInt32Value :: "32 word \<Rightarrow> string" where
  "setInt32Value value = be_bytes 4 (unat value)"

definition setInt64Value :: "64 word \<Rightarrow> string" where
  "setInt64Value value = be_bytes 8 (unat value)"

definition setFloatValue :: "32 word \<Rightarrow> string" where
  "setFloatValue value = setInt32Value value"

definition setDoubleValue :: "64 word \<Rightarrow> string" where
  "setDoubleValue value = setInt64Value value"

definition setBinaryValue :: "string \<Rightarrow> string result" where
  "setBinaryValue value = bindE (checkBufferSize (length value)) (\<lambda>_. Inr value)"

text \<open>The bytes of four positions replaced by a number.\<close>

definition replaceInt32Value :: "string \<Rightarrow> 32 word \<Rightarrow> int \<Rightarrow> string result" where
  "replaceInt32Value array value index =
     (if u32 index > length array \<or> u32 (index + 4) > length array then Inl too_small
      else Inr (take (nat index) array @ be_bytes 4 (unat value) @ drop (nat index + 4) array))"

section \<open>Encoder and decoder\<close>

datatype item =
    Signed_Char "8 word" | Unsigned_Char "8 word" | Int16 "16 word" | UInt16 "16 word" | Int32 "32 word" | UInt32 "32 word"
  | Int64 "64 word" | UInt64 "64 word" | Double "64 word" | P16_String string | Binary string

datatype kind = K_Signed_Char | K_Unsigned_Char | K_Int16 | K_UInt16 | K_Int32 | K_UInt32 | K_Int64 | K_UInt64 | K_Double | K_P16_String | K_Binary

fun encoder_append :: "string \<Rightarrow> item \<Rightarrow> string result" where
  "encoder_append f_array (Signed_Char v) = appendCharValue f_array v"
| "encoder_append f_array (Unsigned_Char v) = appendCharValue f_array v"
| "encoder_append f_array (Int16 v) = appendInt16Value f_array v"
| "encoder_append f_array (UInt16 v) = appendInt16Value f_array v"
| "encoder_append f_array (Int32 v) = appendInt32Value f_array v"
| "encoder_append f_array (UInt32 v) = appendInt32Value f_array v"
| "encoder_append f_array (Int64 v) = appendInt64Value f_array v"
| "encoder_append f_array (UInt64 v) = appendInt64Value f_array v"
| "encoder_append f_array (Double v) = appendDoubleValue f_array v"
| "encoder_append f_array (P16_String utf8) =
     (if length utf8 \<ge> 64 * 1024 then Inl (Invalid_Parameter ''strings are limited to 64Kb'')
      else bindE (appendInt16Value f_array (word_of_nat (length utf8))) (\<lambda>a. appendBinaryValue a utf8))"
| "encoder_append f_array (Binary value) =
     bindE (appendInt32Value f_array (word_of_nat (length value))) (\<lambda>a. appendBinaryValue a value)"

text \<open>The value and the index after it; the index is not moved when the read throws.\<close>

definition advance :: "int \<Rightarrow> ('a \<Rightarrow> item) \<Rightarrow> int \<Rightarrow> 'a result \<Rightarrow> (item \<times> int) result" where
  "advance f_index c n r = mapE (\<lambda>v. (c v, f_index + n)) r"

definition signed32 :: "int \<Rightarrow> int" where
  "signed32 x = (x + 2 ^ 31) mod 2 ^ 32 - 2 ^ 31"

fun decoder_read :: "(string \<Rightarrow> string) \<Rightarrow> string \<Rightarrow> int \<Rightarrow> kind \<Rightarrow> (item \<times> int) result" where
  "decoder_read from_utf8 f_array f_index K_Signed_Char = advance f_index Signed_Char 1 (charValue f_array f_index)"
| "decoder_read from_utf8 f_array f_index K_Unsigned_Char = advance f_index Unsigned_Char 1 (charValue f_array f_index)"
| "decoder_read from_utf8 f_array f_index K_Int16 = advance f_index Int16 2 (int16Value f_array f_index)"
| "decoder_read from_utf8 f_array f_index K_UInt16 = advance f_index UInt16 2 (int16Value f_array f_index)"
| "decoder_read from_utf8 f_array f_index K_Int32 = advance f_index Int32 4 (int32Value f_array f_index)"
| "decoder_read from_utf8 f_array f_index K_UInt32 = advance f_index UInt32 4 (int32Value f_array f_index)"
| "decoder_read from_utf8 f_array f_index K_Int64 = advance f_index Int64 8 (int64Value f_array f_index)"
| "decoder_read from_utf8 f_array f_index K_UInt64 = advance f_index UInt64 8 (int64Value f_array f_index)"
| "decoder_read from_utf8 f_array f_index K_Double = advance f_index Double 8 (doubleValue f_array f_index)"
| "decoder_read from_utf8 f_array f_index K_P16_String =
     bindE (int16Value f_array f_index) (\<lambda>n.
       advance (f_index + 2) (\<lambda>s. P16_String (from_utf8 s)) (uint n) (binaryValue f_array (f_index + 2) (uint n)))"
| "decoder_read from_utf8 f_array f_index K_Binary =
     bindE (int32Value f_array f_index) (\<lambda>n.
       mapE (\<lambda>s. (Binary s, signed32 (f_index + 4 + uint n))) (binaryValue f_array (f_index + 4) (sint n)))"

section \<open>Values\<close>

text \<open>\<open>memcmp()\<close> on the common part.\<close>

fun memcmp :: "string \<Rightarrow> string \<Rightarrow> int" where
  "memcmp (a # as) (b # bs) = (if a = b then memcmp as bs else if (of_char a :: nat) < of_char b then - 1 else 1)"
| "memcmp _ _ = 0"

definition value_eq :: "string \<Rightarrow> string \<Rightarrow> bool" where
  "value_eq a b \<longleftrightarrow> length a = length b \<and> memcmp a b = 0"

definition value_less :: "string \<Rightarrow> string \<Rightarrow> bool" where
  "value_less a b = (let r = memcmp a b in if r \<noteq> 0 then r < 0 else length a < length b)"

definition value_less_eq :: "string \<Rightarrow> string \<Rightarrow> bool" where
  "value_less_eq a b = (let r = memcmp a b in if r \<noteq> 0 then r < 0 else length a \<le> length b)"

definition value_greater :: "string \<Rightarrow> string \<Rightarrow> bool" where
  "value_greater a b = (let r = memcmp a b in if r \<noteq> 0 then r > 0 else length a > length b)"

definition value_greater_eq :: "string \<Rightarrow> string \<Rightarrow> bool" where
  "value_greater_eq a b = (let r = memcmp a b in if r \<noteq> 0 then r > 0 else length a \<ge> length b)"

definition nullValue :: "string \<Rightarrow> bool" where
  "nullValue a \<longleftrightarrow> length a = 0"

section \<open>Numbers\<close>

lemma length_be_bytes [simp]: "length (be_bytes n v) = n"
  by (induction n arbitrary: v) simp_all

lemma be_value_snoc [simp]: "be_value (s @ [c]) = be_value s * 256 + of_char c"
  by (simp add: be_value_def)

lemma be_value_Nil [simp]: "be_value [] = 0"
  by (simp add: be_value_def)

lemma be_value_bytes: "be_value (be_bytes n v) = v mod 256 ^ n"
proof (induction n arbitrary: v)
  case (Suc n)
  have "v mod (256 * 256 ^ n) = 256 * (v div 256 mod 256 ^ n) + v mod 256" by (rule mod_mult2_eq)
  then show ?case using Suc [of "v div 256"] by simp
qed simp

lemma unat_bound: "unat w < 2 ^ LENGTH('a)" for w :: "'a :: len word"
  by (rule unsigned_less)

lemma be_value_word:
  fixes w :: "'a :: len word"
  assumes "256 ^ n = (2 :: nat) ^ LENGTH('a)"
  shows "word_of_nat (be_value (be_bytes n (unat w))) = w"
proof -
  have "unat w < 256 ^ n" using assms by simp
  then show ?thesis by (simp add: be_value_bytes)
qed

lemma be_value_words [simp]:
  "word_of_nat (be_value (be_bytes (Suc 0) (unat a))) = (a :: 8 word)" "word_of_nat (be_value (be_bytes 2 (unat b))) = (b :: 16 word)"
  "word_of_nat (be_value (be_bytes 4 (unat c))) = (c :: 32 word)" "word_of_nat (be_value (be_bytes 8 (unat d))) = (d :: 64 word)"
  by (rule be_value_word, simp)+

section \<open>Reading back\<close>

abbreviation fits :: "string \<Rightarrow> bool" where
  "fits array \<equiv> length array \<le> BUFFER_MAX_SIZE"

lemma u32_small: "0 \<le> x \<Longrightarrow> x < 2 ^ 32 \<Longrightarrow> u32 x = nat x"
  by (simp add: u32_def)

lemma read_be_middle: "read_be (length b) (a @ b @ c) (int (length a)) = Inr (be_value b)"
  by (simp add: read_be_def)

lemma value_at_middle:
  assumes "fits (a @ b @ c)" "length b = n"
  shows "value_at n (a @ b @ c) (int (length a)) = Inr (be_value b)"
proof -
  have "u32 (int (length a)) = length a" "u32 (int (length a) + int n) = length a + n"
    using assms by (subst u32_small; simp add: BUFFER_MAX_SIZE_def)+
  then show ?thesis using read_be_middle [of b a c] assms(2) by (simp add: value_at_def)
qed

lemma byte_value_middle:
  assumes "fits (a @ b @ c)" "length b = 1"
  shows "byte_value (a @ b @ c) (int (length a)) = Inr (be_value b)"
proof -
  have "u32 (int (length a)) = length a" using assms by (subst u32_small) (simp_all add: BUFFER_MAX_SIZE_def)
  then show ?thesis using read_be_middle [of b a c] assms(2) by (simp add: byte_value_def)
qed

lemma binaryValue_middle:
  assumes "fits (a @ b @ c)"
  shows "binaryValue (a @ b @ c) (int (length a)) (int (length b)) = Inr b"
proof -
  have "u32 (int (length a)) = length a" "u32 (int (length b)) = length b" "u32 (int (length a) + int (length b)) = length a + length b"
    using assms by (subst u32_small; simp add: BUFFER_MAX_SIZE_def)+
  then show ?thesis by (simp add: binaryValue_def Let_def)
qed

lemma append_value_Inr: "append_value a b = Inr r \<longleftrightarrow> r = a @ b \<and> fits (a @ b)"
  by (auto simp: append_value_def checkBufferSize_def result_simps)

text \<open>The call of the decoder for an item, and what it returns: the texts are UTF-8.\<close>

fun kind_of :: "item \<Rightarrow> kind" where
  "kind_of (Signed_Char _) = K_Signed_Char"
| "kind_of (Unsigned_Char _) = K_Unsigned_Char"
| "kind_of (Int16 _) = K_Int16"
| "kind_of (UInt16 _) = K_UInt16"
| "kind_of (Int32 _) = K_Int32"
| "kind_of (UInt32 _) = K_UInt32"
| "kind_of (Int64 _) = K_Int64"
| "kind_of (UInt64 _) = K_UInt64"
| "kind_of (Double _) = K_Double"
| "kind_of (P16_String _) = K_P16_String"
| "kind_of (Binary _) = K_Binary"

fun item_bytes :: "item \<Rightarrow> string" where
  "item_bytes (Signed_Char v) = be_bytes 1 (unat v)"
| "item_bytes (Unsigned_Char v) = be_bytes 1 (unat v)"
| "item_bytes (Int16 v) = be_bytes 2 (unat v)"
| "item_bytes (UInt16 v) = be_bytes 2 (unat v)"
| "item_bytes (Int32 v) = be_bytes 4 (unat v)"
| "item_bytes (UInt32 v) = be_bytes 4 (unat v)"
| "item_bytes (Int64 v) = be_bytes 8 (unat v)"
| "item_bytes (UInt64 v) = be_bytes 8 (unat v)"
| "item_bytes (Double v) = be_bytes 8 (unat v)"
| "item_bytes (P16_String s) = be_bytes 2 (length s) @ s"
| "item_bytes (Binary s) = be_bytes 4 (length s) @ s"

lemmas append_defs = appendCharValue_def appendInt16Value_def appendInt32Value_def appendInt64Value_def appendDoubleValue_def appendBinaryValue_def

lemma unat_length: "length s \<le> BUFFER_MAX_SIZE \<Longrightarrow> unat (word_of_nat (length s) :: 32 word) = length s"
  by (simp add: unat_of_nat BUFFER_MAX_SIZE_def)

lemma encoder_append_Inr:
  "encoder_append a x = Inr r \<Longrightarrow> r = a @ item_bytes x \<and> fits r \<and> (\<forall>s. x = P16_String s \<longrightarrow> length s < 64 * 1024)"
proof (cases x)
  case (Binary s)
  assume "encoder_append a x = Inr r"
  then have "r = a @ be_bytes 4 (unat (word_of_nat (length s) :: 32 word)) @ s" "fits r"
    using Binary by (auto simp: append_defs append_value_Inr result_simps)
  then show ?thesis using Binary unat_length [of s] by simp
qed (auto simp: append_defs append_value_Inr result_simps unat_of_nat split: if_splits)

lemma decoder_reads:
  assumes "fits (a @ item_bytes x @ c)" "\<forall>s. x = P16_String s \<longrightarrow> length s < 64 * 1024 \<and> from_utf8 s = s"
  shows "decoder_read from_utf8 (a @ item_bytes x @ c) (int (length a)) (kind_of x) = Inr (x, int (length (a @ item_bytes x)))"
proof (cases x)
  case (P16_String s)
  have n: "word_of_nat (be_value (be_bytes 2 (length s))) = (word_of_nat (length s) :: 16 word)" "uint (word_of_nat (length s) :: 16 word) = int (length s)"
    using assms(2) P16_String by (simp_all add: be_value_bytes uint_nat unat_of_nat)
  have f: "fits (a @ be_bytes 2 (length s) @ s @ c)" using assms(1) P16_String by simp
  have "binaryValue ((a @ be_bytes 2 (length s)) @ s @ c) (int (length (a @ be_bytes 2 (length s)))) (int (length s)) = Inr s"
    by (rule binaryValue_middle) (use f in simp)
  then show ?thesis using P16_String n value_at_middle [OF f, of 2] assms(2)
    by (simp add: int16Value_def mapE_def advance_def add.commute add.left_commute)
next
  case (Binary s)
  have f: "fits (a @ be_bytes 4 (length s) @ s @ c)" using assms(1) Binary by simp
  have l: "length s \<le> BUFFER_MAX_SIZE" "length a + 4 + length s \<le> BUFFER_MAX_SIZE" using f by simp_all
  define w where "w = (word_of_nat (length s) :: 32 word)"
  have n: "word_of_nat (be_value (be_bytes 4 (length s))) = w" using l by (simp add: be_value_bytes w_def BUFFER_MAX_SIZE_def)
  have u: "uint w = int (length s)" using unat_length [OF l(1)] by (simp add: w_def uint_nat)
  have "sint w = int (length s)"
    unfolding sint_uint u using l by (simp add: signed_take_bit_int_eq_self BUFFER_MAX_SIZE_def)
  moreover have "signed32 (int (length a) + 4 + int (length s)) = int (length a) + 4 + int (length s)"
    using l(2) by (simp add: signed32_def BUFFER_MAX_SIZE_def)
  moreover have "binaryValue ((a @ be_bytes 4 (length s)) @ s @ c) (int (length (a @ be_bytes 4 (length s)))) (int (length s)) = Inr s"
    by (rule binaryValue_middle) (use f in simp)
  ultimately show ?thesis using Binary n u value_at_middle [OF f, of 4]
    by (simp add: int32Value_def mapE_def add.commute add.left_commute)
qed (use assms(1) in \<open>simp_all add: charValue_def int16Value_def int32Value_def int64Value_def doubleValue_def mapE_def advance_def
    byte_value_middle value_at_middle del: be_bytes.simps\<close>)

fun encode_items :: "string \<Rightarrow> item list \<Rightarrow> string result" where
  "encode_items a [] = Inr a"
| "encode_items a (x # xs) = bindE (encoder_append a x) (\<lambda>b. encode_items b xs)"

fun decode_items :: "(string \<Rightarrow> string) \<Rightarrow> string \<Rightarrow> int \<Rightarrow> kind list \<Rightarrow> item list result" where
  "decode_items from_utf8 a i [] = Inr []"
| "decode_items from_utf8 a i (k # ks) =
     bindE (decoder_read from_utf8 a i k) (\<lambda>(x, j). bindE (decode_items from_utf8 a j ks) (\<lambda>xs. Inr (x # xs)))"

lemma encode_items_grow: "encode_items a xs = Inr r \<Longrightarrow> r = a @ concat (map item_bytes xs) \<and> (xs \<noteq> [] \<longrightarrow> fits r)"
proof (induction xs arbitrary: a)
  case (Cons x xs)
  then obtain b where b: "encoder_append a x = Inr b" "encode_items b xs = Inr r" by (auto simp: result_simps)
  have "b = a @ item_bytes x" "fits b" using encoder_append_Inr [OF b(1)] by blast+
  moreover have "r = b @ concat (map item_bytes xs)" "xs \<noteq> [] \<longrightarrow> fits r" using Cons.IH [OF b(2)] by blast+
  ultimately show ?case by (cases "xs = []") auto
qed simp

lemma decode_items_encoded:
  assumes "encode_items a xs = Inr r" "\<forall>s. P16_String s \<in> set xs \<longrightarrow> from_utf8 s = s"
  shows "decode_items from_utf8 r (int (length a)) (map kind_of xs) = Inr xs"
  using assms
proof (induction xs arbitrary: a)
  case (Cons x xs)
  then obtain b where b: "encoder_append a x = Inr b" "encode_items b xs = Inr r" by (auto simp: result_simps)
  note e = encoder_append_Inr [OF b(1)]
  have r: "r = a @ item_bytes x @ concat (map item_bytes xs)" "fits r" using encode_items_grow [OF Cons.prems(1)] by (simp, blast)
  have "decoder_read from_utf8 r (int (length a)) (kind_of x) = Inr (x, int (length (a @ item_bytes x)))"
    unfolding r(1) by (rule decoder_reads) (use r e Cons.prems(2) in auto)
  moreover have "decode_items from_utf8 r (int (length b)) (map kind_of xs) = Inr xs" using Cons.IH [OF b(2)] Cons.prems(2) by simp
  ultimately show ?case using e by simp
qed simp

text \<open>
  What an encoder wrote, a decoder reads back: calls of the decoder in the same order return the same values, for every sequence of
  items that the encoder accepts.
\<close>

theorem coder_roundtrip:
  assumes "encode_items [] xs = Inr r" "\<forall>s. P16_String s \<in> set xs \<longrightarrow> from_utf8 s = s"
  shows "decode_items from_utf8 r 0 (map kind_of xs) = Inr xs"
  using decode_items_encoded [OF assms] by simp

theorem coder_roundtrip_witness:
  "\<exists>r. encode_items [] [UInt16 0x102, P16_String ''a''] = Inr r \<and> length r = 5
     \<and> decode_items (\<lambda>s. s) r 0 [K_UInt16, K_P16_String] = Inr [UInt16 0x102, P16_String ''a'']"
proof -
  obtain r where r: "encode_items [] [UInt16 0x102, P16_String ''a''] = Inr r" "length r = 5"
    by (simp add: append_defs append_value_def checkBufferSize_def BUFFER_MAX_SIZE_def requireE_def)
  then show ?thesis using coder_roundtrip [OF r(1), of "\<lambda>s. s"] by simp
qed

section \<open>Order\<close>

lemma memcmp_zero: "length a = length b \<Longrightarrow> memcmp a b = 0 \<longleftrightarrow> a = b"
  by (induction a b rule: memcmp.induct) auto

lemma value_less_step:
  "value_less [] b = (b \<noteq> [])"
  "\<not> value_less (x # a) []"
  "value_less (x # a) (y # b) = (if x = y then value_less a b else (of_char x :: nat) < of_char y)"
  by (cases b) (simp_all add: value_less_def Let_def)

lemma value_less_lex: "value_less a b \<longleftrightarrow> (map of_char a :: nat list) < map of_char b"
proof (induction a arbitrary: b)
  case Nil
  then show ?case by (cases b) (simp_all add: value_less_step)
next
  case (Cons c a)
  then show ?case by (cases b) (auto simp: value_less_step)
qed

lemma value_less_Cons: "value_less (a # as) (b # bs) \<longleftrightarrow> (of_char a :: nat) < of_char b \<or> a = b \<and> value_less as bs"
  by (simp add: value_less_lex)

lemma be_value_Cons: "be_value (c # s) = of_char c * 256 ^ length s + be_value s"
  by (induction s rule: rev_induct) (simp_all add: be_value_def algebra_simps)

lemma be_value_less: "be_value s < 256 ^ length s"
proof (induction s)
  case (Cons c s)
  have "of_char c * 256 ^ length s + be_value s < (of_char c + 1) * (256 ^ length s :: nat)" using Cons by simp
  also have "\<dots> \<le> 256 * 256 ^ length s" by (intro mult_right_mono) (use of_char_less_256 [of c] in linarith, simp)
  finally show ?case by (simp add: be_value_Cons)
qed simp

lemma value_less_number: "length a = length b \<Longrightarrow> value_less a b \<longleftrightarrow> be_value a < be_value b"
proof (induction a b rule: memcmp.induct)
  case (1 a as b bs)
  then have l: "length as = length bs" by simp
  have x: "be_value as < 256 ^ length as" "be_value bs < 256 ^ length as" using be_value_less [of as] be_value_less [of bs] l by simp_all
  have lt: "of_char p * 256 ^ length as + u < of_char q * 256 ^ length as + v"
    if "(of_char p :: nat) < of_char q" "u < 256 ^ length as" for p q :: char and u v :: nat
  proof -
    have "of_char p * 256 ^ length as + u < (of_char p + 1) * (256 ^ length as :: nat)" using that(2) by simp
    also have "\<dots> \<le> of_char q * 256 ^ length as" using that(1) by (intro mult_right_mono) simp_all
    finally show ?thesis by simp
  qed
  consider "(of_char a :: nat) < of_char b" | "a = b" | "(of_char b :: nat) < of_char a" using of_char_eq_iff by (metis linorder_neqE_nat)
  then show ?case
  proof cases
    case 1
    then show ?thesis using lt [of a b "be_value as" "be_value bs"] x l by (simp add: value_less_Cons be_value_Cons)
  next
    case 2
    then show ?thesis using "1.IH" l by (simp add: value_less_Cons be_value_Cons)
  next
    case 3
    then show ?thesis using lt [of b a "be_value bs" "be_value as"] x l by (auto simp: value_less_Cons be_value_Cons)
  qed
qed (simp_all add: value_less_def)

text \<open>
  Two cells with unsigned numbers of the same size compare as the numbers do, so rows and columns named by such numbers come in their order.
\<close>

theorem value_order:
  "(value_less (setInt64Value x) (setInt64Value y) \<longleftrightarrow> x < y) \<and> (value_less (setInt32Value u) (setInt32Value v) \<longleftrightarrow> u < v)"
proof -
  have "unat x < 256 ^ 8" "unat y < 256 ^ 8" "unat u < 256 ^ 4" "unat v < 256 ^ 4"
    using unat_bound [of x] unat_bound [of y] unat_bound [of u] unat_bound [of v] by simp_all
  then show ?thesis
    by (simp add: value_less_number setInt64Value_def setInt32Value_def be_value_bytes word_less_nat_alt)
qed

text \<open>A negative index passes the only test of the safe readers.\<close>

lemma safe_reads_before: "array \<noteq> [] \<Longrightarrow> safeInt16Value array (- 1) d = Inl read_outside"
  by (cases array) (simp_all add: safeInt16Value_def safe_value_def u32_def read_be_def mapE_def)

text \<open>A length of all ones is the size -1, which stands for the rest of the array, and the index goes back by one.\<close>

lemma binary_all_ones:
  assumes "length array < 2 ^ 31" "int32Value array 0 = Inr (- 1)" "4 \<le> length array"
  shows "decoder_read from_utf8 array 0 K_Binary = Inr (Binary (drop 4 array), 3)"
proof -
  have "u32 4 = 4" "u32 (int (length array) - 4) = length array - 4" "u32 (int (length array)) = length array"
    using assms by (subst u32_small; simp)+
  then have "binaryValue array 4 (- 1) = Inr (drop 4 array)" using assms(3) by (simp add: binaryValue_def Let_def)
  moreover have "signed32 (4 + uint (- 1 :: 32 word)) = 3" by (simp add: signed32_def unsigned_minus_1_eq_mask mask_eq_exp_minus_1)
  ultimately show ?thesis using assms(2) by (simp add: mapE_def)
qed

lemma mapE_simps [simp]: "mapE f (Inl e) = Inl e" "mapE f (Inr x) = Inr (f x)"
  by (simp_all add: mapE_def)

end
