(* ===== verification/Expr_Value.thy ===== *)
theory Expr_Value
  imports Cass_Value "HOL-Library.Signed_Division"
begin

text \<open>
  The values of the expressions (\<open>snap_expr.cpp\<close>, \<open>variable_t\<close>).  A variable is a name, one of fourteen types and the bytes of
  a cell (\<open>Cass_Value\<close>).  A \<open>QString\<close> is the list of its UTF-16 units.  Qt's conversions, regular expressions and letter cases
  (\<open>qt\<close>), the floating point unit on the bits of its numbers (\<open>fpu\<close>) and the database (\<open>database\<close>) are parameters.
  Integers are words of 64 bits, as \<open>int64_t\<close>; arithmetic on them wraps around.
\<close>

section \<open>Strings of UTF-16 units\<close>

type_synonym qstring = "16 word list"

definition qs :: "string \<Rightarrow> qstring" where
  "qs s = map (\<lambda>c. word_of_nat (of_char c)) s"

abbreviation slash :: "16 word" where "slash \<equiv> 47"

text \<open>\<open>QString::mid()\<close>, with a negative position or size as Qt defines them.\<close>

definition q_mid :: "qstring \<Rightarrow> int \<Rightarrow> int \<Rightarrow> qstring" where
  "q_mid s position n =
     (if position > int (length s) then []
      else if position < 0 then
        (if n < 0 \<or> n + position \<ge> int (length s) then s else if n + position \<le> 0 then [] else take (nat (n + position)) s)
      else if n < 0 \<or> n > int (length s) - position then drop (nat position) s
      else take (nat n) (drop (nat position) s))"

definition q_repeated :: "qstring \<Rightarrow> int \<Rightarrow> qstring" where
  "q_repeated s n = concat (replicate (nat n) s)"

definition q_last_index :: "16 word \<Rightarrow> qstring \<Rightarrow> int" where
  "q_last_index c s = int (length s) - int (length (takeWhile (\<lambda>d. d \<noteq> c) (rev s))) - 1"

definition q_less :: "qstring \<Rightarrow> qstring \<Rightarrow> bool" where
  "q_less a b \<longleftrightarrow> map unat a < map unat b"

definition q_number :: "int \<Rightarrow> qstring" where
  "q_number i = qs (show_int i)"

section \<open>Errors and parameters\<close>

datatype expr_error =
    Unknown_Function | Invalid_Number_Of_Parameters | Invalid_Parameter_Type | Not_Accessible | Not_Ready | Invalid_Data
  | Division_By_Zero | Logic_Exception | Cell_Error snap_error | Out_Of_Range | Arithmetic_Trap | Undefined_Shift

type_synonym 'a eres = "expr_error + 'a"

definition liftE :: "'a result \<Rightarrow> 'a eres" where
  "liftE r = (case r of Inl e \<Rightarrow> Inl (Cell_Error e) | Inr x \<Rightarrow> Inr x)"

definition nth_arg :: "'a list \<Rightarrow> nat \<Rightarrow> 'a eres" where
  "nth_arg xs i = (if i < length xs then Inr (xs ! i) else Inl Out_Of_Range)"

datatype variable_type =
    T_Null | T_Bool | T_Int8 | T_UInt8 | T_Int16 | T_UInt16 | T_Int32 | T_UInt32 | T_Int64 | T_UInt64 | T_Float | T_Double | T_String | T_Binary

text \<open>The position of a type in the enumeration, which the order of the operators rests on.\<close>

fun type_rank :: "variable_type \<Rightarrow> nat" where
  "type_rank T_Null = 0"
| "type_rank T_Bool = 1"
| "type_rank T_Int8 = 2"
| "type_rank T_UInt8 = 3"
| "type_rank T_Int16 = 4"
| "type_rank T_UInt16 = 5"
| "type_rank T_Int32 = 6"
| "type_rank T_UInt32 = 7"
| "type_rank T_Int64 = 8"
| "type_rank T_UInt64 = 9"
| "type_rank T_Float = 10"
| "type_rank T_Double = 11"
| "type_rank T_String = 12"
| "type_rank T_Binary = 13"

lemma type_rank_inject: "type_rank a = type_rank b \<longleftrightarrow> a = b"
  by (cases a; cases b) simp_all

instantiation variable_type :: linorder
begin

definition less_eq_variable_type :: "variable_type \<Rightarrow> variable_type \<Rightarrow> bool" where
  "a \<le> b \<longleftrightarrow> type_rank a \<le> type_rank b"

definition less_variable_type :: "variable_type \<Rightarrow> variable_type \<Rightarrow> bool" where
  "a < b \<longleftrightarrow> type_rank a < type_rank b"

instance
  by standard (auto simp: less_eq_variable_type_def less_variable_type_def type_rank_inject)

end

record qt =
  from_utf8 :: "string \<Rightarrow> qstring"
  to_utf8 :: "qstring \<Rightarrow> string"
  to_long_long :: "qstring \<Rightarrow> int option"
  to_lower :: "qstring \<Rightarrow> qstring"
  to_upper :: "qstring \<Rightarrow> qstring"
  split_string :: "qstring \<Rightarrow> qstring \<Rightarrow> qstring list"
  exact_match :: "bool \<Rightarrow> qstring \<Rightarrow> qstring \<Rightarrow> bool"
  replace_match :: "bool \<Rightarrow> qstring \<Rightarrow> qstring \<Rightarrow> qstring \<Rightarrow> qstring"

text \<open>Of \<open>fp_to_int\<close> the first argument is the integer type of the cast, for the values that it does not hold.\<close>

record fpu =
  fp_widen :: "32 word \<Rightarrow> 64 word"
  fp_narrow :: "64 word \<Rightarrow> 32 word"
  fp_of_int :: "int \<Rightarrow> 64 word"
  fp_to_int :: "variable_type \<Rightarrow> 64 word \<Rightarrow> int"
  fp_text :: "64 word \<Rightarrow> qstring"
  fp_neg32 :: "32 word \<Rightarrow> 32 word"
  fp_neg :: "64 word \<Rightarrow> 64 word"
  fp_mul :: "64 word \<Rightarrow> 64 word \<Rightarrow> 64 word"
  fp_div :: "64 word \<Rightarrow> 64 word \<Rightarrow> 64 word"
  fp_add :: "64 word \<Rightarrow> 64 word \<Rightarrow> 64 word"
  fp_sub :: "64 word \<Rightarrow> 64 word \<Rightarrow> 64 word"
  fp_less :: "64 word \<Rightarrow> 64 word \<Rightarrow> bool"
  fp_less_eq :: "64 word \<Rightarrow> 64 word \<Rightarrow> bool"
  fp_equal :: "64 word \<Rightarrow> 64 word \<Rightarrow> bool"
  fp_pi :: "64 word"

record database =
  db_cell :: "qstring \<Rightarrow> qstring \<Rightarrow> qstring \<Rightarrow> string result"
  db_cell_exists :: "qstring \<Rightarrow> qstring \<Rightarrow> qstring \<Rightarrow> bool result"
  db_row_exists :: "qstring \<Rightarrow> qstring \<Rightarrow> bool result"
  db_table_exists :: "qstring \<Rightarrow> bool result"

record expr_env =
  e_qt :: qt
  e_fpu :: fpu
  g_context :: "database option"
  table_is_accessible :: "qstring \<Rightarrow> bool"

section \<open>Variables\<close>

record variable =
  f_name :: qstring
  f_type :: variable_type
  f_value :: string

definition new_variable :: "qstring \<Rightarrow> variable" where
  "new_variable name = \<lparr>f_name = name, f_type = T_Null, f_value = []\<rparr>"

definition set_value :: "variable \<Rightarrow> variable_type \<Rightarrow> string \<Rightarrow> variable" where
  "set_value v type value = v\<lparr>f_type := type, f_value := value\<rparr>"

definition set_null :: "variable \<Rightarrow> variable" where
  "set_null v = v\<lparr>f_type := T_Null, f_value := []\<rparr>"

text \<open>One constructor per overload of \<open>set_value()\<close>.\<close>

datatype native =
    N_Bool bool | N_Char "8 word" | N_Signed_Char "8 word" | N_Unsigned_Char "8 word" | N_Int16 "16 word" | N_UInt16 "16 word"
  | N_Int32 "32 word" | N_UInt32 "32 word" | N_Int64 "64 word" | N_UInt64 "64 word" | N_Float "32 word" | N_Double "64 word"
  | N_String qstring | N_Binary string

definition set_string :: "qt \<Rightarrow> variable \<Rightarrow> qstring \<Rightarrow> variable eres" where
  "set_string q v s = mapE (set_value v T_String) (liftE (setBinaryValue (to_utf8 q s)))"

fun set_native :: "qt \<Rightarrow> variable \<Rightarrow> native \<Rightarrow> variable eres" where
  "set_native q v (N_Bool b) = Inr (set_value v T_Bool (setBoolValue b))"
| "set_native q v (N_Char w) = Inr (set_value v T_UInt8 (setCharValue w))"
| "set_native q v (N_Signed_Char w) = Inr (set_value v T_Int8 (setCharValue w))"
| "set_native q v (N_Unsigned_Char w) = Inr (set_value v T_UInt8 (setCharValue w))"
| "set_native q v (N_Int16 w) = Inr (set_value v T_Int16 (setInt16Value w))"
| "set_native q v (N_UInt16 w) = Inr (set_value v T_UInt16 (setInt16Value w))"
| "set_native q v (N_Int32 w) = Inr (set_value v T_Int32 (setInt32Value w))"
| "set_native q v (N_UInt32 w) = Inr (set_value v T_UInt32 (setInt32Value w))"
| "set_native q v (N_Int64 w) = Inr (set_value v T_Int64 (setInt64Value w))"
| "set_native q v (N_UInt64 w) = Inr (set_value v T_UInt64 (setInt64Value w))"
| "set_native q v (N_Float w) = Inr (set_value v T_Float (setFloatValue w))"
| "set_native q v (N_Double w) = Inr (set_value v T_Double (setDoubleValue w))"
| "set_native q v (N_String s) = set_string q v s"
| "set_native q v (N_Binary b) = mapE (set_value v T_Binary) (liftE (setBinaryValue b))"

text \<open>The safe readers at the index 0, which never fail there (\<open>safe_at_0\<close> below).\<close>

definition right_or :: "'a \<Rightarrow> 'e + 'a \<Rightarrow> 'a" where
  "right_or d r = (case r of Inl _ \<Rightarrow> d | Inr x \<Rightarrow> x)"

abbreviation bool_of :: "string \<Rightarrow> bool" where "bool_of v \<equiv> right_or False (boolValueOrNull v 0 False)"
abbreviation char_of_cell :: "string \<Rightarrow> 8 word" where "char_of_cell v \<equiv> right_or 0 (charValueOrNull v 0 0)"
abbreviation int16_of :: "string \<Rightarrow> 16 word" where "int16_of v \<equiv> right_or 0 (safeInt16Value v 0 0)"
abbreviation int32_of :: "string \<Rightarrow> 32 word" where "int32_of v \<equiv> right_or 0 (safeInt32Value v 0 0)"
abbreviation int64_of :: "string \<Rightarrow> 64 word" where "int64_of v \<equiv> right_or 0 (safeInt64Value v 0 0)"
abbreviation float_of :: "string \<Rightarrow> 32 word" where "float_of v \<equiv> right_or 0 (safeFloatValue v 0 0)"
abbreviation double_of :: "string \<Rightarrow> 64 word" where "double_of v \<equiv> right_or 0 (safeDoubleValue v 0 0)"
abbreviation string_of :: "qt \<Rightarrow> string \<Rightarrow> qstring" where "string_of q v \<equiv> right_or [] (stringValue (from_utf8 q) v 0 (- 1))"

text \<open>The number of an integer type, extended to 64 bits with or without its sign.\<close>

fun integer64 :: "variable_type \<Rightarrow> string \<Rightarrow> 64 word" where
  "integer64 T_Bool v = of_bool (bool_of v)"
| "integer64 T_Int8 v = scast (char_of_cell v)"
| "integer64 T_UInt8 v = ucast (char_of_cell v)"
| "integer64 T_Int16 v = scast (int16_of v)"
| "integer64 T_UInt16 v = ucast (int16_of v)"
| "integer64 T_Int32 v = scast (int32_of v)"
| "integer64 T_UInt32 v = ucast (int32_of v)"
| "integer64 T_Int64 v = int64_of v"
| "integer64 T_UInt64 v = int64_of v"
| "integer64 _ v = 0"

definition integer_types :: "variable_type list" where
  "integer_types = [T_Int8, T_UInt8, T_Int16, T_UInt16, T_Int32, T_UInt32, T_Int64, T_UInt64]"

definition unsigned_type :: "variable_type \<Rightarrow> bool" where
  "unsigned_type t \<longleftrightarrow> t \<in> {T_UInt8, T_UInt16, T_UInt32, T_UInt64}"

definition integer_value :: "variable_type \<Rightarrow> string \<Rightarrow> int" where
  "integer_value t v = (if unsigned_type t then uint (integer64 t v) else sint (integer64 t v))"

section \<open>Reading a variable\<close>

definition float_zero :: "fpu \<Rightarrow> 64 word \<Rightarrow> bool" where
  "float_zero fp x = fp_equal fp x 0"

fun is_true_of :: "fpu \<Rightarrow> variable_type \<Rightarrow> string \<Rightarrow> bool" where
  "is_true_of fp T_Null v = False"
| "is_true_of fp T_Bool v = bool_of v"
| "is_true_of fp T_Int8 v = (char_of_cell v \<noteq> 0)"
| "is_true_of fp T_UInt8 v = (char_of_cell v \<noteq> 0)"
| "is_true_of fp T_Int16 v = (int16_of v \<noteq> 0)"
| "is_true_of fp T_UInt16 v = (int16_of v \<noteq> 0)"
| "is_true_of fp T_Int32 v = (int32_of v \<noteq> 0)"
| "is_true_of fp T_UInt32 v = (int32_of v \<noteq> 0)"
| "is_true_of fp T_Int64 v = (int32_of v \<noteq> 0)"
| "is_true_of fp T_UInt64 v = (int32_of v \<noteq> 0)"
| "is_true_of fp T_Float v = (\<not> float_zero fp (fp_widen fp (float_of v)))"
| "is_true_of fp T_Double v = (\<not> float_zero fp (double_of v))"
| "is_true_of fp T_String v = (\<not> nullValue v)"
| "is_true_of fp T_Binary v = (\<not> nullValue v)"

definition is_true :: "fpu \<Rightarrow> variable \<Rightarrow> bool" where
  "is_true fp x = is_true_of fp (f_type x) (f_value x)"

definition get_bool :: "variable \<Rightarrow> bool eres" where
  "get_bool x = (if f_type x = T_Bool then Inr (bool_of (f_value x)) else Inl Invalid_Parameter_Type)"

text \<open>The number of a \<open>float\<close> or \<open>double\<close> as a \<open>double\<close>.\<close>

definition real_of_cell :: "fpu \<Rightarrow> variable \<Rightarrow> 64 word" where
  "real_of_cell fp x = (if f_type x = T_Float then fp_widen fp (float_of (f_value x)) else double_of (f_value x))"

definition get_integer :: "fpu \<Rightarrow> variable \<Rightarrow> 64 word eres" where
  "get_integer fp x =
     (if f_type x \<in> set integer_types then Inr (integer64 (f_type x) (f_value x))
      else if f_type x \<in> {T_Float, T_Double} then Inr (word_of_int (fp_to_int fp T_Int64 (real_of_cell fp x)))
      else Inl Invalid_Parameter_Type)"

definition get_floating_point :: "fpu \<Rightarrow> variable \<Rightarrow> 64 word eres" where
  "get_floating_point fp x =
     (if f_type x \<in> set integer_types then Inr (fp_of_int fp (integer_value (f_type x) (f_value x)))
      else if f_type x \<in> {T_Float, T_Double} then Inr (fp_of_int fp (fp_to_int fp T_Int64 (real_of_cell fp x)))
      else Inl Invalid_Parameter_Type)"

definition get_string :: "qt \<Rightarrow> variable \<Rightarrow> qstring eres" where
  "get_string q x =
     (if f_type x = T_String then liftE (stringValue (from_utf8 q) (f_value x) 0 (- 1)) else Inl Invalid_Parameter_Type)"

text \<open>The text of a number or a Boolean, the same in \<open>to_string()\<close> and in the function \<open>string()\<close>.\<close>

definition scalar_text :: "fpu \<Rightarrow> variable \<Rightarrow> qstring" where
  "scalar_text fp x =
     (if f_type x = T_Bool then (if bool_of (f_value x) then qs ''true'' else qs ''false'')
      else if f_type x \<in> {T_Float, T_Double} then fp_text fp (real_of_cell fp x)
      else q_number (integer_value (f_type x) (f_value x)))"

definition to_string :: "expr_env \<Rightarrow> variable \<Rightarrow> qstring" where
  "to_string env x =
     (if f_type x = T_Null then qs ''(null)''
      else if f_type x = T_String then qs [CHR 0x22] @ string_of (e_qt env) (f_value x) @ qs [CHR 0x22]
      else if f_type x = T_Binary then qs ''#...TODO: binary...#''
      else scalar_text (e_fpu env) x)"

section \<open>Writing numbers\<close>

text \<open>The bytes of a number of 64 bits cut to the width of a type.\<close>

fun number_bytes :: "variable_type \<Rightarrow> 64 word \<Rightarrow> string" where
  "number_bytes T_Bool w = setBoolValue (w \<noteq> 0)"
| "number_bytes T_Int8 w = setCharValue (ucast w)"
| "number_bytes T_UInt8 w = setCharValue (ucast w)"
| "number_bytes T_Int16 w = setInt16Value (ucast w)"
| "number_bytes T_UInt16 w = setInt16Value (ucast w)"
| "number_bytes T_Int32 w = setInt32Value (ucast w)"
| "number_bytes T_UInt32 w = setInt32Value (ucast w)"
| "number_bytes T_Int64 w = setInt64Value w"
| "number_bytes T_UInt64 w = setInt64Value w"
| "number_bytes _ w = []"

lemma qs_inject: "qs a = qs b \<longleftrightarrow> a = b"
proof
  have inj: "c = d" if "(word_of_nat (of_char c) :: 16 word) = word_of_nat (of_char d)" for c d :: char
  proof -
    have "(of_char c :: nat) = of_char d"
      using arg_cong [OF that, of unat] of_char_less_256 [of c] of_char_less_256 [of d] by (simp add: unat_of_nat take_bit_nat_eq_self)
    then show ?thesis by simp
  qed
  assume "qs a = qs b"
  then show "a = b" unfolding qs_def by (induction a b rule: list_induct2') (auto dest: inj)
qed simp

end
