(* ===== verification/Expr_Format.thy ===== *)
theory Expr_Format
  imports Expr_Value
begin

text \<open>
  The function \<open>format()\<close> of the expressions (\<open>call_format()\<close> with its structure \<open>input\<close>).  The characters that are left to
  read begin with \<open>f_last\<close>, and the empty list is its value \<open>EOF\<close>; the parameters that are left begin at \<open>f_index\<close>.
  The lemmas: the parser ends on every format, a value is padded to exactly the width, and the commas of the thousands only add
  characters to the digits.
\<close>

record format_flags =
  left_align :: bool
  zero_pad :: bool
  blank :: bool
  sign_flag :: bool
  thousands :: bool

definition no_flags :: format_flags where
  "no_flags = \<lparr>left_align = False, zero_pad = False, blank = False, sign_flag = False, thousands = False\<rparr>"

definition eat :: "16 word \<Rightarrow> (format_flags \<Rightarrow> format_flags) \<Rightarrow> format_flags \<times> qstring \<Rightarrow> format_flags \<times> qstring" where
  "eat c set_flag x = (case x of (flags, s) \<Rightarrow> (if s \<noteq> [] \<and> hd s = c then (set_flag flags, tl s) else (flags, s)))"

text \<open>One turn of the loop on the flags: the five tests in their order.\<close>

definition flag_turn :: "format_flags \<Rightarrow> qstring \<Rightarrow> format_flags \<times> qstring" where
  "flag_turn flags s =
     eat 48 (zero_pad_update (\<lambda>_. True)) (eat 45 (left_align_update (\<lambda>_. True)) (eat 43 (sign_flag_update (\<lambda>_. True))
       (eat 32 (blank_update (\<lambda>_. True)) (eat 39 (thousands_update (\<lambda>_. True)) (flags, s)))))"

definition unset_flags :: "format_flags \<Rightarrow> nat" where
  "unset_flags f = of_bool (\<not> left_align f) + of_bool (\<not> zero_pad f) + of_bool (\<not> blank f) + of_bool (\<not> sign_flag f) + of_bool (\<not> thousands f)"

text \<open>Flags that are set stay set, and only the same flags are as many.\<close>

definition grown :: "format_flags \<Rightarrow> format_flags \<Rightarrow> bool" where
  "grown f g \<longleftrightarrow> unset_flags g \<le> unset_flags f \<and> (unset_flags g = unset_flags f \<longrightarrow> g = f)"

lemma eat_grown:
  assumes "\<And>f. grown f (u f)" "grown f (fst x)"
  shows "grown f (fst (eat c u x))"
  using assms(1) [of "fst x"] assms(2) by (cases x) (auto simp: eat_def grown_def)

lemma flag_turn_grows: "grown f (fst (flag_turn f s))"
  unfolding flag_turn_def by (intro eat_grown) (simp_all add: grown_def unset_flags_def)

lemma flag_turn_less: "fst (flag_turn f s) \<noteq> f \<Longrightarrow> unset_flags (fst (flag_turn f s)) < unset_flags f"
  using flag_turn_grows [of f s] by (auto simp: grown_def)

text \<open>The loop ends with the first turn that sets no new flag, also when that turn has read characters.\<close>

function flag_loop :: "format_flags \<Rightarrow> qstring \<Rightarrow> format_flags \<times> qstring" where
  "flag_loop flags s =
     (let x = flag_turn flags s in if fst x = flags then x else flag_loop (fst x) (snd x))"
  by auto
termination
  by (relation "measure (\<lambda>x. unset_flags (fst x))") (simp_all add: flag_turn_less)

declare flag_loop.simps [simp del]

definition get_flags :: "qstring \<Rightarrow> format_flags \<times> qstring" where
  "get_flags s = (let (f, r) = flag_loop no_flags s; f1 = (if left_align f then f\<lparr>zero_pad := False\<rparr> else f)
     in (if sign_flag f1 then f1\<lparr>blank := False\<rparr> else f1, r))"

fun get_number :: "int \<Rightarrow> qstring \<Rightarrow> int \<times> qstring" where
  "get_number number [] = (number, [])"
| "get_number number (c # s) = (if 48 \<le> c \<and> c \<le> 57 then get_number (signed32 (number * 10 + uint c - 48)) s else (number, c # s))"

definition get_width :: "qstring \<Rightarrow> int \<times> qstring" where
  "get_width s = (if s \<noteq> [] \<and> 49 \<le> hd s \<and> hd s \<le> 57 then get_number 0 s else (0, s))"

definition get_precision :: "qstring \<Rightarrow> int \<times> qstring" where
  "get_precision s = (if s \<noteq> [] \<and> hd s = 46 then get_number 0 (tl s) else (- 1, s))"

text \<open>Commas at \<open>p\<close>, \<open>p - 3\<close> and so on, as long as the position is after \<open>stop\<close>.\<close>

function commas :: "int \<Rightarrow> int \<Rightarrow> qstring \<Rightarrow> qstring" where
  "commas stop p r = (if p > stop then commas stop (p - 3) (take (nat p) r @ 44 # drop (nat p) r) else r)"
  by auto
termination
  by (relation "measure (\<lambda>(stop, p, r). nat (p - stop))") auto

declare commas.simps [simp del]

definition stop_of :: "qstring \<Rightarrow> int" where
  "stop_of r = (if r \<noteq> [] \<and> hd r = 45 then 1 else 0)"

definition signed_text :: "format_flags \<Rightarrow> bool \<Rightarrow> qstring \<Rightarrow> qstring" where
  "signed_text flags positive r = (if sign_flag flags \<and> positive then 43 # r else if blank flags \<and> positive then 32 # r else r)"

definition integer_text :: "format_flags \<Rightarrow> 64 word \<Rightarrow> qstring" where
  "integer_text flags v =
     (let r = q_number (sint v) in
      signed_text flags (0 \<le> sint v) (if thousands flags then commas (stop_of r) (int (length r) - 3) r else r))"

definition q_index :: "16 word \<Rightarrow> qstring \<Rightarrow> int" where
  "q_index c s = (let n = length (takeWhile (\<lambda>d. d \<noteq> c) s) in if n < length s then int n else - 1)"

definition floating_text :: "fpu \<Rightarrow> format_flags \<Rightarrow> 64 word \<Rightarrow> qstring" where
  "floating_text fp flags v =
     (let r = fp_text fp v; p = (if q_index 46 r = - 1 then int (length r) - 3 else q_index 46 r) in
      signed_text flags (fp_less_eq fp 0 v) (if thousands flags then commas (stop_of r) p r else r))"

definition character_text :: "64 word \<Rightarrow> qstring eres" where
  "character_text w =
     (let code = sint w in
      if code < 0 \<or> code > 0x110000 \<or> (0xD800 \<le> code \<and> code \<le> 0xDFFF) then Inl Invalid_Data
      else if code \<ge> 0x10000 then Inr [word_of_int (code div 0x400 + 0xD7C0), word_of_int (code mod 0x400 + 0xDC00)]
      else Inr [word_of_int code])"

definition string_text :: "format_flags \<Rightarrow> int \<Rightarrow> qstring \<Rightarrow> qstring" where
  "string_text flags precision r =
     (let r1 = (if r = [] \<and> blank flags then [32] else r) in if precision > 0 then take (nat precision) r1 else r1)"

definition format_value :: "format_flags \<Rightarrow> int \<Rightarrow> qstring \<Rightarrow> qstring" where
  "format_value flags width value =
     (let align = width - int (length value); c = (if value = [] then 0 else hd value) in
      if align \<le> 0 then value
      else if left_align flags then value @ q_repeated [32] align
      else if zero_pad flags then
        (if c \<in> {43, 45} \<or> (c = 32 \<and> blank flags) then c # q_repeated [48] align @ tl value else q_repeated [48] align @ value)
      else q_repeated [32] align @ value)"

definition next_variable :: "variable list \<Rightarrow> (variable \<times> variable list) eres" where
  "next_variable vars = (case vars of [] \<Rightarrow> Inl Invalid_Data | v # r \<Rightarrow> Inr (v, r))"

definition conversion :: "expr_env \<Rightarrow> format_flags \<Rightarrow> int \<Rightarrow> int \<Rightarrow> 16 word \<Rightarrow> variable list \<Rightarrow> (qstring \<times> variable list) eres" where
  "conversion env flags width precision k vars =
     (if k \<in> {100, 105} then
        bindE (next_variable vars) (\<lambda>(v, r). mapE (\<lambda>n. (format_value flags width (integer_text flags n), r)) (get_integer (e_fpu env) v))
      else if k \<in> {102, 103} then
        bindE (next_variable vars) (\<lambda>(v, r).
          mapE (\<lambda>n. (format_value flags width (floating_text (e_fpu env) flags n), r)) (get_floating_point (e_fpu env) v))
      else if k \<in> {99, 67} then
        bindE (next_variable vars) (\<lambda>(v, r).
          bindE (get_integer (e_fpu env) v) (\<lambda>n. mapE (\<lambda>t. (format_value flags width t, r)) (character_text n)))
      else if k \<in> {115, 83} then
        bindE (next_variable vars) (\<lambda>(v, r).
          mapE (\<lambda>s. (format_value (flags\<lparr>zero_pad := False\<rparr>) width (string_text flags precision s), r)) (get_string (e_qt env) v))
      else Inr ([], vars))"

lemma eat_length: "length (snd x) \<le> n \<Longrightarrow> length (snd (eat c u x)) \<le> n"
  by (cases x) (auto simp: eat_def)

lemma flag_turn_length: "length (snd (flag_turn f s)) \<le> length s"
  unfolding flag_turn_def by (intro eat_length) simp

lemma flag_loop_length: "length (snd (flag_loop f s)) \<le> length s"
proof (induction f s rule: flag_loop.induct)
  case (1 f s)
  then show ?case
    using flag_turn_length [of f s] by (subst flag_loop.simps) (auto simp: Let_def intro: order_trans)
qed

lemma get_flags_length: "length (snd (get_flags s)) \<le> length s"
  using flag_loop_length [of no_flags s] by (auto simp: get_flags_def Let_def split: prod.splits)

lemma get_number_length: "length (snd (get_number n s)) \<le> length s"
  by (induction n s rule: get_number.induct) auto

lemma get_width_length: "length (snd (get_width s)) \<le> length s"
  using get_number_length by (auto simp: get_width_def)

lemma get_precision_length: "length (snd (get_precision s)) \<le> length s"
  using get_number_length [of 0 "tl s"] by (auto simp: get_precision_def)

lemma directive_length: "length (snd (get_precision (snd (get_width (snd (get_flags s)))))) \<le> length s"
  by (meson get_precision_length get_width_length get_flags_length order_trans)

text \<open>The parser: what the format gives from \<open>s\<close> on.\<close>

function format_parse :: "expr_env \<Rightarrow> qstring \<Rightarrow> variable list \<Rightarrow> qstring eres" where
  "format_parse env s vars =
     (case s of
        [] \<Rightarrow> Inr []
      | c # s1 \<Rightarrow>
          if c \<noteq> 37 then mapE ((#) c) (format_parse env s1 vars)
          else if s1 = [] then Inr []
          else if hd s1 = 37 then mapE ((#) 37) (format_parse env (tl s1) vars)
          else let f = get_flags s1; w = get_width (snd f); p = get_precision (snd w) in
            if snd p = [] then Inr []
            else bindE (conversion env (fst f) (fst w) (fst p) (hd (snd p)) vars) (\<lambda>(t, r).
              mapE ((@) t) (format_parse env (tl (snd p)) r)))"
  by auto
termination
proof (relation "measure (\<lambda>(env, s, vars). length s)", goal_cases)
  case (4 env s vars c s1 f w p x t r)
  then show ?case using directive_length [of s1] by (auto simp: less_Suc_eq_le)
qed auto

declare format_parse.simps [simp del]

definition call_format :: "expr_env \<Rightarrow> variable \<Rightarrow> variable list \<Rightarrow> variable eres" where
  "call_format env r args =
     (case args of
        [] \<Rightarrow> Inl Invalid_Number_Of_Parameters
      | format # vars \<Rightarrow>
          bindE (get_string (e_qt env) format) (\<lambda>s. bindE (format_parse env s vars) (\<lambda>t. set_string (e_qt env) r t)))"

section \<open>Lemmas\<close>

lemma q_repeated_length [simp]: "length (q_repeated [c] n) = nat n"
  by (simp add: q_repeated_def length_concat sum_list_replicate)

lemma format_value_length: "length (format_value flags width value) = max (length value) (nat width)"
  by (cases "value") (auto simp: format_value_def Let_def)

lemma filter_commas: "filter (\<lambda>c. c \<noteq> 44) (commas stop p r) = filter (\<lambda>c. c \<noteq> 44) r"
proof (induction stop p r rule: commas.induct)
  case (1 stop p r)
  have "filter (\<lambda>c. c \<noteq> 44) (take (nat p) r) @ filter (\<lambda>c. c \<noteq> 44) (drop (nat p) r) = filter (\<lambda>c. c \<noteq> 44) r"
    by (simp only: filter_append [symmetric] append_take_drop_id)
  then show ?case using 1 by (subst commas.simps) simp
qed

text \<open>The position of the comma is not the one of the decimal point: with a decimal point a comma comes right before it.\<close>

lemma comma_before_point: "thousands flags \<Longrightarrow> \<not> sign_flag flags \<Longrightarrow> \<not> blank flags \<Longrightarrow> fp_text fp v = qs ''1.5e+06'' \<Longrightarrow>
  floating_text fp flags v = qs ''1,.5e+06''"
  by (simp add: floating_text_def q_index_def stop_of_def signed_text_def qs_def commas.simps)

text \<open>The code 0x110000 is accepted, and its first half is not a high surrogate.\<close>

lemma beyond_unicode: "character_text 0x110000 = Inr [0xDC00, 0xDC00]"
  by (simp add: character_text_def)

text \<open>A precision of zero does not cut a string.\<close>

lemma precision_zero: "r \<noteq> [] \<Longrightarrow> string_text flags 0 r = r"
  by (simp add: string_text_def)

end
