(* ===== verification/Expr_Functions.thy ===== *)
theory Expr_Functions
  imports Expr_Format
begin

text \<open>
  The functions an expression can call (the \<open>call_...()\<close> functions of \<open>expr_node\<close> and their table) and the object \<open>functions_t\<close>
  that holds the functions by name.  A function gets the result variable to write to and the values of its parameters.
\<close>

type_synonym expr_function = "variable \<Rightarrow> variable list \<Rightarrow> variable eres"

definition count_args :: "bool \<Rightarrow> 'a eres \<Rightarrow> 'a eres" where
  "count_args ok r = (if ok then r else Inl Invalid_Number_Of_Parameters)"

abbreviation string_arg :: "expr_env \<Rightarrow> variable list \<Rightarrow> nat \<Rightarrow> qstring eres" where
  "string_arg env args i \<equiv> get_string (e_qt env) (args ! i)"

definition set_bool :: "variable \<Rightarrow> bool \<Rightarrow> variable" where
  "set_bool r b = set_value r T_Bool (setBoolValue b)"

section \<open>The database\<close>

definition with_context :: "expr_env \<Rightarrow> (database \<Rightarrow> 'a eres) \<Rightarrow> 'a eres" where
  "with_context env f = (case g_context env of None \<Rightarrow> Inl Not_Ready | Some db \<Rightarrow> f db)"

definition call_cell :: "expr_env \<Rightarrow> expr_function" where
  "call_cell env r args =
     with_context env (\<lambda>db. count_args (length args = 3)
       (bindE (string_arg env args 0) (\<lambda>table_name. bindE (string_arg env args 1) (\<lambda>row_name. bindE (string_arg env args 2) (\<lambda>cell_name.
         if \<not> table_is_accessible env table_name then Inl Not_Accessible
         else mapE (set_value r T_Binary) (liftE (db_cell db table_name row_name cell_name)))))))"

definition call_cell_exists :: "expr_env \<Rightarrow> expr_function" where
  "call_cell_exists env r args =
     with_context env (\<lambda>db. count_args (length args = 3)
       (bindE (string_arg env args 0) (\<lambda>table_name. bindE (string_arg env args 1) (\<lambda>row_name. bindE (string_arg env args 2) (\<lambda>cell_name.
         mapE (set_bool r) (liftE (db_cell_exists db table_name row_name cell_name)))))))"

definition call_row_exists :: "expr_env \<Rightarrow> expr_function" where
  "call_row_exists env r args =
     with_context env (\<lambda>db. count_args (length args = 2)
       (bindE (string_arg env args 0) (\<lambda>table_name. bindE (string_arg env args 1) (\<lambda>row_name.
         mapE (set_bool r) (liftE (db_row_exists db table_name row_name))))))"

definition call_table_exists :: "expr_env \<Rightarrow> expr_function" where
  "call_table_exists env r args =
     with_context env (\<lambda>db. count_args (length args = 1)
       (bindE (string_arg env args 0) (\<lambda>table_name. mapE (set_bool r) (liftE (db_table_exists db table_name)))))"

section \<open>Paths\<close>

definition join_child :: "qstring \<Rightarrow> qstring \<Rightarrow> qstring" where
  "join_child path0 child0 =
     (let path = rev (dropWhile (\<lambda>c. c = slash) (rev path0)); child = dropWhile (\<lambda>c. c = slash) child0 in
      if child \<noteq> [] \<and> path \<noteq> [] then path @ slash # child else path)"

definition call_child :: "expr_env \<Rightarrow> expr_function" where
  "call_child env r args =
     count_args (length args = 2)
       (bindE (string_arg env args 0) (\<lambda>path. bindE (string_arg env args 1) (\<lambda>child. set_string (e_qt env) r (join_child path child))))"

definition parent_path :: "qstring \<Rightarrow> qstring" where
  "parent_path path0 =
     (let path = (if path0 \<noteq> [] \<and> last path0 = slash then butlast path0 else path0); pos = q_last_index slash path in
      if pos = - 1 then [] else q_mid path 0 pos)"

definition call_parent :: "expr_env \<Rightarrow> expr_function" where
  "call_parent env r args = count_args (length args = 1) (bindE (string_arg env args 0) (\<lambda>path. set_string (e_qt env) r (parent_path path)))"

definition call_segment :: "expr_env \<Rightarrow> expr_function" where
  "call_segment env r args =
     count_args (length args = 3)
       (bindE (string_arg env args 0) (\<lambda>str. bindE (string_arg env args 1) (\<lambda>sep. bindE (get_integer (e_fpu env) (args ! 2)) (\<lambda>w.
         let idx = sint w; list = split_string (e_qt env) str sep in
         set_string (e_qt env) r (if 0 \<le> idx \<and> idx < int (length list) then list ! nat idx else [])))))"

section \<open>Numbers\<close>

text \<open>The number to convert to the type \<open>t\<close>; \<open>uint64()\<close> converts floating point numbers by way of \<open>int64_t\<close>.\<close>

definition cast_number :: "expr_env \<Rightarrow> variable_type \<Rightarrow> variable \<Rightarrow> 64 word" where
  "cast_number env t x =
     (case f_type x of
        T_Null \<Rightarrow> 0
      | T_Float \<Rightarrow> word_of_int (fp_to_int (e_fpu env) (if t = T_UInt64 then T_Int64 else t) (real_of_cell (e_fpu env) x))
      | T_Double \<Rightarrow> word_of_int (fp_to_int (e_fpu env) (if t = T_UInt64 then T_Int64 else t) (real_of_cell (e_fpu env) x))
      | T_String \<Rightarrow> (case to_long_long (e_qt env) (string_of (e_qt env) (f_value x)) of None \<Rightarrow> 0 | Some i \<Rightarrow> word_of_int i)
      | T_Binary \<Rightarrow> integer64 t (f_value x)
      | own \<Rightarrow> integer64 own (f_value x))"

definition call_cast :: "variable_type \<Rightarrow> expr_env \<Rightarrow> expr_function" where
  "call_cast t env r args = count_args (length args = 1) (Inr (set_value r t (number_bytes t (cast_number env t (args ! 0)))))"

definition call_int8 :: "expr_env \<Rightarrow> expr_function" where "call_int8 = call_cast T_Int8"
definition call_uint8 :: "expr_env \<Rightarrow> expr_function" where "call_uint8 = call_cast T_UInt8"
definition call_int16 :: "expr_env \<Rightarrow> expr_function" where "call_int16 = call_cast T_Int16"
definition call_uint16 :: "expr_env \<Rightarrow> expr_function" where "call_uint16 = call_cast T_UInt16"
definition call_int32 :: "expr_env \<Rightarrow> expr_function" where "call_int32 = call_cast T_Int32"
definition call_uint32 :: "expr_env \<Rightarrow> expr_function" where "call_uint32 = call_cast T_UInt32"
definition call_int64 :: "expr_env \<Rightarrow> expr_function" where "call_int64 = call_cast T_Int64"
definition call_uint64 :: "expr_env \<Rightarrow> expr_function" where "call_uint64 = call_cast T_UInt64"

definition call_is_integer :: "expr_env \<Rightarrow> expr_function" where
  "call_is_integer env r args =
     count_args (length args = 1)
       (let x = args ! 0 in
        Inr (set_bool r (f_type x \<in> set integer_types
          \<or> f_type x = T_String \<and> to_long_long (e_qt env) (string_of (e_qt env) (f_value x)) \<noteq> None)))"

section \<open>Strings\<close>

definition call_string :: "expr_env \<Rightarrow> expr_function" where
  "call_string env r args =
     count_args (length args = 1)
       (let x = args ! 0 in
        set_string (e_qt env) r
          (if f_type x = T_Null then []
           else if f_type x \<in> {T_String, T_Binary} then string_of (e_qt env) (f_value x)
           else scalar_text (e_fpu env) x))"

definition call_strlen :: "expr_env \<Rightarrow> expr_function" where
  "call_strlen env r args =
     count_args (length args = 1)
       (mapE (\<lambda>str. set_value r T_Int64 (setInt64Value (word_of_nat (length str)))) (string_arg env args 0))"

definition call_strmatch :: "expr_env \<Rightarrow> expr_function" where
  "call_strmatch env r args =
     count_args (length args = 2 \<or> length args = 3)
       (bindE (string_arg env args 0) (\<lambda>pattern. bindE (string_arg env args 1) (\<lambda>str.
         bindE (if length args = 3 then string_arg env args 2 else Inr []) (\<lambda>flags.
           Inr (set_bool r (exact_match (e_qt env) (105 \<in> set flags) pattern str))))))"

text \<open>The pattern and the flags of \<open>/pattern/flags\<close>.\<close>

definition split_pattern :: "qstring \<Rightarrow> (qstring \<times> qstring) eres" where
  "split_pattern pattern =
     (if length pattern \<ge> 2 \<and> hd pattern = slash then
        (let e = q_last_index slash pattern in
         if e \<le> 0 then Inl Invalid_Number_Of_Parameters else Inr (q_mid pattern 1 (e - 2), q_mid pattern (e + 1) (- 1)))
      else Inr (pattern, []))"

definition call_preg_replace :: "expr_env \<Rightarrow> expr_function" where
  "call_preg_replace env r args =
     count_args (length args = 3)
       (bindE (string_arg env args 0) (\<lambda>pattern. bindE (string_arg env args 1) (\<lambda>replacement. bindE (string_arg env args 2) (\<lambda>str.
         bindE (split_pattern pattern) (\<lambda>(p, flags).
           set_string (e_qt env) r (replace_match (e_qt env) (105 \<in> set flags) p replacement str))))))"

text \<open>The cast to \<open>int\<close> keeps the low 32 bits.\<close>

definition int_of_int64 :: "64 word \<Rightarrow> int" where
  "int_of_int64 w = sint (ucast w :: 32 word)"

definition call_substr :: "expr_env \<Rightarrow> expr_function" where
  "call_substr env r args =
     count_args (length args = 2 \<or> length args = 3)
       (bindE (string_arg env args 0) (\<lambda>str. bindE (get_integer (e_fpu env) (args ! 1)) (\<lambda>start.
         bindE (if length args = 3 then mapE int_of_int64 (get_integer (e_fpu env) (args ! 2)) else Inr (- 1)) (\<lambda>n.
           set_string (e_qt env) r (q_mid str (int_of_int64 start) n)))))"

definition call_tolower :: "expr_env \<Rightarrow> expr_function" where
  "call_tolower env r args = count_args (length args = 1) (bindE (string_arg env args 0) (\<lambda>str. set_string (e_qt env) r (to_lower (e_qt env) str)))"

definition call_toupper :: "expr_env \<Rightarrow> expr_function" where
  "call_toupper env r args = count_args (length args = 1) (bindE (string_arg env args 0) (\<lambda>str. set_string (e_qt env) r (to_upper (e_qt env) str)))"

section \<open>The table and the object of the functions\<close>

definition internal_functions :: "expr_env \<Rightarrow> (string \<times> expr_function) list" where
  "internal_functions env =
     [(''cell'', call_cell env), (''cell_exists'', call_cell_exists env), (''child'', call_child env), (''format'', call_format env),
      (''int16'', call_int16 env), (''int32'', call_int32 env), (''int64'', call_int64 env), (''int8'', call_int8 env),
      (''is_integer'', call_is_integer env), (''parent'', call_parent env), (''preg_replace'', call_preg_replace env),
      (''row_exists'', call_row_exists env), (''segment'', call_segment env), (''string'', call_string env), (''strlen'', call_strlen env),
      (''strmatch'', call_strmatch env), (''substr'', call_substr env), (''table_exists'', call_table_exists env),
      (''tolower'', call_tolower env), (''toupper'', call_toupper env), (''uint16'', call_uint16 env), (''uint32'', call_uint32 env),
      (''uint64'', call_uint64 env), (''uint8'', call_uint8 env)]"

record functions_t =
  f_functions :: "qstring \<rightharpoonup> expr_function"
  f_has_internal_functions :: bool

definition no_functions :: functions_t where
  "no_functions = \<lparr>f_functions = Map.empty, f_has_internal_functions = False\<rparr>"

definition get_function :: "functions_t \<Rightarrow> qstring \<Rightarrow> expr_function option" where
  "get_function fs name = f_functions fs name"

definition add_functions :: "(string \<times> expr_function) list \<Rightarrow> functions_t \<Rightarrow> functions_t" where
  "add_functions tab fs = fs\<lparr>f_functions := foldl (\<lambda>m (n, f). m(qs n \<mapsto> f)) (f_functions fs) tab\<rparr>"

definition set_has_internal_functions :: "functions_t \<Rightarrow> functions_t" where
  "set_has_internal_functions fs = fs\<lparr>f_has_internal_functions := True\<rparr>"

section \<open>Lemmas on paths\<close>

lemma q_last_index_none: "q_last_index c s = - 1 \<longleftrightarrow> c \<notin> set s"
proof
  assume "q_last_index c s = - 1"
  then have "length (takeWhile (\<lambda>d. d \<noteq> c) (rev s)) = length (rev s)" by (simp add: q_last_index_def)
  then have "takeWhile (\<lambda>d. d \<noteq> c) (rev s) = rev s" by (metis takeWhile_eq_take take_all order_refl)
  then show "c \<notin> set s" by (metis set_rev set_takeWhileD)
next
  assume "c \<notin> set s"
  then have "takeWhile (\<lambda>d. d \<noteq> c) (rev s) = rev s" by (auto simp: takeWhile_eq_all_conv)
  then show "q_last_index c s = - 1" by (simp only: q_last_index_def length_rev)
qed

lemma q_last_index_append: "c \<notin> set t \<Longrightarrow> q_last_index c (s @ c # t) = int (length s)"
  by (subst q_last_index_def, simp, subst takeWhile_append2) auto

text \<open>The parent of a child is the path, without the slashes at its end.\<close>

lemma parent_of_child:
  assumes "slash \<notin> set child" "child \<noteq> []" "path \<noteq> []" "last path \<noteq> slash"
  shows "parent_path (join_child path child) = path"
proof -
  have "join_child path child = path @ slash # child"
    using assms by (cases path rule: rev_cases; cases child) (auto simp: join_child_def)
  moreover have "last (path @ slash # child) \<noteq> slash" using assms(1,2) by (metis last_appendR last_ConsR last_in_set list.distinct(1))
  ultimately show ?thesis using assms(1) by (simp add: parent_path_def q_last_index_append q_mid_def)
qed

text \<open>A child of the root is lost, and of a pattern between slashes the last character.\<close>

lemma child_of_root: "join_child [slash] child = []"
  by (simp add: join_child_def)

lemma pattern_cut: "split_pattern (qs ''/abc/i'') = Inr (qs ''ab'', qs ''i'')"
  by (simp add: split_pattern_def qs_def q_last_index_def q_mid_def)

end
