(* ===== verification/Expr_Node.thy ===== *)
theory Expr_Node
  imports Expr_Functions
begin

text \<open>
  The program of an expression: the tree of \<open>expr_node\<close>, its operators, its execution, the functions that build it while the
  expression is parsed, and the form it is saved in (\<open>snap_expr.cpp\<close>).  The program is the one of a release build, in which
  \<open>verify_unary()\<close>, \<open>verify_binary()\<close>, \<open>verify_variable()\<close> and the test on types of \<open>verify_children()\<close> are empty.  The
  execution passes the variables and the functions along, and keeps them when an exception is thrown, as references do.
\<close>

unbundle bit_operations_syntax

section \<open>Operators on numbers\<close>

datatype arith_op =
    Multiply | Divide | Modulo | Add | Subtract | Shift_Left | Shift_Right | Minimum | Maximum | Bitwise_And | Bitwise_Xor | Bitwise_Or

datatype bool_op =
    Less | Less_Or_Equal | Greater | Greater_Or_Equal | Equal | Not_Equal | Logical_And | Logical_Xor | Logical_Or

abbreviation INT64_MIN :: "64 word" where "INT64_MIN \<equiv> 0x8000000000000000"

definition divide_with :: "(int \<Rightarrow> int \<Rightarrow> int) \<Rightarrow> 64 word \<Rightarrow> 64 word \<Rightarrow> 64 word eres" where
  "divide_with f a b =
     (if b = 0 then Inl Division_By_Zero else if a = INT64_MIN \<and> b = - 1 then Inl Arithmetic_Trap else Inr (word_of_int (f (sint a) (sint b))))"

definition shift_with :: "(nat \<Rightarrow> 64 word \<Rightarrow> 64 word) \<Rightarrow> 64 word \<Rightarrow> 64 word \<Rightarrow> 64 word eres" where
  "shift_with f a b = (if unat b < 64 then Inr (f (unat b) a) else Inl Undefined_Shift)"

fun integers :: "arith_op \<Rightarrow> 64 word \<Rightarrow> 64 word \<Rightarrow> 64 word eres" where
  "integers Multiply a b = Inr (a * b)"
| "integers Divide a b = divide_with (\<lambda>x y. x sdiv y) a b"
| "integers Modulo a b = divide_with (\<lambda>x y. x smod y) a b"
| "integers Add a b = Inr (a + b)"
| "integers Subtract a b = Inr (a - b)"
| "integers Shift_Left a b = shift_with push_bit a b"
| "integers Shift_Right a b = shift_with signed_drop_bit a b"
| "integers Minimum a b = Inr (if sint a < sint b then a else b)"
| "integers Maximum a b = Inr (if sint a > sint b then a else b)"
| "integers Bitwise_And a b = Inr (a AND b)"
| "integers Bitwise_Xor a b = Inr (a XOR b)"
| "integers Bitwise_Or a b = Inr (a OR b)"

fun floating_points :: "fpu \<Rightarrow> arith_op \<Rightarrow> (64 word \<Rightarrow> 64 word \<Rightarrow> 64 word) option" where
  "floating_points fp Multiply = Some (fp_mul fp)"
| "floating_points fp Divide = Some (fp_div fp)"
| "floating_points fp Add = Some (fp_add fp)"
| "floating_points fp Subtract = Some (fp_sub fp)"
| "floating_points fp Minimum = Some (\<lambda>a b. if fp_less fp a b then a else b)"
| "floating_points fp Maximum = Some (\<lambda>a b. if fp_less fp b a then a else b)"
| "floating_points fp _ = None"

fun string_operator :: "arith_op \<Rightarrow> (qstring \<Rightarrow> qstring \<Rightarrow> qstring) option" where
  "string_operator Add = Some (@)"
| "string_operator Minimum = Some (\<lambda>a b. if q_less a b then a else b)"
| "string_operator Maximum = Some (\<lambda>a b. if q_less b a then a else b)"
| "string_operator _ = None"

fun bool_integers :: "bool_op \<Rightarrow> 64 word \<Rightarrow> 64 word \<Rightarrow> bool" where
  "bool_integers Less a b = (sint a < sint b)"
| "bool_integers Less_Or_Equal a b = (sint a \<le> sint b)"
| "bool_integers Greater a b = (sint a > sint b)"
| "bool_integers Greater_Or_Equal a b = (sint a \<ge> sint b)"
| "bool_integers Equal a b = (a = b)"
| "bool_integers Not_Equal a b = (a \<noteq> b)"
| "bool_integers Logical_And a b = (a \<noteq> 0 \<and> b \<noteq> 0)"
| "bool_integers Logical_Xor a b = ((a \<noteq> 0) \<noteq> (b \<noteq> 0))"
| "bool_integers Logical_Or a b = (a \<noteq> 0 \<or> b \<noteq> 0)"

fun bool_floating_points :: "fpu \<Rightarrow> bool_op \<Rightarrow> (64 word \<Rightarrow> 64 word \<Rightarrow> bool) option" where
  "bool_floating_points fp Less = Some (\<lambda>a b. fp_less fp a b)"
| "bool_floating_points fp Less_Or_Equal = Some (\<lambda>a b. fp_less_eq fp a b)"
| "bool_floating_points fp Greater = Some (\<lambda>a b. fp_less fp b a)"
| "bool_floating_points fp Greater_Or_Equal = Some (\<lambda>a b. fp_less_eq fp b a)"
| "bool_floating_points fp Equal = Some (\<lambda>a b. fp_equal fp a b)"
| "bool_floating_points fp Not_Equal = Some (\<lambda>a b. \<not> fp_equal fp a b)"
| "bool_floating_points fp _ = None"

fun bool_strings :: "bool_op \<Rightarrow> (qstring \<Rightarrow> qstring \<Rightarrow> bool) option" where
  "bool_strings Less = Some (\<lambda>a b. q_less a b)"
| "bool_strings Less_Or_Equal = Some (\<lambda>a b. \<not> q_less b a)"
| "bool_strings Greater = Some (\<lambda>a b. q_less b a)"
| "bool_strings Greater_Or_Equal = Some (\<lambda>a b. \<not> q_less a b)"
| "bool_strings Equal = Some (\<lambda>a b. a = b)"
| "bool_strings Not_Equal = Some (\<lambda>a b. a \<noteq> b)"
| "bool_strings _ = None"

section \<open>Operators on variables\<close>

text \<open>What \<open>get_variable_value()\<close> leaves in its seven references.\<close>

record operand =
  o_integer :: "64 word"
  o_floating :: "64 word"
  o_string :: qstring
  o_is_floating :: bool
  o_is_string :: bool

definition get_variable_value :: "qt \<Rightarrow> variable \<Rightarrow> operand option" where
  "get_variable_value q x =
     (let none = \<lparr>o_integer = 0, o_floating = 0, o_string = [], o_is_floating = False, o_is_string = False\<rparr> in
      if f_type x = T_Bool \<or> f_type x \<in> set integer_types then Some (none\<lparr>o_integer := integer64 (f_type x) (f_value x)\<rparr>)
      else if f_type x = T_Double then Some (none\<lparr>o_floating := double_of (f_value x), o_is_floating := True\<rparr>)
      else if f_type x = T_String then Some (none\<lparr>o_string := string_of q (f_value x), o_is_string := True\<rparr>)
      else None)"

text \<open>
  The expression \<open>signed ? li : static_cast<uint64_t>(li)\<close> has the type \<open>uint64_t\<close>, whatever the flag says, so the flag is left out.
\<close>

definition as_double :: "fpu \<Rightarrow> operand \<Rightarrow> 64 word" where
  "as_double fp x = (if o_is_floating x then o_floating x else fp_of_int fp (uint (o_integer x)))"

definition as_string :: "fpu \<Rightarrow> operand \<Rightarrow> qstring" where
  "as_string fp x = (if o_is_string x then o_string x else fp_text fp (as_double fp x))"

definition is_number_type :: "variable_type \<Rightarrow> bool" where
  "is_number_type t \<longleftrightarrow> t = T_Bool \<or> t \<in> set integer_types"

definition operate :: "expr_env \<Rightarrow> arith_op \<Rightarrow> variable \<Rightarrow> variable_type \<Rightarrow> operand \<Rightarrow> operand \<Rightarrow> variable eres" where
  "operate env op result type x y =
     (let fp = e_fpu env in
      if is_number_type type then mapE (\<lambda>w. set_value result type (number_bytes type w)) (integers op (o_integer x) (o_integer y))
      else if type = T_Float then
        (case floating_points fp op of
           None \<Rightarrow> Inl Logic_Exception
         | Some f \<Rightarrow> Inr (set_value result T_Float (setFloatValue (fp_narrow fp (f (as_double fp x) (as_double fp y))))))
      else if type = T_Double then
        (case floating_points fp op of
           None \<Rightarrow> Inl Logic_Exception
         | Some f \<Rightarrow> Inr (set_value result T_Double (setDoubleValue (f (as_double fp x) (as_double fp y)))))
      else if type = T_String then
        (case string_operator op of
           Some f \<Rightarrow> set_string (e_qt env) result (f (as_string fp x) (as_string fp y))
         | None \<Rightarrow>
             if op = Multiply \<and> o_is_string x \<and> \<not> o_is_floating y \<and> \<not> o_is_string y
             then set_string (e_qt env) result (q_repeated (o_string x) (int_of_int64 (o_integer y)))
             else Inl Logic_Exception)
      else Inl Logic_Exception)"

definition binary_operation :: "expr_env \<Rightarrow> arith_op \<Rightarrow> variable \<Rightarrow> variable list \<Rightarrow> variable eres" where
  "binary_operation env op result sub_results =
     bindE (nth_arg sub_results 0) (\<lambda>a. bindE (nth_arg sub_results 1) (\<lambda>b.
       case (get_variable_value (e_qt env) a, get_variable_value (e_qt env) b) of
         (Some x, Some y) \<Rightarrow> operate env op result (max (f_type a) (f_type b)) x y
       | _ \<Rightarrow> Inl Logic_Exception))"

definition bool_operate :: "expr_env \<Rightarrow> bool_op \<Rightarrow> variable_type \<Rightarrow> operand \<Rightarrow> operand \<Rightarrow> bool eres" where
  "bool_operate env op type x y =
     (let fp = e_fpu env in
      if is_number_type type then Inr (bool_integers op (o_integer x) (o_integer y))
      else if type \<in> {T_Float, T_Double} then
        (case bool_floating_points fp op of None \<Rightarrow> Inl Logic_Exception | Some f \<Rightarrow> Inr (f (as_double fp x) (as_double fp y)))
      else if type = T_String then
        (case bool_strings op of None \<Rightarrow> Inl Logic_Exception | Some f \<Rightarrow> Inr (f (as_string fp x) (as_string fp y)))
      else Inl Logic_Exception)"

definition bool_binary_operation :: "expr_env \<Rightarrow> bool_op \<Rightarrow> variable \<Rightarrow> variable list \<Rightarrow> variable eres" where
  "bool_binary_operation env op result sub_results =
     bindE (nth_arg sub_results 0) (\<lambda>a. bindE (nth_arg sub_results 1) (\<lambda>b.
       case (get_variable_value (e_qt env) a, get_variable_value (e_qt env) b) of
         (Some x, Some y) \<Rightarrow> mapE (set_bool result) (bool_operate env op (max (f_type a) (f_type b)) x y)
       | _ \<Rightarrow> Inl Logic_Exception))"

text \<open>Whether a value is zero or empty, the switch that \<open>logical_not()\<close> and \<open>conditional()\<close> both have.\<close>

definition zero_value :: "expr_env \<Rightarrow> variable \<Rightarrow> bool eres" where
  "zero_value env x =
     (if is_number_type (f_type x) then Inr (integer64 (f_type x) (f_value x) = 0)
      else if f_type x \<in> {T_Float, T_Double} then Inr (float_zero (e_fpu env) (real_of_cell (e_fpu env) x))
      else if f_type x = T_String then Inr (string_of (e_qt env) (f_value x) = [])
      else if f_type x = T_Binary then Inr (right_or [] (binaryValue (f_value x) 0 (- 1)) = [])
      else Inl Logic_Exception)"

definition logical_not :: "expr_env \<Rightarrow> variable \<Rightarrow> variable list \<Rightarrow> variable eres" where
  "logical_not env result sub_results = bindE (nth_arg sub_results 0) (\<lambda>a. mapE (set_bool result) (zero_value env a))"

definition bitwise_not :: "variable \<Rightarrow> variable list \<Rightarrow> variable eres" where
  "bitwise_not result sub_results =
     bindE (nth_arg sub_results 0) (\<lambda>a.
       if is_number_type (f_type a)
       then Inr (set_value result (f_type a) (number_bytes (f_type a) (NOT (integer64 (f_type a) (f_value a)))))
       else Inl Logic_Exception)"

definition negate :: "fpu \<Rightarrow> variable \<Rightarrow> variable list \<Rightarrow> variable eres" where
  "negate fp result sub_results =
     bindE (nth_arg sub_results 0) (\<lambda>a.
       if f_type a \<in> set integer_types
       then Inr (set_value result (f_type a) (number_bytes (f_type a) (- integer64 (f_type a) (f_value a))))
       else if f_type a = T_Float then Inr (set_value result T_Float (setFloatValue (fp_neg32 fp (float_of (f_value a)))))
       else if f_type a = T_Double then Inr (set_value result T_Double (setDoubleValue (fp_neg fp (double_of (f_value a)))))
       else Inl Logic_Exception)"

section \<open>Nodes\<close>

datatype node_type =
    Unknown | Loading | Op_List | Logical_Not | Bitwise_Not | Negate | Op_Function | Arith arith_op | Compare bool_op
  | Conditional | Assignment | Op_Variable | Literal_Boolean | Literal_Integer | Literal_Floating_Point | Literal_String | Node_Variable

datatype expr_node = Node (node_type_of: node_type) (node_name: qstring) (node_variable: variable) (node_children: "expr_node list")

definition new_node :: "node_type \<Rightarrow> expr_node list \<Rightarrow> expr_node" where
  "new_node t kids = Node t [] (new_variable []) kids"

section \<open>Execution\<close>

record exec_state =
  x_variables :: "qstring \<rightharpoonup> variable"
  x_functions :: functions_t

type_synonym 'a exec = "exec_state \<times> 'a eres"

definition bindX :: "'a exec \<Rightarrow> (exec_state \<Rightarrow> 'a \<Rightarrow> 'b exec) \<Rightarrow> 'b exec" where
  "bindX x f = (case x of (st, Inl e) \<Rightarrow> (st, Inl e) | (st, Inr v) \<Rightarrow> f st v)"

lemma bindX_simps [simp]: "bindX (st, Inl e) f = (st, Inl e)" "bindX (st, Inr v) f = f st v"
  by (simp_all add: bindX_def)

lemma bindX_cong [fundef_cong]: "x = y \<Longrightarrow> (\<And>st v. y = (st, Inr v) \<Longrightarrow> f st v = g st v) \<Longrightarrow> bindX x f = bindX y g"
  by (auto simp: bindX_def split: sum.splits prod.splits)

text \<open>The parameter \<open>plugins\<close> is what the plugins add when they are asked for their functions.\<close>

record program_env =
  p_env :: expr_env
  plugins :: "functions_t \<Rightarrow> functions_t"

definition call_found :: "exec_state \<Rightarrow> qstring \<Rightarrow> variable \<Rightarrow> variable list \<Rightarrow> variable exec" where
  "call_found st name result sub_results =
     (case get_function (x_functions st) name of
        None \<Rightarrow> (st, Inl Unknown_Function)
      | Some f \<Rightarrow> (st, f result sub_results))"

definition call_function :: "program_env \<Rightarrow> qstring \<Rightarrow> variable \<Rightarrow> variable list \<Rightarrow> exec_state \<Rightarrow> variable exec" where
  "call_function p name result sub_results st =
     (if get_function (x_functions st) name = None \<and> \<not> f_has_internal_functions (x_functions st)
      then call_found (st\<lparr>x_functions := plugins p (add_functions (internal_functions (p_env p)) (set_has_internal_functions (x_functions st)))\<rparr>)
             name result sub_results
      else call_found st name result sub_results)"

definition assignment :: "qstring \<Rightarrow> variable list \<Rightarrow> exec_state \<Rightarrow> variable exec" where
  "assignment name sub_results st =
     (case nth_arg sub_results 0 of
        Inl e \<Rightarrow> (st, Inl e)
      | Inr v \<Rightarrow> (st\<lparr>x_variables := (x_variables st)(name \<mapsto> v)\<rparr>, Inr v))"

definition load_variable :: "qstring \<Rightarrow> variable \<Rightarrow> exec_state \<Rightarrow> variable exec" where
  "load_variable name result st = (st, Inr (case x_variables st name of Some v \<Rightarrow> v | None \<Rightarrow> result))"

text \<open>The second switch of \<open>execute()\<close>, once the children are computed.\<close>

definition operation :: "program_env \<Rightarrow> node_type \<Rightarrow> qstring \<Rightarrow> variable \<Rightarrow> variable \<Rightarrow> exec_state \<Rightarrow> variable list \<Rightarrow> variable exec" where
  "operation p type name var result st sub_results =
     (case type of
        Op_List \<Rightarrow> (st, if sub_results = [] then Inl Out_Of_Range else Inr (last sub_results))
      | Logical_Not \<Rightarrow> (st, logical_not (p_env p) result sub_results)
      | Bitwise_Not \<Rightarrow> (st, bitwise_not result sub_results)
      | Negate \<Rightarrow> (st, negate (e_fpu (p_env p)) result sub_results)
      | Op_Function \<Rightarrow> call_function p name result sub_results st
      | Arith op \<Rightarrow> (st, binary_operation (p_env p) op result sub_results)
      | Compare op \<Rightarrow> (st, bool_binary_operation (p_env p) op result sub_results)
      | Assignment \<Rightarrow> assignment name sub_results st
      | Op_Variable \<Rightarrow> load_variable name result st
      | Literal_Boolean \<Rightarrow> (st, Inr var)
      | Literal_Integer \<Rightarrow> (st, Inr var)
      | Literal_Floating_Point \<Rightarrow> (st, Inr var)
      | Literal_String \<Rightarrow> (st, Inr var)
      | _ \<Rightarrow> (st, Inl Logic_Exception))"

fun execute :: "program_env \<Rightarrow> expr_node \<Rightarrow> variable \<Rightarrow> exec_state \<Rightarrow> variable exec"
  and execute_all :: "program_env \<Rightarrow> expr_node list \<Rightarrow> exec_state \<Rightarrow> variable list exec" where
  "execute p (Node type name var kids) result st =
     (if type = Conditional then
        (case kids of
           [] \<Rightarrow> (st, Inl Out_Of_Range)
         | c # branches \<Rightarrow>
             bindX (execute p c result st) (\<lambda>st1 r.
               bindX (st1, zero_value (p_env p) r) (\<lambda>st2 zero.
                 if zero then (case branches of _ # b # _ \<Rightarrow> execute p b r st2 | _ \<Rightarrow> (st2, Inl Out_Of_Range))
                 else (case branches of a # _ \<Rightarrow> execute p a r st2 | [] \<Rightarrow> (st2, Inl Out_Of_Range)))))
      else bindX (execute_all p kids st) (\<lambda>st1 sub_results. operation p type name var result st1 sub_results))"
| "execute_all p [] st = (st, Inr [])"
| "execute_all p (k # ks) st =
     bindX (execute p k (new_variable []) st) (\<lambda>st1 cr. bindX (execute_all p ks st1) (\<lambda>st2 rest. (st2, Inr (cr # rest))))"

definition expr_execute :: "program_env \<Rightarrow> expr_node option \<Rightarrow> variable \<Rightarrow> exec_state \<Rightarrow> variable exec" where
  "expr_execute p tree result st =
     (case tree of
        None \<Rightarrow> (st, Inl Unknown_Function)
      | Some n \<Rightarrow>
          execute p n result (st\<lparr>x_variables := (x_variables st)(qs ''pi'' \<mapsto>
            set_value (new_variable (qs ''pi'')) T_Double (setDoubleValue (fp_pi (e_fpu (p_env p)))))\<rparr>))"

section \<open>Building the tree\<close>

text \<open>The actions of the grammar, on the nodes that the tokens of a rule carry.\<close>

definition list_expr_binary_operation :: "node_type \<Rightarrow> expr_node \<Rightarrow> expr_node \<Rightarrow> expr_node" where
  "list_expr_binary_operation op l r = new_node op [l, r]"

definition list_expr_unary_operation :: "node_type \<Rightarrow> expr_node \<Rightarrow> expr_node" where
  "list_expr_unary_operation op i = new_node op [i]"

definition list_expr_conditional :: "expr_node \<Rightarrow> expr_node \<Rightarrow> expr_node \<Rightarrow> expr_node" where
  "list_expr_conditional c at af = new_node Conditional [c, at, af]"

definition list_expr_list :: "expr_node \<Rightarrow> expr_node \<Rightarrow> expr_node" where
  "list_expr_list l i = new_node Op_List [l, i]"

text \<open>
  \<open>list_expr_level_child()\<close>: the loop over the children, at the position \<open>i\<close>, on a vector that it changes.  A list is removed,
  itself levelled, and its children inserted one after the other.
\<close>

function level_loop :: "nat \<Rightarrow> expr_node list \<Rightarrow> expr_node list" where
  "level_loop i n =
     (if i < length n then
        (if node_type_of (n ! i) = Op_List then
           (let c = level_loop 0 (node_children (n ! i)) in level_loop (i + length c) (take i n @ c @ drop (Suc i) n))
         else level_loop (Suc i) n)
      else n)"
  by auto
termination
proof (relation "measure (\<lambda>(i, n). size_list size (drop i n))", goal_cases)
  case (2 i n)
  moreover from this have "size (n ! i) = Suc (size_list size (node_children (n ! i)))" by (cases "n ! i") simp
  moreover have "drop i n = n ! i # drop (Suc i) n" using 2 by (simp add: Cons_nth_drop_Suc)
  ultimately show ?case by simp
next
  case (3 i n c)
  then have "drop i n = n ! i # drop (Suc i) n" by (simp add: Cons_nth_drop_Suc)
  then show ?case by (cases "n ! i") (simp add: 3)
next
  case (4 i n)
  then have "drop i n = n ! i # drop (Suc i) n" by (simp add: Cons_nth_drop_Suc)
  then show ?case by simp
qed simp

declare level_loop.simps [simp del]

definition list_expr_level_child :: "expr_node \<Rightarrow> expr_node" where
  "list_expr_level_child n = Node (node_type_of n) (node_name n) (node_variable n) (level_loop 0 (node_children n))"

text \<open>The action of the parentheses, whatever node is between them.\<close>

definition list_expr_level_list :: "expr_node \<Rightarrow> expr_node" where
  "list_expr_level_list n = list_expr_level_child n"

definition list_expr_function :: "qstring \<Rightarrow> expr_node \<Rightarrow> expr_node" where
  "list_expr_function func_name l =
     Node Op_Function func_name (new_variable [])
       (if node_type_of l = Op_List then node_children (list_expr_level_child l) else [l])"

definition list_expr_function_no_param :: "qstring \<Rightarrow> expr_node" where
  "list_expr_function_no_param func_name = Node Op_Function func_name (new_variable []) []"

definition literal_node :: "node_type \<Rightarrow> variable_type \<Rightarrow> string \<Rightarrow> expr_node" where
  "literal_node t vt v = Node t [] (set_value (new_variable []) vt v) []"

definition list_expr_boolean :: "bool \<Rightarrow> expr_node" where
  "list_expr_boolean b = literal_node Literal_Boolean T_Bool (setBoolValue b)"

definition list_expr_string :: "qt \<Rightarrow> qstring \<Rightarrow> expr_node eres" where
  "list_expr_string q str = mapE (literal_node Literal_String T_String) (liftE (setBinaryValue (to_utf8 q str)))"

definition list_expr_integer :: "64 word \<Rightarrow> expr_node" where
  "list_expr_integer i = literal_node Literal_Integer T_Int64 (setInt64Value i)"

definition list_expr_float :: "64 word \<Rightarrow> expr_node" where
  "list_expr_float f = literal_node Literal_Floating_Point T_Double (setDoubleValue f)"

definition list_expr_variable :: "qstring \<Rightarrow> expr_node" where
  "list_expr_variable name = Node Op_Variable name (new_variable []) []"

definition list_expr_assignment :: "qstring \<Rightarrow> expr_node \<Rightarrow> expr_node" where
  "list_expr_assignment name i = Node Assignment name (new_variable []) [i]"

end
