(* ===== verification/Expr_Types.thy ===== *)
theory Expr_Types
  imports Expr_Node
begin

text \<open>
  The types of the expressions.  The code checks types while it runs; here they are computed beforehand, from the types of the
  variables (\<open>type_of\<close>), with a type for every operator and every internal function but \<open>format()\<close> and \<open>preg_replace()\<close>, whose errors
  depend on what their first parameter says.  The theorem: an expression that has a type never throws a type error, and returns
  a value of that type, whose bytes have the width of the type.
\<close>

section \<open>Values\<close>

fun value_ok :: "variable_type \<Rightarrow> string \<Rightarrow> bool" where
  "value_ok T_Null v = (v = [])"
| "value_ok T_Bool v = (length v = 1)"
| "value_ok T_Int8 v = (length v = 1)"
| "value_ok T_UInt8 v = (length v = 1)"
| "value_ok T_Int16 v = (length v = 2)"
| "value_ok T_UInt16 v = (length v = 2)"
| "value_ok T_Int32 v = (length v = 4)"
| "value_ok T_UInt32 v = (length v = 4)"
| "value_ok T_Int64 v = (length v = 8)"
| "value_ok T_UInt64 v = (length v = 8)"
| "value_ok T_Float v = (length v = 4)"
| "value_ok T_Double v = (length v = 8)"
| "value_ok T_String v = True"
| "value_ok T_Binary v = True"

definition has_type :: "variable \<Rightarrow> variable_type \<Rightarrow> bool" where
  "has_type x t \<longleftrightarrow> f_type x = t \<and> value_ok t (f_value x)"

definition type_error :: "expr_error \<Rightarrow> bool" where
  "type_error e \<longleftrightarrow> e \<in> {Unknown_Function, Invalid_Number_Of_Parameters, Invalid_Parameter_Type, Logic_Exception, Out_Of_Range}"

definition ok_result :: "variable_type \<Rightarrow> variable eres \<Rightarrow> bool" where
  "ok_result t x = (case x of Inl e \<Rightarrow> \<not> type_error e | Inr v \<Rightarrow> has_type v t)"

lemma ok_result_simps [simp]: "ok_result t (Inl e) \<longleftrightarrow> \<not> type_error e" "ok_result t (Inr v) \<longleftrightarrow> has_type v t"
  by (simp_all add: ok_result_def)

lemma type_error_simps [simp]:
  "\<not> type_error (Cell_Error e)" "\<not> type_error Not_Ready" "\<not> type_error Not_Accessible" "\<not> type_error Division_By_Zero"
  "\<not> type_error Arithmetic_Trap" "\<not> type_error Undefined_Shift" "\<not> type_error Invalid_Data"
  by (simp_all add: type_error_def)

lemma f_type_set_value [simp]: "f_type (set_value r t v) = t" "f_value (set_value r t v) = v" "f_name (set_value r t v) = f_name r"
  by (simp_all add: set_value_def)

lemmas set_defs = setBoolValue_def setCharValue_def setInt16Value_def setInt32Value_def setInt64Value_def setFloatValue_def setDoubleValue_def

lemma number_bytes_ok: "is_number_type t \<Longrightarrow> value_ok t (number_bytes t w)"
  by (cases t) (simp_all add: is_number_type_def integer_types_def set_defs)

lemma has_type_number: "is_number_type t \<Longrightarrow> has_type (set_value r t (number_bytes t w)) t"
  by (simp add: has_type_def number_bytes_ok)

lemma has_type_bool [simp]: "has_type (set_bool r b) T_Bool"
  by (simp add: has_type_def set_bool_def set_defs)

lemma ok_set_string [simp]: "ok_result T_String (set_string q r s)"
  by (simp add: set_string_def setBinaryValue_def liftE_def checkBufferSize_def requireE_def has_type_def)

lemma ok_bool_map [simp]: "ok_result T_Bool (mapE (set_bool r) (liftE x))"
  by (cases x) (simp_all add: liftE_def)

section \<open>Operators\<close>

definition operand_type :: "variable_type \<Rightarrow> bool" where
  "operand_type t \<longleftrightarrow> is_number_type t \<or> t = T_Double \<or> t = T_String"

definition arith_type :: "arith_op \<Rightarrow> variable_type \<Rightarrow> variable_type \<Rightarrow> variable_type option" where
  "arith_type op a b =
     (let t = max a b in
      if \<not> operand_type a \<or> \<not> operand_type b then None
      else if is_number_type t then Some t
      else if t = T_Double then (if op \<in> {Multiply, Divide, Add, Subtract, Minimum, Maximum} then Some T_Double else None)
      else if op \<in> {Add, Minimum, Maximum} \<or> op = Multiply \<and> a = T_String \<and> is_number_type b then Some T_String
      else None)"

definition compare_type :: "bool_op \<Rightarrow> variable_type \<Rightarrow> variable_type \<Rightarrow> variable_type option" where
  "compare_type op a b =
     (if operand_type a \<and> operand_type b \<and> (is_number_type (max a b) \<or> op \<notin> {Logical_And, Logical_Xor, Logical_Or}) then Some T_Bool else None)"

definition unary_type :: "node_type \<Rightarrow> variable_type \<Rightarrow> variable_type option" where
  "unary_type op t =
     (if op = Logical_Not then (if t = T_Null then None else Some T_Bool)
      else if op = Bitwise_Not then (if is_number_type t then Some t else None)
      else if op = Negate then (if t \<in> set integer_types \<union> {T_Float, T_Double} then Some t else None)
      else None)"

lemma operand_value:
  "operand_type (f_type x) \<Longrightarrow>
     \<exists>y. get_variable_value q x = Some y \<and> (o_is_floating y \<longleftrightarrow> f_type x = T_Double) \<and> (o_is_string y \<longleftrightarrow> f_type x = T_String)"
  by (cases "f_type x") (simp_all add: operand_type_def is_number_type_def integer_types_def get_variable_value_def)

lemma operand_max: "operand_type a \<Longrightarrow> operand_type b \<Longrightarrow> operand_type (max a b)"
  by (simp add: max_def)

lemma integers_ok: "integers op a b = Inl e \<Longrightarrow> \<not> type_error e"
  by (cases op) (auto simp: divide_with_def shift_with_def split: if_splits)

lemma operate_ok:
  assumes "arith_type op a b = Some t" "o_is_floating x \<longleftrightarrow> a = T_Double" "o_is_string x \<longleftrightarrow> a = T_String"
    "o_is_floating y \<longleftrightarrow> b = T_Double" "o_is_string y \<longleftrightarrow> b = T_String"
  shows "ok_result t (operate env op r (max a b) x y)"
proof -
  have o: "operand_type a" "operand_type b" using assms(1) by (auto simp: arith_type_def Let_def split: if_splits)
  consider "is_number_type (max a b)" | "max a b = T_Double" | "max a b = T_String"
    using operand_max [OF o] by (auto simp: operand_type_def)
  then show ?thesis
  proof cases
    case 1
    then have "t = max a b" using assms(1) o by (simp add: arith_type_def Let_def)
    then show ?thesis using 1 integers_ok
      by (cases "integers op (o_integer x) (o_integer y)") (auto simp: operate_def has_type_number)
  next
    case 2
    then have "t = T_Double" "op \<in> {Multiply, Divide, Add, Subtract, Minimum, Maximum}"
      using assms(1) o by (auto simp: arith_type_def Let_def is_number_type_def integer_types_def split: if_splits)
    then show ?thesis using 2
      by (auto simp: operate_def Let_def is_number_type_def integer_types_def has_type_def setDoubleValue_def setInt64Value_def)
  next
    case 3
    then have "t = T_String" "op \<in> {Add, Minimum, Maximum} \<or> op = Multiply \<and> a = T_String \<and> is_number_type b"
      using assms(1) o by (auto simp: arith_type_def Let_def is_number_type_def integer_types_def split: if_splits)
    then show ?thesis using 3 assms(2-5)
      by (auto simp: operate_def Let_def is_number_type_def integer_types_def)
  qed
qed

lemma binary_operation_ok:
  assumes "has_type a ta" "has_type b tb" "arith_type op ta tb = Some t"
  shows "ok_result t (binary_operation env op r [a, b])"
proof -
  have o: "operand_type (f_type a)" "operand_type (f_type b)"
    using assms by (auto simp: has_type_def arith_type_def Let_def split: if_splits)
  obtain x y where x: "get_variable_value (e_qt env) a = Some x" "o_is_floating x \<longleftrightarrow> f_type a = T_Double" "o_is_string x \<longleftrightarrow> f_type a = T_String"
    and y: "get_variable_value (e_qt env) b = Some y" "o_is_floating y \<longleftrightarrow> f_type b = T_Double" "o_is_string y \<longleftrightarrow> f_type b = T_String"
    using operand_value [OF o(1), of "e_qt env"] operand_value [OF o(2), of "e_qt env"] by blast
  then show ?thesis
    using operate_ok [of op "f_type a" "f_type b" t x y env r] assms by (simp add: binary_operation_def nth_arg_def has_type_def)
qed

lemma bool_operate_ok:
  assumes "compare_type op a b = Some t"
  shows "\<exists>c. bool_operate env op (max a b) x y = Inr c"
proof -
  have o: "operand_type a" "operand_type b" "is_number_type (max a b) \<or> op \<notin> {Logical_And, Logical_Xor, Logical_Or}"
    using assms by (auto simp: compare_type_def split: if_splits)
  consider "is_number_type (max a b)" | "max a b = T_Double" | "max a b = T_String"
    using operand_max [OF o(1,2)] by (auto simp: operand_type_def)
  then show ?thesis
  proof cases
    case 1
    then show ?thesis by (simp add: bool_operate_def)
  next
    case 2
    then show ?thesis using o(3) by (cases op) (simp_all add: bool_operate_def Let_def is_number_type_def integer_types_def)
  next
    case 3
    then show ?thesis using o(3) by (cases op) (simp_all add: bool_operate_def Let_def is_number_type_def integer_types_def)
  qed
qed

lemma bool_binary_operation_ok:
  assumes "has_type a ta" "has_type b tb" "compare_type op ta tb = Some t"
  shows "ok_result t (bool_binary_operation env op r [a, b])"
proof -
  have o: "operand_type (f_type a)" "operand_type (f_type b)" "t = T_Bool"
    using assms by (auto simp: has_type_def compare_type_def split: if_splits)
  have t: "f_type a = ta" "f_type b = tb" using assms by (simp_all add: has_type_def)
  obtain x y where "get_variable_value (e_qt env) a = Some x" "get_variable_value (e_qt env) b = Some y"
    using operand_value [OF o(1)] operand_value [OF o(2)] by blast
  then show ?thesis
    using bool_operate_ok [OF assms(3), of env x y] o(3) by (auto simp: bool_binary_operation_def nth_arg_def t)
qed

lemma zero_value_ok: "f_type a \<noteq> T_Null \<Longrightarrow> \<exists>z. zero_value env a = Inr z"
  by (cases "f_type a") (simp_all add: zero_value_def is_number_type_def integer_types_def)

lemma unary_ok:
  assumes "has_type a ta" "unary_type op ta = Some t"
  shows "op = Logical_Not \<Longrightarrow> ok_result t (logical_not env r [a])"
    "op = Bitwise_Not \<Longrightarrow> ok_result t (bitwise_not r [a])"
    "op = Negate \<Longrightarrow> ok_result t (negate fp r [a])"
proof -
  assume "op = Logical_Not"
  then show "ok_result t (logical_not env r [a])"
    using assms zero_value_ok [of a env] by (auto simp: unary_type_def logical_not_def nth_arg_def has_type_def set_bool_def set_defs split: if_splits)
next
  assume "op = Bitwise_Not"
  then show "ok_result t (bitwise_not r [a])"
    using assms by (auto simp: unary_type_def bitwise_not_def nth_arg_def has_type_number has_type_def number_bytes_ok split: if_splits)
next
  assume "op = Negate"
  then show "ok_result t (negate fp r [a])"
    using assms number_bytes_ok [of "f_type a" "- integer64 (f_type a) (f_value a)"]
    by (auto simp: unary_type_def negate_def nth_arg_def has_type_def is_number_type_def integer_types_def set_defs split: if_splits)
qed

section \<open>Functions\<close>

type_synonym signature = "variable_type list \<Rightarrow> variable_type option"

definition numeric :: "variable_type \<Rightarrow> bool" where
  "numeric t \<longleftrightarrow> t \<in> set integer_types \<union> {T_Float, T_Double}"

definition strings_to :: "nat \<Rightarrow> variable_type \<Rightarrow> signature" where
  "strings_to n t ts = (if ts = replicate n T_String then Some t else None)"

definition any_to :: "variable_type \<Rightarrow> signature" where
  "any_to t ts = (if length ts = 1 then Some t else None)"

definition substr_type :: signature where
  "substr_type ts = (if (length ts = 2 \<or> length ts = 3) \<and> hd ts = T_String \<and> list_all numeric (tl ts) then Some T_String else None)"

definition segment_type :: signature where
  "segment_type ts = (if length ts = 3 \<and> ts ! 0 = T_String \<and> ts ! 1 = T_String \<and> numeric (ts ! 2) then Some T_String else None)"

definition strmatch_type :: signature where
  "strmatch_type ts = (if ts = replicate 2 T_String \<or> ts = replicate 3 T_String then Some T_Bool else None)"

definition signatures :: "(string \<times> signature) list" where
  "signatures =
     [(''cell'', strings_to 3 T_Binary), (''cell_exists'', strings_to 3 T_Bool), (''child'', strings_to 2 T_String),
      (''int16'', any_to T_Int16), (''int32'', any_to T_Int32), (''int64'', any_to T_Int64), (''int8'', any_to T_Int8),
      (''is_integer'', any_to T_Bool), (''parent'', strings_to 1 T_String), (''row_exists'', strings_to 2 T_Bool),
      (''segment'', segment_type), (''string'', any_to T_String), (''strlen'', strings_to 1 T_Int64), (''strmatch'', strmatch_type),
      (''substr'', substr_type), (''table_exists'', strings_to 1 T_Bool), (''tolower'', strings_to 1 T_String),
      (''toupper'', strings_to 1 T_String), (''uint16'', any_to T_UInt16), (''uint32'', any_to T_UInt32), (''uint64'', any_to T_UInt64),
      (''uint8'', any_to T_UInt8)]"

definition keeps_signature :: "signature \<Rightarrow> expr_function \<Rightarrow> bool" where
  "keeps_signature sig f \<longleftrightarrow> (\<forall>ts t r args. sig ts = Some t \<longrightarrow> list_all2 has_type args ts \<longrightarrow> ok_result t (f r args))"

lemma keeps_signatureI:
  "(\<And>ts t r args. sig ts = Some t \<Longrightarrow> list_all2 has_type args ts \<Longrightarrow> ok_result t (f r args)) \<Longrightarrow> keeps_signature sig f"
  by (simp add: keeps_signature_def)

lemma string_value_at_0: "stringValue g v 0 (- 1) = Inr (g v)"
proof -
  have "u32 (int (length v)) \<le> length v" by (simp add: u32_def nat_mod_distrib flip: zmod_int)
  then show ?thesis by (simp add: stringValue_def binaryValue_def u32_def)
qed

lemma get_string_ok: "has_type x T_String \<Longrightarrow> get_string q x = Inr (from_utf8 q (f_value x))"
  by (simp add: get_string_def has_type_def string_value_at_0 liftE_def)

lemma get_integer_ok: "has_type x t \<Longrightarrow> numeric t \<Longrightarrow> \<exists>w. get_integer fp x = Inr w"
  by (auto simp: get_integer_def has_type_def numeric_def)

lemma strings_all2:
  "strings_to n t ts = Some u \<Longrightarrow> list_all2 has_type args ts \<Longrightarrow> u = t \<and> length args = n \<and> (\<forall>i < n. has_type (args ! i) T_String)"
  by (auto simp: strings_to_def list_all2_conv_all_nth split: if_splits)

lemma keeps_strings:
  assumes "\<And>r args. length args = n \<Longrightarrow> (\<And>i. i < n \<Longrightarrow> has_type (args ! i) T_String) \<Longrightarrow> ok_result t (f r args)"
  shows "keeps_signature (strings_to n t) f"
proof (rule keeps_signatureI)
  fix ts u r args
  assume "strings_to n t ts = Some u" "list_all2 has_type args ts"
  then show "ok_result u (f r args)" using strings_all2 assms by metis
qed

lemma keeps_cast: "is_number_type t \<Longrightarrow> keeps_signature (any_to t) (call_cast t env)"
  by (auto intro!: keeps_signatureI simp: any_to_def call_cast_def count_args_def has_type_number dest: list_all2_lengthD split: if_splits)

lemma keeps_casts:
  "keeps_signature (any_to T_Int8) (call_int8 env)" "keeps_signature (any_to T_UInt8) (call_uint8 env)"
  "keeps_signature (any_to T_Int16) (call_int16 env)" "keeps_signature (any_to T_UInt16) (call_uint16 env)"
  "keeps_signature (any_to T_Int32) (call_int32 env)" "keeps_signature (any_to T_UInt32) (call_uint32 env)"
  "keeps_signature (any_to T_Int64) (call_int64 env)" "keeps_signature (any_to T_UInt64) (call_uint64 env)"
  unfolding call_int8_def call_uint8_def call_int16_def call_uint16_def call_int32_def call_uint32_def call_int64_def call_uint64_def
  by (rule keeps_cast; simp add: is_number_type_def integer_types_def)+

lemma ok_with_context: "(\<And>db. ok_result t (f db)) \<Longrightarrow> ok_result t (with_context env f)"
  by (cases "g_context env") (simp_all add: with_context_def)

lemma ok_binary_map: "ok_result T_Binary (mapE (set_value r T_Binary) (liftE x))"
  by (cases x) (simp_all add: liftE_def has_type_def)

lemma keeps_database:
  "keeps_signature (strings_to 3 T_Binary) (call_cell env)" "keeps_signature (strings_to 3 T_Bool) (call_cell_exists env)"
  "keeps_signature (strings_to 2 T_Bool) (call_row_exists env)" "keeps_signature (strings_to 1 T_Bool) (call_table_exists env)"
proof -
  show "keeps_signature (strings_to 3 T_Binary) (call_cell env)"
    by (rule keeps_strings) (auto simp: call_cell_def count_args_def get_string_ok ok_binary_map intro!: ok_with_context)
  show "keeps_signature (strings_to 3 T_Bool) (call_cell_exists env)"
    by (rule keeps_strings) (auto simp: call_cell_exists_def count_args_def get_string_ok intro!: ok_with_context)
  show "keeps_signature (strings_to 2 T_Bool) (call_row_exists env)"
    by (rule keeps_strings) (auto simp: call_row_exists_def count_args_def get_string_ok intro!: ok_with_context)
  show "keeps_signature (strings_to 1 T_Bool) (call_table_exists env)"
    by (rule keeps_strings) (auto simp: call_table_exists_def count_args_def get_string_ok intro!: ok_with_context)
qed

lemma keeps_string_functions:
  "keeps_signature (strings_to 2 T_String) (call_child env)" "keeps_signature (strings_to 1 T_String) (call_parent env)"
  "keeps_signature (strings_to 1 T_Int64) (call_strlen env)" "keeps_signature (strings_to 1 T_String) (call_tolower env)"
  "keeps_signature (strings_to 1 T_String) (call_toupper env)"
proof -
  show "keeps_signature (strings_to 2 T_String) (call_child env)"
    by (rule keeps_strings) (simp add: call_child_def count_args_def get_string_ok)
  show "keeps_signature (strings_to 1 T_String) (call_parent env)"
    by (rule keeps_strings) (simp add: call_parent_def count_args_def get_string_ok)
  show "keeps_signature (strings_to 1 T_Int64) (call_strlen env)"
    by (rule keeps_strings) (simp add: call_strlen_def count_args_def get_string_ok has_type_def setInt64Value_def)
  show "keeps_signature (strings_to 1 T_String) (call_tolower env)"
    by (rule keeps_strings) (simp add: call_tolower_def count_args_def get_string_ok)
  show "keeps_signature (strings_to 1 T_String) (call_toupper env)"
    by (rule keeps_strings) (simp add: call_toupper_def count_args_def get_string_ok)
qed

lemma keeps_any:
  "keeps_signature (any_to T_Bool) (call_is_integer env)" "keeps_signature (any_to T_String) (call_string env)"
  by (auto intro!: keeps_signatureI simp: any_to_def call_is_integer_def call_string_def count_args_def Let_def
      dest: list_all2_lengthD split: if_splits)

lemma keeps_strmatch: "keeps_signature strmatch_type (call_strmatch env)"
proof (rule keeps_signatureI)
  fix ts t r args
  assume "strmatch_type ts = Some t" and l: "list_all2 has_type args ts"
  then have t: "t = T_Bool" "ts = replicate (length ts) T_String" "length ts = 2 \<or> length ts = 3"
    by (auto simp: strmatch_type_def numeral_eq_Suc split: if_splits)
  have s: "has_type (args ! i) T_String" if "i < length args" for i
    using l that t(2) by (metis list_all2_conv_all_nth nth_replicate)
  show "ok_result t (call_strmatch env r args)"
    using t s list_all2_lengthD [OF l] by (auto simp: call_strmatch_def count_args_def get_string_ok)
qed

lemma keeps_segment: "keeps_signature segment_type (call_segment env)"
proof (rule keeps_signatureI)
  fix ts t r args
  assume a: "segment_type ts = Some t" and l: "list_all2 has_type args ts"
  have "has_type (args ! 0) T_String" "has_type (args ! 1) T_String" "has_type (args ! 2) (ts ! 2)" "numeric (ts ! 2)" "length args = 3" "t = T_String"
    using a list_all2_nthD2 [OF l, of 0] list_all2_nthD2 [OF l, of 1] list_all2_nthD2 [OF l, of 2] list_all2_lengthD [OF l]
    by (cases ts; auto simp: segment_type_def split: if_splits)+
  then show "ok_result t (call_segment env r args)"
    using get_integer_ok [of "args ! 2" "ts ! 2" "e_fpu env"] by (auto simp: call_segment_def count_args_def get_string_ok Let_def)
qed

lemma keeps_substr: "keeps_signature substr_type (call_substr env)"
proof (rule keeps_signatureI)
  fix ts t r args
  assume a: "substr_type ts = Some t" and l: "list_all2 has_type args ts"
  have n: "\<exists>w. get_integer (e_fpu env) (args ! i) = Inr w" if "0 < i" "i < length args" for i
  proof (rule get_integer_ok)
    show "has_type (args ! i) (ts ! i)" using l that by (simp add: list_all2_conv_all_nth)
    have "list_all numeric (tl ts)" "length args = length ts" using a l by (auto simp: substr_type_def dest: list_all2_lengthD split: if_splits)
    then show "numeric (ts ! i)" using that by (cases i; cases ts) (auto simp: list_all_length)
  qed
  have s: "has_type (args ! 0) T_String" "length args = 2 \<or> length args = 3" "t = T_String"
    using a list_all2_nthD2 [OF l, of 0] list_all2_lengthD [OF l] by (cases ts; auto simp: substr_type_def split: if_splits)+
  then show "ok_result t (call_substr env r args)"
    using n [of 1] n [of 2] by (auto simp: call_substr_def count_args_def get_string_ok)
qed

lemmas keeps_all = keeps_casts keeps_database keeps_string_functions keeps_any keeps_strmatch keeps_segment keeps_substr

text \<open>Every signature is the one of an internal function.\<close>

lemma signatures_hold:
  "list_all (\<lambda>(n, sig). case map_of (internal_functions env) n of None \<Rightarrow> False | Some f \<Rightarrow> keeps_signature sig f) signatures"
  unfolding signatures_def internal_functions_def by (simp add: keeps_all keeps_all [simplified])

lemma signature_function:
  assumes "(n, sig) \<in> set signatures"
  shows "\<exists>f. (n, f) \<in> set (internal_functions env) \<and> keeps_signature sig f"
  using signatures_hold [of env] assms by (fastforce simp: list_all_iff dest: map_of_SomeD split: option.splits)

section \<open>Expressions\<close>

type_synonym types = "qstring \<rightharpoonup> variable_type"

definition function_type :: "qstring \<Rightarrow> signature" where
  "function_type name ts = (case find (\<lambda>(n, sig). qs n = name) signatures of None \<Rightarrow> None | Some (n, sig) \<Rightarrow> sig ts)"

definition operation_type :: "node_type \<Rightarrow> qstring \<Rightarrow> variable \<Rightarrow> types \<Rightarrow> variable_type list \<Rightarrow> (variable_type \<times> types) option" where
  "operation_type type name var G ts =
     (case type of
        Op_List \<Rightarrow> (if ts = [] then None else Some (last ts, G))
      | Logical_Not \<Rightarrow> (case ts of [t] \<Rightarrow> map_option (\<lambda>u. (u, G)) (unary_type type t) | _ \<Rightarrow> None)
      | Bitwise_Not \<Rightarrow> (case ts of [t] \<Rightarrow> map_option (\<lambda>u. (u, G)) (unary_type type t) | _ \<Rightarrow> None)
      | Negate \<Rightarrow> (case ts of [t] \<Rightarrow> map_option (\<lambda>u. (u, G)) (unary_type type t) | _ \<Rightarrow> None)
      | Op_Function \<Rightarrow> map_option (\<lambda>u. (u, G)) (function_type name ts)
      | Arith op \<Rightarrow> (case ts of [a, b] \<Rightarrow> map_option (\<lambda>u. (u, G)) (arith_type op a b) | _ \<Rightarrow> None)
      | Compare op \<Rightarrow> (case ts of [a, b] \<Rightarrow> map_option (\<lambda>u. (u, G)) (compare_type op a b) | _ \<Rightarrow> None)
      | Assignment \<Rightarrow> (case ts of [t] \<Rightarrow> Some (t, G(name \<mapsto> t)) | _ \<Rightarrow> None)
      | Op_Variable \<Rightarrow> map_option (\<lambda>u. (u, G)) (G name)
      | Literal_Boolean \<Rightarrow> (if has_type var (f_type var) then Some (f_type var, G) else None)
      | Literal_Integer \<Rightarrow> (if has_type var (f_type var) then Some (f_type var, G) else None)
      | Literal_Floating_Point \<Rightarrow> (if has_type var (f_type var) then Some (f_type var, G) else None)
      | Literal_String \<Rightarrow> (if has_type var (f_type var) then Some (f_type var, G) else None)
      | _ \<Rightarrow> None)"

text \<open>After a conditional, a variable has a type where both branches agree.\<close>

definition join_types :: "types \<Rightarrow> types \<Rightarrow> types" where
  "join_types G H = (\<lambda>x. if G x = H x then G x else None)"

fun type_of :: "types \<Rightarrow> expr_node \<Rightarrow> (variable_type \<times> types) option"
  and types_of :: "types \<Rightarrow> expr_node list \<Rightarrow> (variable_type list \<times> types) option" where
  "type_of G (Node type name var kids) =
     (if type = Conditional then
        (case kids of
           [c, a, b] \<Rightarrow>
             Option.bind (type_of G c) (\<lambda>(tc, G1).
               Option.bind (type_of G1 a) (\<lambda>(ta, Ga).
                 Option.bind (type_of G1 b) (\<lambda>(tb, Gb).
                   if tc \<noteq> T_Null \<and> ta = tb then Some (ta, join_types Ga Gb) else None)))
         | _ \<Rightarrow> None)
      else Option.bind (types_of G kids) (\<lambda>(ts, G1). operation_type type name var G1 ts))"
| "types_of G [] = Some ([], G)"
| "types_of G (k # ks) =
     Option.bind (type_of G k) (\<lambda>(t, G1). Option.bind (types_of G1 ks) (\<lambda>(ts, G2). Some (t # ts, G2)))"

text \<open>The variables have the types that are assumed, and the functions that are found by the internal names are the internal ones.\<close>

definition functions_ok :: "expr_env \<Rightarrow> functions_t \<Rightarrow> bool" where
  "functions_ok env fs \<longleftrightarrow>
     (\<forall>(n, f) \<in> set (internal_functions env).
        f_functions fs (qs n) = Some f \<or> f_functions fs (qs n) = None \<and> \<not> f_has_internal_functions fs)"

definition state_ok :: "program_env \<Rightarrow> types \<Rightarrow> exec_state \<Rightarrow> bool" where
  "state_ok p G st \<longleftrightarrow>
     (\<forall>x t. G x = Some t \<longrightarrow> (\<exists>v. x_variables st x = Some v \<and> has_type v t)) \<and> functions_ok (p_env p) (x_functions st)"

text \<open>What the plugins add does not take the place of a function.\<close>

definition plugins_keep :: "program_env \<Rightarrow> bool" where
  "plugins_keep p \<longleftrightarrow> (\<forall>fs n f. f_functions fs n = Some f \<longrightarrow> f_functions (plugins p fs) n = Some f)"

definition sound :: "program_env \<Rightarrow> variable_type \<Rightarrow> types \<Rightarrow> variable exec \<Rightarrow> bool" where
  "sound p t G x \<longleftrightarrow> ok_result t (snd x) \<and> (\<forall>v. snd x = Inr v \<longrightarrow> state_ok p G (fst x))"

lemma state_join: "state_ok p G st \<or> state_ok p H st \<Longrightarrow> state_ok p (join_types G H) st"
  by (auto simp: state_ok_def join_types_def split: if_splits)

lemma sound_join: "sound p t G x \<or> sound p t H x \<Longrightarrow> sound p t (join_types G H) x"
  using state_join by (fastforce simp: sound_def)

lemma sound_pure: "ok_result t r \<Longrightarrow> state_ok p G st \<Longrightarrow> sound p t G (st, r)"
  by (simp add: sound_def)

lemma add_functions_other: "name \<notin> qs ` set (map fst tab) \<Longrightarrow> f_functions (add_functions tab fs) name = f_functions fs name"
  by (induction tab arbitrary: fs rule: rev_induct) (auto simp: add_functions_def)

lemma add_functions_found: "distinct (map fst tab) \<Longrightarrow> (n, f) \<in> set tab \<Longrightarrow> f_functions (add_functions tab fs) (qs n) = Some f"
  by (induction tab arbitrary: fs rule: rev_induct) (auto simp: add_functions_def qs_inject rev_image_eqI split: prod.splits)

lemma internal_distinct: "distinct (map fst (internal_functions env))"
  by (simp add: internal_functions_def)

section \<open>Soundness\<close>

lemma functions_ok_added:
  assumes "plugins_keep p"
  shows "functions_ok (p_env p) (plugins p (add_functions (internal_functions (p_env p)) fs))"
  using assms add_functions_found [OF internal_distinct] by (fastforce simp: functions_ok_def plugins_keep_def)

lemma call_function_sound:
  assumes "function_type name ts = Some t" "list_all2 has_type vs ts" "state_ok p G st" "plugins_keep p"
  shows "sound p t G (call_function p name r vs st)"
proof -
  obtain n sig where n: "(n, sig) \<in> set signatures" "qs n = name" "sig ts = Some t"
    using assms(1) by (auto simp: function_type_def find_Some_iff dest: nth_mem split: option.splits)
  obtain f where f: "(n, f) \<in> set (internal_functions (p_env p))" "keeps_signature sig f"
    using signature_function [OF n(1)] by blast
  have ok: "ok_result t (f r vs)" using f(2) n(3) assms(2) by (simp add: keeps_signature_def)
  define fs where "fs = plugins p (add_functions (internal_functions (p_env p)) (set_has_internal_functions (x_functions st)))"
  have new: "f_functions fs name = Some f" "functions_ok (p_env p) fs"
    using assms(4) add_functions_found [OF internal_distinct f(1)] functions_ok_added n(2) by (auto simp: fs_def plugins_keep_def)
  consider "f_functions (x_functions st) name = Some f" | "f_functions (x_functions st) name = None" "\<not> f_has_internal_functions (x_functions st)"
    using assms(3) f(1) n(2) by (fastforce simp: state_ok_def functions_ok_def)
  then show ?thesis
  proof cases
    case 1
    then show ?thesis using ok assms(3) by (simp add: call_function_def call_found_def get_function_def sound_pure)
  next
    case 2
    then have "call_function p name r vs st = (st\<lparr>x_functions := fs\<rparr>, f r vs)"
      using new(1) by (simp add: call_function_def call_found_def get_function_def fs_def)
    then show ?thesis using ok new(2) assms(3) by (simp add: sound_def state_ok_def)
  qed
qed

lemma operation_sound:
  assumes "operation_type type name var G ts = Some (t, H)" "list_all2 has_type vs ts" "state_ok p G st" "plugins_keep p"
  shows "sound p t H (operation p type name var r st vs)"
proof (cases type)
  case Op_List
  then have "ts \<noteq> []" "t = last ts" "H = G" using assms(1) by (auto simp: operation_type_def split: if_splits)
  moreover have "vs \<noteq> []" using assms(2) calculation(1) by auto
  moreover have "has_type (last vs) (last ts)"
    using assms(2) calculation by (simp add: last_conv_nth list_all2_conv_all_nth)
  ultimately show ?thesis using Op_List assms(3) by (simp add: operation_def sound_pure)
next
  case (Arith op)
  then obtain a b where "ts = [a, b]" "arith_type op a b = Some t" "H = G" using assms(1) by (auto simp: operation_type_def split: list.splits)
  then show ?thesis using Arith assms(2,3) by (auto simp: operation_def list_all2_Cons2 intro!: sound_pure binary_operation_ok)
next
  case (Compare op)
  then obtain a b where "ts = [a, b]" "compare_type op a b = Some t" "H = G" using assms(1) by (auto simp: operation_type_def split: list.splits)
  then show ?thesis using Compare assms(2,3) by (auto simp: operation_def list_all2_Cons2 intro!: sound_pure bool_binary_operation_ok)
next
  case Assignment
  then obtain a where "ts = [a]" "t = a" "H = G(name \<mapsto> a)" using assms(1) by (auto simp: operation_type_def split: list.splits)
  then show ?thesis using Assignment assms(2,3)
    by (auto simp: operation_def assignment_def nth_arg_def sound_def state_ok_def list_all2_Cons2)
next
  case Op_Variable
  then have "G name = Some t" "H = G" using assms(1) by (auto simp: operation_type_def)
  moreover obtain v where "x_variables st name = Some v" "has_type v t" using assms(3) calculation(1) by (auto simp: state_ok_def)
  ultimately show ?thesis using Op_Variable assms(3) by (simp add: operation_def load_variable_def sound_pure)
next
  case Op_Function
  then show ?thesis using assms call_function_sound by (auto simp: operation_type_def operation_def)
qed (use assms unary_ok in \<open>auto simp: operation_type_def operation_def list_all2_Cons2 intro!: sound_pure split: list.splits if_splits\<close>)

definition all_sound :: "program_env \<Rightarrow> variable_type list \<Rightarrow> types \<Rightarrow> variable list exec \<Rightarrow> bool" where
  "all_sound p ts G x = (case snd x of Inl e \<Rightarrow> \<not> type_error e | Inr vs \<Rightarrow> list_all2 has_type vs ts \<and> state_ok p G (fst x))"

lemma sound_bindX:
  assumes "sound p t G x" "\<And>st v. has_type v t \<Longrightarrow> state_ok p G st \<Longrightarrow> x = (st, Inr v) \<Longrightarrow> sound p u H (f st v)"
  shows "sound p u H (bindX x f)"
  using assms by (auto simp: sound_def bindX_def split: sum.splits prod.splits)

lemma all_sound_bindX:
  assumes "all_sound p ts G x" "\<And>st vs. list_all2 has_type vs ts \<Longrightarrow> state_ok p G st \<Longrightarrow> x = (st, Inr vs) \<Longrightarrow> sound p u H (f st vs)"
  shows "sound p u H (bindX x f)"
  using assms by (auto simp: sound_def all_sound_def bindX_def split: sum.splits prod.splits)

lemma execute_conditional:
  "execute p (Node Conditional name var [c, a, b]) r st =
     bindX (execute p c r st) (\<lambda>st1 v. bindX (st1, zero_value (p_env p) v) (\<lambda>st2 zero. if zero then execute p b v st2 else execute p a v st2))"
  by (simp cong: if_cong)

lemma execute_sound:
  assumes "plugins_keep p"
  shows "type_of G n = Some (t, H) \<Longrightarrow> state_ok p G st \<Longrightarrow> sound p t H (execute p n r st)"
    "types_of G ns = Some (ts, H) \<Longrightarrow> state_ok p G st \<Longrightarrow> all_sound p ts H (execute_all p ns st)"
proof (induction G n and G ns arbitrary: t H r st and ts H st rule: type_of_types_of.induct)
  case (1 G type name var kids)
  show ?case
  proof (cases "type = Conditional")
    case True
    then obtain c a b tc G1 Ga Gb where k: "kids = [c, a, b]" "type_of G c = Some (tc, G1)" "type_of G1 a = Some (t, Ga)"
      "type_of G1 b = Some (t, Gb)" "tc \<noteq> T_Null" "H = join_types Ga Gb"
      using "1.prems"(1) by (auto simp: bind_eq_Some_conv split: list.splits if_splits)
    have c: "sound p tc G1 (execute p c r st)" using "1.IH"(1) True k "1.prems"(2) by auto
    have "sound p t H (bindX (st1, zero_value (p_env p) v) (\<lambda>st2 zero. if zero then execute p b v st2 else execute p a v st2))"
      if "has_type v tc" "state_ok p G1 st1" for v st1
    proof -
      have "f_type v \<noteq> T_Null" using that(1) k(5) by (auto simp: has_type_def)
      then obtain z where "zero_value (p_env p) v = Inr z" using zero_value_ok by blast
      moreover have "sound p t Ga (execute p a v st1)" using "1.IH"(2) True k that(2) by auto
      moreover have "sound p t Gb (execute p b v st1)" using "1.IH"(3) True k that(2) by auto
      ultimately show ?thesis using sound_join k(6) by simp
    qed
    then show ?thesis unfolding True k(1) execute_conditional by (intro sound_bindX [OF c])
  next
    case False
    then obtain ts G1 where k: "types_of G kids = Some (ts, G1)" "operation_type type name var G1 ts = Some (t, H)"
      using "1.prems"(1) by (auto simp: bind_eq_Some_conv)
    have "all_sound p ts G1 (execute_all p kids st)" using "1.IH"(4) False k(1) "1.prems"(2) by blast
    then show ?thesis using False operation_sound [OF k(2) _ _ assms] by (auto intro: all_sound_bindX)
  qed
next
  case (2 G)
  then show ?case by (simp add: all_sound_def)
next
  case (3 G k ks)
  then obtain t1 G1 ts1 where k: "type_of G k = Some (t1, G1)" "types_of G1 ks = Some (ts1, H)" "ts = t1 # ts1"
    by (auto simp: bind_eq_Some_conv)
  have h: "sound p t1 G1 (execute p k (new_variable []) st)" using 3 k by blast
  have t: "all_sound p ts1 H (execute_all p ks st1)" if "state_ok p G1 st1" for st1 using 3 k that by auto
  show ?case
  proof (cases "execute p k (new_variable []) st")
    case (Pair st1 x)
    then show ?thesis using h t [of st1] k(3)
      by (cases x; cases "execute_all p ks st1"; cases "snd (execute_all p ks st1)") (auto simp: sound_def all_sound_def)
  qed
qed

text \<open>C20.
  An expression that has a type, with variables of the types that are assumed, never ends with a type error: an unknown function, a
  wrong number or type of parameters, operands that do not go together, a missing operand.  Its value has the computed type and as
  many bytes as the type says, and the variables have the types computed for them.
\<close>

theorem well_typed_execution:
  assumes "plugins_keep p" "type_of G n = Some (t, H)" "state_ok p G st" "execute p n r st = (st', x)"
  shows "(\<forall>e. x = Inl e \<longrightarrow> \<not> type_error e) \<and> (\<forall>v. x = Inr v \<longrightarrow> f_type v = t \<and> value_ok t (f_value v) \<and> state_ok p H st')"
  using execute_sound(1) [OF assms(1,2,3), of r] assms(4) by (auto simp: sound_def has_type_def)

text \<open>An example: \<open>x := 3, x < 10 ? x * x : 0\<close>.\<close>

definition sample_tree :: expr_node where
  "sample_tree =
     list_expr_list (list_expr_assignment [120] (list_expr_integer 3))
       (list_expr_conditional (list_expr_binary_operation (Compare Less) (list_expr_variable [120]) (list_expr_integer 10))
          (list_expr_binary_operation (Arith Multiply) (list_expr_variable [120]) (list_expr_variable [120])) (list_expr_integer 0))"

definition empty_state :: exec_state where
  "empty_state = \<lparr>x_variables = Map.empty, x_functions = no_functions\<rparr>"

lemma sample_type: "type_of Map.empty sample_tree = Some (T_Int64, [[120] \<mapsto> T_Int64])"
  by (simp add: sample_tree_def list_expr_list_def list_expr_assignment_def list_expr_integer_def list_expr_conditional_def
      list_expr_binary_operation_def list_expr_variable_def new_node_def literal_node_def operation_type_def has_type_def setInt64Value_def
      compare_type_def arith_type_def operand_type_def is_number_type_def integer_types_def join_types_def)
    (simp add: fun_eq_iff)

lemma empty_state_ok: "state_ok p Map.empty empty_state"
  by (simp add: state_ok_def empty_state_def functions_ok_def no_functions_def split: prod.splits)

theorem well_typed_execution_witness:
  "\<forall>env r. case snd (execute \<lparr>p_env = env, plugins = \<lambda>fs. fs\<rparr> sample_tree r empty_state) of
     Inl e \<Rightarrow> \<not> type_error e
   | Inr v \<Rightarrow> f_type v = T_Int64 \<and> value_ok T_Int64 (f_value v)"
proof (intro allI)
  fix env :: expr_env and r
  obtain st' x where e: "execute \<lparr>p_env = env, plugins = \<lambda>fs. fs\<rparr> sample_tree r empty_state = (st', x)" by fastforce
  show "case snd (execute \<lparr>p_env = env, plugins = \<lambda>fs. fs\<rparr> sample_tree r empty_state) of
     Inl e \<Rightarrow> \<not> type_error e
   | Inr v \<Rightarrow> f_type v = T_Int64 \<and> value_ok T_Int64 (f_value v)"
    using well_typed_execution [OF _ sample_type empty_state_ok e] e by (simp add: plugins_keep_def split: sum.split)
qed

end
