(* ===== verification/Expr_Laws.thy ===== *)
theory Expr_Laws
  imports Expr_Types
begin

text \<open>
  Laws of the expressions.  Levelling a list of expressions keeps what it does and returns, and the arithmetic of the integer
  types is exact as long as the result fits in the larger type of the two.  Then what goes wrong: levelling anything else than a list,
  and values that are misread.
\<close>

section \<open>Levelling\<close>

fun flatten :: "expr_node list \<Rightarrow> expr_node list" where
  "flatten [] = []"
| "flatten (Node t name var kids # rest) =
     (if t = Op_List then flatten kids @ flatten rest else Node t name var kids # flatten rest)"

lemma flatten_Cons: "flatten (n # rest) = (if node_type_of n = Op_List then flatten (node_children n) else [n]) @ flatten rest"
  by (cases n) simp

lemma level_loop_flatten: "i \<le> length n \<Longrightarrow> level_loop i n = take i n @ flatten (drop i n)"
proof (induction i n rule: level_loop.induct)
  case (1 i n)
  show ?case
  proof (cases "i < length n")
    case True
    then have d: "drop i n = n ! i # drop (Suc i) n" "take (Suc i) n = take i n @ [n ! i]" by (simp_all add: Cons_nth_drop_Suc take_Suc_conv_app_nth)
    show ?thesis
    proof (cases "node_type_of (n ! i) = Op_List")
      case l: True
      define c where "c = level_loop 0 (node_children (n ! i))"
      have c: "c = flatten (node_children (n ! i))" using "1.IH"(1) [OF True l] by (simp add: c_def)
      have "level_loop i n = level_loop (i + length c) (take i n @ c @ drop (Suc i) n)"
        using True l by (subst level_loop.simps) (simp add: c_def Let_def)
      also have "\<dots> = take i n @ c @ flatten (drop (Suc i) n)" using "1.IH"(2) [OF True l] True by (simp add: c_def min_def)
      finally show ?thesis using l c by (simp add: d(1) flatten_Cons)
    next
      case False
      then have "level_loop i n = level_loop (Suc i) n" using True by (subst level_loop.simps) simp
      then show ?thesis using "1.IH"(3) [OF True False] True False d by (simp add: flatten_Cons)
    qed
  qed (use 1 in \<open>simp add: level_loop.simps\<close>)
qed

text \<open>The lists that a parser builds are never empty.\<close>

fun lists_ok :: "expr_node list \<Rightarrow> bool" where
  "lists_ok [] = True"
| "lists_ok (Node t name var kids # rest) = ((t = Op_List \<longrightarrow> kids \<noteq> [] \<and> lists_ok kids) \<and> lists_ok rest)"

lemma execute_all_append:
  "execute_all p (xs @ ys) st = bindX (execute_all p xs st) (\<lambda>st1 vs. bindX (execute_all p ys st1) (\<lambda>st2 ws. (st2, Inr (vs @ ws))))"
  by (induction xs arbitrary: st) (auto simp: bindX_def split: sum.splits prod.splits)

definition last_result :: "variable list exec \<Rightarrow> variable exec" where
  "last_result x = (fst x, mapE last (snd x))"

lemma execute_all_length: "execute_all p ks st = (st1, Inr vs) \<Longrightarrow> length vs = length ks"
  by (induction ks arbitrary: st vs) (auto simp: bindX_def split: sum.splits prod.splits)

lemma execute_list:
  "kids \<noteq> [] \<Longrightarrow> execute p (Node Op_List name var kids) r st = last_result (execute_all p kids st)"
proof -
  assume k: "kids \<noteq> []"
  show ?thesis using k execute_all_length [of p kids st]
    by (cases "execute_all p kids st"; cases "snd (execute_all p kids st)") (fastforce simp: last_result_def operation_def)+
qed

lemma execute_all_not_Nil: "execute_all p ks st = (st1, Inr vs) \<Longrightarrow> ks \<noteq> [] \<Longrightarrow> vs \<noteq> []"
  using execute_all_length by fastforce

lemma flatten_not_Nil: "ks \<noteq> [] \<Longrightarrow> lists_ok ks \<Longrightarrow> flatten ks \<noteq> []"
  by (induction ks rule: flatten.induct) auto

lemma last_append_results:
  assumes "ys \<noteq> []"
  shows "last_result (execute_all p (xs @ ys) st) = bindX (last_result (execute_all p xs st)) (\<lambda>st1 _. last_result (execute_all p ys st1))"
proof (cases "execute_all p xs st")
  case (Pair st1 x)
  show ?thesis
  proof (cases x)
    case (Inr vs)
    then show ?thesis using Pair assms
      by (cases "execute_all p ys st1"; cases "snd (execute_all p ys st1)")
        (auto simp: execute_all_append last_result_def dest: execute_all_not_Nil)
  qed (simp add: Pair execute_all_append last_result_def)
qed

lemma flatten_executes:
  "ks \<noteq> [] \<Longrightarrow> lists_ok ks \<Longrightarrow> last_result (execute_all p (flatten ks) st) = last_result (execute_all p ks st)"
proof (induction ks arbitrary: st rule: flatten.induct)
  case (2 t name var kids rest)
  define k where "k = Node t name var kids"
  have k1: "last_result (execute_all p (flatten [k]) st) = last_result (execute_all p [k] st)" for st
  proof (cases "t = Op_List")
    case True
    then have "last_result (execute_all p (flatten kids) st) = execute p k (new_variable []) st"
      using 2 by (simp add: k_def execute_list del: execute.simps)
    then show ?thesis using True
      by (cases "execute p k (new_variable []) st"; cases "snd (execute p k (new_variable []) st)")
        (auto simp: k_def last_result_def simp del: execute.simps)
  qed (simp add: k_def)
  show ?case
  proof (cases "rest = []")
    case False
    have r: "last_result (execute_all p (flatten rest) st1) = last_result (execute_all p rest st1)" for st1
      using 2 False by (cases "t = Op_List") auto
    have "last_result (execute_all p (flatten (k # rest)) st) = last_result (execute_all p (flatten [k] @ flatten rest) st)"
      by (simp add: flatten_Cons)
    also have "\<dots> = bindX (last_result (execute_all p [k] st)) (\<lambda>st1 _. last_result (execute_all p rest st1))"
      using 2 False flatten_not_Nil by (simp only: last_append_results k1 r lists_ok.simps not_False_eq_True)
    also have "\<dots> = last_result (execute_all p ([k] @ rest) st)" using last_append_results [OF False] by (rule sym)
    finally show ?thesis by (simp add: k_def)
  qed (use k1 k_def in simp)
qed simp

text \<open>C21.
  Levelling a list of expressions, that is replacing the lists among its elements by their own elements, at any depth, ends, and
  keeps the value, the variables and the exception of its execution.
\<close>

theorem level_child_keeps_execution:
  assumes "node_type_of n = Op_List" "lists_ok [n]"
  shows "execute p (list_expr_level_child n) r st = execute p n r st"
proof -
  obtain name var kids where n: "n = Node Op_List name var kids" "kids \<noteq> []" "lists_ok kids" using assms by (cases n) auto
  then show ?thesis
    using flatten_executes flatten_not_Nil
    by (simp add: list_expr_level_child_def level_loop_flatten execute_list del: execute.simps)
qed

definition nested_list :: expr_node where
  "nested_list = list_expr_list (list_expr_list (list_expr_integer 1) (list_expr_integer 2)) (list_expr_integer 3)"

theorem level_child_keeps_execution_witness:
  "node_type_of nested_list = Op_List \<and> lists_ok [nested_list] \<and> length (node_children (list_expr_level_child nested_list)) = 3
     \<and> (\<forall>p r st. execute p (list_expr_level_child nested_list) r st = execute p nested_list r st)"
proof -
  have "node_type_of nested_list = Op_List" "lists_ok [nested_list]"
    by (simp_all add: nested_list_def list_expr_list_def new_node_def list_expr_integer_def literal_node_def)
  moreover have "length (node_children (list_expr_level_child nested_list)) = 3"
    by (simp add: nested_list_def list_expr_list_def new_node_def list_expr_integer_def literal_node_def list_expr_level_child_def level_loop_flatten)
  ultimately show ?thesis using level_child_keeps_execution [of nested_list] by simp
qed

section \<open>Arithmetic\<close>

fun type_bits :: "variable_type \<Rightarrow> nat" where
  "type_bits t = (if t \<in> {T_Int8, T_UInt8} then 8 else if t \<in> {T_Int16, T_UInt16} then 16 else if t \<in> {T_Int32, T_UInt32} then 32 else 64)"

definition in_range :: "variable_type \<Rightarrow> int \<Rightarrow> bool" where
  "in_range t i \<longleftrightarrow> (if unsigned_type t then 0 \<le> i \<and> i < 2 ^ type_bits t else - (2 ^ (type_bits t - 1)) \<le> i \<and> i < 2 ^ (type_bits t - 1))"

lemma read_written [simp]:
  "char_of_cell (setCharValue c) = c" "int16_of (setInt16Value h) = h" "int32_of (setInt32Value w) = w" "int64_of (setInt64Value d) = d"
  using unat_bound [of c] unat_bound [of h] unat_bound [of w] unat_bound [of d]
  by (simp_all add: set_defs right_or_def charValueOrNull_def safeInt16Value_def safeInt32Value_def safeInt64Value_def byte_or_def
      safe_value_def read_be_def u32_def be_value_bytes be_value_Cons mapE_def)

lemma signed_word_of_int:
  "- (2 ^ (LENGTH('a) - 1)) \<le> i \<Longrightarrow> i < 2 ^ (LENGTH('a) - 1) \<Longrightarrow> sint (word_of_int i :: 'a :: len word) = i"
  using signed_take_bit_int_eq_self [of "LENGTH('a) - 1" i] by (simp add: signed_of_int)

lemma ucast_word_of_int: "LENGTH('a) \<le> 64 \<Longrightarrow> ucast (word_of_int i :: 64 word) = (word_of_int i :: 'a :: len word)"
  by (simp add: unsigned_of_int word_of_int_eq_iff take_bit_take_bit min_def)

lemma integer_read_back:
  assumes "t \<in> set integer_types" "in_range t i"
  shows "integer_value t (number_bytes t (word_of_int i)) = i"
proof (cases "unsigned_type t")
  case True
  then show ?thesis
    using assms by (auto simp: integer_value_def in_range_def unsigned_type_def unsigned_of_int take_bit_int_eq_self uint_up_ucast is_up)
next
  case False
  then show ?thesis
    using assms by (auto simp: integer_types_def integer_value_def in_range_def unsigned_type_def ucast_word_of_int signed_word_of_int sint_up_scast is_up)
qed

lemma sint_small: "uint w < 2 ^ 63 \<Longrightarrow> sint (w :: 64 word) = uint w"
  using signed_take_bit_int_eq_self [of 63 "uint w"] order_trans [of "- (2 ^ 63)" 0 "uint w"] by (simp add: sint_uint)

lemma integer64_value: "t \<in> set integer_types \<Longrightarrow> word_of_int (integer_value t v) = integer64 t v"
  by (auto simp: integer_value_def)

lemma sint_integer64: "t \<in> set integer_types - {T_UInt64} \<Longrightarrow> sint (integer64 t v) = integer_value t v"
proof -
  have "uint (char_of_cell v) < 2 ^ 63" "uint (int16_of v) < 2 ^ 63" "uint (int32_of v) < 2 ^ 63"
    using uint_lt2p [of "char_of_cell v"] uint_lt2p [of "int16_of v"] uint_lt2p [of "int32_of v"] by simp_all
  then show "t \<in> set integer_types - {T_UInt64} \<Longrightarrow> sint (integer64 t v) = integer_value t v"
    by (auto simp: integer_types_def integer_value_def unsigned_type_def sint_small uint_up_ucast is_up)
qed

text \<open>The number an operator stands for.\<close>

fun exact :: "arith_op \<Rightarrow> int \<Rightarrow> int \<Rightarrow> int option" where
  "exact Add x y = Some (x + y)"
| "exact Subtract x y = Some (x - y)"
| "exact Multiply x y = Some (x * y)"
| "exact Divide x y = (if y = 0 then None else Some (x sdiv y))"
| "exact Modulo x y = (if y = 0 then None else Some (x smod y))"
| "exact Minimum x y = Some (min x y)"
| "exact Maximum x y = Some (max x y)"
| "exact _ x y = None"

lemma integers_exact:
  assumes "exact op (sint a) (sint b) = Some z" "z < 2 ^ 64 \<and> (op = Divide \<longrightarrow> z < 2 ^ 63)" "op = Modulo \<longrightarrow> \<not> (a = INT64_MIN \<and> b = - 1)"
  shows "integers op a b = Inr (word_of_int z)"
proof (cases op)
  case Divide
  have "\<not> (a = INT64_MIN \<and> b = - 1)"
  proof
    assume "a = INT64_MIN \<and> b = - 1"
    then have "z = 2 ^ 63" using assms(1) Divide by (simp add: signed_divide_int_def)
    then show False using assms(2) Divide by simp
  qed
  then show ?thesis using assms Divide by (auto simp: divide_with_def split: if_splits)
qed (use assms in \<open>auto simp: divide_with_def min_def max_def split: if_splits\<close>)

lemma max_integer_type: "a \<in> set integer_types - {T_UInt64} \<Longrightarrow> b \<in> set integer_types - {T_UInt64} \<Longrightarrow> max a b \<in> set integer_types - {T_UInt64}"
  by (simp add: max_def)

lemma in_range_64: "t \<in> set integer_types - {T_UInt64} \<Longrightarrow> in_range t z \<Longrightarrow> z < 2 ^ 63"
  by (auto simp: integer_types_def in_range_def unsigned_type_def)



section \<open>What goes wrong\<close>

text \<open>Parentheses around a sum level its operands too: of \<open>((1, 2) + 3)\<close> the third operand is dropped, and the sum is 3 instead of 5.\<close>

definition sum_of_list :: expr_node where
  "sum_of_list =
     list_expr_binary_operation (Arith Add) (list_expr_level_list (list_expr_list (list_expr_integer 1) (list_expr_integer 2))) (list_expr_integer 3)"

lemma integer_literal_sum:
  "binary_operation env Add r (set_value x T_Int64 (setInt64Value u) # set_value y T_Int64 (setInt64Value w) # others) =
     Inr (set_value r T_Int64 (setInt64Value (u + w)))"
  by (simp add: binary_operation_def nth_arg_def get_variable_value_def integer_types_def operate_def is_number_type_def)

lemma parentheses_change_a_sum:
  "execute p sum_of_list r st = (st, Inr (set_value r T_Int64 (setInt64Value 5)))"
  "execute p (list_expr_level_list sum_of_list) r st = (st, Inr (set_value r T_Int64 (setInt64Value 3)))"
  by (simp_all add: sum_of_list_def list_expr_binary_operation_def list_expr_level_list_def list_expr_list_def new_node_def
      list_expr_integer_def literal_node_def list_expr_level_child_def level_loop_flatten operation_def integer_literal_sum)

text \<open>An integer of 64 bits is tested by its high half.\<close>

lemma be_bytes_add: "be_bytes (m + k) v = be_bytes m (v div 256 ^ k) @ be_bytes k v"
  by (induction k arbitrary: v) (simp_all add: div_mult2_eq)

lemma small_number_is_false: "\<not> is_true fp (set_value x T_Int64 (setInt64Value 5))"
proof -
  have "take 4 (be_bytes 8 5) = be_bytes 4 0" using be_bytes_add [of 4 4 5] by simp
  then show ?thesis
    by (simp add: is_true_def right_or_def safeInt32Value_def safe_value_def read_be_def u32_def mapE_def be_value_bytes setInt64Value_def)
qed

text \<open>A number of the type \<open>float\<close> has no operator with two operands.\<close>

lemma float_has_no_operator: "f_type a = T_Float \<Longrightarrow> binary_operation env op r [a, b] = Inl Logic_Exception"
  by (simp add: binary_operation_def nth_arg_def get_variable_value_def integer_types_def)

text \<open>A negative integer next to a \<open>double\<close> is read without its sign.\<close>

lemma minus_one_as_double:
  "get_variable_value q (set_value x T_Int8 (setCharValue (- 1))) = Some y \<Longrightarrow> as_double fp y = fp_of_int fp (2 ^ 64 - 1)"
  by (auto simp: get_variable_value_def integer_types_def as_double_def unsigned_minus_1_eq_mask mask_eq_exp_minus_1)

text \<open>Large unsigned integers compare as negative ones.\<close>

lemma unsigned_less_wrong:
  "bool_binary_operation env Less r
     [set_value x T_UInt64 (setInt64Value 0x8000000000000000), set_value y T_UInt64 (setInt64Value 1)] = Inr (set_bool r True)"
  by (simp add: bool_binary_operation_def nth_arg_def get_variable_value_def integer_types_def bool_operate_def is_number_type_def)

text \<open>The smallest integer divided by -1 traps, which only the denominator zero is tested for.\<close>

lemma divide_traps: "integers Divide INT64_MIN (- 1) = Inl Arithmetic_Trap"
  by (simp add: divide_with_def)

text \<open>A conditional whose branch is an unset variable returns its condition.\<close>

lemma unset_branch:
  "x_variables st x = None \<Longrightarrow>
     execute p (list_expr_conditional (list_expr_boolean True) (list_expr_variable x) n) r st =
       (st, Inr (set_value (new_variable []) T_Bool (setBoolValue True)))"
  by (simp add: list_expr_conditional_def new_node_def list_expr_boolean_def literal_node_def list_expr_variable_def operation_def
      load_variable_def zero_value_def is_number_type_def setBoolValue_def right_or_def boolValueOrNull_def byte_or_def u32_def read_be_def
      mapE_def be_value_Cons)

text \<open>Both operands of \<open>&&\<close> are computed: the assignment on its right is done although the left is false.\<close>

lemma and_computes_both:
  "x_variables (fst (execute p (list_expr_binary_operation (Compare Logical_And) (list_expr_boolean False)
       (list_expr_assignment x (list_expr_boolean True))) r st)) x \<noteq> None"
  by (simp add: list_expr_binary_operation_def new_node_def list_expr_boolean_def literal_node_def list_expr_assignment_def operation_def
      assignment_def nth_arg_def)

end
