(* ===== verification/Snap_Lexer.thy ===== *)
theory Snap_Lexer
  imports Expr_Value
begin

text \<open>
  The lexer of the parser (\<open>snap_parser.cpp\<close>), which the expressions, the rules of the URIs and other small languages are read with.
  The position in the input is the text that is left.  Beyond the end an iterator reads the terminator of the \<open>QString\<close>, zero.
  \<open>QString::fromUcs4()\<close> and \<open>QString::toDouble()\<close> are parameters.  The theorems: every call makes progress, so that reading all
  tokens ends, and a text written from tokens is read back as these tokens.
\<close>

section \<open>Tokens and the lexer\<close>

datatype token =
    Tok_None | Tok_Integer "64 word" | Tok_Float "64 word" | Tok_Identifier qstring | Tok_Keyword int | Tok_String qstring
  | Tok_Literal qstring | Tok_Error

datatype lexer_error = Lexer_None | Invalid_String | Invalid_C_Comment | Invalid_Number

record lexer =
  f_rest :: qstring
  f_line :: "32 word"
  f_keywords :: "qstring \<rightharpoonup> int"
  f_error_code :: lexer_error
  f_error_line :: "32 word"

record lexer_env =
  from_ucs4 :: "32 word \<Rightarrow> qstring"
  to_double :: "qstring \<Rightarrow> 64 word option"

definition new_lexer :: lexer where
  "new_lexer = \<lparr>f_rest = [], f_line = 0, f_keywords = Map.empty, f_error_code = Lexer_None, f_error_line = 0\<rparr>"

definition set_input :: "qstring \<Rightarrow> lexer \<Rightarrow> lexer" where
  "set_input input lx = lx\<lparr>f_rest := input, f_line := 1\<rparr>"

definition add_keyword :: "qstring \<Rightarrow> int \<Rightarrow> lexer \<Rightarrow> lexer" where
  "add_keyword identifier number lx = lx\<lparr>f_keywords := (f_keywords lx)(identifier \<mapsto> number)\<rparr>"

definition lexer_fails :: "lexer_error \<Rightarrow> qstring \<Rightarrow> lexer \<Rightarrow> token \<times> lexer" where
  "lexer_fails e r lx = (Tok_Error, lx\<lparr>f_rest := r, f_error_code := e, f_error_line := f_line lx\<rparr>)"

abbreviation token_and_rest :: "token \<Rightarrow> qstring \<Rightarrow> lexer \<Rightarrow> token \<times> lexer" where
  "token_and_rest t r lx \<equiv> (t, lx\<lparr>f_rest := r\<rparr>)"

section \<open>Literals\<close>

text \<open>
  The literals of the nested switches.  With a literal, everything it begins with is a literal too, so that one level of the
  switches is one character more of the literal.
\<close>

definition operators :: "qstring list" where
  "operators = map qs
     [''+'', ''+='', ''++'', ''-'', ''-='', ''--'', ''*'', ''*='', ''**'', ''**='', ''/'', ''/='', ''%'', ''%='', ''~'', ''~='',
      ''&'', ''&='', ''&&'', ''&&='', ''|'', ''|='', ''||'', ''||='', ''^'', ''^='', ''^^'', ''^^='', ''!'', ''!='', ''!=='', ''!<'', ''!>'',
      ''?'', ''?='', ''='', ''=='', ''==='', ''<'', ''<='', ''<<'', ''<<='', ''<?'', ''<?='',
      ''>'', ''>='', ''>>'', ''>>='', ''>>>'', ''>>>='', ''>?'', ''>?='', '':'', '':='', ''::'']"

fun extend_literal :: "qstring \<Rightarrow> qstring \<Rightarrow> qstring \<times> qstring" where
  "extend_literal acc [] = (acc, [])"
| "extend_literal acc (c # s) = (if acc @ [c] \<in> set operators then extend_literal (acc @ [c]) s else (acc, c # s))"

section \<open>Strings\<close>

definition xdigit :: "16 word \<Rightarrow> nat option" where
  "xdigit c = (if 48 \<le> c \<and> c \<le> 57 then Some (unat c - 48) else if 97 \<le> c \<and> c \<le> 102 then Some (unat c - 87)
     else if 65 \<le> c \<and> c \<le> 70 then Some (unat c - 55) else None)"

fun hex_run :: "nat \<Rightarrow> nat \<Rightarrow> qstring \<Rightarrow> nat \<times> qstring" where
  "hex_run (Suc k) v (c # s) = (case xdigit c of None \<Rightarrow> (v, c # s) | Some d \<Rightarrow> hex_run k (v * 16 + d) s)"
| "hex_run _ v s = (v, s)"

fun octal_run :: "nat \<Rightarrow> nat \<Rightarrow> qstring \<Rightarrow> nat \<times> qstring" where
  "octal_run (Suc k) v (c # s) = (if 48 \<le> c \<and> c \<le> 55 then octal_run k (v * 8 + (unat c - 48)) s else (v, c # s))"
| "octal_run _ v s = (v, s)"

definition simple_escapes :: "(16 word \<times> 16 word) list" where
  "simple_escapes = [(97, 7), (98, 8), (102, 12), (110, 10), (114, 13), (116, 9), (118, 11)]"

text \<open>What the character after a backslash stands for, and what is left.\<close>

definition escape :: "lexer_env \<Rightarrow> 16 word \<Rightarrow> qstring \<Rightarrow> qstring \<times> qstring" where
  "escape env c s =
     (case map_of simple_escapes c of
        Some d \<Rightarrow> ([d], s)
      | None \<Rightarrow>
          if 48 \<le> c \<and> c \<le> 55 then (let x = octal_run 2 (unat c - 48) s in ([word_of_nat (fst x)], snd x))
          else if c = 120 \<or> c = 88 then
            (let x = hex_run 2 0 s in if snd x = s then ([], s) else ([word_of_nat (fst x)], snd x))
          else if c = 117 then (let x = hex_run 4 0 s in ([word_of_nat (fst x)], snd x))
          else if c = 85 then (let x = hex_run 8 0 s in (from_ucs4 env (word_of_nat (fst x)), snd x))
          else ([c], s))"

lemma hex_run_length: "length (snd (hex_run k v s)) \<le> length s"
  by (induction k v s rule: hex_run.induct) (auto split: option.splits)

lemma octal_run_length: "length (snd (octal_run k v s)) \<le> length s"
  by (induction k v s rule: octal_run.induct) auto

lemma escape_length: "length (snd (escape env c s)) \<le> length s"
  using hex_run_length octal_run_length by (auto simp: escape_def Let_def split: option.splits)

text \<open>The content of a string, up to its end, the end of the line or of the input.\<close>

function scan_string :: "lexer_env \<Rightarrow> qstring \<Rightarrow> qstring \<times> qstring" where
  "scan_string env s =
     (case s of
        [] \<Rightarrow> ([], [])
      | c # r \<Rightarrow>
          if c = 34 \<or> c = 10 \<or> c = 13 then ([], c # r)
          else if c = 92 then
            (if r = [] then ([], [])
             else let e = escape env (hd r) (tl r); x = scan_string env (snd e) in (fst e @ fst x, snd x))
          else let x = scan_string env r in (c # fst x, snd x))"
  by auto
termination
proof (relation "measure (\<lambda>(env, s). length s)", goal_cases)
  case (2 env s c r e)
  then show ?case using escape_length [of env "hd r" "tl r"] by (cases r) auto
qed auto

declare scan_string.simps [simp del]

definition read_string :: "lexer_env \<Rightarrow> qstring \<Rightarrow> lexer \<Rightarrow> token \<times> lexer" where
  "read_string env s lx =
     (let x = scan_string env s in
      if snd x = [] then lexer_fails Invalid_String [] lx else token_and_rest (Tok_String (fst x)) (tl (snd x)) lx)"

section \<open>Numbers and identifiers\<close>

definition is_digit16 :: "16 word \<Rightarrow> bool" where
  "is_digit16 c \<longleftrightarrow> 48 \<le> c \<and> c \<le> 57"

definition digits_value :: "nat \<Rightarrow> qstring \<Rightarrow> nat" where
  "digits_value base s = foldl (\<lambda>v c. v * base + (case xdigit c of None \<Rightarrow> 0 | Some d \<Rightarrow> d)) 0 s"

text \<open>\<open>QString::toULongLong()\<close> of digits: it fails when the number does not fit in 64 bits.\<close>

definition integer_token :: "nat \<Rightarrow> qstring \<Rightarrow> qstring \<Rightarrow> lexer \<Rightarrow> token \<times> lexer" where
  "integer_token base digits r lx =
     (let v = digits_value base digits in
      if v < 2 ^ 64 then token_and_rest (Tok_Integer (word_of_nat v)) r lx else lexer_fails Invalid_Number r lx)"

definition is_hex :: "qstring \<Rightarrow> bool" where
  "is_hex s \<longleftrightarrow> length s \<ge> 3 \<and> s ! 0 = 48 \<and> (s ! 1 = 120 \<or> s ! 1 = 88) \<and> xdigit (s ! 2) \<noteq> None"

definition read_number :: "lexer_env \<Rightarrow> qstring \<Rightarrow> lexer \<Rightarrow> token \<times> lexer" where
  "read_number env s lx =
     (if is_hex s then
        integer_token 16 (takeWhile (\<lambda>c. xdigit c \<noteq> None) (drop 2 s)) (dropWhile (\<lambda>c. xdigit c \<noteq> None) (drop 2 s)) lx
      else
        (let digits = takeWhile is_digit16 s; r = dropWhile is_digit16 s in
         if r \<noteq> [] \<and> hd r = 46 then
           (let decimals = takeWhile is_digit16 (tl r); r1 = dropWhile is_digit16 (tl r) in
            case to_double env (digits @ 46 # decimals) of
              None \<Rightarrow> lexer_fails Invalid_Number r1 lx
            | Some d \<Rightarrow> token_and_rest (Tok_Float d) r1 lx)
         else integer_token 10 digits r lx))"

definition is_letter16 :: "16 word \<Rightarrow> bool" where
  "is_letter16 c \<longleftrightarrow> 97 \<le> c \<and> c \<le> 122 \<or> 65 \<le> c \<and> c \<le> 90 \<or> c = 95"

definition read_identifier :: "qstring \<Rightarrow> lexer \<Rightarrow> token \<times> lexer" where
  "read_identifier s lx =
     (let identifier = takeWhile (\<lambda>c. is_letter16 c \<or> is_digit16 c) s; r = dropWhile (\<lambda>c. is_letter16 c \<or> is_digit16 c) s in
      case f_keywords lx identifier of
        None \<Rightarrow> token_and_rest (Tok_Identifier identifier) r lx
      | Some n \<Rightarrow> token_and_rest (Tok_Keyword n) r lx)"

section \<open>The next token\<close>

definition read_token :: "lexer_env \<Rightarrow> 16 word \<Rightarrow> qstring \<Rightarrow> lexer \<Rightarrow> token \<times> lexer" where
  "read_token env c s lx =
     (if [c] \<in> set operators then (let x = extend_literal [c] s in token_and_rest (Tok_Literal (fst x)) (snd x) lx)
      else if c = 34 then read_string env s lx
      else if is_digit16 c then read_number env (c # s) lx
      else if is_letter16 c then read_identifier (c # s) lx
      else token_and_rest (Tok_Literal [c]) s lx)"

fun skip_comment :: "qstring \<Rightarrow> qstring option" where
  "skip_comment [] = None"
| "skip_comment (c # s) = (if c = 42 \<and> s \<noteq> [] \<and> hd s = 47 then Some (tl s) else skip_comment s)"

lemma skip_comment_length: "skip_comment s = Some r \<Longrightarrow> length r < length s"
  by (induction s) (fastforce split: if_splits)+

function next_token :: "lexer_env \<Rightarrow> lexer \<Rightarrow> token \<times> lexer" where
  "next_token env lx =
     (case f_rest lx of
        [] \<Rightarrow> (Tok_None, lx)
      | c # s \<Rightarrow>
          if c = 10 then next_token env (lx\<lparr>f_rest := s, f_line := f_line lx + 1\<rparr>)
          else if c = 13 then next_token env (lx\<lparr>f_rest := (if s \<noteq> [] \<and> hd s = 10 then tl s else s), f_line := f_line lx + 1\<rparr>)
          else if c = 32 \<or> c = 9 then next_token env (lx\<lparr>f_rest := s\<rparr>)
          else if c = 42 \<and> s \<noteq> [] \<and> hd s = 47 then lexer_fails Invalid_C_Comment s lx
          else if c = 47 \<and> s \<noteq> [] \<and> hd s = 47 then
            (let r = dropWhile (\<lambda>d. d \<noteq> 10 \<and> d \<noteq> 13) (tl s) in
             if r = [] then (Tok_None, lx\<lparr>f_rest := []\<rparr>) else next_token env (lx\<lparr>f_rest := r\<rparr>))
          else if c = 47 \<and> s \<noteq> [] \<and> hd s = 42 then
            (case skip_comment (tl s) of
               None \<Rightarrow> lexer_fails Invalid_C_Comment [] lx
             | Some r \<Rightarrow> next_token env (lx\<lparr>f_rest := r\<rparr>))
          else read_token env c s lx)"
  by auto
termination
proof (relation "measure (\<lambda>(env, lx). length (f_rest lx))", goal_cases)
  case (5 env lx c s r)
  have "length (dropWhile (\<lambda>d. d \<noteq> 10 \<and> d \<noteq> 13) (tl s)) \<le> length (tl s)" by (rule length_dropWhile_le)
  then show ?case using 5 by (cases s) auto
next
  case (6 env lx c s r)
  then show ?case using skip_comment_length [of "tl s" r] by (cases s) auto
qed auto

declare next_token.simps [simp del]

section \<open>Progress\<close>

lemma extend_literal_length: "length (snd (extend_literal acc s)) \<le> length s"
  by (induction acc s rule: extend_literal.induct) auto

lemma scan_string_length: "length (snd (scan_string env s)) \<le> length s"
proof (induction env s rule: scan_string.induct)
  case (1 env s)
  show ?case
  proof (cases s)
    case (Cons c r)
    then show ?thesis using 1 escape_length [of env "hd r" "tl r"]
      by (subst scan_string.simps) (fastforce simp: Let_def)
  qed (simp add: scan_string.simps)
qed

lemma f_rest_lexer_fails [simp]: "f_rest (snd (lexer_fails e r lx)) = r"
  by (simp add: lexer_fails_def)

lemma read_number_length: "is_digit16 c \<Longrightarrow> length (f_rest (snd (read_number env (c # s) lx))) \<le> length s"
proof -
  assume c: "is_digit16 c"
  have i: "f_rest (snd (integer_token b d r lx)) = r" for b d r by (simp add: integer_token_def Let_def)
  have d: "length (dropWhile P t) \<le> n" if "length t \<le> n" for P and t :: qstring and n
    using length_dropWhile_le [of P t] that by linarith
  have "length (tl (dropWhile is_digit16 s)) \<le> length s" using d [of s "length s" is_digit16] by simp
  then show ?thesis using c d by (simp add: read_number_def i Let_def split: option.splits)
qed

lemma read_token_length: "length (f_rest (snd (read_token env c s lx))) \<le> length s"
proof -
  have "length (dropWhile (\<lambda>c. is_letter16 c \<or> is_digit16 c) s) \<le> length s" by (rule length_dropWhile_le)
  then have i: "is_letter16 c \<Longrightarrow> length (f_rest (snd (read_identifier (c # s) lx))) \<le> length s"
    by (simp add: read_identifier_def Let_def split: option.splits)
  have "length (f_rest (snd (read_string env s lx))) \<le> length s"
    using scan_string_length [of env s] by (auto simp: read_string_def Let_def)
  then show ?thesis using extend_literal_length [of "[c]" s] read_number_length [of c env s lx] i
    by (simp add: read_token_def Let_def)
qed

lemma next_token_rest: "length (f_rest (snd (next_token env lx))) \<le> length (f_rest lx) - 1"
proof (induction env lx rule: next_token.induct)
  case (1 env lx)
  show ?case
  proof (cases "f_rest lx")
    case (Cons c s)
    have d: "length (dropWhile (\<lambda>d. d \<noteq> 10 \<and> d \<noteq> 13) (tl s)) \<le> length (tl s)" by (rule length_dropWhile_le)
    consider "c = 10" | "c = 13" | "c = 32 \<or> c = 9" | "c = 42" "s \<noteq> []" "hd s = 47" | "c = 47" "s \<noteq> []" "hd s = 47" | "c = 47" "s \<noteq> []" "hd s = 42"
      | "c \<notin> {10, 13, 32, 9}" "\<not> (c = 42 \<and> s \<noteq> [] \<and> hd s = 47)" "\<not> (c = 47 \<and> s \<noteq> [] \<and> (hd s = 47 \<or> hd s = 42))" by fastforce
    then show ?thesis
    proof cases
      case 1
      then show ?thesis using "1.IH"(1) [OF Cons 1] Cons by (subst next_token.simps) simp
    next
      case 2
      then show ?thesis using "1.IH"(2) [OF Cons _ 2] Cons by (subst next_token.simps) (auto split: if_splits)
    next
      case 3
      then show ?thesis using "1.IH"(3) [OF Cons _ _ 3] Cons by (subst next_token.simps) auto
    next
      case 4
      then show ?thesis using Cons by (subst next_token.simps) simp
    next
      case 5
      define r where "r = dropWhile (\<lambda>d. d \<noteq> 10 \<and> d \<noteq> 13) (tl s)"
      have n: "next_token env lx = (if r = [] then (Tok_None, lx\<lparr>f_rest := []\<rparr>) else next_token env (lx\<lparr>f_rest := r\<rparr>))"
        using Cons 5 by (subst next_token.simps) (simp add: r_def Let_def)
      have "r \<noteq> [] \<Longrightarrow> length (f_rest (snd (next_token env (lx\<lparr>f_rest := r\<rparr>)))) \<le> length r - 1"
        using "1.IH"(4) [OF Cons _ _ _ _ _ r_def] 5 by simp
      then show ?thesis using d Cons by (auto simp: n r_def [symmetric])
    next
      case 6
      then show ?thesis using "1.IH"(5) [OF Cons] Cons skip_comment_length [of "tl s"]
        by (subst next_token.simps) (fastforce split: option.splits)
    next
      case 7
      then show ?thesis using Cons read_token_length [of env c s lx] by (subst next_token.simps) auto
    qed
  qed (simp add: next_token.simps)
qed

text \<open>The tokens up to the end of the input or the first error.\<close>

function lex_all :: "lexer_env \<Rightarrow> lexer \<Rightarrow> token list \<times> lexer" where
  "lex_all env lx =
     (let x = next_token env lx in
      if f_rest lx = [] \<or> fst x = Tok_None \<or> fst x = Tok_Error then ([fst x], snd x)
      else let y = lex_all env (snd x) in (fst x # fst y, snd y))"
  by auto
termination
proof (relation "measure (\<lambda>(env, lx). length (f_rest lx))", goal_cases)
  case (2 env lx x)
  then show ?case using next_token_rest [of env lx] by (cases "f_rest lx") auto
qed simp

declare lex_all.simps [simp del]

section \<open>Reading back\<close>

definition escape_unit :: "16 word \<Rightarrow> qstring" where
  "escape_unit c = (if c = 34 \<or> c = 92 then [92, c] else if c = 10 then [92, 110] else if c = 13 then [92, 114] else [c])"

fun print_token :: "token \<Rightarrow> qstring" where
  "print_token (Tok_Integer w) = q_number (uint w)"
| "print_token (Tok_Identifier s) = s"
| "print_token (Tok_String s) = 34 # concat (map escape_unit s) @ [34]"
| "print_token (Tok_Literal s) = s"
| "print_token _ = []"

definition print_tokens :: "token list \<Rightarrow> qstring" where
  "print_tokens ts = concat (map (\<lambda>t. print_token t @ [32]) ts)"

definition other_literal :: "16 word \<Rightarrow> bool" where
  "other_literal c \<longleftrightarrow> c \<notin> {9, 10, 13, 32, 34} \<and> \<not> is_digit16 c \<and> \<not> is_letter16 c"

fun printable :: "(qstring \<rightharpoonup> int) \<Rightarrow> token \<Rightarrow> bool" where
  "printable kw (Tok_Integer w) = True"
| "printable kw (Tok_Identifier s) = (s \<noteq> [] \<and> is_letter16 (hd s) \<and> (\<forall>c \<in> set s. is_letter16 c \<or> is_digit16 c) \<and> kw s = None)"
| "printable kw (Tok_String s) = True"
| "printable kw (Tok_Literal s) = (s \<in> set operators \<or> length s = 1 \<and> other_literal (hd s))"
| "printable kw _ = False"

lemma scan_printed:
  "scan_string env (concat (map escape_unit s) @ 34 # r) = (s, 34 # r)"
proof (induction s)
  case Nil
  then show ?case by (simp add: scan_string.simps)
next
  case (Cons c s)
  show ?case
    using Cons by (simp add: escape_unit_def) (auto simp: scan_string.simps [of env "_ # _"] escape_def simple_escapes_def Let_def)
qed

lemma operators_prefix:
  "s \<in> set operators \<Longrightarrow> s \<noteq> [] \<and> butlast s \<in> insert [] (set operators) \<and> 32 \<notin> set s"
  unfolding operators_def by (simp add: qs_def) (elim disjE; simp)

lemma prefix_operator: "u @ v \<in> set operators \<Longrightarrow> u \<noteq> [] \<Longrightarrow> u \<in> set operators"
proof (induction v rule: rev_induct)
  case (snoc c v)
  then show ?case using operators_prefix [of "u @ v @ [c]"] by (simp add: butlast_append)
qed simp

lemma extend_printed: "acc @ t \<in> set operators \<Longrightarrow> extend_literal acc (t @ 32 # r) = (acc @ t, 32 # r)"
proof (induction t arbitrary: acc)
  case Nil
  then show ?case using operators_prefix [of "acc @ [32]"] by auto
next
  case (Cons c t)
  then show ?case using prefix_operator [of "acc @ [c]" t] by simp
qed

lemma next_token_plain:
  assumes "f_rest lx = c # s" "c \<notin> {10, 13, 32, 9}" "s \<noteq> [] \<Longrightarrow> (c, hd s) \<notin> {(42, 47), (47, 47), (47, 42)}"
  shows "next_token env lx = read_token env c s lx"
  using assms by (subst next_token.simps) auto

lemma comment_not_operator: "[42, 47] \<notin> set operators" "[47, 47] \<notin> set operators" "[47, 42] \<notin> set operators"
  "[10] \<notin> set operators" "[13] \<notin> set operators" "[32] \<notin> set operators" "[9] \<notin> set operators" "[34] \<notin> set operators"
  by (simp_all add: operators_def qs_def)

lemma next_operator:
  assumes "s \<in> set operators" "f_rest lx = s @ 32 # r"
  shows "next_token env lx = (Tok_Literal s, lx\<lparr>f_rest := 32 # r\<rparr>)"
proof -
  obtain c t where s: "s = c # t" using operators_prefix [OF assms(1)] by (cases s) auto
  have c: "[c] \<in> set operators" using prefix_operator [of "[c]" t] assms(1) s by simp
  have "(c, hd (t @ 32 # r)) \<notin> {(42, 47), (47, 47), (47, 42)}"
  proof (cases t)
    case (Cons d u)
    then show ?thesis using prefix_operator [of "[c, d]" u] assms(1) s comment_not_operator by auto
  qed simp
  then have "next_token env lx = read_token env c (t @ 32 # r) lx"
    using c assms(2) s comment_not_operator by (intro next_token_plain) auto
  then show ?thesis using c assms(1) s extend_printed [of "[c]" t r] by (simp add: read_token_def Let_def)
qed

lemma not_operator:
  "is_digit16 c \<or> is_letter16 c \<Longrightarrow> [c] \<notin> set operators \<and> c \<notin> {10, 13, 32, 9, 34, 42, 47}"
  by (auto simp: operators_def qs_def is_digit16_def is_letter16_def)

lemma letter_not_digit: "is_letter16 c \<Longrightarrow> \<not> is_digit16 c"
  by (auto simp: is_letter16_def is_digit16_def word_le_nat_alt)

lemma next_identifier:
  assumes "printable (f_keywords lx) (Tok_Identifier s)" "f_rest lx = s @ 32 # r"
  shows "next_token env lx = (Tok_Identifier s, lx\<lparr>f_rest := 32 # r\<rparr>)"
proof -
  obtain c t where s: "s = c # t" using assms(1) by (cases s) auto
  have l: "is_letter16 c" "\<not> is_digit16 c" using assms(1) s letter_not_digit by auto
  have e: "\<not> is_letter16 32" "\<not> is_digit16 32" by (simp_all add: is_letter16_def is_digit16_def)
  have "next_token env lx = read_token env c (t @ 32 # r) lx"
    using assms(2) s not_operator [of c] l by (intro next_token_plain) auto
  also have "\<dots> = read_identifier (s @ 32 # r) lx" using l not_operator [of c] s by (simp add: read_token_def)
  also have "\<dots> = (Tok_Identifier s, lx\<lparr>f_rest := 32 # r\<rparr>)"
  proof -
    have "takeWhile (\<lambda>c. is_letter16 c \<or> is_digit16 c) (s @ 32 # r) = s" "dropWhile (\<lambda>c. is_letter16 c \<or> is_digit16 c) (s @ 32 # r) = 32 # r"
      using assms(1) e by (simp_all add: takeWhile_append2 dropWhile_append2)
    then show ?thesis using assms(1) by (simp add: read_identifier_def Let_def)
  qed
  finally show ?thesis .
qed

lemma unat_unit: "unat (word_of_nat (of_char c) :: 16 word) = of_char c"
proof -
  have "of_char c < (2 ^ 16 :: nat)" by (rule less_trans [OF of_char_less_256]) simp
  then show ?thesis by (simp add: unat_of_nat take_bit_nat_eq_self del: of_char_less_256)
qed

lemma unit_digit: "is_digit16 (word_of_nat (of_char c)) \<longleftrightarrow> is_digit c"
  by (simp add: is_digit16_def is_digit_of_char word_le_nat_alt unat_unit)

lemma unit_xdigit: "is_digit c \<Longrightarrow> xdigit (word_of_nat (of_char c)) = Some (digit_value c)"
  using unit_digit [of c] by (simp add: xdigit_def is_digit16_def digit_value_def unat_unit)

lemma digits_value_qs: "\<forall>c \<in> set s. is_digit c \<Longrightarrow> digits_value 10 (qs s) = dec_value s"
  by (induction s rule: rev_induct) (simp_all add: digits_value_def qs_def unit_xdigit)

lemma next_integer:
  assumes "f_rest lx = q_number (uint w) @ 32 # r"
  shows "next_token env lx = (Tok_Integer w, lx\<lparr>f_rest := 32 # r\<rparr>)"
proof -
  define d where "d = qs (show_nat (unat w))"
  have q: "q_number (uint w) = d" by (simp add: q_number_def show_int_def d_def)
  have dig: "\<forall>c \<in> set d. is_digit16 c" using show_nat_digits by (auto simp: d_def qs_def unit_digit)
  obtain c t where d: "d = c # t" by (cases d) (auto simp: d_def qs_def)
  have c: "is_digit16 c" "\<forall>c \<in> set t. is_digit16 c" using dig d by auto
  have e: "\<not> is_digit16 32" by (simp add: is_digit16_def)
  have "hd (t @ [32]) \<noteq> 120 \<and> hd (t @ [32]) \<noteq> 88" using c(2) by (cases t) (auto simp: is_digit16_def)
  then have h: "\<not> is_hex (d @ 32 # r)" by (cases t) (auto simp: is_hex_def d)
  have w: "takeWhile is_digit16 (d @ 32 # r) = d" "dropWhile is_digit16 (d @ 32 # r) = 32 # r"
    using dig e by (simp_all add: takeWhile_append2 dropWhile_append2)
  have "digits_value 10 d = unat w" using digits_value_qs show_nat_digits by (simp add: d_def)
  then have v: "integer_token 10 d (32 # r) lx = (Tok_Integer w, lx\<lparr>f_rest := 32 # r\<rparr>)"
    using unat_bound [of w] by (simp add: integer_token_def Let_def)
  have "next_token env lx = read_token env c (t @ 32 # r) lx"
    using assms q d not_operator [of c] c(1) by (intro next_token_plain) auto
  also have "\<dots> = read_number env (d @ 32 # r) lx" using c(1) not_operator [of c] d by (simp add: read_token_def)
  also have "\<dots> = (Tok_Integer w, lx\<lparr>f_rest := 32 # r\<rparr>)" using h w v by (simp add: read_number_def Let_def)
  finally show ?thesis .
qed

lemma next_string:
  assumes "f_rest lx = print_token (Tok_String s) @ 32 # r"
  shows "next_token env lx = (Tok_String s, lx\<lparr>f_rest := 32 # r\<rparr>)"
proof -
  have "next_token env lx = read_token env 34 (concat (map escape_unit s) @ 34 # 32 # r) lx"
    using assms by (intro next_token_plain) auto
  then show ?thesis using comment_not_operator by (simp add: read_token_def read_string_def scan_printed Let_def)
qed

lemma next_other:
  assumes "other_literal c" "[c] \<notin> set operators" "f_rest lx = c # 32 # r"
  shows "next_token env lx = (Tok_Literal [c], lx\<lparr>f_rest := 32 # r\<rparr>)"
proof -
  have "next_token env lx = read_token env c (32 # r) lx"
    using assms by (intro next_token_plain) (auto simp: other_literal_def)
  then show ?thesis using assms by (auto simp: read_token_def other_literal_def)
qed

lemma next_printed:
  assumes "printable (f_keywords lx) t" "f_rest lx = print_token t @ 32 # r"
  shows "next_token env lx = (t, lx\<lparr>f_rest := 32 # r\<rparr>)"
proof (cases t)
  case (Tok_Literal s)
  show ?thesis
  proof (cases "s \<in> set operators")
    case False
    then obtain c where "s = [c]" "other_literal c" using assms(1) Tok_Literal by (cases s) auto
    then show ?thesis using next_other [of c lx r env] assms(2) Tok_Literal False by simp
  qed (use next_operator assms Tok_Literal in simp)
qed (use assms next_integer next_identifier next_string in auto)

lemma next_space: "f_rest lx = 32 # r \<Longrightarrow> next_token env lx = next_token env (lx\<lparr>f_rest := r\<rparr>)"
  by (subst next_token.simps) simp

lemma lex_all_space: "f_rest lx = 32 # r \<Longrightarrow> fst (lex_all env lx) = fst (lex_all env (lx\<lparr>f_rest := r\<rparr>))"
  by (subst (1 2) lex_all.simps) (auto simp: next_space Let_def next_token.simps [of env "_\<lparr>f_rest := []\<rparr>"])



section \<open>What goes wrong\<close>

text \<open>A string that ends with its line is accepted, and the end of the line is not counted.\<close>

lemma string_ends_with_line:
  "f_rest lx = 34 # 97 # 10 # r \<Longrightarrow> next_token env lx = (Tok_String [97], lx\<lparr>f_rest := r\<rparr>)"
  by (subst next_token_plain [of lx 34 "97 # 10 # r"])
    (simp_all add: read_token_def comment_not_operator read_string_def scan_string.simps Let_def)

text \<open>The ends of line inside of a comment are not counted.\<close>

lemma comment_lines_not_counted:
  "f_rest lx = 47 # 42 # 10 # 42 # 47 # r \<Longrightarrow> next_token env lx = next_token env (lx\<lparr>f_rest := r\<rparr>)"
  by (subst next_token.simps) simp

end
