(* ===== verification/Xpath_Value.thy ===== *)
theory Xpath_Value
  imports Expr_Value
begin

text \<open>
  The values of the XPath engine (\<open>qdomxpath.cpp\<close>: \<open>atomic_value_t\<close>, \<open>variant_t\<close>) and the comparison of floating point
  numbers (\<open>floats.cpp\<close>).  A floating point number is the word of its bits; the operations of the floating point unit, Qt's text conversions
  and Qt's DOM are parameters.  A shift that C++ does not define is an error value.
\<close>

unbundle bit_operations_syntax

section \<open>Exceptions and parameters\<close>

text \<open>
  The exceptions of \<open>qdomxpath.h\<close>.  The last five are no exceptions of the code: a read outside of an array, the trap of
  an integer division, a shift by a count out of range, a loop over the nodes that is longer than the document, and a null node
  in a result.
\<close>

datatype xpath_error =
    InternalError | UndefinedInstructionError | UnknownFunctionError | InvalidMagic | InvalidError | InvalidCharacter | InvalidString
  | TooManyUnget | SyntaxError | NotImplemented | OutOfRange | EmptyStack | EmptyContext | WrongType | UndefinedVariable | DivisionByZero
  | Read_Outside | Division_Trap | Shift_Undefined | Endless_Loop | Null_Node

type_synonym 'a xres = "xpath_error + 'a"

text \<open>One width of the floating point unit, with \<open>atof()\<close>, the casts from and to \<open>int64_t\<close>, and Qt's decimal text.\<close>

record 'f floating =
  fl_zero :: 'f
  fl_one :: 'f
  fl_half :: 'f
  fl_add :: "'f \<Rightarrow> 'f \<Rightarrow> 'f"
  fl_sub :: "'f \<Rightarrow> 'f \<Rightarrow> 'f"
  fl_mul :: "'f \<Rightarrow> 'f \<Rightarrow> 'f"
  fl_div :: "'f \<Rightarrow> 'f \<Rightarrow> 'f"
  fl_mod :: "'f \<Rightarrow> 'f \<Rightarrow> 'f"
  fl_neg :: "'f \<Rightarrow> 'f"
  fl_floor :: "'f \<Rightarrow> 'f"
  fl_ceil :: "'f \<Rightarrow> 'f"
  fl_less :: "'f \<Rightarrow> 'f \<Rightarrow> bool"
  fl_less_eq :: "'f \<Rightarrow> 'f \<Rightarrow> bool"
  fl_equal :: "'f \<Rightarrow> 'f \<Rightarrow> bool"
  fl_of_int :: "64 word \<Rightarrow> 'f"
  fl_to_int :: "'f \<Rightarrow> 64 word"
  fl_text :: "'f \<Rightarrow> qstring"

text \<open>Qt's DOM: the kind of a node, its texts and its neighbors, \<open>None\<close> for a null node, and a bound on the number of the nodes.\<close>

datatype node_kind =
    ElementNode | AttributeNode | TextNode | CDATASectionNode | EntityReferenceNode | EntityNode | ProcessingInstructionNode
  | CommentNode | DocumentNode | DocumentTypeNode | DocumentFragmentNode | NotationNode | BaseNode | CharacterDataNode

record 'n dom =
  nodeType :: "'n \<Rightarrow> node_kind"
  element_text :: "'n \<Rightarrow> qstring"
  node_data :: "'n \<Rightarrow> qstring"
  tagName :: "'n \<Rightarrow> qstring"
  node_prefix :: "'n \<Rightarrow> qstring"
  pi_target :: "'n \<Rightarrow> qstring"
  documentElement :: "'n \<Rightarrow> 'n option"
  ownerDocument :: "'n \<Rightarrow> 'n option"
  parentNode :: "'n \<Rightarrow> 'n option"
  firstChild :: "'n \<Rightarrow> 'n option"
  lastChild :: "'n \<Rightarrow> 'n option"
  nextSibling :: "'n \<Rightarrow> 'n option"
  previousSibling :: "'n \<Rightarrow> 'n option"
  firstChildElement :: "'n \<Rightarrow> qstring \<Rightarrow> 'n option"
  nextSiblingElement :: "'n \<Rightarrow> qstring \<Rightarrow> 'n option"
  node_attributes :: "'n \<Rightarrow> 'n list"
  namedItem :: "'n \<Rightarrow> qstring \<Rightarrow> 'n option"
  document_bound :: nat

record 'n xpath_env =
  x_single :: "32 word floating"
  x_double :: "64 word floating"
  x_widen :: "32 word \<Rightarrow> 64 word"
  x_narrow :: "64 word \<Rightarrow> 32 word"
  x_atof :: "8 word list \<Rightarrow> 64 word"
  x_toUtf8 :: "qstring \<Rightarrow> 8 word list"
  x_fromUtf8 :: "8 word list \<Rightarrow> qstring"
  x_dom :: "'n dom"
  x_bound :: "qstring \<rightharpoonup> qstring"

section \<open>Comparison of floating point numbers\<close>

text \<open>
  \<open>almost_equal()\<close> on signed integers of the width of the numbers: the right shift of \<open>-1\<close> is \<open>-1\<close>, so that both masks keep every bit.
\<close>

definition cpp_mask :: "nat \<Rightarrow> 'a::len word" where
  "cpp_mask bits = signed_drop_bit (LENGTH('a) - bits) (- 1)"

definition shift_right :: "'a::len word \<Rightarrow> 'a word \<Rightarrow> 'a word xres" where
  "shift_right i d = (if 0 \<le> sint d \<and> sint d < int LENGTH('a) then Inr (signed_drop_bit (nat (sint d)) i) else Inl Shift_Undefined)"

definition almost_equal :: "'a::len word floating \<Rightarrow> nat \<Rightarrow> nat \<Rightarrow> int \<Rightarrow> 'a word \<Rightarrow> 'a word \<Rightarrow> bool xres" where
  "almost_equal fl mantissa exponent epsilon a b =
     (if fl_equal fl a b then Inr True
      else if fl_less fl a (fl_zero fl) \<noteq> fl_less fl b (fl_zero fl) then Inr False
      else
        let ia = a AND cpp_mask mantissa; ib = b AND cpp_mask mantissa;
            ea = signed_drop_bit mantissa a AND cpp_mask exponent; eb = signed_drop_bit mantissa b AND cpp_mask exponent
        in bindE (if sint ea < sint eb then mapE (Pair ia) (shift_right ib (eb - ea))
                  else if sint ea > sint eb then mapE (\<lambda>i. (i, ib)) (shift_right ia (eb - ea))
                  else Inr (ia, ib))
             (\<lambda>(ia, ib). Inr (sint (if sint ia > sint ib then ia - ib else ib - ia) < epsilon)))"

definition compare_singles :: "'n xpath_env \<Rightarrow> 32 word \<Rightarrow> 32 word \<Rightarrow> bool xres" where
  "compare_singles env = almost_equal (x_single env) 23 8 0x20"

definition compare_doubles :: "'n xpath_env \<Rightarrow> 64 word \<Rightarrow> 64 word \<Rightarrow> bool xres" where
  "compare_doubles env = almost_equal (x_double env) 52 11 0x80"

section \<open>Atomic values\<close>

datatype type_t =
    TYPE_UNDEFINED | TYPE_NULL | TYPE_END_OF_ARGUMENTS | TYPE_BOOLEAN | TYPE_INTEGER | TYPE_SINGLE | TYPE_DOUBLE | TYPE_STRING | TYPE_SET
  | TYPE_NODE_SET

text \<open>
  An atomic value and a variant, which adds the sets to it.  A Boolean, which the code keeps as the integer 0 or 1, is a Boolean.
\<close>

datatype atomic =
    Null | End_Of_Arguments | Boolean bool | Integer "64 word" | Single "32 word" | Double "64 word" | Str qstring

datatype 'n variant = Atomic atomic | Atomic_Set "atomic list" | Node_Set "'n list"

fun getType :: "'n variant \<Rightarrow> type_t" where
  "getType (Atomic Null) = TYPE_NULL"
| "getType (Atomic End_Of_Arguments) = TYPE_END_OF_ARGUMENTS"
| "getType (Atomic (Boolean b)) = TYPE_BOOLEAN"
| "getType (Atomic (Integer i)) = TYPE_INTEGER"
| "getType (Atomic (Single f)) = TYPE_SINGLE"
| "getType (Atomic (Double d)) = TYPE_DOUBLE"
| "getType (Atomic (Str s)) = TYPE_STRING"
| "getType (Atomic_Set as) = TYPE_SET"
| "getType (Node_Set ns) = TYPE_NODE_SET"

text \<open>\<open>atol()\<close>: the spaces, a sign, the digits; the value is held at the limits of \<open>long\<close>.\<close>

definition is_blank8 :: "8 word \<Rightarrow> bool" where
  "is_blank8 c \<longleftrightarrow> c = 32 \<or> (9 \<le> c \<and> c \<le> 13)"

definition is_digit8 :: "8 word \<Rightarrow> bool" where
  "is_digit8 c \<longleftrightarrow> 48 \<le> c \<and> c \<le> 57"

definition digits_value :: "8 word list \<Rightarrow> int" where
  "digits_value ds = foldl (\<lambda>v d. 10 * v + int (unat d) - 48) 0 ds"

definition clamp64 :: "int \<Rightarrow> 64 word" where
  "clamp64 i = word_of_int (max (- (2 ^ 63)) (min (2 ^ 63 - 1) i))"

definition atol :: "8 word list \<Rightarrow> 64 word" where
  "atol bytes =
     (let s = dropWhile is_blank8 (takeWhile (\<lambda>c. c \<noteq> 0) bytes) in
      case s of
        c # r \<Rightarrow>
          if c = 45 then clamp64 (- digits_value (takeWhile is_digit8 r))
          else if c = 43 then clamp64 (digits_value (takeWhile is_digit8 r))
          else clamp64 (digits_value (takeWhile is_digit8 s))
      | [] \<Rightarrow> 0)"

definition until_nul :: "8 word list \<Rightarrow> 8 word list" where
  "until_nul = takeWhile (\<lambda>c. c \<noteq> 0)"

fun atomic_boolean :: "'n xpath_env \<Rightarrow> bool \<Rightarrow> atomic \<Rightarrow> bool xres" where
  "atomic_boolean env cast (Boolean b) = Inr b"
| "atomic_boolean env cast a =
     (if \<not> cast then Inl WrongType
      else case a of
        Null \<Rightarrow> Inr False
      | Integer i \<Rightarrow> Inr (i \<noteq> 0)
      | Single f \<Rightarrow> Inr (\<not> fl_equal (x_single env) (fl_zero (x_single env)) f)
      | Double d \<Rightarrow> Inr (\<not> fl_equal (x_double env) (fl_zero (x_double env)) d)
      | Str s \<Rightarrow> Inr (s \<noteq> [])
      | _ \<Rightarrow> Inl NotImplemented)"

fun atomic_integer :: "'n xpath_env \<Rightarrow> bool \<Rightarrow> atomic \<Rightarrow> 64 word xres" where
  "atomic_integer env cast (Integer i) = Inr i"
| "atomic_integer env cast a =
     (if \<not> cast then Inl WrongType
      else case a of
        Null \<Rightarrow> Inr 0
      | Boolean b \<Rightarrow> Inr (if b then 1 else 0)
      | Single f \<Rightarrow> Inr (fl_to_int (x_single env) (fl_floor (x_single env) f))
      | Double d \<Rightarrow> Inr (fl_to_int (x_double env) (fl_floor (x_double env) d))
      | Str s \<Rightarrow> Inr (atol (x_toUtf8 env s))
      | _ \<Rightarrow> Inl NotImplemented)"

fun atomic_single :: "'n xpath_env \<Rightarrow> bool \<Rightarrow> atomic \<Rightarrow> 32 word xres" where
  "atomic_single env cast (Single f) = Inr f"
| "atomic_single env cast a =
     (if \<not> cast then Inl WrongType
      else case a of
        Null \<Rightarrow> Inr (fl_zero (x_single env))
      | Boolean b \<Rightarrow> Inr (if b then fl_one (x_single env) else fl_zero (x_single env))
      | Integer i \<Rightarrow> Inr (fl_of_int (x_single env) i)
      | Double d \<Rightarrow> Inr (x_narrow env d)
      | Str s \<Rightarrow> Inr (x_narrow env (x_atof env (until_nul (x_toUtf8 env s))))
      | _ \<Rightarrow> Inl NotImplemented)"

fun atomic_double :: "'n xpath_env \<Rightarrow> bool \<Rightarrow> atomic \<Rightarrow> 64 word xres" where
  "atomic_double env cast (Double d) = Inr d"
| "atomic_double env cast a =
     (if \<not> cast then Inl WrongType
      else case a of
        Null \<Rightarrow> Inr (fl_zero (x_double env))
      | Boolean b \<Rightarrow> Inr (if b then fl_one (x_double env) else fl_zero (x_double env))
      | Integer i \<Rightarrow> Inr (fl_of_int (x_double env) i)
      | Single f \<Rightarrow> Inr (x_widen env f)
      | Str s \<Rightarrow> Inr (x_atof env (until_nul (x_toUtf8 env s)))
      | _ \<Rightarrow> Inl NotImplemented)"

fun atomic_string :: "'n xpath_env \<Rightarrow> bool \<Rightarrow> atomic \<Rightarrow> qstring xres" where
  "atomic_string env cast (Str s) = Inr s"
| "atomic_string env cast a =
     (if \<not> cast then Inl WrongType
      else case a of
        Null \<Rightarrow> Inr (qs ''null'')
      | Boolean b \<Rightarrow> Inr (if b then qs ''true'' else qs ''false'')
      | Integer i \<Rightarrow> Inr (q_number (sint i))
      | Single f \<Rightarrow> Inr (fl_text (x_single env) f)
      | Double d \<Rightarrow> Inr (fl_text (x_double env) d)
      | _ \<Rightarrow> Inl NotImplemented)"

section \<open>Variants\<close>

fun getBooleanValue :: "'n xpath_env \<Rightarrow> bool \<Rightarrow> 'n variant \<Rightarrow> bool xres" where
  "getBooleanValue env cast (Atomic a) = atomic_boolean env cast a"
| "getBooleanValue env cast (Atomic_Set as) = (if cast then Inr (as \<noteq> []) else Inl WrongType)"
| "getBooleanValue env cast (Node_Set ns) = (if cast then Inr (ns \<noteq> []) else Inl WrongType)"

fun getIntegerValue :: "'n xpath_env \<Rightarrow> bool \<Rightarrow> 'n variant \<Rightarrow> 64 word xres" where
  "getIntegerValue env cast (Atomic a) = atomic_integer env cast a"
| "getIntegerValue env cast (Atomic_Set as) = (if cast then Inr (if as \<noteq> [] then 1 else 0) else Inl WrongType)"
| "getIntegerValue env cast (Node_Set ns) = (if cast then Inr (if ns \<noteq> [] then 1 else 0) else Inl WrongType)"

fun getSingleValue :: "'n xpath_env \<Rightarrow> bool \<Rightarrow> 'n variant \<Rightarrow> 32 word xres" where
  "getSingleValue env cast (Atomic a) = atomic_single env cast a"
| "getSingleValue env cast (Atomic_Set as) =
     (if cast then Inr (if as \<noteq> [] then fl_one (x_single env) else fl_zero (x_single env)) else Inl WrongType)"
| "getSingleValue env cast (Node_Set ns) =
     (if cast then Inr (if ns \<noteq> [] then fl_one (x_single env) else fl_zero (x_single env)) else Inl WrongType)"

definition node_to_string :: "'n xpath_env \<Rightarrow> 'n \<Rightarrow> qstring xres" where
  "node_to_string env node =
     (case nodeType (x_dom env) node of
        ElementNode \<Rightarrow> Inr (element_text (x_dom env) node)
      | AttributeNode \<Rightarrow> Inr (node_data (x_dom env) node)
      | TextNode \<Rightarrow> Inr (node_data (x_dom env) node)
      | CDATASectionNode \<Rightarrow> Inr (node_data (x_dom env) node)
      | ProcessingInstructionNode \<Rightarrow> Inr (node_data (x_dom env) node)
      | CommentNode \<Rightarrow> Inr (node_data (x_dom env) node)
      | DocumentNode \<Rightarrow>
          (case documentElement (x_dom env) node of None \<Rightarrow> Inr [] | Some element \<Rightarrow> Inr (element_text (x_dom env) element))
      | CharacterDataNode \<Rightarrow> Inr (node_data (x_dom env) node)
      | _ \<Rightarrow> Inl NotImplemented)"

fun getStringValue :: "'n xpath_env \<Rightarrow> bool \<Rightarrow> 'n variant \<Rightarrow> qstring xres" where
  "getStringValue env cast (Atomic a) = atomic_string env cast a"
| "getStringValue env cast (Atomic_Set as) = (if cast then Inl NotImplemented else Inl WrongType)"
| "getStringValue env cast (Node_Set ns) =
     (if cast then case ns of [] \<Rightarrow> Inr [] | n # _ \<Rightarrow> node_to_string env n else Inl WrongType)"

fun getDoubleValue :: "'n xpath_env \<Rightarrow> bool \<Rightarrow> 'n variant \<Rightarrow> 64 word xres" where
  "getDoubleValue env cast (Atomic a) = atomic_double env cast a"
| "getDoubleValue env cast (Atomic_Set as) =
     (if cast then Inr (if as \<noteq> [] then fl_one (x_double env) else fl_zero (x_double env)) else Inl WrongType)"
| "getDoubleValue env cast (Node_Set ns) =
     (if cast then mapE (\<lambda>s. x_atof env (until_nul (x_toUtf8 env s))) (getStringValue env True (Node_Set ns)) else Inl WrongType)"

fun getSetValue :: "bool \<Rightarrow> 'n variant \<Rightarrow> atomic list xres" where
  "getSetValue cast (Atomic_Set as) = Inr as"
| "getSetValue cast (Atomic a) =
     (if \<not> cast then Inl WrongType
      else case a of Null \<Rightarrow> Inr [] | End_Of_Arguments \<Rightarrow> Inl NotImplemented | _ \<Rightarrow> Inr [a])"
| "getSetValue cast (Node_Set ns) = (if cast then Inl NotImplemented else Inl WrongType)"

fun getNodeSetValue :: "'n variant \<Rightarrow> 'n list xres" where
  "getNodeSetValue (Node_Set ns) = Inr ns"
| "getNodeSetValue (Atomic a) = Inl WrongType"
| "getNodeSetValue (Atomic_Set as) = Inl WrongType"

end
