(* ===== verification/Xpath_Machine.thy ===== *)
theory Xpath_Machine
  imports Xpath_Value "HOL-Library.Signed_Division"
begin

text \<open>
  The stack machine of the XPath engine (\<open>qdomxpath.cpp\<close>): one definition per instruction, the table of the instructions and the loop
  that executes a program.  A program is a list of bytes.  The vectors \<open>f_stack\<close> and \<open>f_contexts\<close>, which grow at their end,
  are lists that begin with their last element.  The vector of functions is the current function and its callers.  The operands of
  \<open>|\<close> are evaluated from the left, as the compilers in use do.  The test of \<open>QDOM_XPATH_VERIFICATION\<close> that an instruction is at its place
  in the table holds by the way the table is written here.
\<close>

section \<open>The state\<close>

type_synonym program = "8 word list"

record 'n context_t =
  f_position :: int
  f_nodes :: "'n list"
  f_result :: "'n list"

record 'n function_t =
  f_pc :: nat
  f_stack :: "'n variant list"
  f_contexts :: "'n context_t list"
  f_variables :: "qstring \<rightharpoonup> 'n variant"

record 'n machine =
  f_back :: "'n function_t"
  f_callers :: "'n function_t list"

type_synonym 'n instruction = "'n machine \<Rightarrow> 'n machine xres"

definition new_context :: "'n context_t" where
  "new_context = \<lparr>f_position = - 1, f_nodes = [], f_result = []\<rparr>"

definition set_pc :: "nat \<Rightarrow> 'n machine \<Rightarrow> 'n machine" where
  "set_pc pc m = m\<lparr>f_back := (f_back m)\<lparr>f_pc := pc\<rparr>\<rparr>"

definition set_stack :: "'n variant list \<Rightarrow> 'n machine \<Rightarrow> 'n machine" where
  "set_stack st m = m\<lparr>f_back := (f_back m)\<lparr>f_stack := st\<rparr>\<rparr>"

definition set_contexts :: "'n context_t list \<Rightarrow> 'n machine \<Rightarrow> 'n machine" where
  "set_contexts cs m = m\<lparr>f_back := (f_back m)\<lparr>f_contexts := cs\<rparr>\<rparr>"

definition set_variables :: "(qstring \<rightharpoonup> 'n variant) \<Rightarrow> 'n machine \<Rightarrow> 'n machine" where
  "set_variables vs m = m\<lparr>f_back := (f_back m)\<lparr>f_variables := vs\<rparr>\<rparr>"

abbreviation pc_of :: "'n machine \<Rightarrow> nat" where "pc_of m \<equiv> f_pc (f_back m)"
abbreviation stack_of :: "'n machine \<Rightarrow> 'n variant list" where "stack_of m \<equiv> f_stack (f_back m)"
abbreviation contexts_of :: "'n machine \<Rightarrow> 'n context_t list" where "contexts_of m \<equiv> f_contexts (f_back m)"
abbreviation variables_of :: "'n machine \<Rightarrow> qstring \<rightharpoonup> 'n variant" where "variables_of m \<equiv> f_variables (f_back m)"

lemmas machine_simps = set_pc_def set_stack_def set_contexts_def set_variables_def

definition push :: "'n variant \<Rightarrow> 'n machine \<Rightarrow> 'n machine" where
  "push v m = set_stack (v # stack_of m) m"

definition pushA :: "atomic \<Rightarrow> 'n machine \<Rightarrow> 'n machine xres" where
  "pushA a m = Inr (push (Atomic a) m)"

section \<open>Access to the program and the stacks\<close>

definition get_next_program_byte :: "program \<Rightarrow> 'n machine \<Rightarrow> (8 word \<times> 'n machine) xres" where
  "get_next_program_byte p m =
     (if pc_of m \<ge> length p then Inl InternalError else Inr (p ! pc_of m, set_pc (Suc (pc_of m)) m))"

text \<open>The next bytes as a number, the first one the most significant one.\<close>

fun get_next_number :: "nat \<Rightarrow> program \<Rightarrow> nat \<Rightarrow> 'n machine \<Rightarrow> (nat \<times> 'n machine) xres" where
  "get_next_number 0 p acc m = Inr (acc, m)"
| "get_next_number (Suc n) p acc m =
     bindE (get_next_program_byte p m) (\<lambda>(b, m). get_next_number n p (256 * acc + unat b) m)"

definition stack_not_empty :: "type_t \<Rightarrow> 'n machine \<Rightarrow> unit xres" where
  "stack_not_empty type m =
     (case stack_of m of
        [] \<Rightarrow> Inl InternalError
      | v # _ \<Rightarrow> if type \<noteq> TYPE_UNDEFINED \<and> getType v \<noteq> type then Inl WrongType else Inr ())"

definition contexts_not_empty :: "'n machine \<Rightarrow> unit xres" where
  "contexts_not_empty m = (if contexts_of m = [] then Inl InternalError else Inr ())"

definition pop_variant_data :: "'n machine \<Rightarrow> ('n variant \<times> 'n machine) xres" where
  "pop_variant_data m = (case stack_of m of [] \<Rightarrow> Inl InternalError | v # st \<Rightarrow> Inr (v, set_stack st m))"

text \<open>\<open>f_contexts.back()\<close> where the code does not test that there is one.\<close>

definition back_context :: "'n machine \<Rightarrow> 'n context_t xres" where
  "back_context m = (case contexts_of m of [] \<Rightarrow> Inl Read_Outside | c # _ \<Rightarrow> Inr c)"

definition put_context :: "'n context_t \<Rightarrow> 'n machine \<Rightarrow> 'n machine" where
  "put_context c m = set_contexts (c # tl (contexts_of m)) m"

text \<open>\<open>f_nodes[f_position]\<close>.\<close>

definition current_node :: "'n context_t \<Rightarrow> 'n xres" where
  "current_node c =
     (if 0 \<le> f_position c \<and> nat (f_position c) < length (f_nodes c) then Inr (f_nodes c ! nat (f_position c)) else Inl Read_Outside)"

section \<open>Calls and variables\<close>

definition inst_undefined_instruction :: "'n instruction" where
  "inst_undefined_instruction m = Inl UndefinedInstructionError"

definition inst_end :: "'n instruction" where
  "inst_end m = Inl InternalError"

text \<open>The arguments of a call, the last one first, up to the mark that ends them.\<close>

fun pop_arguments :: "'n variant list \<Rightarrow> ('n variant list \<times> 'n variant list) xres" where
  "pop_arguments [] = Inl InternalError"
| "pop_arguments (v # st) =
     (if getType v = TYPE_END_OF_ARGUMENTS then Inr ([], st)
      else mapE (\<lambda>(args, st). (v # args, st)) (pop_arguments st))"

definition func_default_to_context_node :: "'n machine \<Rightarrow> 'n variant list \<Rightarrow> 'n variant list xres" where
  "func_default_to_context_node m arguments =
     (if arguments = [] then
        bindE (back_context m) (\<lambda>c.
          if f_position c = - 1 then Inl EmptyContext else mapE (\<lambda>n. [Node_Set [n]]) (current_node c))
      else Inr arguments)"

text \<open>The sum of the nodes of a set, each one as a number.\<close>

fun add_nodes :: "'n xpath_env \<Rightarrow> 'n list \<Rightarrow> nat \<times> 64 word \<Rightarrow> (nat \<times> 64 word) xres" where
  "add_nodes env [] s = Inr s"
| "add_nodes env (n # ns) (count, dsum) =
     bindE (node_to_string env n)
       (\<lambda>str. add_nodes env ns (count + 1, fl_add (x_double env) dsum (x_atof env (until_nul (x_toUtf8 env str)))))"

record sums =
  s_integer :: bool
  s_isum :: "64 word"
  s_count :: nat
  s_dsum :: "64 word"

definition sum_argument :: "'n xpath_env \<Rightarrow> 'n variant \<Rightarrow> sums \<Rightarrow> sums xres" where
  "sum_argument env arg s =
     (if getType arg = TYPE_INTEGER \<and> s_integer s then
        bindE (getIntegerValue env False arg) (\<lambda>i.
          Inr (s\<lparr>s_isum := s_isum s + i, s_dsum := fl_of_int (x_double env) (s_isum s + i), s_count := s_count s + 1\<rparr>))
      else if getType arg \<in> {TYPE_INTEGER, TYPE_SINGLE, TYPE_DOUBLE} then
        bindE (getDoubleValue env True arg) (\<lambda>d.
          Inr (s\<lparr>s_integer := False, s_dsum := fl_add (x_double env) (s_dsum s) d, s_count := s_count s + 1\<rparr>))
      else if getType arg = TYPE_NODE_SET then
        bindE (getNodeSetValue arg) (\<lambda>ns. bindE (add_nodes env ns (s_count s, s_dsum s)) (\<lambda>(count, dsum).
          Inr (s\<lparr>s_integer := False, s_dsum := dsum, s_count := count\<rparr>)))
      else Inl WrongType)"

fun sum_arguments :: "'n xpath_env \<Rightarrow> 'n variant list \<Rightarrow> sums \<Rightarrow> sums xres" where
  "sum_arguments env [] s = Inr s"
| "sum_arguments env (arg # args) s = bindE (sum_argument env arg s) (sum_arguments env args)"

definition func_calculate_sum_or_average :: "'n xpath_env \<Rightarrow> 'n variant list \<Rightarrow> bool \<Rightarrow> 'n instruction" where
  "func_calculate_sum_or_average env arguments sum_only m =
     bindE (func_default_to_context_node m arguments) (\<lambda>arguments.
     bindE (sum_arguments env arguments \<lparr>s_integer = True, s_isum = 0, s_count = 0, s_dsum = fl_zero (x_double env)\<rparr>) (\<lambda>s.
       if s_integer s \<and> sum_only then pushA (Integer (s_isum s)) m
       else if \<not> sum_only \<and> s_count s > 0 then
         pushA (Double (fl_div (x_double env) (s_dsum s) (fl_of_int (x_double env) (word_of_nat (s_count s))))) m
       else pushA (Double (s_dsum s)) m))"

record extreme =
  e_integer :: bool
  e_first :: bool
  e_iresult :: "64 word"
  e_dresult :: "64 word"

text \<open>The test \<open>v > dresult ^ min || first\<close>, where \<open>^\<close> binds less than \<open>>\<close>.\<close>

definition extreme_double :: "'n xpath_env \<Rightarrow> bool \<Rightarrow> 64 word \<Rightarrow> extreme \<Rightarrow> extreme" where
  "extreme_double env lo v s =
     (if fl_less (x_double env) (e_dresult s) v \<noteq> lo \<or> e_first s then s\<lparr>e_dresult := v, e_first := False\<rparr> else s)"

fun extreme_nodes :: "'n xpath_env \<Rightarrow> bool \<Rightarrow> 'n list \<Rightarrow> extreme \<Rightarrow> extreme xres" where
  "extreme_nodes env lo [] s = Inr s"
| "extreme_nodes env lo (n # ns) s =
     bindE (node_to_string env n)
       (\<lambda>str. extreme_nodes env lo ns (extreme_double env lo (x_atof env (until_nul (x_toUtf8 env str))) s))"

definition extreme_argument :: "'n xpath_env \<Rightarrow> bool \<Rightarrow> 'n variant \<Rightarrow> extreme \<Rightarrow> extreme xres" where
  "extreme_argument env lo arg s =
     (if getType arg = TYPE_INTEGER \<and> e_integer s then
        bindE (getIntegerValue env False arg) (\<lambda>v.
          let s = (if (sint (e_iresult s) < sint v) \<noteq> lo \<or> e_first s then s\<lparr>e_iresult := v, e_first := False\<rparr> else s)
          in Inr (s\<lparr>e_dresult := fl_of_int (x_double env) (e_iresult s)\<rparr>))
      else if getType arg \<in> {TYPE_INTEGER, TYPE_SINGLE, TYPE_DOUBLE} then
        bindE (getDoubleValue env True arg) (\<lambda>v. Inr (extreme_double env lo v (s\<lparr>e_integer := False\<rparr>)))
      else if getType arg = TYPE_NODE_SET then
        bindE (getNodeSetValue arg) (\<lambda>ns. extreme_nodes env lo ns (s\<lparr>e_integer := False\<rparr>))
      else Inl WrongType)"

fun extreme_arguments :: "'n xpath_env \<Rightarrow> bool \<Rightarrow> 'n variant list \<Rightarrow> extreme \<Rightarrow> extreme xres" where
  "extreme_arguments env lo [] s = Inr s"
| "extreme_arguments env lo (arg # args) s = bindE (extreme_argument env lo arg s) (extreme_arguments env lo args)"

definition func_calculate_min_or_max :: "'n xpath_env \<Rightarrow> 'n variant list \<Rightarrow> bool \<Rightarrow> 'n instruction" where
  "func_calculate_min_or_max env arguments lo m =
     bindE (func_default_to_context_node m arguments) (\<lambda>arguments.
     bindE (extreme_arguments env lo arguments \<lparr>e_integer = True, e_first = True, e_iresult = 0, e_dresult = fl_zero (x_double env)\<rparr>) (\<lambda>s.
       if e_integer s then pushA (Integer (e_iresult s)) m else pushA (Double (e_dresult s)) m))"

datatype internal_func = FUNC_UNKNOWN | FUNC_AVG | FUNC_MIN | FUNC_MAX | FUNC_SUM

fun func_number :: "internal_func \<Rightarrow> 64 word" where
  "func_number FUNC_UNKNOWN = 0"
| "func_number FUNC_AVG = 1"
| "func_number FUNC_MIN = 2"
| "func_number FUNC_MAX = 3"
| "func_number FUNC_SUM = 4"

definition inst_call :: "'n xpath_env \<Rightarrow> 'n instruction" where
  "inst_call env m =
     bindE (pop_variant_data m) (\<lambda>(function_number, m).
       if getType function_number \<noteq> TYPE_INTEGER then Inl InternalError
       else bindE (pop_arguments (stack_of m)) (\<lambda>(arguments, st).
         let m = set_stack st m in
         bindE (getIntegerValue env False function_number) (\<lambda>f.
           if f = func_number FUNC_AVG then func_calculate_sum_or_average env arguments False m
           else if f = func_number FUNC_MAX then func_calculate_min_or_max env arguments False m
           else if f = func_number FUNC_MIN then func_calculate_min_or_max env arguments True m
           else if f = func_number FUNC_SUM then func_calculate_sum_or_average env arguments True m
           else Inl NotImplemented)))"

definition inst_return :: "'n instruction" where
  "inst_return m =
     (case f_callers m of
        [] \<Rightarrow> Inl InternalError
      | caller # callers \<Rightarrow>
          bindE (pop_variant_data m) (\<lambda>(return_value, _). Inr (push return_value \<lparr>f_back = caller, f_callers = callers\<rparr>)))"

definition inst_get_variable :: "'n xpath_env \<Rightarrow> 'n instruction" where
  "inst_get_variable env m =
     bindE (pop_variant_data m) (\<lambda>(variable, m).
     bindE (getStringValue env False variable) (\<lambda>variable_name.
       case variables_of m variable_name of
         Some v \<Rightarrow> Inr (push v m)
       | None \<Rightarrow> (case x_bound env variable_name of
           None \<Rightarrow> Inl UndefinedVariable
         | Some s \<Rightarrow> pushA (Str s) m)))"

definition inst_set_variable :: "'n xpath_env \<Rightarrow> 'n instruction" where
  "inst_set_variable env m =
     bindE (pop_variant_data m) (\<lambda>(variable, m).
     bindE (getStringValue env False variable) (\<lambda>variable_name.
     bindE (pop_variant_data m) (\<lambda>(v, m). Inr (set_variables ((variables_of m)(variable_name \<mapsto> v)) m))))"

text \<open>The size of a large function is an \<open>int\<close>, which is added to an unsigned number.\<close>

definition skip_bytes :: "nat \<Rightarrow> 'n machine \<Rightarrow> 'n machine" where
  "skip_bytes n m = set_pc ((pc_of m + n) mod 2 ^ 32) m"

definition inst_small_function :: "program \<Rightarrow> 'n instruction" where
  "inst_small_function p m = bindE (get_next_number 2 p 0 m) (\<lambda>(n, m). Inr (skip_bytes n m))"

definition inst_large_function :: "program \<Rightarrow> 'n instruction" where
  "inst_large_function p m = bindE (get_next_number 4 p 0 m) (\<lambda>(n, m). Inr (skip_bytes n m))"

section \<open>Jumps\<close>

definition to_pc :: "64 word \<Rightarrow> nat" where
  "to_pc w = unat w mod 2 ^ 32"

definition inst_jump :: "'n xpath_env \<Rightarrow> 'n instruction" where
  "inst_jump env m =
     bindE (pop_variant_data m) (\<lambda>(pc, m). bindE (getIntegerValue env False pc) (\<lambda>i. Inr (set_pc (to_pc i) m)))"

definition inst_jump_if_true :: "'n xpath_env \<Rightarrow> 'n instruction" where
  "inst_jump_if_true env m =
     bindE (pop_variant_data m) (\<lambda>(pc, m).
     bindE (pop_variant_data m) (\<lambda>(boolean, m).
     bindE (getBooleanValue env False boolean) (\<lambda>b.
       if b then bindE (getIntegerValue env False pc) (\<lambda>i. Inr (set_pc (to_pc i) m)) else Inr m)))"

definition inst_jump_if_false :: "'n xpath_env \<Rightarrow> 'n instruction" where
  "inst_jump_if_false env m =
     bindE (pop_variant_data m) (\<lambda>(pc, m).
     bindE (pop_variant_data m) (\<lambda>(boolean, m).
     bindE (getBooleanValue env False boolean) (\<lambda>b.
       if \<not> b then bindE (getIntegerValue env False pc) (\<lambda>i. Inr (set_pc (to_pc i) m)) else Inr m)))"

definition inst_jump_if_zero :: "'n xpath_env \<Rightarrow> 'n instruction" where
  "inst_jump_if_zero env m =
     bindE (pop_variant_data m) (\<lambda>(pc, m).
     bindE (pop_variant_data m) (\<lambda>(object, m).
     bindE (getIntegerValue env True object) (\<lambda>z.
       if z = 0 then bindE (getIntegerValue env False pc) (\<lambda>i. Inr (set_pc (to_pc i) m)) else Inr m)))"

section \<open>The stack\<close>

definition remove_nth :: "nat \<Rightarrow> 'a list \<Rightarrow> 'a list" where
  "remove_nth k xs = take k xs @ drop (Suc k) xs"

definition swap_nth :: "nat \<Rightarrow> nat \<Rightarrow> 'a list \<Rightarrow> 'a list" where
  "swap_nth i j xs = xs[i := xs ! j, j := xs ! i]"

definition inst_pop1 :: "'n instruction" where
  "inst_pop1 m = (if length (stack_of m) < 1 then Inl EmptyStack else Inr (set_stack (remove_nth 0 (stack_of m)) m))"

definition inst_pop2 :: "'n instruction" where
  "inst_pop2 m = (if length (stack_of m) < 2 then Inl EmptyStack else Inr (set_stack (remove_nth 1 (stack_of m)) m))"

definition inst_pop3 :: "'n instruction" where
  "inst_pop3 m = (if length (stack_of m) < 3 then Inl EmptyStack else Inr (set_stack (remove_nth 2 (stack_of m)) m))"

definition inst_pop4 :: "'n instruction" where
  "inst_pop4 m = (if length (stack_of m) < 4 then Inl EmptyStack else Inr (set_stack (remove_nth 3 (stack_of m)) m))"

definition inst_pop5 :: "'n instruction" where
  "inst_pop5 m = (if length (stack_of m) < 5 then Inl EmptyStack else Inr (set_stack (remove_nth 4 (stack_of m)) m))"

definition inst_duplicate1 :: "'n instruction" where
  "inst_duplicate1 m = (if length (stack_of m) = 0 then Inl EmptyStack else Inr (push (stack_of m ! 0) m))"

definition inst_duplicate2 :: "'n instruction" where
  "inst_duplicate2 m = (if length (stack_of m) \<le> 1 then Inl EmptyStack else Inr (push (stack_of m ! 1) m))"

definition inst_duplicate3 :: "'n instruction" where
  "inst_duplicate3 m = (if length (stack_of m) \<le> 2 then Inl EmptyStack else Inr (push (stack_of m ! 2) m))"

definition inst_duplicate4 :: "'n instruction" where
  "inst_duplicate4 m = (if length (stack_of m) \<le> 3 then Inl EmptyStack else Inr (push (stack_of m ! 3) m))"

definition inst_duplicate5 :: "'n instruction" where
  "inst_duplicate5 m = (if length (stack_of m) \<le> 4 then Inl EmptyStack else Inr (push (stack_of m ! 4) m))"

definition inst_swap1 :: "'n instruction" where
  "inst_swap1 m = (if length (stack_of m) < 2 then Inl EmptyStack else Inr (set_stack (swap_nth 1 0 (stack_of m)) m))"

definition inst_swap2 :: "'n instruction" where
  "inst_swap2 m = (if length (stack_of m) < 3 then Inl EmptyStack else Inr (set_stack (swap_nth 2 0 (stack_of m)) m))"

definition inst_swap3 :: "'n instruction" where
  "inst_swap3 m = (if length (stack_of m) < 4 then Inl EmptyStack else Inr (set_stack (swap_nth 3 0 (stack_of m)) m))"

definition inst_swap4 :: "'n instruction" where
  "inst_swap4 m = (if length (stack_of m) < 5 then Inl EmptyStack else Inr (set_stack (swap_nth 4 0 (stack_of m)) m))"

definition inst_swap5 :: "'n instruction" where
  "inst_swap5 m = (if length (stack_of m) < 6 then Inl EmptyStack else Inr (set_stack (swap_nth 5 0 (stack_of m)) m))"

definition inst_swap2_3 :: "'n instruction" where
  "inst_swap2_3 m = (if length (stack_of m) < 3 then Inl EmptyStack else Inr (set_stack (swap_nth 2 1 (stack_of m)) m))"

section \<open>Constants\<close>

definition inst_push_end_of_arguments :: "'n instruction" where
  "inst_push_end_of_arguments m = Inr (push (Atomic End_Of_Arguments) m)"

definition inst_push_empty_node_set :: "'n instruction" where
  "inst_push_empty_node_set m = Inr (push (Node_Set []) m)"

definition inst_push_empty_set :: "'n instruction" where
  "inst_push_empty_set m = Inr (push (Atomic_Set []) m)"

definition inst_push_empty_string :: "'n instruction" where
  "inst_push_empty_string m = Inr (push (Atomic (Str [])) m)"

definition inst_push_any_string :: "'n instruction" where
  "inst_push_any_string m = Inr (push (Atomic (Str (qs ''*''))) m)"

text \<open>A string of the program; a negative length would read up to the next NUL, beyond the string.\<close>

definition push_program_string :: "'n xpath_env \<Rightarrow> program \<Rightarrow> int \<Rightarrow> 'n instruction" where
  "push_program_string env p n m =
     (if n < 0 \<or> pc_of m + nat n > length p then Inl Read_Outside
      else Inr (push (Atomic (Str (x_fromUtf8 env (take (nat n) (drop (pc_of m) p))))) (set_pc (pc_of m + nat n) m)))"

definition inst_push_small_string :: "'n xpath_env \<Rightarrow> program \<Rightarrow> 'n instruction" where
  "inst_push_small_string env p m = bindE (get_next_program_byte p m) (\<lambda>(b, m). push_program_string env p (int (unat b)) m)"

definition inst_push_medium_string :: "'n xpath_env \<Rightarrow> program \<Rightarrow> 'n instruction" where
  "inst_push_medium_string env p m = bindE (get_next_number 2 p 0 m) (\<lambda>(n, m). push_program_string env p (int n) m)"

definition inst_push_large_string :: "'n xpath_env \<Rightarrow> program \<Rightarrow> 'n instruction" where
  "inst_push_large_string env p m =
     bindE (get_next_number 4 p 0 m) (\<lambda>(n, m). push_program_string env p (sint (word_of_nat n :: 32 word)) m)"

definition inst_push_zero :: "'n instruction" where
  "inst_push_zero m = pushA (Integer 0) m"

definition inst_push_true :: "'n instruction" where
  "inst_push_true m = pushA (Boolean True) m"

definition inst_push_false :: "'n instruction" where
  "inst_push_false m = pushA (Boolean False) m"

definition inst_push_byte :: "program \<Rightarrow> 'n instruction" where
  "inst_push_byte p m = bindE (get_next_program_byte p m) (\<lambda>(b, m). pushA (Integer (ucast b)) m)"

definition inst_push_negative_byte :: "program \<Rightarrow> 'n instruction" where
  "inst_push_negative_byte p m =
     bindE (get_next_program_byte p m) (\<lambda>(b, m). pushA (Integer (ucast b OR 0xFFFFFFFFFFFFFF00)) m)"

definition inst_push_short :: "program \<Rightarrow> 'n instruction" where
  "inst_push_short p m = bindE (get_next_number 2 p 0 m) (\<lambda>(n, m). pushA (Integer (word_of_nat n)) m)"

definition inst_push_negative_short :: "program \<Rightarrow> 'n instruction" where
  "inst_push_negative_short p m =
     bindE (get_next_number 2 p 0 m) (\<lambda>(n, m). pushA (Integer (word_of_nat n OR 0xFFFFFFFFFFFF0000)) m)"

definition inst_push_long :: "program \<Rightarrow> 'n instruction" where
  "inst_push_long p m = bindE (get_next_number 4 p 0 m) (\<lambda>(n, m). pushA (Integer (word_of_nat n)) m)"

definition inst_push_negative_long :: "program \<Rightarrow> 'n instruction" where
  "inst_push_negative_long p m =
     bindE (get_next_number 4 p 0 m) (\<lambda>(n, m). pushA (Integer (word_of_nat n OR 0xFFFFFFFF00000000)) m)"

definition inst_push_longlong :: "program \<Rightarrow> 'n instruction" where
  "inst_push_longlong p m = bindE (get_next_number 8 p 0 m) (\<lambda>(n, m). pushA (Integer (word_of_nat n)) m)"

definition inst_push_double :: "program \<Rightarrow> 'n instruction" where
  "inst_push_double p m = bindE (get_next_number 8 p 0 m) (\<lambda>(n, m). pushA (Double (word_of_nat n)) m)"

definition inst_push_double_zero :: "'n xpath_env \<Rightarrow> 'n instruction" where
  "inst_push_double_zero env m = pushA (Double (fl_zero (x_double env))) m"

section \<open>Operators of one operand\<close>

definition inst_increment :: "'n xpath_env \<Rightarrow> 'n instruction" where
  "inst_increment env m =
     bindE (pop_variant_data m) (\<lambda>(v, m).
       case v of
         Atomic (Integer i) \<Rightarrow> pushA (Integer (i + 1)) m
       | Atomic (Single f) \<Rightarrow> pushA (Single (fl_add (x_single env) f (fl_one (x_single env)))) m
       | Atomic (Double d) \<Rightarrow> pushA (Double (fl_add (x_double env) d (fl_one (x_double env)))) m
       | _ \<Rightarrow> Inl WrongType)"

definition inst_decrement :: "'n xpath_env \<Rightarrow> 'n instruction" where
  "inst_decrement env m =
     bindE (pop_variant_data m) (\<lambda>(v, m).
       case v of
         Atomic (Integer i) \<Rightarrow> pushA (Integer (i + 1)) m
       | Atomic (Single f) \<Rightarrow> pushA (Single (fl_add (x_single env) f (fl_one (x_single env)))) m
       | Atomic (Double d) \<Rightarrow> pushA (Double (fl_add (x_double env) d (fl_one (x_double env)))) m
       | _ \<Rightarrow> Inl WrongType)"

definition inst_string_length :: "'n xpath_env \<Rightarrow> 'n instruction" where
  "inst_string_length env m =
     bindE (pop_variant_data m) (\<lambda>(v, m).
       case v of Atomic (Str s) \<Rightarrow> pushA (Integer (word_of_nat (length s))) m | _ \<Rightarrow> Inl WrongType)"

definition inst_ceiling :: "'n xpath_env \<Rightarrow> 'n instruction" where
  "inst_ceiling env m =
     bindE (pop_variant_data m) (\<lambda>(v, m).
       case v of
         Atomic (Integer i) \<Rightarrow> pushA (Integer i) m
       | Atomic (Single f) \<Rightarrow> pushA (Single (fl_ceil (x_single env) f)) m
       | Atomic (Double d) \<Rightarrow> pushA (Double (fl_ceil (x_double env) d)) m
       | _ \<Rightarrow> Inl WrongType)"

definition inst_floor :: "'n xpath_env \<Rightarrow> 'n instruction" where
  "inst_floor env m =
     bindE (pop_variant_data m) (\<lambda>(v, m).
       case v of
         Atomic (Integer i) \<Rightarrow> pushA (Integer i) m
       | Atomic (Single f) \<Rightarrow> pushA (Single (fl_floor (x_single env) f)) m
       | Atomic (Double d) \<Rightarrow> pushA (Double (fl_floor (x_double env) d)) m
       | _ \<Rightarrow> Inl WrongType)"

definition inst_round :: "'n xpath_env \<Rightarrow> 'n instruction" where
  "inst_round env m =
     bindE (pop_variant_data m) (\<lambda>(v, m).
       case v of
         Atomic (Integer i) \<Rightarrow> pushA (Integer i) m
       | Atomic (Single f) \<Rightarrow> pushA (Single (fl_floor (x_single env) (fl_add (x_single env) f (fl_half (x_single env))))) m
       | Atomic (Double d) \<Rightarrow> pushA (Double (fl_floor (x_double env) (fl_add (x_double env) d (fl_half (x_double env))))) m
       | _ \<Rightarrow> Inl WrongType)"

definition inst_negate :: "'n xpath_env \<Rightarrow> 'n instruction" where
  "inst_negate env m =
     bindE (pop_variant_data m) (\<lambda>(v, m).
       case v of
         Atomic (Integer i) \<Rightarrow> pushA (Integer (- i)) m
       | Atomic (Single f) \<Rightarrow> pushA (Single (fl_neg (x_single env) f)) m
       | Atomic (Double d) \<Rightarrow> pushA (Double (fl_neg (x_double env) d)) m
       | _ \<Rightarrow> Inl WrongType)"

definition inst_not :: "'n xpath_env \<Rightarrow> 'n instruction" where
  "inst_not env m =
     bindE (pop_variant_data m) (\<lambda>(v, m).
       case v of Atomic (Boolean b) \<Rightarrow> pushA (Boolean (\<not> b)) m | _ \<Rightarrow> Inl WrongType)"

section \<open>Operators of two operands\<close>

definition pop_operands :: "'n machine \<Rightarrow> ('n variant \<times> 'n variant \<times> 'n machine) xres" where
  "pop_operands m = bindE (pop_variant_data m) (\<lambda>(rhs, m). bindE (pop_variant_data m) (\<lambda>(lhs, m). Inr (lhs, rhs, m)))"

text \<open>The cases of the switches on \<open>merge_types()\<close> that the operators share.\<close>

datatype numbers = Integers | Singles | Doubles

fun number_types :: "type_t \<Rightarrow> type_t \<Rightarrow> numbers option" where
  "number_types TYPE_INTEGER TYPE_INTEGER = Some Integers"
| "number_types TYPE_SINGLE TYPE_INTEGER = Some Singles"
| "number_types TYPE_INTEGER TYPE_SINGLE = Some Singles"
| "number_types TYPE_SINGLE TYPE_SINGLE = Some Singles"
| "number_types TYPE_DOUBLE TYPE_INTEGER = Some Doubles"
| "number_types TYPE_INTEGER TYPE_DOUBLE = Some Doubles"
| "number_types TYPE_SINGLE TYPE_DOUBLE = Some Doubles"
| "number_types TYPE_DOUBLE TYPE_SINGLE = Some Doubles"
| "number_types TYPE_DOUBLE TYPE_DOUBLE = Some Doubles"
| "number_types _ _ = None"

definition on_numbers ::
  "'n xpath_env \<Rightarrow> (64 word \<Rightarrow> 64 word \<Rightarrow> atomic xres) \<Rightarrow> (32 word \<Rightarrow> 32 word \<Rightarrow> atomic xres) \<Rightarrow> (64 word \<Rightarrow> 64 word \<Rightarrow> atomic xres)
   \<Rightarrow> 'n variant \<Rightarrow> 'n variant \<Rightarrow> atomic xres" where
  "on_numbers env fi fs fd lhs rhs =
     (case number_types (getType lhs) (getType rhs) of
        Some Integers \<Rightarrow> bindE (getIntegerValue env False lhs) (\<lambda>a. bindE (getIntegerValue env False rhs) (\<lambda>b. fi a b))
      | Some Singles \<Rightarrow> bindE (getSingleValue env True lhs) (\<lambda>a. bindE (getSingleValue env True rhs) (\<lambda>b. fs a b))
      | Some Doubles \<Rightarrow> bindE (getDoubleValue env True lhs) (\<lambda>a. bindE (getDoubleValue env True rhs) (\<lambda>b. fd a b))
      | None \<Rightarrow> Inl WrongType)"

definition binary :: "('n variant \<Rightarrow> 'n variant \<Rightarrow> atomic xres) \<Rightarrow> 'n instruction" where
  "binary f m = bindE (pop_operands m) (\<lambda>(lhs, rhs, m). bindE (f lhs rhs) (\<lambda>a. pushA a m))"

definition inst_add :: "'n xpath_env \<Rightarrow> 'n instruction" where
  "inst_add env = binary (on_numbers env (\<lambda>a b. Inr (Integer (a + b)))
     (\<lambda>a b. Inr (Single (fl_add (x_single env) a b))) (\<lambda>a b. Inr (Double (fl_add (x_double env) a b))))"

definition inst_subtract :: "'n xpath_env \<Rightarrow> 'n instruction" where
  "inst_subtract env = binary (on_numbers env (\<lambda>a b. Inr (Integer (a - b)))
     (\<lambda>a b. Inr (Single (fl_sub (x_single env) a b))) (\<lambda>a b. Inr (Double (fl_sub (x_double env) a b))))"

definition inst_multiply :: "'n xpath_env \<Rightarrow> 'n instruction" where
  "inst_multiply env = binary (on_numbers env (\<lambda>a b. Inr (Integer (a * b)))
     (\<lambda>a b. Inr (Single (fl_mul (x_single env) a b))) (\<lambda>a b. Inr (Double (fl_mul (x_double env) a b))))"

definition inst_divide :: "'n xpath_env \<Rightarrow> 'n instruction" where
  "inst_divide env = binary (on_numbers env
     (\<lambda>a b. Inr (Double (fl_div (x_double env) (fl_of_int (x_double env) a) (fl_of_int (x_double env) b))))
     (\<lambda>a b. Inr (Single (fl_div (x_single env) a b))) (\<lambda>a b. Inr (Double (fl_div (x_double env) a b))))"

text \<open>The division of two \<open>int64_t\<close>, which traps when the quotient does not exist or does not fit.\<close>

definition int_division :: "(int \<Rightarrow> int \<Rightarrow> int) \<Rightarrow> 64 word \<Rightarrow> 64 word \<Rightarrow> atomic xres" where
  "int_division f a b =
     (if b = 0 \<or> (sint a = - (2 ^ 63) \<and> sint b = - 1) then Inl Division_Trap else Inr (Integer (word_of_int (f (sint a) (sint b)))))"

definition inst_idivide :: "'n xpath_env \<Rightarrow> 'n instruction" where
  "inst_idivide env m =
     bindE (pop_variant_data m) (\<lambda>(rhs, m).
     bindE (getIntegerValue env True rhs) (\<lambda>right_value.
       if right_value = 0 then Inl DivisionByZero
       else bindE (pop_variant_data m) (\<lambda>(lhs, m).
         if number_types (getType lhs) (getType rhs) = None then Inl WrongType
         else bindE (getIntegerValue env True lhs) (\<lambda>left_value.
           bindE (int_division (\<lambda>x y. x sdiv y) left_value right_value) (\<lambda>a. pushA a m)))))"

definition inst_modulo :: "'n xpath_env \<Rightarrow> 'n instruction" where
  "inst_modulo env = binary (on_numbers env (int_division (\<lambda>x y. x smod y))
     (\<lambda>a b. Inr (Single (fl_mod (x_single env) a b))) (\<lambda>a b. Inr (Double (fl_mod (x_double env) a b))))"

fun on_booleans :: "(bool \<Rightarrow> bool \<Rightarrow> bool) \<Rightarrow> 'n variant \<Rightarrow> 'n variant \<Rightarrow> atomic xres" where
  "on_booleans f (Atomic (Boolean a)) (Atomic (Boolean b)) = Inr (Boolean (f a b))"
| "on_booleans f _ _ = Inl WrongType"

definition inst_and :: "'n instruction" where
  "inst_and = binary (on_booleans (\<and>))"

definition inst_or :: "'n instruction" where
  "inst_or = binary (on_booleans (\<or>))"

definition null_like :: "type_t \<Rightarrow> bool" where
  "null_like t \<longleftrightarrow> t \<in> {TYPE_STRING, TYPE_INTEGER, TYPE_SINGLE, TYPE_DOUBLE, TYPE_BOOLEAN}"

definition boolean_like :: "type_t \<Rightarrow> bool" where
  "boolean_like t \<longleftrightarrow> t \<in> {TYPE_STRING, TYPE_INTEGER, TYPE_SINGLE, TYPE_DOUBLE}"

text \<open>The pairs of types whose values are never equal.\<close>

definition never_equal :: "type_t \<Rightarrow> type_t \<Rightarrow> bool" where
  "never_equal a b \<longleftrightarrow> (a = TYPE_NULL \<and> null_like b) \<or> (b = TYPE_NULL \<and> null_like a)
     \<or> (a = TYPE_BOOLEAN \<and> boolean_like b) \<or> (b = TYPE_BOOLEAN \<and> boolean_like a)"

definition text_like :: "type_t \<Rightarrow> bool" where
  "text_like t \<longleftrightarrow> t = TYPE_STRING \<or> t = TYPE_NODE_SET"

definition equal_values :: "'n xpath_env \<Rightarrow> 'n variant \<Rightarrow> 'n variant \<Rightarrow> atomic xres" where
  "equal_values env lhs rhs =
     (if getType lhs = TYPE_BOOLEAN \<and> getType rhs = TYPE_BOOLEAN then on_booleans (=) lhs rhs
      else if number_types (getType lhs) (getType rhs) \<noteq> None then
        on_numbers env (\<lambda>a b. Inr (Boolean (a = b))) (\<lambda>a b. mapE Boolean (compare_singles env a b))
          (\<lambda>a b. mapE Boolean (compare_doubles env a b)) lhs rhs
      else if text_like (getType lhs) \<and> text_like (getType rhs) then
        (case bindE (getStringValue env True lhs) (\<lambda>a. bindE (getStringValue env True rhs) (\<lambda>b. Inr (Boolean (a = b)))) of
           Inl NotImplemented \<Rightarrow> Inr (Boolean False)
         | r \<Rightarrow> r)
      else if getType lhs = TYPE_NULL \<and> getType rhs = TYPE_NULL then Inr (Boolean True)
      else if never_equal (getType lhs) (getType rhs) then Inr (Boolean False)
      else Inl WrongType)"

definition inst_equal :: "'n xpath_env \<Rightarrow> 'n instruction" where
  "inst_equal env = binary (equal_values env)"

text \<open>The result of \<open>compare_floats()\<close> is not negated.\<close>

definition not_equal_values :: "'n xpath_env \<Rightarrow> 'n variant \<Rightarrow> 'n variant \<Rightarrow> atomic xres" where
  "not_equal_values env lhs rhs =
     (if getType lhs = TYPE_BOOLEAN \<and> getType rhs = TYPE_BOOLEAN then on_booleans (\<noteq>) lhs rhs
      else if number_types (getType lhs) (getType rhs) \<noteq> None then
        on_numbers env (\<lambda>a b. Inr (Boolean (a \<noteq> b))) (\<lambda>a b. mapE Boolean (compare_singles env a b))
          (\<lambda>a b. mapE Boolean (compare_doubles env a b)) lhs rhs
      else if getType lhs = TYPE_STRING \<and> getType rhs = TYPE_STRING then
        bindE (getStringValue env False lhs) (\<lambda>a. bindE (getStringValue env False rhs) (\<lambda>b. Inr (Boolean (a \<noteq> b))))
      else if getType lhs = TYPE_NULL \<and> getType rhs = TYPE_NULL then Inr (Boolean False)
      else if never_equal (getType lhs) (getType rhs) then Inr (Boolean True)
      else Inl WrongType)"

definition inst_not_equal :: "'n xpath_env \<Rightarrow> 'n instruction" where
  "inst_not_equal env = binary (not_equal_values env)"

text \<open>The four comparisons: what they do on Booleans, integers, both kinds of floating point numbers, strings, and on two null values.\<close>

definition compare_values ::
  "'n xpath_env \<Rightarrow> (bool \<Rightarrow> bool \<Rightarrow> bool) \<Rightarrow> (int \<Rightarrow> int \<Rightarrow> bool) \<Rightarrow> (32 word \<Rightarrow> 32 word \<Rightarrow> bool) \<Rightarrow> (64 word \<Rightarrow> 64 word \<Rightarrow> bool)
   \<Rightarrow> (qstring \<Rightarrow> qstring \<Rightarrow> bool) \<Rightarrow> bool \<Rightarrow> 'n variant \<Rightarrow> 'n variant \<Rightarrow> atomic xres" where
  "compare_values env fb fi fs fd ft nulls lhs rhs =
     (if getType lhs = TYPE_BOOLEAN \<and> getType rhs = TYPE_BOOLEAN then on_booleans fb lhs rhs
      else if number_types (getType lhs) (getType rhs) \<noteq> None then
        on_numbers env (\<lambda>a b. Inr (Boolean (fi (sint a) (sint b)))) (\<lambda>a b. Inr (Boolean (fs a b))) (\<lambda>a b. Inr (Boolean (fd a b))) lhs rhs
      else if getType lhs = TYPE_STRING \<and> getType rhs = TYPE_STRING then
        bindE (getStringValue env False lhs) (\<lambda>a. bindE (getStringValue env False rhs) (\<lambda>b. Inr (Boolean (ft a b))))
      else if getType lhs = TYPE_NULL \<and> getType rhs = TYPE_NULL then Inr (Boolean nulls)
      else Inl WrongType)"

definition inst_less_than :: "'n xpath_env \<Rightarrow> 'n instruction" where
  "inst_less_than env = binary (compare_values env (<) (<) (fl_less (x_single env)) (fl_less (x_double env)) q_less False)"

definition inst_less_or_equal :: "'n xpath_env \<Rightarrow> 'n instruction" where
  "inst_less_or_equal env =
     binary (compare_values env (\<le>) (\<le>) (fl_less_eq (x_single env)) (fl_less_eq (x_double env)) (\<lambda>a b. \<not> q_less b a) True)"

definition inst_greater_than :: "'n xpath_env \<Rightarrow> 'n instruction" where
  "inst_greater_than env =
     binary (compare_values env (>) (>) (\<lambda>a b. fl_less (x_single env) b a) (\<lambda>a b. fl_less (x_double env) b a) (\<lambda>a b. q_less b a) False)"

definition inst_greater_or_equal :: "'n xpath_env \<Rightarrow> 'n instruction" where
  "inst_greater_or_equal env =
     binary (compare_values env (\<ge>) (\<ge>) (\<lambda>a b. fl_less_eq (x_single env) b a) (\<lambda>a b. fl_less_eq (x_double env) b a)
       (\<lambda>a b. \<not> q_less a b) True)"

section \<open>Node sets and contexts\<close>

definition inst_node_set_size :: "'n instruction" where
  "inst_node_set_size m =
     bindE (pop_variant_data m) (\<lambda>(v, m). bindE (getNodeSetValue v) (\<lambda>ns. pushA (Integer (word_of_nat (length ns))) m))"

fun merge_values :: "'n variant \<Rightarrow> 'n variant \<Rightarrow> 'n variant xres" where
  "merge_values (Node_Set l) (Node_Set r) = Inr (Node_Set (l @ r))"
| "merge_values (Atomic_Set l) (Atomic_Set r) = Inr (Atomic_Set (l @ r))"
| "merge_values _ _ = Inl WrongType"

definition inst_merge_sets :: "'n instruction" where
  "inst_merge_sets m = bindE (pop_operands m) (\<lambda>(lhs, rhs, m). mapE (\<lambda>v. push v m) (merge_values lhs rhs))"

definition inst_get_position :: "'n instruction" where
  "inst_get_position m =
     bindE (contexts_not_empty m) (\<lambda>_. bindE (back_context m) (\<lambda>c. pushA (Integer (word_of_int (f_position c + 1))) m))"

definition inst_set_position :: "'n xpath_env \<Rightarrow> 'n instruction" where
  "inst_set_position env m =
     bindE (pop_variant_data m) (\<lambda>(position, m).
       if getType position \<noteq> TYPE_INTEGER then Inl WrongType
       else bindE (contexts_not_empty m) (\<lambda>_. bindE (getIntegerValue env False position) (\<lambda>i. bindE (back_context m) (\<lambda>c.
         let p = sint (ucast i :: 32 word) in
         if p < 1 \<or> p > int (length (f_nodes c)) then Inl OutOfRange else Inr (put_context (c\<lparr>f_position := p - 1\<rparr>) m)))))"

definition inst_get_node_set :: "'n instruction" where
  "inst_get_node_set m = bindE (contexts_not_empty m) (\<lambda>_. bindE (back_context m) (\<lambda>c. Inr (push (Node_Set (f_nodes c)) m)))"

definition inst_set_node_set :: "'n instruction" where
  "inst_set_node_set m =
     bindE (pop_variant_data m) (\<lambda>(v, m).
       if getType v \<noteq> TYPE_NODE_SET then Inl WrongType
       else bindE (contexts_not_empty m) (\<lambda>_. bindE (getNodeSetValue v) (\<lambda>ns. bindE (back_context m) (\<lambda>c.
         Inr (put_context (c\<lparr>f_nodes := ns\<rparr>) m)))))"

definition inst_get_result :: "'n instruction" where
  "inst_get_result m = bindE (contexts_not_empty m) (\<lambda>_. bindE (back_context m) (\<lambda>c. Inr (push (Node_Set (f_result c)) m)))"

definition inst_set_result :: "'n instruction" where
  "inst_set_result m =
     bindE (pop_variant_data m) (\<lambda>(v, m).
       if getType v \<noteq> TYPE_NODE_SET then Inl WrongType
       else bindE (contexts_not_empty m) (\<lambda>_. bindE (getNodeSetValue v) (\<lambda>ns. bindE (back_context m) (\<lambda>c.
         Inr (put_context (c\<lparr>f_result := ns\<rparr>) m)))))"

definition inst_root :: "'n xpath_env \<Rightarrow> 'n instruction" where
  "inst_root env m =
     bindE (stack_not_empty TYPE_NODE_SET m) (\<lambda>_. bindE (pop_variant_data m) (\<lambda>(v, m). bindE (getNodeSetValue v) (\<lambda>ns.
       case ns of
         [] \<Rightarrow> Inr (push (Node_Set []) m)
       | n # _ \<Rightarrow>
           let root = ownerDocument (x_dom env) n;
               root = (case root of
                         Some r \<Rightarrow> if nodeType (x_dom env) r = ElementNode then ownerDocument (x_dom env) r else Some r
                       | None \<Rightarrow> None)
           in Inr (push (Node_Set (case root of None \<Rightarrow> [] | Some r \<Rightarrow> [r])) m))))"

definition predicate_holds :: "'n xpath_env \<Rightarrow> 'n variant \<Rightarrow> 'n machine \<Rightarrow> bool xres" where
  "predicate_holds env v m =
     (if getType v \<in> {TYPE_BOOLEAN, TYPE_STRING} then getBooleanValue env True v
      else if getType v \<in> {TYPE_INTEGER, TYPE_SINGLE, TYPE_DOUBLE} then
        bindE (contexts_not_empty m) (\<lambda>_. bindE (getIntegerValue env True v) (\<lambda>i. bindE (back_context m) (\<lambda>c.
          Inr (sint i = f_position c + 1))))
      else if getType v = TYPE_NODE_SET then mapE (\<lambda>ns. length ns \<noteq> 0) (getNodeSetValue v)
      else Inr False)"

text \<open>The end of a round over the nodes of a context: whether there is another node.\<close>

definition next_position :: "'n context_t \<Rightarrow> 'n machine \<Rightarrow> 'n machine xres" where
  "next_position c m =
     (let another = f_position c + 1 < int (length (f_nodes c));
          c = (if another then c\<lparr>f_position := f_position c + 1\<rparr> else c)
      in pushA (Boolean another) (put_context c m))"

definition inst_predicate :: "'n xpath_env \<Rightarrow> 'n instruction" where
  "inst_predicate env m =
     bindE (pop_variant_data m) (\<lambda>(v, m).
     bindE (predicate_holds env v m) (\<lambda>result.
     bindE (back_context m) (\<lambda>c.
       if f_position c \<noteq> - 1 \<and> result then
         bindE (current_node c) (\<lambda>n. next_position (c\<lparr>f_result := f_result c @ [n]\<rparr>) m)
       else next_position c m)))"

definition inst_create_node_context :: "'n instruction" where
  "inst_create_node_context m =
     bindE (pop_variant_data m) (\<lambda>(v, m).
       if getType v \<noteq> TYPE_NODE_SET then Inl WrongType
       else bindE (getNodeSetValue v) (\<lambda>ns.
         Inr (set_contexts (new_context\<lparr>f_nodes := ns, f_position := (if ns = [] then - 1 else 0)\<rparr> # contexts_of m) m)))"

definition inst_next_context_node :: "'n instruction" where
  "inst_next_context_node m =
     bindE (contexts_not_empty m) (\<lambda>_. bindE (pop_variant_data m) (\<lambda>(v, m).
       if getType v \<noteq> TYPE_NODE_SET then Inl WrongType
       else bindE (getNodeSetValue v) (\<lambda>ns. bindE (back_context m) (\<lambda>c. next_position (c\<lparr>f_result := f_result c @ ns\<rparr>) m))))"

definition inst_pop_context :: "'n instruction" where
  "inst_pop_context m = bindE (contexts_not_empty m) (\<lambda>_. Inr (set_contexts (tl (contexts_of m)) m))"

definition inst_get_context_node :: "'n instruction" where
  "inst_get_context_node m =
     bindE (contexts_not_empty m) (\<lambda>_. bindE (back_context m) (\<lambda>c.
       if f_position c \<noteq> - 1 then bindE (current_node c) (\<lambda>n. Inr (push (Node_Set [n]) m)) else Inr (push (Node_Set []) m)))"

end
