(* ===== verification/Xpath_Axis.thy ===== *)
theory Xpath_Axis
  imports Xpath_Machine
begin

text \<open>
  The axes of the XPath engine (\<open>inst_axis()\<close> of \<open>qdomxpath.cpp\<close>), the table of the instructions and the execution of a program.
  A loop over the nodes of a document is given the bound of the document; in a document, whose nodes do not form a cycle, it ends before.
  The loop of \<open>apply()\<close> is a partial function, \<open>None\<close> when the program runs forever.
\<close>

section \<open>Axes\<close>

datatype axis_t =
    AXIS_ANCESTOR | AXIS_ANCESTOR_OR_SELF | AXIS_ATTRIBUTE | AXIS_CHILD | AXIS_DESCENDANT | AXIS_DESCENDANT_OR_SELF | AXIS_FOLLOWING
  | AXIS_FOLLOWING_SIBLING | AXIS_NAMESPACE | AXIS_PARENT | AXIS_PRECEDING | AXIS_PRECEDING_SIBLING | AXIS_SELF

datatype node_type_t =
    NODE_TYPE_COMMENT | NODE_TYPE_NODE | NODE_TYPE_PROCESSING_INSTRUCTION | NODE_TYPE_TEXT | NODE_TYPE_DOCUMENT_NODE | NODE_TYPE_ELEMENT
  | NODE_TYPE_SCHEMA_ELEMENT | NODE_TYPE_ATTRIBUTE | NODE_TYPE_SCHEMA_ATTRIBUTE

definition all_axes :: "axis_t list" where
  "all_axes = [AXIS_ANCESTOR, AXIS_ANCESTOR_OR_SELF, AXIS_ATTRIBUTE, AXIS_CHILD, AXIS_DESCENDANT, AXIS_DESCENDANT_OR_SELF, AXIS_FOLLOWING,
     AXIS_FOLLOWING_SIBLING, AXIS_NAMESPACE, AXIS_PARENT, AXIS_PRECEDING, AXIS_PRECEDING_SIBLING, AXIS_SELF]"

definition all_node_types :: "node_type_t list" where
  "all_node_types = [NODE_TYPE_COMMENT, NODE_TYPE_NODE, NODE_TYPE_PROCESSING_INSTRUCTION, NODE_TYPE_TEXT, NODE_TYPE_DOCUMENT_NODE,
     NODE_TYPE_ELEMENT, NODE_TYPE_SCHEMA_ELEMENT, NODE_TYPE_ATTRIBUTE, NODE_TYPE_SCHEMA_ATTRIBUTE]"

text \<open>The cast of an integer to an enumeration, whose numbers are \<open>int\<close>; \<open>None\<close> is a number that is not named.\<close>

definition enum_of :: "'a list \<Rightarrow> 64 word \<Rightarrow> 'a option" where
  "enum_of xs i = (let k = unat (ucast i :: 32 word) in if k < length xs then Some (xs ! k) else None)"

text \<open>The nodes from a start along a link, up to the null node.\<close>

fun follow :: "nat \<Rightarrow> ('n \<Rightarrow> 'n option) \<Rightarrow> 'n option \<Rightarrow> 'n list xres" where
  "follow k nx None = Inr []"
| "follow 0 nx (Some n) = Inl Endless_Loop"
| "follow (Suc k) nx (Some n) = mapE (Cons n) (follow k nx (nx n))"

text \<open>The same with a link that is itself a loop.\<close>

fun followE :: "nat \<Rightarrow> ('n \<Rightarrow> 'n option xres) \<Rightarrow> 'n option \<Rightarrow> 'n list xres" where
  "followE k nx None = Inr []"
| "followE 0 nx (Some n) = Inl Endless_Loop"
| "followE (Suc k) nx (Some n) = bindE (nx n) (\<lambda>n'. mapE (Cons n) (followE k nx n'))"

text \<open>Up from a node to the first one that has a sibling, and to that sibling.\<close>

fun climb :: "nat \<Rightarrow> 'n dom \<Rightarrow> ('n \<Rightarrow> 'n option) \<Rightarrow> 'n option \<Rightarrow> 'n option xres" where
  "climb k d sibling None = Inr None"
| "climb 0 d sibling (Some n) = Inl Endless_Loop"
| "climb (Suc k) d sibling (Some n) =
     (case sibling n of Some s \<Rightarrow> Inr (Some s) | None \<Rightarrow> climb k d sibling (parentNode d n))"

text \<open>The same, stopped by the context node; \<open>Inr None\<close> then.\<close>

fun climb_to :: "nat \<Rightarrow> 'n dom \<Rightarrow> 'n \<Rightarrow> 'n option \<Rightarrow> 'n option xres" where
  "climb_to k d ctx None = Inl Null_Node"
| "climb_to 0 d ctx (Some n) = Inl Endless_Loop"
| "climb_to (Suc k) d ctx (Some n) =
     (if n = ctx then Inr None
      else case nextSibling d n of Some s \<Rightarrow> Inr (Some s) | None \<Rightarrow> climb_to k d ctx (parentNode d n))"

definition descendant_next :: "'n dom \<Rightarrow> 'n \<Rightarrow> 'n \<Rightarrow> 'n option xres" where
  "descendant_next d ctx n =
     (case firstChild d n of Some c \<Rightarrow> Inr (Some c) | None \<Rightarrow> climb_to (document_bound d) d ctx (Some n))"

definition following_next :: "'n dom \<Rightarrow> 'n \<Rightarrow> 'n option xres" where
  "following_next d n =
     (case firstChild d n of Some c \<Rightarrow> Inr (Some c) | None \<Rightarrow> climb (document_bound d) d (nextSibling d) (Some n))"

text \<open>The condition of the inner loop is that the previous node is not null, so that this loop never goes up.\<close>

definition preceding_next :: "'n dom \<Rightarrow> 'n \<Rightarrow> 'n option" where
  "preceding_next d n = (case lastChild d n of Some c \<Rightarrow> Some c | None \<Rightarrow> previousSibling d n)"

record name_test =
  t_local :: qstring
  t_any_prefix :: bool
  t_prefix :: qstring

definition prefix_matches :: "'n dom \<Rightarrow> name_test \<Rightarrow> 'n \<Rightarrow> bool" where
  "prefix_matches d t n \<longleftrightarrow> t_any_prefix t \<or> t_prefix t = node_prefix d n"

definition name_matches :: "'n dom \<Rightarrow> name_test \<Rightarrow> 'n \<Rightarrow> bool" where
  "name_matches d t n \<longleftrightarrow> (t_local t = [] \<or> t_local t = tagName d n) \<and> prefix_matches d t n"

definition axis_attribute :: "'n dom \<Rightarrow> name_test \<Rightarrow> 'n \<Rightarrow> 'n list" where
  "axis_attribute d t ctx =
     (if t_local t = [] then filter (prefix_matches d t) (node_attributes d ctx)
      else case namedItem d ctx (t_local t) of None \<Rightarrow> [] | Some a \<Rightarrow> filter (prefix_matches d t) [a])"

definition axis_child_elements :: "'n dom \<Rightarrow> name_test \<Rightarrow> 'n \<Rightarrow> 'n list xres" where
  "axis_child_elements d t ctx =
     follow (document_bound d) (\<lambda>n. nextSiblingElement d n (t_local t)) (firstChildElement d ctx (t_local t))"

definition axis_child :: "'n dom \<Rightarrow> name_test \<Rightarrow> node_type_t option \<Rightarrow> node_kind \<Rightarrow> qstring \<Rightarrow> 'n \<Rightarrow> 'n list xres" where
  "axis_child d t type kind language ctx =
     (case type of
        Some NODE_TYPE_NODE \<Rightarrow> mapE (filter (prefix_matches d t)) (axis_child_elements d t ctx)
      | Some NODE_TYPE_ELEMENT \<Rightarrow> mapE (filter (prefix_matches d t)) (axis_child_elements d t ctx)
      | Some NODE_TYPE_ATTRIBUTE \<Rightarrow> Inr (axis_attribute d t ctx)
      | Some NODE_TYPE_COMMENT \<Rightarrow> mapE (filter (\<lambda>n. nodeType d n = kind \<and> prefix_matches d t n)) (axis_child_elements d t ctx)
      | Some NODE_TYPE_TEXT \<Rightarrow> mapE (filter (\<lambda>n. nodeType d n = kind \<and> prefix_matches d t n)) (axis_child_elements d t ctx)
      | Some NODE_TYPE_PROCESSING_INSTRUCTION \<Rightarrow>
          mapE (filter (\<lambda>n. nodeType d n = ProcessingInstructionNode \<and> t_prefix t = node_prefix d n
                  \<and> (language = [] \<or> pi_target d n = language))) (axis_child_elements d t ctx)
      | _ \<Rightarrow> Inl NotImplemented)"

definition axis_nodes :: "'n dom \<Rightarrow> axis_t option \<Rightarrow> name_test \<Rightarrow> node_type_t option \<Rightarrow> node_kind \<Rightarrow> qstring \<Rightarrow> 'n \<Rightarrow> 'n list xres" where
  "axis_nodes d axis t type kind language ctx =
     (let nodes_only = (\<lambda>r. if type = Some NODE_TYPE_NODE \<or> type = Some NODE_TYPE_ELEMENT then r else Inl NotImplemented);
          bound = document_bound d
      in case axis of
        None \<Rightarrow> Inr []
      | Some AXIS_SELF \<Rightarrow> nodes_only (Inr (filter (name_matches d t) [ctx]))
      | Some AXIS_PARENT \<Rightarrow> nodes_only (Inr (case parentNode d ctx of None \<Rightarrow> [] | Some n \<Rightarrow> filter (name_matches d t) [n]))
      | Some AXIS_ATTRIBUTE \<Rightarrow> Inr (axis_attribute d t ctx)
      | Some AXIS_ANCESTOR \<Rightarrow> nodes_only (mapE (filter (name_matches d t)) (follow bound (parentNode d) (parentNode d ctx)))
      | Some AXIS_ANCESTOR_OR_SELF \<Rightarrow> nodes_only (mapE (filter (name_matches d t)) (follow bound (parentNode d) (Some ctx)))
      | Some AXIS_CHILD \<Rightarrow> axis_child d t type kind language ctx
      | Some AXIS_DESCENDANT \<Rightarrow>
          nodes_only (bindE (descendant_next d ctx ctx) (\<lambda>n.
            mapE (filter (name_matches d t)) (followE bound (descendant_next d ctx) n)))
      | Some AXIS_DESCENDANT_OR_SELF \<Rightarrow>
          nodes_only (bindE (descendant_next d ctx ctx) (\<lambda>n.
            mapE (\<lambda>ns. filter (name_matches d t) (ctx # ns)) (followE bound (descendant_next d ctx) n)))
      | Some AXIS_NAMESPACE \<Rightarrow> Inl NotImplemented
      | Some AXIS_FOLLOWING_SIBLING \<Rightarrow> nodes_only (mapE (filter (name_matches d t)) (follow bound (nextSibling d) (nextSibling d ctx)))
      | Some AXIS_FOLLOWING \<Rightarrow>
          nodes_only (bindE (follow bound (nextSibling d) (nextSibling d ctx)) (\<lambda>siblings.
            bindE (climb bound d (nextSibling d) (parentNode d ctx)) (\<lambda>start.
            bindE (followE bound (following_next d) start) (\<lambda>rest. Inr (filter (name_matches d t) (siblings @ rest))))))
      | Some AXIS_PRECEDING_SIBLING \<Rightarrow>
          nodes_only (mapE (filter (name_matches d t)) (follow bound (previousSibling d) (previousSibling d ctx)))
      | Some AXIS_PRECEDING \<Rightarrow>
          nodes_only (bindE (follow bound (previousSibling d) (previousSibling d ctx)) (\<lambda>siblings.
            bindE (climb bound d (previousSibling d) (parentNode d ctx)) (\<lambda>start.
            bindE (follow bound (preceding_next d) start) (\<lambda>rest. Inr (filter (name_matches d t) (siblings @ rest)))))))"

fun kind_of_type :: "node_type_t option \<Rightarrow> node_kind xres" where
  "kind_of_type (Some NODE_TYPE_COMMENT) = Inr CommentNode"
| "kind_of_type (Some NODE_TYPE_PROCESSING_INSTRUCTION) = Inr ProcessingInstructionNode"
| "kind_of_type (Some NODE_TYPE_TEXT) = Inr TextNode"
| "kind_of_type (Some NODE_TYPE_DOCUMENT_NODE) = Inr DocumentNode"
| "kind_of_type (Some NODE_TYPE_SCHEMA_ELEMENT) = Inl NotImplemented"
| "kind_of_type (Some NODE_TYPE_ATTRIBUTE) = Inr AttributeNode"
| "kind_of_type (Some NODE_TYPE_SCHEMA_ATTRIBUTE) = Inl NotImplemented"
| "kind_of_type _ = Inr ElementNode"

text \<open>The name test, the node type and the language of a processing instruction, from the two operands of the axis.\<close>

definition axis_test ::
  "'n xpath_env \<Rightarrow> axis_t option \<Rightarrow> 'n variant \<Rightarrow> 'n variant \<Rightarrow> (name_test \<times> node_type_t option \<times> qstring) xres" where
  "axis_test env axis local_part_or_node_type prefix_or_processing_language =
     (if getType local_part_or_node_type = TYPE_INTEGER then
        if axis = Some AXIS_ATTRIBUTE \<or> axis = Some AXIS_NAMESPACE then Inl WrongType
        else bindE (getIntegerValue env False local_part_or_node_type) (\<lambda>i.
          bindE (getStringValue env False prefix_or_processing_language) (\<lambda>language.
            Inr (\<lparr>t_local = [], t_any_prefix = False, t_prefix = []\<rparr>, enum_of all_node_types i, language)))
      else
        bindE (getStringValue env False prefix_or_processing_language) (\<lambda>prefix.
        bindE (getStringValue env False local_part_or_node_type) (\<lambda>local_part.
          Inr (\<lparr>t_local = (if local_part = qs ''*'' then [] else local_part), t_any_prefix = (prefix = qs ''*''), t_prefix = prefix\<rparr>,
               Some (if axis = Some AXIS_ATTRIBUTE then NODE_TYPE_ATTRIBUTE else NODE_TYPE_ELEMENT), []))))"

definition inst_axis :: "'n xpath_env \<Rightarrow> 'n instruction" where
  "inst_axis env m =
     bindE (pop_variant_data m) (\<lambda>(axis_variant, m).
     bindE (getIntegerValue env False axis_variant) (\<lambda>i.
     bindE (pop_variant_data m) (\<lambda>(prefix_or_processing_language, m).
     bindE (pop_variant_data m) (\<lambda>(local_part_or_node_type, m).
     bindE (pop_variant_data m) (\<lambda>(context_node_variant, m).
       if getType context_node_variant \<noteq> TYPE_NODE_SET then Inl WrongType
       else bindE (axis_test env (enum_of all_axes i) local_part_or_node_type prefix_or_processing_language) (\<lambda>(t, type, language).
         bindE (kind_of_type type) (\<lambda>kind.
         bindE (getNodeSetValue context_node_variant) (\<lambda>ns.
           case ns of
             [ctx] \<Rightarrow>
               if nodeType (x_dom env) ctx = ElementNode \<or> nodeType (x_dom env) ctx = DocumentNode then
                 mapE (\<lambda>result. push (Node_Set result) m) (axis_nodes (x_dom env) (enum_of all_axes i) t type kind language ctx)
               else Inr (push (Node_Set []) m)
           | _ \<Rightarrow> Inr (push (Node_Set []) m)))))))))"

section \<open>The table of the instructions\<close>

abbreviation INST_END :: "8 word" where "INST_END \<equiv> 0x00"

definition g_instructions :: "'n xpath_env \<Rightarrow> program \<Rightarrow> (8 word \<times> 'n instruction) list" where
  "g_instructions env p =
    [(0x00, inst_end), (0x01, inst_call env), (0x02, inst_small_function p), (0x03, inst_large_function p), (0x04, inst_jump env),
     (0x05, inst_jump_if_true env), (0x06, inst_jump_if_false env), (0x07, inst_jump_if_zero env), (0x08, inst_return),
     (0x10, inst_get_variable env), (0x11, inst_set_variable env),
     (0x20, inst_pop1), (0x21, inst_pop2), (0x22, inst_pop3), (0x23, inst_pop4), (0x24, inst_pop5),
     (0x2A, inst_duplicate1), (0x2B, inst_duplicate2), (0x2C, inst_duplicate3), (0x2D, inst_duplicate4), (0x2E, inst_duplicate5),
     (0x30, inst_swap1), (0x31, inst_swap2), (0x32, inst_swap3), (0x33, inst_swap4), (0x34, inst_swap5), (0x35, inst_swap2_3),
     (0x40, inst_push_any_string), (0x41, inst_push_byte p), (0x42, inst_push_double p), (0x43, inst_push_double_zero env),
     (0x44, inst_push_empty_node_set), (0x45, inst_push_empty_set), (0x46, inst_push_empty_string), (0x47, inst_push_end_of_arguments),
     (0x48, inst_push_false), (0x49, inst_push_large_string env p), (0x4A, inst_push_long p), (0x4B, inst_push_longlong p),
     (0x4C, inst_push_medium_string env p), (0x4D, inst_push_negative_byte p), (0x4E, inst_push_negative_short p),
     (0x4F, inst_push_negative_long p), (0x50, inst_push_short p), (0x51, inst_push_small_string env p), (0x52, inst_push_true),
     (0x53, inst_push_zero),
     (0x60, inst_add env), (0x61, inst_and), (0x62, inst_ceiling env), (0x63, inst_decrement env), (0x64, inst_divide env),
     (0x65, inst_equal env), (0x66, inst_floor env), (0x67, inst_greater_or_equal env), (0x68, inst_greater_than env),
     (0x69, inst_idivide env), (0x6A, inst_increment env), (0x6B, inst_less_or_equal env), (0x6C, inst_less_than env),
     (0x6D, inst_modulo env), (0x6E, inst_multiply env), (0x6F, inst_negate env), (0x70, inst_not env), (0x71, inst_not_equal env),
     (0x72, inst_or), (0x73, inst_round env), (0x74, inst_string_length env), (0x75, inst_subtract env),
     (0x80, inst_axis env), (0x81, inst_root env), (0x82, inst_get_node_set), (0x83, inst_set_node_set), (0x84, inst_get_result),
     (0x85, inst_set_result), (0x86, inst_get_position), (0x87, inst_set_position env), (0x88, inst_node_set_size),
     (0x89, inst_merge_sets), (0x8A, inst_predicate env), (0x8B, inst_create_node_context), (0x8C, inst_get_context_node),
     (0x8D, inst_next_context_node), (0x8E, inst_pop_context)]"

definition dispatch :: "'n xpath_env \<Rightarrow> program \<Rightarrow> 8 word \<Rightarrow> 'n instruction" where
  "dispatch env p i = (case map_of (g_instructions env p) i of None \<Rightarrow> inst_undefined_instruction | Some f \<Rightarrow> f)"

section \<open>Execution\<close>

definition step :: "'n xpath_env \<Rightarrow> program \<Rightarrow> 'n machine \<Rightarrow> 'n machine xres" where
  "step env p m = (if pc_of m \<ge> length p then Inl Read_Outside else dispatch env p (p ! pc_of m) (set_pc (Suc (pc_of m)) m))"

partial_function (option) run :: "'n xpath_env \<Rightarrow> program \<Rightarrow> 'n machine \<Rightarrow> 'n machine xres option" where
  "run env p m =
     (if pc_of m \<ge> length p then Some (Inl Read_Outside)
      else if p ! pc_of m = INST_END then Some (Inr m)
      else case step env p m of Inl e \<Rightarrow> Some (Inl e) | Inr m' \<Rightarrow> run env p m')"

definition start_machine :: "nat \<Rightarrow> 'n list \<Rightarrow> 'n machine" where
  "start_machine offset nodes =
     \<lparr>f_back = \<lparr>f_pc = offset, f_stack = [Node_Set nodes], f_contexts = [new_context], f_variables = Map.empty\<rparr>, f_callers = []\<rparr>"

definition xpath_result :: "'n machine \<Rightarrow> 'n list xres" where
  "xpath_result m =
     (if length (contexts_of m) \<noteq> 1 then Inl InvalidError
      else case stack_of m of [v] \<Rightarrow> getNodeSetValue v | _ \<Rightarrow> Inl InvalidError)"

definition xpath_apply :: "'n xpath_env \<Rightarrow> program \<Rightarrow> nat \<Rightarrow> 'n list \<Rightarrow> 'n list xres option" where
  "xpath_apply env p offset nodes = map_option (\<lambda>r. bindE r xpath_result) (run env p (start_machine offset nodes))"

end
