(* ===== verification/Xpath_Lexer.thy ===== *)
theory Xpath_Lexer
  imports Xpath_Axis
begin

text \<open>
  The tokens of the XPath compiler (\<open>qdomxpath.cpp\<close>: \<open>token_t\<close>, \<open>getc()\<close>, \<open>ungetc()\<close>, \<open>get_token()\<close>).  The position \<open>f_in\<close> is the text
  that is left; to put a character back is to keep the text from before it was read.  The lemmas: reading characters makes progress.
\<close>

section \<open>Tokens\<close>

datatype tok_t =
    TOK_UNDEFINED | TOK_INVALID | TOK_OPEN_PARENTHESIS | TOK_CLOSE_PARENTHESIS | TOK_OPEN_SQUARE_BRACKET | TOK_CLOSE_SQUARE_BRACKET | TOK_DOT
  | TOK_DOUBLE_DOT | TOK_AT | TOK_COMMA | TOK_COLON | TOK_DOUBLE_COLON | TOK_SLASH | TOK_DOUBLE_SLASH | TOK_PIPE | TOK_PLUS | TOK_MINUS | TOK_EQUAL
  | TOK_NOT_EQUAL | TOK_LESS_THAN | TOK_LESS_OR_EQUAL | TOK_GREATER_THAN | TOK_GREATER_OR_EQUAL | TOK_ASTERISK | TOK_DOLLAR | TOK_STRING
  | TOK_INTEGER | TOK_REAL | TOK_NODE_TYPE_COMMENT | TOK_NODE_TYPE_TEXT | TOK_NODE_TYPE_PROCESSING_INSTRUCTION | TOK_NODE_TYPE_NODE
  | TOK_AXIS_NAME axis_t | TOK_PREFIX | TOK_NCNAME

record xtoken =
  f_token :: tok_t
  f_string :: qstring
  f_integer :: "64 word"
  f_real :: "64 word"

text \<open>The constructor sets the real number to \<open>0.0\<close>, whose bits are zero.\<close>

definition new_token :: xtoken where
  "new_token = \<lparr>f_token = TOK_UNDEFINED, f_string = [], f_integer = 0, f_real = 0\<rparr>"

section \<open>Characters\<close>

abbreviation END_OF_PATH :: "16 word" where "END_OF_PATH \<equiv> 0xFFFF"

definition xml_char :: "16 word \<Rightarrow> bool" where
  "xml_char c \<longleftrightarrow> c = 0x09 \<or> c = 0x0A \<or> c = 0x0D \<or> (0x20 \<le> c \<and> c \<le> 0xFFFD)"

definition getc :: "qstring \<Rightarrow> (16 word \<times> qstring) xres" where
  "getc s =
     (case s of
        [] \<Rightarrow> Inr (END_OF_PATH, s)
      | c # r \<Rightarrow> if c = 0 then Inr (END_OF_PATH, s) else if xml_char c then Inr (c, r) else Inl InvalidCharacter)"

lemma xml_char_end [simp]: "\<not> xml_char END_OF_PATH"
  by (simp add: xml_char_def)

lemma getc_progress: "getc s = Inr (c, r) \<Longrightarrow> c \<noteq> END_OF_PATH \<Longrightarrow> length r < length s"
  by (auto simp: getc_def split: list.splits if_splits)

definition is_digit16 :: "16 word \<Rightarrow> bool" where
  "is_digit16 c \<longleftrightarrow> 48 \<le> c \<and> c \<le> 57"

lemma is_digit16_end [simp]: "\<not> is_digit16 END_OF_PATH"
  by (simp add: is_digit16_def)

definition is_blank :: "16 word \<Rightarrow> bool" where
  "is_blank c \<longleftrightarrow> c = 0x20 \<or> c = 0x09 \<or> c = 0x0D \<or> c = 0x0A"

lemma is_blank_end [simp]: "\<not> is_blank END_OF_PATH"
  by (simp add: is_blank_def)

definition in_ranges :: "(16 word \<times> 16 word) list \<Rightarrow> 16 word \<Rightarrow> bool" where
  "in_ranges rs c \<longleftrightarrow> list_ex (\<lambda>(a, b). a \<le> c \<and> c \<le> b) rs"

definition name_start :: "16 word \<Rightarrow> bool" where
  "name_start c \<longleftrightarrow>
     in_ranges [(97, 122), (65, 90), (0xC0, 0xD6), (0xD8, 0xF6), (0xF8, 0x2FF), (0x370, 0x37D), (0x37F, 0x1FFF), (0x200C, 0x200D),
                (0x2070, 0x218F), (0x2C00, 0x2FEF), (0x3001, 0xDFFF), (0xF900, 0xFDCF), (0xFDF0, 0xFFFD), (95, 95)] c"

definition name_char :: "16 word \<Rightarrow> bool" where
  "name_char c \<longleftrightarrow>
     in_ranges [(97, 122), (65, 90), (48, 57), (0xC0, 0xD6), (0xD8, 0xF6), (0xF8, 0x2FF), (0x300, 0x37D), (0x37F, 0x1FFF), (0x200C, 0x200D),
                (0x203F, 0x2040), (0x2070, 0x218F), (0x2C00, 0x2FEF), (0x3001, 0xDFFF), (0xF900, 0xFDCF), (0xFDF0, 0xFFFD), (95, 95), (46, 46),
                (45, 45), (0xB7, 0xB7)] c"

lemma name_char_end [simp]: "\<not> name_char END_OF_PATH"
  by (simp add: name_char_def in_ranges_def)

lemma getc_consumes:
  assumes "getc s = Inr (c, r)" "is_blank c \<or> is_digit16 c \<or> name_char c"
  shows "length r < length s"
proof -
  have "c \<noteq> END_OF_PATH" using assms(2) by auto
  with assms(1) show ?thesis by (rule getc_progress)
qed

section \<open>The parts of a token\<close>

function skip_blanks :: "qstring \<Rightarrow> (16 word \<times> qstring) xres" where
  "skip_blanks s = bindE (getc s) (\<lambda>(c, r). if is_blank c then skip_blanks r else Inr (c, r))"
  by pat_completeness auto
termination by (relation "measure length") (auto intro: getc_consumes)

declare skip_blanks.simps [simp del]

text \<open>The text of a string up to its quote; a quote that is doubled belongs to the text.\<close>

function read_string :: "16 word \<Rightarrow> qstring \<Rightarrow> (qstring \<times> qstring) xres" where
  "read_string quote s =
     bindE (getc s) (\<lambda>(c, r).
       if c = END_OF_PATH then Inl InvalidString
       else if c = quote then
         bindE (getc r) (\<lambda>(c', r').
           if c' \<noteq> quote then Inr ([], r)
           else mapE (\<lambda>(str, rest). (c' # str, rest)) (read_string quote r'))
       else mapE (\<lambda>(str, rest). (c # str, rest)) (read_string quote r))"
  by pat_completeness auto
termination by (relation "measure (length \<circ> snd)") (auto intro: getc_progress less_trans [OF getc_progress getc_progress])

declare read_string.simps [simp del]

function read_digits :: "qstring \<Rightarrow> (qstring \<times> 16 word \<times> qstring \<times> qstring) xres" where
  "read_digits s =
     bindE (getc s) (\<lambda>(c, r).
       if is_digit16 c then mapE (\<lambda>(ds, rest). (c # ds, rest)) (read_digits r) else Inr ([], c, s, r))"
  by pat_completeness auto
termination by (relation "measure length") (auto intro: getc_consumes)

declare read_digits.simps [simp del]

function read_name :: "qstring \<Rightarrow> (qstring \<times> qstring) xres" where
  "read_name s =
     bindE (getc s) (\<lambda>(c, r). if name_char c then mapE (\<lambda>(str, rest). (c # str, rest)) (read_name r) else Inr ([], s))"
  by pat_completeness auto
termination by (relation "measure length") (auto intro: getc_consumes)

declare read_name.simps [simp del]

definition digit16 :: "16 word \<Rightarrow> 64 word" where
  "digit16 c = ucast c - 48"

definition add_digits :: "64 word \<Rightarrow> qstring \<Rightarrow> 64 word" where
  "add_digits = foldl (\<lambda>v c. v * 10 + digit16 c)"

text \<open>The digits after the period: \<open>frac /= 10.0; f_real += (c - '0') * frac\<close>.\<close>

definition add_fraction :: "'n xpath_env \<Rightarrow> 64 word \<Rightarrow> qstring \<Rightarrow> 64 word" where
  "add_fraction env real ds =
     (let d = x_double env in
      fst (foldl (\<lambda>(v, frac) c.
              let frac = fl_div d frac (fl_of_int d 10) in (fl_add d v (fl_mul d (fl_of_int d (digit16 c)) frac), frac))
            (real, fl_one d) ds))"

section \<open>The next token\<close>

text \<open>The case \<open>'.'\<close>, which a number with a period also comes to; \<open>t\<close> is the token so far.\<close>

definition scan_period :: "'n xpath_env \<Rightarrow> xtoken \<Rightarrow> qstring \<Rightarrow> (xtoken \<times> qstring) xres" where
  "scan_period env t s =
     bindE (getc s) (\<lambda>(c, r).
       if f_string t = qs ''.'' \<and> c = 46 then Inr (t\<lparr>f_token := TOK_DOUBLE_DOT, f_string := qs ''..''\<rparr>, r)
       else if f_string t = qs ''.'' \<and> \<not> is_digit16 c then Inr (t\<lparr>f_token := TOK_DOT\<rparr>, s)
       else
         let str = (if f_string t = qs ''.'' then qs ''0.'' else f_string t) in
         bindE (read_digits s) (\<lambda>(ds, _, rest, _).
           Inr (t\<lparr>f_token := TOK_REAL, f_string := (if ds = [] then str @ qs ''0'' else str @ ds), f_real := add_fraction env (f_real t) ds\<rparr>,
                rest)))"

definition scan_number :: "'n xpath_env \<Rightarrow> xtoken \<Rightarrow> 16 word \<Rightarrow> qstring \<Rightarrow> (xtoken \<times> qstring) xres" where
  "scan_number env t c s =
     bindE (read_digits s) (\<lambda>(ds, c', before, after).
       let t = t\<lparr>f_token := TOK_INTEGER, f_string := c # ds, f_integer := add_digits (digit16 c) ds\<rparr> in
       if c' \<noteq> 46 then Inr (t, before)
       else scan_period env (t\<lparr>f_string := f_string t @ qs ''.'', f_real := fl_of_int (x_double env) (f_integer t)\<rparr>) after)"

definition scan_pair :: "xtoken \<Rightarrow> tok_t \<Rightarrow> tok_t \<Rightarrow> 16 word \<Rightarrow> qstring \<Rightarrow> (xtoken \<times> qstring) xres" where
  "scan_pair t one two second s =
     bindE (getc s) (\<lambda>(c, r).
       if c = second then Inr (t\<lparr>f_token := two, f_string := f_string t @ [c]\<rparr>, r) else Inr (t\<lparr>f_token := one\<rparr>, s))"

definition single_tokens :: "(16 word \<times> tok_t) list" where
  "single_tokens =
     [(40, TOK_OPEN_PARENTHESIS), (41, TOK_CLOSE_PARENTHESIS), (91, TOK_OPEN_SQUARE_BRACKET), (93, TOK_CLOSE_SQUARE_BRACKET), (64, TOK_AT),
      (44, TOK_COMMA), (124, TOK_PIPE), (36, TOK_DOLLAR), (43, TOK_PLUS), (45, TOK_MINUS), (61, TOK_EQUAL), (42, TOK_ASTERISK)]"

definition scan_from :: "'n xpath_env \<Rightarrow> xtoken \<Rightarrow> 16 word \<Rightarrow> qstring \<Rightarrow> (xtoken \<times> qstring) xres" where
  "scan_from env t c s =
     (case map_of single_tokens c of
        Some k \<Rightarrow> Inr (t\<lparr>f_token := k\<rparr>, s)
      | None \<Rightarrow>
          if c = 58 then scan_pair t TOK_COLON TOK_DOUBLE_COLON 58 s
          else if c = 47 then scan_pair t TOK_SLASH TOK_DOUBLE_SLASH 47 s
          else if c = 33 then
            bindE (getc s) (\<lambda>(c', r).
              if c' = 61 then Inr (t\<lparr>f_token := TOK_NOT_EQUAL, f_string := f_string t @ [c']\<rparr>, r) else Inl InvalidCharacter)
          else if c = 60 then scan_pair t TOK_LESS_THAN TOK_LESS_OR_EQUAL 61 s
          else if c = 62 then scan_pair t TOK_GREATER_THAN TOK_GREATER_OR_EQUAL 61 s
          else if c = 39 \<or> c = 34 then mapE (\<lambda>(str, r). (t\<lparr>f_token := TOK_STRING, f_string := str\<rparr>, r)) (read_string c s)
          else if is_digit16 c then scan_number env t c s
          else if c = 46 then scan_period env t s
          else if name_start c then mapE (\<lambda>(str, r). (t\<lparr>f_token := TOK_NCNAME, f_string := c # str\<rparr>, r)) (read_name s)
          else Inr (t\<lparr>f_token := TOK_INVALID\<rparr>, s))"

text \<open>The whole of \<open>get_token()\<close> without the token that was put back, from the last token and the text.\<close>

definition scan :: "'n xpath_env \<Rightarrow> xtoken \<Rightarrow> qstring \<Rightarrow> (xtoken \<times> qstring) xres" where
  "scan env t s =
     bindE (skip_blanks s) (\<lambda>(c, r).
       if c = END_OF_PATH then Inr (t\<lparr>f_token := TOK_UNDEFINED, f_string := []\<rparr>, r) else scan_from env (t\<lparr>f_string := [c]\<rparr>) c r)"

end
