(* ===== verification/Xpath_Compiler.thy ===== *)
theory Xpath_Compiler
  imports Xpath_Lexer
begin

text \<open>
  The XPath compiler (\<open>qdomxpath.cpp\<close>): the functions that append instructions to the program, the functions of the recursive descent
  parser, each one in terms of those it calls, \<open>parse()\<close>, and the functions of \<open>QDomXPath\<close> that use it.  The recursion of the parser
  goes through \<open>or_expr()\<close>, which is an argument of the functions below it.  It need not end; so the parser has fuel, and the result is
  \<open>None\<close> when the fuel does not suffice.  A jump that no expression is compiled to (\<open>append_push_for_jump()\<close>, \<open>append_function()\<close>) is left out,
  and so is the trace of the instructions.
\<close>

section \<open>The state and fallible computations with fuel\<close>

record xparser =
  f_in :: qstring
  f_unget_token :: xtoken
  f_last_token :: xtoken
  f_label_counter :: "32 word"
  f_predicate_variable :: qstring
  f_program :: program

type_synonym 'a outcome = "'a xres option"

definition bindO :: "'a outcome \<Rightarrow> ('a \<Rightarrow> 'b outcome) \<Rightarrow> 'b outcome" where
  "bindO r f = (case r of None \<Rightarrow> None | Some (Inl e) \<Rightarrow> Some (Inl e) | Some (Inr x) \<Rightarrow> f x)"

lemma bindO_simps [simp]:
  "bindO None f = None" "bindO (Some (Inl e)) f = Some (Inl e)" "bindO (Some (Inr x)) f = f x"
  by (simp_all add: bindO_def)

abbreviation returnO :: "'a \<Rightarrow> 'a outcome" where "returnO x \<equiv> Some (Inr x)"
abbreviation failO :: "xpath_error \<Rightarrow> 'a outcome" where "failO e \<equiv> Some (Inl e)"

abbreviation last_tok :: "xparser \<Rightarrow> tok_t" where "last_tok s \<equiv> f_token (f_last_token s)"
abbreviation last_string :: "xparser \<Rightarrow> qstring" where "last_string s \<equiv> f_string (f_last_token s)"

definition get_token :: "'n xpath_env \<Rightarrow> xparser \<Rightarrow> xparser outcome" where
  "get_token env s =
     (if f_token (f_unget_token s) \<noteq> TOK_UNDEFINED then
        returnO (s\<lparr>f_last_token := f_unget_token s, f_unget_token := (f_unget_token s)\<lparr>f_token := TOK_UNDEFINED\<rparr>\<rparr>)
      else Some (mapE (\<lambda>(t, rest). s\<lparr>f_last_token := t, f_in := rest\<rparr>) (scan env (f_last_token s) (f_in s))))"

section \<open>Instructions\<close>

definition add_bytes :: "8 word list \<Rightarrow> xparser \<Rightarrow> xparser" where
  "add_bytes bs s = s\<lparr>f_program := f_program s @ bs\<rparr>"

definition append_instruction :: "8 word \<Rightarrow> xparser \<Rightarrow> xparser" where
  "append_instruction inst = add_bytes [inst]"

text \<open>The last bytes of a number, the most significant one first.\<close>

fun be8 :: "nat \<Rightarrow> nat \<Rightarrow> 8 word list" where
  "be8 0 v = []"
| "be8 (Suc n) v = word_of_nat (v div 256 ^ n) # be8 n v"

definition string_code :: "'n xpath_env \<Rightarrow> qstring \<Rightarrow> 8 word list" where
  "string_code env string =
     (if string = [] then [0x46]
      else if string = qs ''*'' then [0x40]
      else
        let str = until_nul (x_toUtf8 env string); imax = length str in
        if imax < 256 then 0x51 # be8 1 imax @ str
        else if imax < 65536 then 0x4C # be8 2 imax @ str
        else 0x49 # be8 4 imax @ str)"

definition append_push_string :: "'n xpath_env \<Rightarrow> qstring \<Rightarrow> xparser \<Rightarrow> xparser" where
  "append_push_string env string = add_bytes (string_code env string)"

definition append_push_boolean :: "bool \<Rightarrow> xparser \<Rightarrow> xparser" where
  "append_push_boolean b = append_instruction (if b then 0x52 else 0x48)"

definition integer_code :: "64 word \<Rightarrow> 8 word list" where
  "integer_code w =
     (let integer = sint w in
      if integer = 0 then [0x53]
      else if integer \<ge> 0 \<and> integer < 256 then 0x41 # be8 1 (unat w)
      else if integer \<ge> - 256 \<and> integer < 0 then 0x4D # be8 1 (unat w)
      else if integer \<ge> 0 \<and> integer < 65536 then 0x50 # be8 2 (unat w)
      else if integer \<ge> - 65536 \<and> integer < 0 then 0x4E # be8 2 (unat w)
      else if integer \<ge> 0 \<and> integer < 0x100000000 then 0x4A # be8 4 (unat w)
      else if integer \<ge> - 0x100000000 \<and> integer < 0 then 0x4F # be8 4 (unat w)
      else 0x4B # be8 8 (unat w))"

definition append_push_integer :: "64 word \<Rightarrow> xparser \<Rightarrow> xparser" where
  "append_push_integer w = add_bytes (integer_code w)"

definition double_code :: "'n xpath_env \<Rightarrow> 64 word \<Rightarrow> 8 word list" where
  "double_code env d = (if fl_equal (x_double env) d (fl_zero (x_double env)) then [0x43] else 0x42 # be8 8 (unat d))"

definition append_push_double :: "'n xpath_env \<Rightarrow> 64 word \<Rightarrow> xparser \<Rightarrow> xparser" where
  "append_push_double env d = add_bytes (double_code env d)"

definition append_push_token :: "'n xpath_env \<Rightarrow> xtoken \<Rightarrow> xparser \<Rightarrow> xparser outcome" where
  "append_push_token env t s =
     (case f_token t of
        TOK_ASTERISK \<Rightarrow> returnO (append_push_string env (qs ''*'') s)
      | TOK_STRING \<Rightarrow> returnO (append_push_string env (f_string t) s)
      | TOK_PREFIX \<Rightarrow> returnO (append_push_string env (f_string t) s)
      | TOK_NCNAME \<Rightarrow> returnO (append_push_string env (f_string t) s)
      | TOK_INTEGER \<Rightarrow> returnO (append_push_integer (f_integer t) s)
      | TOK_REAL \<Rightarrow> returnO (append_push_double env (f_real t) s)
      | _ \<Rightarrow> failO InternalError)"

fun node_type_number :: "tok_t \<Rightarrow> 64 word option" where
  "node_type_number TOK_NODE_TYPE_COMMENT = Some 0"
| "node_type_number TOK_NODE_TYPE_NODE = Some 1"
| "node_type_number TOK_NODE_TYPE_PROCESSING_INSTRUCTION = Some 2"
| "node_type_number TOK_NODE_TYPE_TEXT = Some 3"
| "node_type_number _ = None"

fun axis_number :: "axis_t \<Rightarrow> 64 word" where
  "axis_number AXIS_ANCESTOR = 0"
| "axis_number AXIS_ANCESTOR_OR_SELF = 1"
| "axis_number AXIS_ATTRIBUTE = 2"
| "axis_number AXIS_CHILD = 3"
| "axis_number AXIS_DESCENDANT = 4"
| "axis_number AXIS_DESCENDANT_OR_SELF = 5"
| "axis_number AXIS_FOLLOWING = 6"
| "axis_number AXIS_FOLLOWING_SIBLING = 7"
| "axis_number AXIS_NAMESPACE = 8"
| "axis_number AXIS_PARENT = 9"
| "axis_number AXIS_PRECEDING = 10"
| "axis_number AXIS_PRECEDING_SIBLING = 11"
| "axis_number AXIS_SELF = 12"

definition append_axis :: "'n xpath_env \<Rightarrow> xtoken \<Rightarrow> xtoken \<Rightarrow> xtoken \<Rightarrow> xparser \<Rightarrow> xparser outcome" where
  "append_axis env axis prefix local_part s =
     bindO (if f_token prefix = TOK_UNDEFINED then
              (case node_type_number (f_token local_part) of
                 None \<Rightarrow> failO InvalidError
               | Some n \<Rightarrow> returnO (append_push_string env (f_string axis) (append_push_integer n s)))
            else bindO (append_push_token env local_part s) (append_push_token env prefix)) (\<lambda>s.
       case f_token axis of
         TOK_AXIS_NAME a \<Rightarrow> returnO (append_instruction 0x80 (append_push_integer (axis_number a) s))
       | _ \<Rightarrow> failO InvalidError)"

section \<open>Names\<close>

definition node_type_names :: "(qstring \<times> tok_t) list" where
  "node_type_names =
     [(qs ''comment'', TOK_NODE_TYPE_COMMENT), (qs ''text'', TOK_NODE_TYPE_TEXT),
      (qs ''processing-instruction'', TOK_NODE_TYPE_PROCESSING_INSTRUCTION), (qs ''node'', TOK_NODE_TYPE_NODE)]"

definition token_is_node_type :: "xtoken \<Rightarrow> xtoken option" where
  "token_is_node_type t =
     (if f_token t = TOK_NCNAME then map_option (\<lambda>k. t\<lparr>f_token := k\<rparr>) (map_of node_type_names (f_string t))
      else if node_type_number (f_token t) \<noteq> None then Some t else None)"

definition axis_names :: "(qstring \<times> axis_t) list" where
  "axis_names =
     [(qs ''ancestor'', AXIS_ANCESTOR), (qs ''ancestor-or-self'', AXIS_ANCESTOR_OR_SELF), (qs ''attribute'', AXIS_ATTRIBUTE),
      (qs ''child'', AXIS_CHILD), (qs ''descendant'', AXIS_DESCENDANT), (qs ''descendant-or-self'', AXIS_DESCENDANT_OR_SELF),
      (qs ''following'', AXIS_FOLLOWING), (qs ''following-sibling'', AXIS_FOLLOWING_SIBLING), (qs ''namespace'', AXIS_NAMESPACE),
      (qs ''parent'', AXIS_PARENT), (qs ''preceding'', AXIS_PRECEDING), (qs ''preceding-sibling'', AXIS_PRECEDING_SIBLING),
      (qs ''self'', AXIS_SELF)]"

text \<open>A name that is not an axis falls through to the cases that return true.\<close>

definition token_is_axis_name :: "xtoken \<Rightarrow> xtoken option" where
  "token_is_axis_name t =
     (case f_token t of
        TOK_NCNAME \<Rightarrow> (case map_of axis_names (f_string t) of Some a \<Rightarrow> Some (t\<lparr>f_token := TOK_AXIS_NAME a\<rparr>) | None \<Rightarrow> Some t)
      | TOK_AXIS_NAME a \<Rightarrow> Some t
      | _ \<Rightarrow> None)"

section \<open>Operators\<close>

text \<open>The loop of the operators of one level: while there is an operator, its operand and then its instruction.\<close>

fun binary_loop :: "'n xpath_env \<Rightarrow> (xtoken \<Rightarrow> 8 word option) \<Rightarrow> (xparser \<Rightarrow> xparser outcome) \<Rightarrow> nat \<Rightarrow> xparser \<Rightarrow> xparser outcome" where
  "binary_loop env operator operand 0 s = None"
| "binary_loop env operator operand (Suc k) s =
     (case operator (f_last_token s) of
        None \<Rightarrow> returnO s
      | Some inst \<Rightarrow>
          bindO (get_token env s) (\<lambda>s. bindO (operand s) (\<lambda>s. binary_loop env operator operand k (append_instruction inst s))))"

definition multiplicative_operator :: "xtoken \<Rightarrow> 8 word option" where
  "multiplicative_operator t =
     (case f_token t of
        TOK_ASTERISK \<Rightarrow> Some 0x6E
      | TOK_NCNAME \<Rightarrow>
          if f_string t = qs ''div'' then Some 0x64 else if f_string t = qs ''idiv'' then Some 0x69
          else if f_string t = qs ''mod'' then Some 0x6D else None
      | _ \<Rightarrow> None)"

definition additive_operator :: "xtoken \<Rightarrow> 8 word option" where
  "additive_operator t = (case f_token t of TOK_PLUS \<Rightarrow> Some 0x60 | TOK_MINUS \<Rightarrow> Some 0x75 | _ \<Rightarrow> None)"

definition relational_operator :: "xtoken \<Rightarrow> 8 word option" where
  "relational_operator t =
     (case f_token t of
        TOK_LESS_THAN \<Rightarrow> Some 0x6C | TOK_LESS_OR_EQUAL \<Rightarrow> Some 0x6B | TOK_GREATER_THAN \<Rightarrow> Some 0x68 | TOK_GREATER_OR_EQUAL \<Rightarrow> Some 0x67
      | _ \<Rightarrow> None)"

definition equality_operator :: "xtoken \<Rightarrow> 8 word option" where
  "equality_operator t = (case f_token t of TOK_EQUAL \<Rightarrow> Some 0x65 | TOK_NOT_EQUAL \<Rightarrow> Some 0x71 | _ \<Rightarrow> None)"

definition name_operator :: "string \<Rightarrow> 8 word \<Rightarrow> xtoken \<Rightarrow> 8 word option" where
  "name_operator name inst t = (if f_token t = TOK_NCNAME \<and> f_string t = qs name then Some inst else None)"

definition pipe_operator :: "xtoken \<Rightarrow> 8 word option" where
  "pipe_operator t = (if f_token t = TOK_PIPE then Some 0x89 else None)"

section \<open>Function calls\<close>

definition no_argument_functions :: "(qstring \<times> 8 word list) list" where
  "no_argument_functions =
     [(qs ''false'', [0x48]), (qs ''last'', [0x82, 0x88]), (qs ''position'', [0x86]), (qs ''true'', [0x52])]"

definition one_argument_functions :: "(qstring \<times> 8 word list) list" where
  "one_argument_functions =
     [(qs ''ceiling'', [0x62]), (qs ''count'', [0x88]), (qs ''empty'', [0x88, 0x53, 0x65]), (qs ''exists'', [0x88, 0x53, 0x65]),
      (qs ''floor'', [0x66]), (qs ''not'', [0x70]), (qs ''round'', [0x73]), (qs ''string-length'', [0x74])]"

definition internal_functions :: "(qstring \<times> internal_func) list" where
  "internal_functions = [(qs ''avg'', FUNC_AVG), (qs ''max'', FUNC_MAX), (qs ''min'', FUNC_MIN), (qs ''sum'', FUNC_SUM)]"

fun more_arguments :: "'n xpath_env \<Rightarrow> (xparser \<Rightarrow> xparser outcome) \<Rightarrow> nat \<Rightarrow> xparser \<Rightarrow> xparser outcome" where
  "more_arguments env oe 0 s = None"
| "more_arguments env oe (Suc k) s =
     (if last_tok s = TOK_COMMA then bindO (get_token env s) (\<lambda>s. bindO (oe s) (more_arguments env oe k)) else returnO s)"

definition function_arguments :: "'n xpath_env \<Rightarrow> (xparser \<Rightarrow> xparser outcome) \<Rightarrow> nat \<Rightarrow> xparser \<Rightarrow> xparser outcome" where
  "function_arguments env oe k s =
     (if last_tok s \<noteq> TOK_CLOSE_PARENTHESIS then
        bindO (oe s) (\<lambda>s. bindO (more_arguments env oe k s) (\<lambda>s.
          if last_tok s \<noteq> TOK_CLOSE_PARENTHESIS then failO SyntaxError else returnO s))
      else returnO s)"

definition function_call :: "'n xpath_env \<Rightarrow> (xparser \<Rightarrow> xparser outcome) \<Rightarrow> nat \<Rightarrow> xtoken \<Rightarrow> xtoken \<Rightarrow> xparser \<Rightarrow> xparser outcome" where
  "function_call env oe k prefix_token local_part s =
     bindO (get_token env s) (\<lambda>s.
       let prefix = (if f_string prefix_token = qs ''*'' \<or> f_string prefix_token = [] then qs ''fn'' else f_string prefix_token);
           name = f_string local_part in
       case (if prefix = qs ''fn'' then map_of no_argument_functions name else None) of
         Some code \<Rightarrow>
           if last_tok s \<noteq> TOK_CLOSE_PARENTHESIS then failO SyntaxError else get_token env (add_bytes code s)
       | None \<Rightarrow>
         (case (if prefix = qs ''fn'' then map_of one_argument_functions name else None) of
            Some code \<Rightarrow>
              if last_tok s = TOK_CLOSE_PARENTHESIS then failO SyntaxError
              else bindO (oe s) (\<lambda>s.
                if last_tok s \<noteq> TOK_CLOSE_PARENTHESIS then failO SyntaxError else get_token env (add_bytes code s))
          | None \<Rightarrow>
              bindO (function_arguments env oe k (append_instruction 0x47 s)) (\<lambda>s.
              bindO (get_token env s) (\<lambda>s.
                case (if prefix = qs ''fn'' then map_of internal_functions name else None) of
                  None \<Rightarrow> failO UnknownFunctionError
                | Some f \<Rightarrow> returnO (append_instruction 0x01 (append_push_integer (func_number f) s))))))"

section \<open>Predicates\<close>

definition dollar_name :: "32 word \<Rightarrow> qstring" where
  "dollar_name counter = qs ''$'' @ q_number (int (unat counter))"

fun predicate_loop :: "'n xpath_env \<Rightarrow> (xparser \<Rightarrow> xparser outcome) \<Rightarrow> nat \<Rightarrow> xparser \<Rightarrow> xparser outcome" where
  "predicate_loop env oe 0 s = None"
| "predicate_loop env oe (Suc k) s =
     bindO (get_token env s) (\<lambda>s.
       let next_node = word_of_nat (length (f_program s)) in
       bindO (oe (append_instruction 0x11 (append_push_string env (f_predicate_variable s) (append_instruction 0x8C s)))) (\<lambda>s.
         if last_tok s \<noteq> TOK_CLOSE_SQUARE_BRACKET then failO SyntaxError
         else
           let s = append_push_integer next_node (append_instruction 0x8A s);
               s = add_bytes [0x05, 0x84, 0x83, 0x44, 0x85] s in
           bindO (get_token env s) (\<lambda>s. if last_tok s = TOK_OPEN_SQUARE_BRACKET then predicate_loop env oe k s else returnO s)))"

definition predicate :: "'n xpath_env \<Rightarrow> (xparser \<Rightarrow> xparser outcome) \<Rightarrow> nat \<Rightarrow> xparser \<Rightarrow> xparser outcome" where
  "predicate env oe k s =
     (let counter = f_label_counter s + 1;
          s' = append_instruction 0x8B (s\<lparr>f_label_counter := counter, f_predicate_variable := dollar_name counter\<rparr>) in
      bindO (predicate_loop env oe k s') (\<lambda>s''. returnO ((add_bytes [0x82, 0x8E] s'')\<lparr>f_predicate_variable := f_predicate_variable s\<rparr>)))"

section \<open>Location paths\<close>

record path_state =
  p_labels :: "nat list"
  p_variable :: qstring
  p_function_call_valid :: bool
  p_first_round :: bool

text \<open>Replace the current node set by a context, and note where its loop begins.\<close>

definition open_context :: "'n xpath_env \<Rightarrow> path_state \<Rightarrow> xparser \<Rightarrow> path_state \<times> xparser" where
  "open_context env ps s =
     (let s = (if p_variable ps \<noteq> [] then append_instruction 0x10 (append_push_string env (p_variable ps) s) else s);
          s = append_instruction 0x8B s
      in (ps\<lparr>p_variable := [], p_labels := p_labels ps @ [length (f_program s)]\<rparr>, append_instruction 0x8C s))"

definition apply_axis ::
  "'n xpath_env \<Rightarrow> (xparser \<Rightarrow> xparser outcome) \<Rightarrow> nat \<Rightarrow> bool \<Rightarrow> xtoken \<Rightarrow> xtoken \<Rightarrow> xtoken \<Rightarrow> path_state \<Rightarrow> xparser
   \<Rightarrow> (path_state \<times> xparser) outcome" where
  "apply_axis env oe k accept_predicate axis_token prefix_token save_token ps s =
     (let (ps, s) = open_context env ps s in
      bindO (append_axis env axis_token prefix_token save_token s) (\<lambda>s.
        bindO (if accept_predicate \<and> last_tok s = TOK_OPEN_SQUARE_BRACKET then predicate env oe k s else returnO s) (\<lambda>s. returnO (ps, s))))"

text \<open>
  The result of one step of a path: the path continues (\<open>Inl\<close>), or it is finished (\<open>Inr\<close>).
\<close>

type_synonym step_outcome = "((path_state \<times> xparser) + (path_state \<times> xparser)) outcome"

definition continue_path :: "(path_state \<times> xparser) outcome \<Rightarrow> step_outcome" where
  "continue_path r = bindO r (\<lambda>x. returnO (Inl x))"

text \<open>What follows a name: a prefix, a function call, a node type, or nothing.\<close>

definition after_name ::
  "'n xpath_env \<Rightarrow> (xparser \<Rightarrow> xparser outcome) \<Rightarrow> nat \<Rightarrow> xtoken \<Rightarrow> xtoken \<Rightarrow> xtoken \<Rightarrow> path_state \<Rightarrow> xparser \<Rightarrow> step_outcome" where
  "after_name env oe k axis_token prefix_token save_token ps s =
     (if last_tok s = TOK_COLON then
        bindO (get_token env s) (\<lambda>s.
          let prefix_token = save_token; save_token = f_last_token s in
          bindO (get_token env s) (\<lambda>s.
            if f_token save_token = TOK_ASTERISK then continue_path (apply_axis env oe k True axis_token prefix_token save_token ps s)
            else if f_token save_token = TOK_NCNAME then
              if p_function_call_valid ps \<and> last_tok s = TOK_OPEN_PARENTHESIS then
                bindO (function_call env oe k prefix_token save_token s) (\<lambda>s. returnO (Inr (ps, s)))
              else continue_path (apply_axis env oe k True axis_token prefix_token save_token ps s)
            else failO SyntaxError))
      else if last_tok s = TOK_OPEN_PARENTHESIS then
        (case token_is_node_type save_token of
           None \<Rightarrow>
             if p_function_call_valid ps then
               bindO (function_call env oe k prefix_token save_token (s\<lparr>f_last_token := save_token\<rparr>)) (\<lambda>s. returnO (Inr (ps, s)))
             else failO SyntaxError
         | Some t \<Rightarrow>
             bindO (get_token env (s\<lparr>f_last_token := t\<rparr>)) (\<lambda>s.
               if last_tok s = TOK_STRING then failO InvalidError
               else if last_tok s = TOK_CLOSE_PARENTHESIS then failO SyntaxError
               else continue_path (apply_axis env oe k True (axis_token\<lparr>f_string := []\<rparr>) (prefix_token\<lparr>f_token := TOK_UNDEFINED\<rparr>)
                      (save_token\<lparr>f_token := f_token t\<rparr>) ps s)))
      else continue_path (apply_axis env oe k True axis_token prefix_token save_token ps s))"

text \<open>The node test after \<open>@\<close> or after the name of an axis.\<close>

definition node_test ::
  "'n xpath_env \<Rightarrow> (xparser \<Rightarrow> xparser outcome) \<Rightarrow> nat \<Rightarrow> xtoken \<Rightarrow> xtoken \<Rightarrow> path_state \<Rightarrow> xparser \<Rightarrow> step_outcome" where
  "node_test env oe k axis_token prefix_token ps s =
     bindO (get_token env s) (\<lambda>s.
       let save_token = f_last_token s in
       if last_tok s = TOK_ASTERISK then
         bindO (get_token env s) (\<lambda>s. continue_path (apply_axis env oe k True axis_token prefix_token save_token ps s))
       else if last_tok s \<noteq> TOK_NCNAME then failO SyntaxError
       else bindO (get_token env s) (after_name env oe k axis_token prefix_token save_token ps))"

definition axis_token_of :: "axis_t \<Rightarrow> string \<Rightarrow> xtoken" where
  "axis_token_of a name = new_token\<lparr>f_token := TOK_AXIS_NAME a, f_string := qs name\<rparr>"

definition any_prefix_token :: xtoken where
  "any_prefix_token = new_token\<lparr>f_token := TOK_PREFIX, f_string := qs ''*''\<rparr>"

definition path_step :: "'n xpath_env \<Rightarrow> (xparser \<Rightarrow> xparser outcome) \<Rightarrow> nat \<Rightarrow> bool \<Rightarrow> path_state \<Rightarrow> xparser \<Rightarrow> step_outcome" where
  "path_step env oe k double_slash ps s =
     (let save_token = f_last_token s;
          axis_token = (if double_slash then axis_token_of AXIS_DESCENDANT ''descendant'' else axis_token_of AXIS_CHILD ''child'') in
      case last_tok s of
        TOK_DOT \<Rightarrow>
          continue_path (apply_axis env oe k False (axis_token_of AXIS_SELF ''self'') any_prefix_token
            (save_token\<lparr>f_token := TOK_NCNAME, f_string := qs ''*''\<rparr>) ps s)
      | TOK_DOUBLE_DOT \<Rightarrow>
          continue_path (apply_axis env oe k False (axis_token_of AXIS_PARENT ''parent'') any_prefix_token
            (save_token\<lparr>f_token := TOK_NCNAME, f_string := qs ''*''\<rparr>) ps s)
      | TOK_ASTERISK \<Rightarrow>
          bindO (get_token env s) (\<lambda>s. continue_path (apply_axis env oe k True axis_token any_prefix_token save_token ps s))
      | TOK_AT \<Rightarrow> node_test env oe k (axis_token_of AXIS_ATTRIBUTE ''attribute'') any_prefix_token ps s
      | TOK_NCNAME \<Rightarrow>
          bindO (get_token env s) (\<lambda>s.
            if last_tok s = TOK_DOUBLE_COLON then
              (case token_is_axis_name save_token of
                 None \<Rightarrow> failO SyntaxError
               | Some t \<Rightarrow> node_test env oe k t any_prefix_token (ps\<lparr>p_function_call_valid := False\<rparr>) (s\<lparr>f_last_token := t\<rparr>))
            else after_name env oe k axis_token any_prefix_token save_token ps s)
      | _ \<Rightarrow> if \<not> double_slash then returnO (Inr (ps, s)) else failO SyntaxError)"

fun path_loop :: "'n xpath_env \<Rightarrow> (xparser \<Rightarrow> xparser outcome) \<Rightarrow> nat \<Rightarrow> path_state \<Rightarrow> xparser \<Rightarrow> (path_state \<times> xparser) outcome" where
  "path_loop env oe 0 ps s = None"
| "path_loop env oe (Suc k) ps s =
     (if last_tok s \<in> {TOK_SLASH, TOK_DOUBLE_SLASH} \<or> p_first_round ps then
        let double_slash = (last_tok s = TOK_DOUBLE_SLASH) in
        bindO (if last_tok s \<in> {TOK_SLASH, TOK_DOUBLE_SLASH} then
                 let (ps', s') = (if p_first_round ps then
                                    (let (ps', s') = open_context env ps s in (ps', append_instruction 0x81 s'))
                                  else (ps, s))
                 in bindO (get_token env s') (\<lambda>s'. returnO (ps', s'))
               else returnO (ps, s)) (\<lambda>(ps, s).
          bindO (path_step env oe k double_slash (ps\<lparr>p_first_round := False\<rparr>) s) (\<lambda>r.
            case r of
              Inr x \<Rightarrow> returnO x
            | Inl (ps, s) \<Rightarrow> path_loop env oe k (ps\<lparr>p_function_call_valid := False\<rparr>) s))
      else returnO (ps, s))"

text \<open>The end of the loops over the contexts, the last one first.\<close>

definition close_context :: "nat \<Rightarrow> xparser \<Rightarrow> xparser" where
  "close_context label s = add_bytes [0x05, 0x84, 0x8E] (append_push_integer (word_of_nat label) (append_instruction 0x8D s))"

definition location_path :: "'n xpath_env \<Rightarrow> (xparser \<Rightarrow> xparser outcome) \<Rightarrow> nat \<Rightarrow> xparser \<Rightarrow> xparser outcome" where
  "location_path env oe k s =
     bindO (path_loop env oe k \<lparr>p_labels = [], p_variable = f_predicate_variable s, p_function_call_valid = (last_tok s = TOK_NCNAME),
              p_first_round = True\<rparr> s) (\<lambda>(ps, s). returnO (foldr close_context (p_labels ps) s))"

section \<open>Expressions\<close>

definition variable_reference :: "'n xpath_env \<Rightarrow> xparser \<Rightarrow> xparser outcome" where
  "variable_reference env s =
     bindO (get_token env s) (\<lambda>s.
       if last_tok s \<noteq> TOK_NCNAME then failO SyntaxError
       else
         let prefix = f_last_token s in
         bindO (get_token env s) (\<lambda>s.
         bindO (if last_tok s = TOK_COLON then
                  bindO (get_token env s) (\<lambda>s.
                    if last_tok s \<noteq> TOK_NCNAME then failO SyntaxError
                    else returnO (prefix\<lparr>f_string := f_string prefix @ qs '':'' @ last_string s\<rparr>, s))
                else returnO (prefix, s)) (\<lambda>(prefix, s).
           bindO (append_push_token env prefix s) (\<lambda>s. returnO (append_instruction 0x10 s)))))"

definition path_expr :: "'n xpath_env \<Rightarrow> (xparser \<Rightarrow> xparser outcome) \<Rightarrow> nat \<Rightarrow> xparser \<Rightarrow> xparser outcome" where
  "path_expr env oe k s =
     (if last_tok s = TOK_OPEN_PARENTHESIS then
        bindO (oe s) (\<lambda>s. if last_tok s \<noteq> TOK_CLOSE_PARENTHESIS then failO SyntaxError else returnO s)
      else if last_tok s \<in> {TOK_INTEGER, TOK_REAL, TOK_STRING} then bindO (append_push_token env (f_last_token s) s) (get_token env)
      else if last_tok s = TOK_DOLLAR then variable_reference env s
      else if last_tok s \<in> {TOK_SLASH, TOK_DOUBLE_SLASH, TOK_NCNAME, TOK_AT, TOK_DOT, TOK_DOUBLE_DOT} then location_path env oe k s
      else if last_tok s = TOK_PIPE then returnO s
      else failO SyntaxError)"

definition union_expr :: "'n xpath_env \<Rightarrow> (xparser \<Rightarrow> xparser outcome) \<Rightarrow> nat \<Rightarrow> xparser \<Rightarrow> xparser outcome" where
  "union_expr env oe k s = bindO (path_expr env oe k s) (binary_loop env pipe_operator (path_expr env oe k) k)"

fun skip_signs :: "'n xpath_env \<Rightarrow> nat \<Rightarrow> bool \<Rightarrow> xparser \<Rightarrow> (bool \<times> xparser) outcome" where
  "skip_signs env 0 negate s = None"
| "skip_signs env (Suc k) negate s =
     (if last_tok s = TOK_MINUS then bindO (get_token env s) (skip_signs env k (\<not> negate))
      else if last_tok s = TOK_PLUS then bindO (get_token env s) (skip_signs env k negate)
      else returnO (negate, s))"

definition unary_expr :: "'n xpath_env \<Rightarrow> (xparser \<Rightarrow> xparser outcome) \<Rightarrow> nat \<Rightarrow> xparser \<Rightarrow> xparser outcome" where
  "unary_expr env oe k s =
     bindO (skip_signs env k False s) (\<lambda>(negate, s). bindO (union_expr env oe k s) (\<lambda>s.
       returnO (if negate then append_instruction 0x6F s else s)))"

definition multiplicative_expr :: "'n xpath_env \<Rightarrow> (xparser \<Rightarrow> xparser outcome) \<Rightarrow> nat \<Rightarrow> xparser \<Rightarrow> xparser outcome" where
  "multiplicative_expr env oe k s = bindO (unary_expr env oe k s) (binary_loop env multiplicative_operator (unary_expr env oe k) k)"

definition additive_expr :: "'n xpath_env \<Rightarrow> (xparser \<Rightarrow> xparser outcome) \<Rightarrow> nat \<Rightarrow> xparser \<Rightarrow> xparser outcome" where
  "additive_expr env oe k s = bindO (multiplicative_expr env oe k s) (binary_loop env additive_operator (multiplicative_expr env oe k) k)"

definition relational_expr :: "'n xpath_env \<Rightarrow> (xparser \<Rightarrow> xparser outcome) \<Rightarrow> nat \<Rightarrow> xparser \<Rightarrow> xparser outcome" where
  "relational_expr env oe k s = bindO (additive_expr env oe k s) (binary_loop env relational_operator (additive_expr env oe k) k)"

definition equality_expr :: "'n xpath_env \<Rightarrow> (xparser \<Rightarrow> xparser outcome) \<Rightarrow> nat \<Rightarrow> xparser \<Rightarrow> xparser outcome" where
  "equality_expr env oe k s = bindO (relational_expr env oe k s) (binary_loop env equality_operator (relational_expr env oe k) k)"

definition and_expr :: "'n xpath_env \<Rightarrow> (xparser \<Rightarrow> xparser outcome) \<Rightarrow> nat \<Rightarrow> xparser \<Rightarrow> xparser outcome" where
  "and_expr env oe k s = bindO (equality_expr env oe k s) (binary_loop env (name_operator ''and'' 0x61) (equality_expr env oe k) k)"

fun or_expr :: "'n xpath_env \<Rightarrow> nat \<Rightarrow> xparser \<Rightarrow> xparser outcome" where
  "or_expr env 0 s = None"
| "or_expr env (Suc k) s =
     bindO (and_expr env (or_expr env k) k s) (binary_loop env (name_operator ''or'' 0x72) (and_expr env (or_expr env k) k) k)"

section \<open>Programs\<close>

definition MAGIC :: "8 word list" where
  "MAGIC = [0x58, 0x50, 0x54, 0x48]"

definition new_parser :: "'n xpath_env \<Rightarrow> qstring \<Rightarrow> xparser" where
  "new_parser env xpath =
     (let str = until_nul (x_toUtf8 env xpath); n = (if length str > 65535 then 65535 else length str) in
      \<lparr>f_in = xpath, f_unget_token = new_token, f_last_token = new_token, f_label_counter = 0, f_predicate_variable = [],
       f_program = MAGIC @ [1, 0] @ be8 2 n @ take n str\<rparr>)"

definition parse :: "'n xpath_env \<Rightarrow> nat \<Rightarrow> xparser \<Rightarrow> xparser outcome" where
  "parse env k s =
     bindO (get_token env s) (\<lambda>s.
       if last_tok s = TOK_UNDEFINED then failO SyntaxError
       else
         let s = s\<lparr>f_label_counter := 1, f_predicate_variable := dollar_name 1\<rparr>;
             s = append_instruction 0x11 (append_push_string env (f_predicate_variable s) s) in
         bindO (union_expr env (or_expr env k) k s) (\<lambda>s. returnO (append_instruction INST_END s)))"

text \<open>The program with the offset of its first instruction, as \<open>setProgram()\<close> finds it.\<close>

definition setProgram :: "program \<Rightarrow> (program \<times> nat) xres" where
  "setProgram p =
     (if length p < 8 then Inl Read_Outside
      else if take 4 p \<noteq> MAGIC then Inl InvalidMagic
      else if p ! 4 \<noteq> 1 \<or> p ! 5 \<noteq> 0 then Inl InvalidMagic
      else Inr (p, unat (p ! 6) * 256 + unat (p ! 7) + 8))"

text \<open>\<open>setXPath()\<close> and \<open>apply()\<close> of \<open>QDomXPath\<close>; without a program the nodes are the result.\<close>

definition setXPath :: "'n xpath_env \<Rightarrow> nat \<Rightarrow> qstring \<Rightarrow> (program \<times> nat) option outcome" where
  "setXPath env k xpath =
     (if xpath = [] \<or> xpath = qs ''.'' then returnO None
      else bindO (parse env k (new_parser env xpath)) (\<lambda>s. returnO (Some (f_program s, length (f_program (new_parser env xpath))))))"

definition QDomXPath_apply :: "'n xpath_env \<Rightarrow> (program \<times> nat) option \<Rightarrow> 'n list \<Rightarrow> 'n list xres option" where
  "QDomXPath_apply env impl nodes = (case impl of None \<Rightarrow> Some (Inr nodes) | Some (p, offset) \<Rightarrow> xpath_apply env p offset nodes)"

end
