(* ===== verification/Xpath_Exec.thy ===== *)
theory Xpath_Exec
  imports Xpath_Compiler
begin

text \<open>
  The execution of pieces of XPath programs.  A piece of code at an offset of a larger program takes the machine from one state to another, or to
  an exception (\<open>yields\<close>); both compose.  The lemmas: what every instruction that the compiler emits does on an explicit state; numbers
  and strings that are emitted are the ones that are pushed.
\<close>

section \<open>Code in a program\<close>

definition code_at :: "program \<Rightarrow> nat \<Rightarrow> 8 word list \<Rightarrow> bool" where
  "code_at p off code \<longleftrightarrow> off + length code \<le> length p \<and> take (length code) (drop off p) = code"

lemma code_at_Nil [simp]: "code_at p off [] \<longleftrightarrow> off \<le> length p"
  by (simp add: code_at_def)

lemma code_at_Cons [simp]: "code_at p off (x # xs) \<longleftrightarrow> off < length p \<and> p ! off = x \<and> code_at p (Suc off) xs"
  by (cases "off < length p") (auto simp: code_at_def Cons_nth_drop_Suc [symmetric])

lemma code_at_le: "code_at p off xs \<Longrightarrow> off + length xs \<le> length p"
  by (simp add: code_at_def)

lemma code_at_append [simp]: "code_at p off (xs @ ys) \<longleftrightarrow> code_at p off xs \<and> code_at p (off + length xs) ys"
  by (induction xs arbitrary: off) (auto dest: code_at_le)

section \<open>Steps and their outcome\<close>

definition moves :: "'n xpath_env \<Rightarrow> program \<Rightarrow> 'n machine \<Rightarrow> 'n machine \<Rightarrow> bool" where
  "moves env p m m' \<longleftrightarrow> pc_of m < length p \<and> p ! pc_of m \<noteq> INST_END \<and> step env p m = Inr m'"

abbreviation reaches :: "'n xpath_env \<Rightarrow> program \<Rightarrow> 'n machine \<Rightarrow> 'n machine \<Rightarrow> bool" where
  "reaches env p \<equiv> (moves env p)\<^sup>*\<^sup>*"

definition fails :: "'n xpath_env \<Rightarrow> program \<Rightarrow> 'n machine \<Rightarrow> xpath_error \<Rightarrow> bool" where
  "fails env p m e \<longleftrightarrow> (\<exists>m'. reaches env p m m' \<and> pc_of m' < length p \<and> p ! pc_of m' \<noteq> INST_END \<and> step env p m' = Inl e)"

definition yields :: "'n xpath_env \<Rightarrow> program \<Rightarrow> 'n machine \<Rightarrow> 'n machine xres \<Rightarrow> bool" where
  "yields env p m r = (case r of Inl e \<Rightarrow> fails env p m e | Inr m' \<Rightarrow> reaches env p m m')"

lemma yields_simps [simp]:
  "yields env p m (Inl e) = fails env p m e" "yields env p m (Inr m') = reaches env p m m'"
  by (simp_all add: yields_def)

lemma yields_trans: "reaches env p m m' \<Longrightarrow> yields env p m' r \<Longrightarrow> yields env p m r"
  by (cases r) (auto simp: fails_def intro: rtranclp_trans)

lemma yields_step:
  assumes "pc_of m < length p" "p ! pc_of m \<noteq> INST_END" "step env p m = r"
  shows "yields env p m r"
  using assms by (cases r) (auto simp: fails_def moves_def intro: exI [of _ m])

lemma yields_next:
  assumes "pc_of m < length p" "p ! pc_of m \<noteq> INST_END" "step env p m = Inr m'" "yields env p m' r"
  shows "yields env p m r"
  using yields_trans [of env p m m' r] yields_step [of m p env "Inr m'"] assms by simp

lemma run_moves: "moves env p m m' \<Longrightarrow> run env p m = run env p m'"
  by (subst run.simps) (auto simp: moves_def)

lemma run_reaches: "reaches env p m m' \<Longrightarrow> run env p m = run env p m'"
  by (induction rule: rtranclp_induct) (auto simp: run_moves)

lemma run_yields:
  assumes "yields env p m r" "\<And>m'. r = Inr m' \<Longrightarrow> pc_of m' < length p \<and> p ! pc_of m' = INST_END"
  shows "run env p m = Some r"
proof (cases r)
  case (Inl e)
  then obtain m' where m': "reaches env p m m'" "pc_of m' < length p" "p ! pc_of m' \<noteq> INST_END" "step env p m' = Inl e"
    using assms(1) by (auto simp: fails_def)
  then have "run env p m' = Some (Inl e)" by (subst run.simps) simp
  then show ?thesis using run_reaches [OF m'(1)] Inl by simp
next
  case (Inr m')
  then have "run env p m' = Some r" using assms(2) by (subst run.simps) simp
  then show ?thesis using run_reaches assms(1) Inr by fastforce
qed

section \<open>Explicit states\<close>

abbreviation state ::
  "nat \<Rightarrow> 'n variant list \<Rightarrow> 'n context_t list \<Rightarrow> (qstring \<rightharpoonup> 'n variant) \<Rightarrow> 'n function_t list \<Rightarrow> 'n machine" where
  "state pc st cs vs cl \<equiv> \<lparr>f_back = \<lparr>f_pc = pc, f_stack = st, f_contexts = cs, f_variables = vs\<rparr>, f_callers = cl\<rparr>"

lemma dispatch_simps [simp]:
  "dispatch env p 0x01 = inst_call env" "dispatch env p 0x05 = inst_jump_if_true env"
  "dispatch env p 0x10 = inst_get_variable env" "dispatch env p 0x11 = inst_set_variable env"
  "dispatch env p 0x40 = inst_push_any_string" "dispatch env p 0x41 = inst_push_byte p" "dispatch env p 0x42 = inst_push_double p"
  "dispatch env p 0x43 = inst_push_double_zero env" "dispatch env p 0x44 = inst_push_empty_node_set"
  "dispatch env p 0x46 = inst_push_empty_string" "dispatch env p 0x47 = inst_push_end_of_arguments" "dispatch env p 0x48 = inst_push_false"
  "dispatch env p 0x49 = inst_push_large_string env p" "dispatch env p 0x4A = inst_push_long p" "dispatch env p 0x4B = inst_push_longlong p"
  "dispatch env p 0x4C = inst_push_medium_string env p" "dispatch env p 0x4D = inst_push_negative_byte p"
  "dispatch env p 0x4E = inst_push_negative_short p" "dispatch env p 0x4F = inst_push_negative_long p" "dispatch env p 0x50 = inst_push_short p"
  "dispatch env p 0x51 = inst_push_small_string env p" "dispatch env p 0x52 = inst_push_true" "dispatch env p 0x53 = inst_push_zero"
  by (simp_all add: dispatch_def g_instructions_def)

lemma dispatch_operators [simp]:
  "dispatch env p 0x60 = inst_add env" "dispatch env p 0x61 = inst_and" "dispatch env p 0x62 = inst_ceiling env"
  "dispatch env p 0x64 = inst_divide env" "dispatch env p 0x65 = inst_equal env" "dispatch env p 0x66 = inst_floor env"
  "dispatch env p 0x67 = inst_greater_or_equal env" "dispatch env p 0x68 = inst_greater_than env" "dispatch env p 0x69 = inst_idivide env"
  "dispatch env p 0x6B = inst_less_or_equal env" "dispatch env p 0x6C = inst_less_than env" "dispatch env p 0x6D = inst_modulo env"
  "dispatch env p 0x6E = inst_multiply env" "dispatch env p 0x6F = inst_negate env" "dispatch env p 0x70 = inst_not env"
  "dispatch env p 0x71 = inst_not_equal env" "dispatch env p 0x72 = inst_or" "dispatch env p 0x73 = inst_round env"
  "dispatch env p 0x74 = inst_string_length env" "dispatch env p 0x75 = inst_subtract env"
  by (simp_all add: dispatch_def g_instructions_def)

lemma dispatch_nodes [simp]:
  "dispatch env p 0x80 = inst_axis env" "dispatch env p 0x81 = inst_root env" "dispatch env p 0x82 = inst_get_node_set"
  "dispatch env p 0x83 = inst_set_node_set" "dispatch env p 0x84 = inst_get_result" "dispatch env p 0x85 = inst_set_result"
  "dispatch env p 0x86 = inst_get_position" "dispatch env p 0x88 = inst_node_set_size" "dispatch env p 0x89 = inst_merge_sets"
  "dispatch env p 0x8A = inst_predicate env" "dispatch env p 0x8B = inst_create_node_context" "dispatch env p 0x8C = inst_get_context_node"
  "dispatch env p 0x8D = inst_next_context_node" "dispatch env p 0x8E = inst_pop_context"
  by (simp_all add: dispatch_def g_instructions_def)

lemma step_code:
  "pc < length p \<Longrightarrow> step env p (state pc st cs vs cl) = dispatch env p (p ! pc) (state (Suc pc) st cs vs cl)"
  by (simp add: step_def machine_simps)

text \<open>One instruction of the code, given by its effect.\<close>

lemma yields_inst:
  assumes "pc < length p" "p ! pc = i" "i \<noteq> INST_END" "dispatch env p i (state (Suc pc) st cs vs cl) = r"
  shows "yields env p (state pc st cs vs cl) r"
  using yields_step [of "state pc st cs vs cl" p env r] assms by (simp add: step_code)

lemma yields_inst_next:
  assumes "pc < length p" "p ! pc = i" "i \<noteq> INST_END" "dispatch env p i (state (Suc pc) st cs vs cl) = Inr m" "yields env p m r"
  shows "yields env p (state pc st cs vs cl) r"
  using yields_trans [of env p "state pc st cs vs cl" m r] yields_inst [OF assms(1-4)] assms(5) by simp

section \<open>Numbers in the code\<close>

lemma length_be8 [simp]: "length (be8 n v) = n"
  by (induction n) simp_all

definition be_nat :: "nat \<Rightarrow> 8 word list \<Rightarrow> nat" where
  "be_nat = foldl (\<lambda>a b. 256 * a + unat b)"

lemma be_nat_simps [simp]: "be_nat acc [] = acc" "be_nat acc (b # bs) = be_nat (256 * acc + unat b) bs"
  by (simp_all add: be_nat_def)

lemma unat_byte: "unat (word_of_nat n :: 8 word) = n mod 256"
  by (simp add: unat_of_nat)

lemma be_nat_be8: "be_nat acc (be8 n v) = acc * 256 ^ n + v mod 256 ^ n"
proof (induction n arbitrary: acc)
  case (Suc n)
  have "v div 256 ^ n mod 256 * 256 ^ n + v mod 256 ^ n = v mod (256 ^ n * 256)"
    by (simp only: mod_mult2_eq) (simp add: mult.commute)
  then show ?case by (simp add: Suc.IH unat_byte algebra_simps)
qed simp

lemma get_next_number_code:
  "code_at p pc bs \<Longrightarrow> get_next_number (length bs) p acc (state pc st cs vs cl) = Inr (be_nat acc bs, state (pc + length bs) st cs vs cl)"
proof (induction bs arbitrary: pc acc)
  case (Cons b bs)
  then show ?case using Cons.IH [of "Suc pc" "256 * acc + unat b"]
    by (simp add: get_next_program_byte_def machine_simps)
qed simp

lemma get_next_number_be8:
  assumes "code_at p pc (be8 n v)"
  shows "get_next_number n p 0 (state pc st cs vs cl) = Inr (v mod 256 ^ n, state (pc + n) st cs vs cl)"
  using get_next_number_code [OF assms, of 0] by (simp add: be_nat_be8)

lemma take_bit_bytes: "word_of_nat (unat w mod 256 ^ n) = take_bit (8 * n) (w :: 64 word)"
proof -
  have "(256 :: nat) ^ n = 2 ^ (8 * n)" by (simp add: power_mult)
  then have "unat w mod 256 ^ n = take_bit (8 * n) (unat w)" by (simp add: take_bit_eq_mod)
  also have "\<dots> = unat (take_bit (8 * n) w)" by (simp add: unsigned_take_bit_eq)
  finally show ?thesis by simp
qed

lemma bit_sint64: "i < 64 \<Longrightarrow> bit (sint w) i \<longleftrightarrow> bit w i" for w :: "64 word"
  by (cases "i = 63") (auto simp: bit_sint_iff)

lemma take_bit_small:
  fixes w :: "64 word"
  assumes "0 \<le> sint w" "sint w < 2 ^ k"
  shows "take_bit k w = w"
proof (rule bit_word_eqI)
  fix i assume i: "i < LENGTH(64)"
  have "take_bit k (sint w) = sint w" using assms by (simp add: take_bit_int_eq_self)
  then have "bit (sint w) i \<longleftrightarrow> i < k \<and> bit (sint w) i" by (metis bit_take_bit_iff)
  then show "bit (take_bit k w) i \<longleftrightarrow> bit w i" using i bit_sint64 [of i w] by (auto simp: bit_take_bit_iff)
qed

lemma take_bit_negative:
  fixes w :: "64 word"
  assumes "- (2 ^ k) \<le> sint w" "sint w < 0"
  shows "take_bit k w OR NOT (mask k) = w"
proof (rule bit_word_eqI)
  fix i assume i: "i < LENGTH(64)"
  have s: "signed_take_bit k (sint w) = sint w" using assms by (intro signed_take_bit_int_eq_self) auto
  have "signed_take_bit k (sint w) < 0" using s assms(2) by simp
  then have "bit (sint w) k" by simp
  then have "bit (sint w) i" if "k \<le> i" using bit_signed_take_bit_iff [of k "sint w" i] that unfolding s by (simp add: min_def split: if_splits)
  then have "bit w i" if "k \<le> i" using that i bit_sint64 [of i w] by simp
  then show "bit (take_bit k w OR NOT (mask k)) i \<longleftrightarrow> bit w i"
    using i by (cases "k \<le> i") (simp_all add: bit_or_iff bit_take_bit_iff bit_not_iff bit_mask_iff)
qed

lemmas exec_simps = pushA_def push_def machine_simps pop_variant_data_def

lemma reaches_inst:
  assumes "pc < length p" "p ! pc = i" "i \<noteq> INST_END" "dispatch env p i (state (Suc pc) st cs vs cl) = Inr m"
  shows "reaches env p (state pc st cs vs cl) m"
  using yields_inst [OF assms] by simp

lemma next_byte_be8:
  assumes "code_at p pc (be8 1 v)"
  shows "get_next_program_byte p (state pc st cs vs cl) = Inr (word_of_nat v, state (Suc pc) st cs vs cl)"
  using assms by (simp add: get_next_program_byte_def machine_simps)

lemma ucast_byte: "ucast (word_of_nat (unat w) :: 8 word) = take_bit 8 w" for w :: "64 word"
  by (rule bit_word_eqI) (auto simp: bit_ucast_iff bit_take_bit_iff)

lemma negative_masks:
  "(0xFFFFFFFFFFFFFF00 :: 64 word) = NOT (mask 8)" "(0xFFFFFFFFFFFF0000 :: 64 word) = NOT (mask 16)"
  "(0xFFFFFFFF00000000 :: 64 word) = NOT (mask 32)"
  by (simp_all add: mask_eq_exp_minus_1)

lemma push_byte_code:
  assumes "code_at p pc (be8 1 (unat w))"
  shows
    "take_bit 8 w = w \<Longrightarrow> inst_push_byte p (state pc st cs vs cl) = Inr (state (Suc pc) (Atomic (Integer w) # st) cs vs cl)"
    "take_bit 8 w OR NOT (mask 8) = w \<Longrightarrow>
       inst_push_negative_byte p (state pc st cs vs cl) = Inr (state (Suc pc) (Atomic (Integer w) # st) cs vs cl)"
  unfolding inst_push_byte_def inst_push_negative_byte_def next_byte_be8 [OF assms] bindE.simps prod.case ucast_byte negative_masks
  by (simp_all add: exec_simps)

lemma push_short_code:
  assumes "code_at p pc (be8 2 (unat w))"
  shows
    "take_bit 16 w = w \<Longrightarrow> inst_push_short p (state pc st cs vs cl) = Inr (state (pc + 2) (Atomic (Integer w) # st) cs vs cl)"
    "take_bit 16 w OR NOT (mask 16) = w \<Longrightarrow>
       inst_push_negative_short p (state pc st cs vs cl) = Inr (state (pc + 2) (Atomic (Integer w) # st) cs vs cl)"
  unfolding inst_push_short_def inst_push_negative_short_def get_next_number_be8 [OF assms] bindE.simps prod.case take_bit_bytes negative_masks
  by (simp_all add: exec_simps)

lemma push_long_code:
  assumes "code_at p pc (be8 4 (unat w))"
  shows
    "take_bit 32 w = w \<Longrightarrow> inst_push_long p (state pc st cs vs cl) = Inr (state (pc + 4) (Atomic (Integer w) # st) cs vs cl)"
    "take_bit 32 w OR NOT (mask 32) = w \<Longrightarrow>
       inst_push_negative_long p (state pc st cs vs cl) = Inr (state (pc + 4) (Atomic (Integer w) # st) cs vs cl)"
  unfolding inst_push_long_def inst_push_negative_long_def get_next_number_be8 [OF assms] bindE.simps prod.case take_bit_bytes negative_masks
  by (simp_all add: exec_simps)

lemma take_bit_all: "take_bit (8 * 8) w = w" for w :: "64 word"
  by (simp add: take_bit_word_eq_self)

lemma push_longlong_code:
  assumes "code_at p pc (be8 8 (unat w))"
  shows "inst_push_longlong p (state pc st cs vs cl) = Inr (state (pc + 8) (Atomic (Integer w) # st) cs vs cl)"
    "inst_push_double p (state pc st cs vs cl) = Inr (state (pc + 8) (Atomic (Double w) # st) cs vs cl)"
  unfolding inst_push_longlong_def inst_push_double_def get_next_number_be8 [OF assms] bindE.simps prod.case take_bit_bytes take_bit_all
  by (simp_all add: exec_simps)

text \<open>The instruction that is emitted for an integer pushes that integer.\<close>

lemma integer_code_pushes:
  assumes c: "code_at p off (integer_code w)"
  shows "reaches env p (state off st cs vs cl) (state (off + length (integer_code w)) (Atomic (Integer w) # st) cs vs cl)"
proof -
  note inst = reaches_inst [of off p]
  consider "sint w = 0" | "0 < sint w" "sint w < 256" | "- 256 \<le> sint w" "sint w < 0" | "256 \<le> sint w" "sint w < 65536"
    | "- 65536 \<le> sint w" "sint w < - 256" | "65536 \<le> sint w" "sint w < 0x100000000" | "- 0x100000000 \<le> sint w" "sint w < - 65536"
    | "0x100000000 \<le> sint w \<or> sint w < - 0x100000000" by linarith
  then show ?thesis
  proof cases
    case 1
    then have "w = 0" by (simp only: signed_eq_0_iff)
    then show ?thesis using c by (auto intro!: inst simp: integer_code_def inst_push_zero_def exec_simps)
  next
    case 2
    then have "integer_code w = 0x41 # be8 1 (unat w)" by (simp add: integer_code_def)
    with c show ?thesis using push_byte_code(1) [of p "Suc off" w] take_bit_small [of w 8] 2
      by (auto intro!: inst simp del: be8.simps)
  next
    case 3
    then have "integer_code w = 0x4D # be8 1 (unat w)" by (simp add: integer_code_def)
    with c show ?thesis using push_byte_code(2) [of p "Suc off" w] take_bit_negative [of 8 w] 3
      by (auto intro!: inst simp del: be8.simps)
  next
    case 4
    then have "integer_code w = 0x50 # be8 2 (unat w)" by (simp add: integer_code_def)
    with c show ?thesis using push_short_code(1) [of p "Suc off" w] take_bit_small [of w 16] 4
      by (auto intro!: inst simp: numeral_3_eq_3 simp del: be8.simps)
  next
    case 5
    then have "integer_code w = 0x4E # be8 2 (unat w)" by (simp add: integer_code_def)
    with c show ?thesis using push_short_code(2) [of p "Suc off" w] take_bit_negative [of 16 w] 5
      by (auto intro!: inst simp: numeral_3_eq_3 simp del: be8.simps)
  next
    case 6
    then have "integer_code w = 0x4A # be8 4 (unat w)" by (simp add: integer_code_def)
    with c show ?thesis using push_long_code(1) [of p "Suc off" w] take_bit_small [of w 32] 6
      by (auto intro!: inst simp: add.commute [of off] simp del: be8.simps)
  next
    case 7
    then have "integer_code w = 0x4F # be8 4 (unat w)" by (simp add: integer_code_def)
    with c show ?thesis using push_long_code(2) [of p "Suc off" w] take_bit_negative [of 32 w] 7
      by (auto intro!: inst simp: add.commute [of off] simp del: be8.simps)
  next
    case 8
    then have "integer_code w = 0x4B # be8 8 (unat w)" by (auto simp add: integer_code_def)
    with c show ?thesis using push_longlong_code(1) [of p "Suc off" w]
      by (auto intro!: inst simp: add.commute [of off] simp del: be8.simps)
  qed
qed

lemma push_program_string_code:
  "code_at p pc bs \<Longrightarrow> push_program_string env p (int (length bs)) (state pc st cs vs cl)
     = Inr (state (pc + length bs) (Atomic (Str (x_fromUtf8 env bs)) # st) cs vs cl)"
  by (auto simp: push_program_string_def exec_simps code_at_def)

text \<open>A text that is pushed by an instruction of its own, or that the conversion to UTF-8 and back, up to a NUL, does not change.\<close>

definition faithful :: "'n xpath_env \<Rightarrow> qstring \<Rightarrow> bool" where
  "faithful env s \<longleftrightarrow> s = [] \<or> s = qs ''*'' \<or> x_fromUtf8 env (until_nul (x_toUtf8 env s)) = s"

lemma string_code_pushes:
  assumes c: "code_at p off (string_code env s)" and "length p < 2 ^ 31" "faithful env s"
  shows "reaches env p (state off st cs vs cl) (state (off + length (string_code env s)) (Atomic (Str s) # st) cs vs cl)"
proof -
  note inst = reaches_inst [of off p]
  let ?b = "until_nul (x_toUtf8 env s)"
  have s: "x_fromUtf8 env ?b = s" if "s \<noteq> []" "s \<noteq> qs ''*''" using assms(3) that by (simp add: faithful_def)
  note str = push_program_string_code [of p _ ?b env]
  consider "s = []" | "s = qs ''*''" | "s \<noteq> []" "s \<noteq> qs ''*''" "length ?b < 256" | "s \<noteq> []" "s \<noteq> qs ''*''" "256 \<le> length ?b" "length ?b < 65536"
    | "s \<noteq> []" "s \<noteq> qs ''*''" "65536 \<le> length ?b" by linarith
  then show ?thesis
  proof cases
    case 1
    then show ?thesis using c by (auto intro!: inst simp: string_code_def inst_push_empty_string_def exec_simps)
  next
    case 2
    then show ?thesis using c by (auto intro!: inst simp: string_code_def inst_push_any_string_def exec_simps qs_def)
  next
    case 3
    then have e: "string_code env s = 0x51 # be8 1 (length ?b) @ ?b" by (simp add: string_code_def Let_def)
    with c have c1: "code_at p (Suc off) (be8 1 (length ?b))" and c2: "code_at p (Suc (Suc off)) ?b" by (simp_all add: code_at_append)
    have "inst_push_small_string env p (state (Suc off) st cs vs cl) = Inr (state (Suc (Suc off) + length ?b) (Atomic (Str s) # st) cs vs cl)"
      unfolding inst_push_small_string_def next_byte_be8 [OF c1] bindE.simps prod.case
      using str [OF c2] 3 s by (simp add: unat_byte)
    with c e show ?thesis by (auto intro!: inst simp del: be8.simps)
  next
    case 4
    then have e: "string_code env s = 0x4C # be8 2 (length ?b) @ ?b" by (simp add: string_code_def Let_def)
    with c have c1: "code_at p (Suc off) (be8 2 (length ?b))" and c2: "code_at p (Suc off + 2) ?b" by (simp_all add: code_at_append del: be8.simps)
    have "inst_push_medium_string env p (state (Suc off) st cs vs cl) = Inr (state (Suc off + 2 + length ?b) (Atomic (Str s) # st) cs vs cl)"
      unfolding inst_push_medium_string_def get_next_number_be8 [OF c1] bindE.simps prod.case
      using str [OF c2] 4 s by simp
    with c e show ?thesis by (auto intro!: inst simp del: be8.simps)
  next
    case 5
    then have e: "string_code env s = 0x49 # be8 4 (length ?b) @ ?b" by (simp add: string_code_def Let_def)
    with c have c1: "code_at p (Suc off) (be8 4 (length ?b))" and c2: "code_at p (Suc off + 4) ?b" by (simp_all add: code_at_append del: be8.simps)
    have l: "length ?b < 2 ^ 31" using code_at_le [OF c2] assms(2) by simp
    then have "sint (word_of_nat (length ?b) :: 32 word) = int (length ?b)"
      by (simp add: signed_of_nat signed_take_bit_int_eq_self)
    then have "inst_push_large_string env p (state (Suc off) st cs vs cl) = Inr (state (Suc off + 4 + length ?b) (Atomic (Str s) # st) cs vs cl)"
      unfolding inst_push_large_string_def get_next_number_be8 [OF c1] bindE.simps prod.case
      using str [OF c2] 5 s l by simp
    with c e show ?thesis by (auto intro!: inst simp del: be8.simps)
  qed
qed

definition literal_double :: "'n xpath_env \<Rightarrow> 64 word \<Rightarrow> 64 word" where
  "literal_double env d = (if fl_equal (x_double env) d (fl_zero (x_double env)) then fl_zero (x_double env) else d)"

lemma double_code_pushes:
  assumes c: "code_at p off (double_code env d)"
  shows "reaches env p (state off st cs vs cl) (state (off + length (double_code env d)) (Atomic (Double (literal_double env d)) # st) cs vs cl)"
proof (cases "fl_equal (x_double env) d (fl_zero (x_double env))")
  case True
  then show ?thesis using c
    by (auto intro!: reaches_inst [of off p] simp: double_code_def literal_double_def inst_push_double_zero_def exec_simps)
next
  case False
  with c show ?thesis using push_longlong_code(2) [of p "Suc off" d]
    by (auto intro!: reaches_inst [of off p] simp: double_code_def literal_double_def add.commute [of off] simp del: be8.simps)
qed

end
